(* ===== verification/Prelude.thy ===== *)
theory Prelude
  imports Main "HOL-Library.AList" "HOL-Library.Char_ord" "HOL-Library.List_Lexorder"
    "HOL-Library.Product_Lexorder"
begin

text \<open>
  Shared vocabulary of the development: the error values the control plane can raise, the
  state-and-exception computations its functions are translated to, SQL table helpers on lists
  of rows, and the small string functions that PostgreSQL and JavaScript provide.

  A function of \<open>control-plane/src\<close> that talks to the database is a computation of type
  \<open>('s, 'a) act\<close>: it maps a state to an error or a value, together with the state it leaves
  behind. A failed single statement leaves the state alone; a failed sequence of statements
  keeps the effects of the statements already executed, unless it runs inside \<open>tx\<close>
  (\<open>BEGIN\<close> \<dots> \<open>COMMIT\<close>, with \<open>ROLLBACK\<close> in the \<open>catch\<close> block).
\<close>

named_theorems frame_simps "how a statement changes the fields of the database it does not own"
named_theorems pres_intros "rules that build an invariance proof along the code's structure"

section \<open>Errors\<close>

text \<open>
  The exceptions of \<open>db.ts\<close>, \<open>dashboard-users.ts\<close> and \<open>rust-client.ts\<close>, the two PostgreSQL
  errors the code relies on (23505 with the constraint's name, 23503) and the plain
  \<open>new Error(message)\<close>.
\<close>

datatype err =
    UniqueViolation string
  | ForeignKeyViolation string
  | JobLeaseLostError string
  | IdempotencyConflictError
  | ProblemOperationConflictError string
  | CatalogCodeConflictError string string
  | OrphanHistoryConflictError string
  | LastDashboardAdministratorError
  | RustError nat "string option" string
  | PlainError string

section \<open>Computations\<close>

type_synonym ('s, 'a) act = "'s \<Rightarrow> (err + 'a) \<times> 's"

definition ret :: "'a \<Rightarrow> ('s, 'a) act" where
  "ret x s = (Inr x, s)"

definition throw :: "err \<Rightarrow> ('s, 'a) act" where
  "throw e s = (Inl e, s)"

definition bnd :: "('s, 'a) act \<Rightarrow> ('a \<Rightarrow> ('s, 'b) act) \<Rightarrow> ('s, 'b) act" where
  "bnd m f s = (case m s of (Inl e, s') \<Rightarrow> (Inl e, s') | (Inr x, s') \<Rightarrow> f x s')"

definition try_catch :: "('s, 'a) act \<Rightarrow> (err \<Rightarrow> ('s, 'a) act) \<Rightarrow> ('s, 'a) act" where
  "try_catch m h s = (case m s of (Inl e, s') \<Rightarrow> h e s' | (Inr x, s') \<Rightarrow> (Inr x, s'))"

definition tx :: "('s, 'a) act \<Rightarrow> ('s, 'a) act" where
  "tx m s = (case m s of (Inl e, s') \<Rightarrow> (Inl e, s) | (Inr x, s') \<Rightarrow> (Inr x, s'))"

text \<open>\<open>reading f\<close> runs \<open>f\<close> of the current state: the values a statement reads.\<close>

definition reading :: "('s \<Rightarrow> ('s, 'a) act) \<Rightarrow> ('s, 'a) act" where
  "reading f s = f s s"

definition modify :: "('s \<Rightarrow> 's) \<Rightarrow> ('s, unit) act" where
  "modify f s = (Inr (), f s)"

fun each :: "('a \<Rightarrow> ('s, 'b) act) \<Rightarrow> 'a list \<Rightarrow> ('s, 'b list) act" where
  "each f [] = ret []"
| "each f (x # xs) = bnd (f x) (\<lambda>y. bnd (each f xs) (\<lambda>ys. ret (y # ys)))"

lemma ret_simp [simp]: "ret x s = (Inr x, s)" by (simp add: ret_def)
lemma throw_simp [simp]: "throw e s = (Inl e, s)" by (simp add: throw_def)
lemma reading_simp [simp]: "reading f s = f s s" by (simp add: reading_def)
lemma modify_simp [simp]: "modify f s = (Inr (), f s)" by (simp add: modify_def)

lemma bnd_Inl [simp]: "m s = (Inl e, s') \<Longrightarrow> bnd m f s = (Inl e, s')"
  by (simp add: bnd_def)

lemma bnd_Inr [simp]: "m s = (Inr x, s') \<Longrightarrow> bnd m f s = f x s'"
  by (simp add: bnd_def)

lemma bnd_eq_Inr:
  "bnd m f s = (Inr y, t) \<longleftrightarrow> (\<exists>x s'. m s = (Inr x, s') \<and> f x s' = (Inr y, t))"
  by (auto simp: bnd_def split: prod.splits sum.splits)

lemma tx_eq_Inr: "tx m s = (Inr x, t) \<longleftrightarrow> m s = (Inr x, t)"
  by (auto simp: tx_def split: prod.splits sum.splits)

lemma tx_eq_Inl: "tx m s = (Inl e, t) \<longleftrightarrow> t = s \<and> (\<exists>s'. m s = (Inl e, s'))"
  by (auto simp: tx_def split: prod.splits sum.splits)

lemma snd_bnd_ret [simp]: "snd (bnd m (\<lambda>x. ret (g x)) s) = snd (m s)"
  by (simp add: bnd_def split: prod.splits sum.splits)

lemma bnd_eq_Inl:
  "bnd m f s = (Inl e, t) \<longleftrightarrow> m s = (Inl e, t) \<or> (\<exists>x s'. m s = (Inr x, s') \<and> f x s' = (Inl e, t))"
  by (auto simp: bnd_def split: prod.splits sum.splits)

lemma try_catch_eq_Inr:
  "try_catch m h s = (Inr x, t) \<longleftrightarrow>
     m s = (Inr x, t) \<or> (\<exists>e s'. m s = (Inl e, s') \<and> h e s' = (Inr x, t))"
  by (auto simp: try_catch_def split: prod.splits sum.splits)

lemma try_catch_eq_Inl:
  "try_catch m h s = (Inl e, t) \<longleftrightarrow> (\<exists>e' s'. m s = (Inl e', s') \<and> h e' s' = (Inl e, t))"
  by (auto simp: try_catch_def split: prod.splits sum.splits)

lemma each_Inr:
  "each f xs s = (Inr ys, t) \<Longrightarrow> list_all2 (\<lambda>x y. \<exists>s1 s2. f x s1 = (Inr y, s2)) xs ys"
  by (induction xs arbitrary: s ys) (auto simp: bnd_eq_Inr)

lemma each_Inl: "each f xs s = (Inl e, t) \<Longrightarrow> \<exists>x \<in> set xs. \<exists>s1 s2. f x s1 = (Inl e, s2)"
  by (induction xs arbitrary: s) (auto simp: bnd_eq_Inl)

lemma tx_Inl_state: "fst (tx m s) = Inl e \<Longrightarrow> snd (tx m s) = s"
  by (auto simp: tx_def split: prod.splits sum.splits)

subsection \<open>Invariance along the code's structure\<close>

text \<open>
  \<open>pres R m\<close>: whatever \<open>m\<close> does, success or error, its final state is \<open>R\<close>-related to its
  first. With a reflexive and transitive \<open>R\<close> the property is compositional.
\<close>

definition pres :: "('s \<Rightarrow> 's \<Rightarrow> bool) \<Rightarrow> ('s, 'a) act \<Rightarrow> bool" where
  "pres R m \<longleftrightarrow> (\<forall>s. R s (snd (m s)))"

lemma presD: "pres R m \<Longrightarrow> R s (snd (m s))"
  by (simp add: pres_def)

lemma presI: "(\<And>s. R s (snd (m s))) \<Longrightarrow> pres R m"
  by (simp add: pres_def)

lemma pres_eqD: "pres R m \<Longrightarrow> m s = (r, t) \<Longrightarrow> R s t"
  by (metis pres_def snd_conv)

locale preorder_rel =
  fixes R :: "'s \<Rightarrow> 's \<Rightarrow> bool"
  assumes R_refl: "R s s"
    and R_trans: "R s t \<Longrightarrow> R t u \<Longrightarrow> R s u"
begin

lemma pres_ret [pres_intros]: "pres R (ret x)"
  by (simp add: pres_def R_refl)

lemma pres_throw [pres_intros]: "pres R (throw e)"
  by (simp add: pres_def R_refl)

lemma pres_reading [pres_intros]: "(\<And>s. pres R (f s)) \<Longrightarrow> pres R (reading f)"
  by (simp add: pres_def)

lemma pres_bnd [pres_intros]: "pres R m \<Longrightarrow> (\<And>x. pres R (f x)) \<Longrightarrow> pres R (bnd m f)"
  unfolding pres_def bnd_def by (auto split: prod.splits sum.splits) (metis R_trans snd_conv)+

lemma pres_try_catch [pres_intros]: "pres R m \<Longrightarrow> (\<And>e. pres R (h e)) \<Longrightarrow> pres R (try_catch m h)"
  unfolding pres_def try_catch_def by (auto split: prod.splits sum.splits) (metis R_trans snd_conv)+

lemma pres_tx [pres_intros]: "pres R m \<Longrightarrow> pres R (tx m)"
  unfolding pres_def tx_def by (auto split: prod.splits sum.splits intro: R_refl) (metis snd_conv)

lemma pres_each [pres_intros]: "(\<And>x. pres R (f x)) \<Longrightarrow> pres R (each f xs)"
  by (induction xs) (auto intro!: pres_ret pres_bnd)

lemma pres_if [pres_intros]: "pres R m \<Longrightarrow> pres R m' \<Longrightarrow> pres R (if b then m else m')"
  by simp

lemma pres_case_option [pres_intros]:
  "pres R m \<Longrightarrow> (\<And>x. pres R (f x)) \<Longrightarrow> pres R (case v of None \<Rightarrow> m | Some x \<Rightarrow> f x)"
  by (cases v) auto

lemma pres_case_list [pres_intros]:
  "pres R m \<Longrightarrow> (\<And>x xs. pres R (f x xs)) \<Longrightarrow> pres R (case v of [] \<Rightarrow> m | x # xs \<Rightarrow> f x xs)"
  by (cases v) auto

end

section \<open>Tables\<close>

text \<open>
  A table is a list of row records. SQL gives the rows no order, so every query that depends on
  one sorts first. \<open>upd_where\<close> is \<open>UPDATE \<dots> SET \<dots> WHERE\<close>, \<open>first_by\<close> is
  \<open>SELECT \<dots> ORDER BY \<dots> LIMIT 1\<close>, \<open>order_limit\<close> is \<open>ORDER BY \<dots> LIMIT n\<close>.
\<close>

definition upd_where :: "('r \<Rightarrow> bool) \<Rightarrow> ('r \<Rightarrow> 'r) \<Rightarrow> 'r list \<Rightarrow> 'r list" where
  "upd_where p f rs = map (\<lambda>r. if p r then f r else r) rs"

definition order_limit :: "('r \<Rightarrow> 'k::linorder) \<Rightarrow> nat \<Rightarrow> 'r list \<Rightarrow> 'r list" where
  "order_limit k n rs = take n (sort_key k rs)"

definition first_by :: "('r \<Rightarrow> 'k::linorder) \<Rightarrow> ('r \<Rightarrow> bool) \<Rightarrow> 'r list \<Rightarrow> 'r option" where
  "first_by k p rs = (case sort_key k (filter p rs) of [] \<Rightarrow> None | r # _ \<Rightarrow> Some r)"

definition unique_on :: "('r \<Rightarrow> bool) \<Rightarrow> ('r \<Rightarrow> 'k) \<Rightarrow> 'r list \<Rightarrow> bool" where
  "unique_on p k rs \<longleftrightarrow> distinct (map k (filter p rs))"

definition count_where :: "('r \<Rightarrow> bool) \<Rightarrow> 'r list \<Rightarrow> nat" where
  "count_where p rs = length (filter p rs)"

lemma in_upd_where:
  "x \<in> set (upd_where p f rs) \<longleftrightarrow> (\<exists>r \<in> set rs. x = (if p r then f r else r))"
  by (auto simp: upd_where_def)

lemma length_upd_where [simp]: "length (upd_where p f rs) = length rs"
  by (simp add: upd_where_def)

lemma map_upd_where: "(\<And>r. k (f r) = k r) \<Longrightarrow> map k (upd_where p f rs) = map k rs"
  by (simp add: upd_where_def)

lemma upd_where_none: "(\<And>r. r \<in> set rs \<Longrightarrow> \<not> p r) \<Longrightarrow> upd_where p f rs = rs"
  by (auto simp: upd_where_def intro: map_idI)

lemma first_by_Some: "first_by k p rs = Some r \<Longrightarrow> r \<in> set rs \<and> p r"
proof -
  assume "first_by k p rs = Some r"
  then have "r \<in> set (sort_key k (filter p rs))"
    by (cases "sort_key k (filter p rs)") (simp_all add: first_by_def del: set_sort)
  then show ?thesis by simp
qed

lemma first_by_None: "first_by k p rs = None \<longleftrightarrow> (\<forall>r \<in> set rs. \<not> p r)"
proof -
  have "first_by k p rs = None \<longleftrightarrow> sort_key k (filter p rs) = []"
    by (auto simp: first_by_def split: list.splits)
  also have "\<dots> \<longleftrightarrow> set (sort_key k (filter p rs)) = {}" by blast
  finally show ?thesis by auto
qed

lemma first_by_least:
  assumes "first_by k p rs = Some r" and "r' \<in> set rs" and "p r'"
  shows "k r \<le> k r'"
proof -
  obtain rest where eq: "sort_key k (filter p rs) = r # rest"
    using assms(1) by (auto simp: first_by_def split: list.splits)
  have "sorted (map k (r # rest))" using sorted_sort_key [of k "filter p rs"] eq by simp
  moreover have "r' \<in> set (r # rest)" using assms(2,3) eq by (metis (mono_tags, lifting) mem_Collect_eq set_filter set_sort)
  ultimately show ?thesis by auto
qed

lemma find_Some_in: "List.find p rs = Some r \<Longrightarrow> r \<in> set rs \<and> p r"
  by (induction rs) (auto split: if_splits)

lemma find_None_iff2: "List.find p rs = None \<longleftrightarrow> (\<forall>r \<in> set rs. \<not> p r)"
  by (induction rs) auto

lemma distinct_map_unique:
  "distinct (map k rs) \<Longrightarrow> x \<in> set rs \<Longrightarrow> y \<in> set rs \<Longrightarrow> k x = k y \<Longrightarrow> x = y"
  by (meson distinct_map inj_onD)

lemma find_unique:
  "distinct (map k rs) \<Longrightarrow> r \<in> set rs \<Longrightarrow> List.find (\<lambda>x. k x = k r) rs = Some r"
  by (induction rs) (auto simp: rev_image_eqI)

lemma filter_unique_key:
  "distinct (map k rs) \<Longrightarrow> r \<in> set rs \<Longrightarrow> filter (\<lambda>x. k x = k r) rs = [r]"
  by (induction rs) (auto simp: rev_image_eqI filter_empty_conv)

lemma find_append_None: "List.find p xs = None \<Longrightarrow> List.find p (xs @ ys) = List.find p ys"
  by (induction xs) (auto split: if_splits)

lemma find_upd_where:
  "(\<And>x. p x \<Longrightarrow> q (f x) = q x)
   \<Longrightarrow> List.find q (upd_where p f xs) = map_option (\<lambda>x. if p x then f x else x) (List.find q xs)"
  by (induction xs) (auto simp: upd_where_def)

lemma sort_key_map: "sort_key k (map g xs) = map g (sort_key (\<lambda>x. k (g x)) xs)"
proof (induction xs)
  case (Cons x xs)
  have "insort_key k (g x) (map g ys) = map g (insort_key (\<lambda>x. k (g x)) x ys)" for ys
    by (induction ys) auto
  with Cons show ?case by simp
qed simp

lemma first_by_map:
  "(\<And>r. k (g r) = k r) \<Longrightarrow> (\<And>r. p (g r) = p r) \<Longrightarrow> first_by k p (map g rs) = map_option g (first_by k p rs)"
  by (simp add: first_by_def filter_map comp_def sort_key_map split: list.splits)

section \<open>SQL comparisons with NULL\<close>

text \<open>A comparison with \<open>NULL\<close> is not true, whatever the operator.\<close>

definition lt_null :: "nat option \<Rightarrow> nat \<Rightarrow> bool" where
  "lt_null a b = (case a of None \<Rightarrow> False | Some x \<Rightarrow> x < b)"

definition le_null :: "nat option \<Rightarrow> nat \<Rightarrow> bool" where
  "le_null a b = (case a of None \<Rightarrow> False | Some x \<Rightarrow> x \<le> b)"

definition ge_null :: "nat option \<Rightarrow> nat \<Rightarrow> bool" where
  "ge_null a b = (case a of None \<Rightarrow> False | Some x \<Rightarrow> b \<le> x)"

definition eq_null :: "'a option \<Rightarrow> 'a option \<Rightarrow> bool" where
  "eq_null a b = (case (a, b) of (Some x, Some y) \<Rightarrow> x = y | _ \<Rightarrow> False)"

lemma eq_null_iff: "eq_null a b \<longleftrightarrow> (\<exists>x. a = Some x \<and> b = Some x)"
  by (auto simp: eq_null_def split: option.splits)

lemma not_lt_ge_null: "lt_null a b \<Longrightarrow> \<not> ge_null a b"
  by (auto simp: lt_null_def ge_null_def split: option.splits)

definition coalesce :: "'a option \<Rightarrow> 'a \<Rightarrow> 'a" where
  "coalesce v d = (case v of None \<Rightarrow> d | Some x \<Rightarrow> x)"

definition or_else :: "'a option \<Rightarrow> 'a option \<Rightarrow> 'a option" where
  "or_else a b = (case a of None \<Rightarrow> b | Some x \<Rightarrow> Some x)"

lemma coalesce_simps [simp]: "coalesce None d = d" "coalesce (Some x) d = x"
  by (simp_all add: coalesce_def)

lemma or_else_simps [simp]: "or_else None b = b" "or_else (Some x) b = Some x"
  by (simp_all add: or_else_def)

section \<open>Strings\<close>

text \<open>
  Text is a list of characters, the bytes of its UTF-8 form. Its order is the byte order. All
  the keywords, keys and codes the program compares are ASCII.
\<close>

definition to_lower_char :: "char \<Rightarrow> char" where
  "to_lower_char c = (let n = (of_char c :: nat) in if 65 \<le> n \<and> n \<le> 90 then char_of (n + 32) else c)"

definition to_lower :: "string \<Rightarrow> string" where
  "to_lower s = map to_lower_char s"

fun starts_with :: "string \<Rightarrow> string \<Rightarrow> bool" where
  "starts_with [] s = True"
| "starts_with (p # ps) [] = False"
| "starts_with (p # ps) (c # cs) = (p = c \<and> starts_with ps cs)"

fun contains_text :: "string \<Rightarrow> string \<Rightarrow> bool" where
  "contains_text p [] = (p = [])"
| "contains_text p (c # cs) = (starts_with p (c # cs) \<or> contains_text p cs)"

text \<open>Decimal numerals, as \<open>String(n)\<close> prints them.\<close>

definition digit_char :: "nat \<Rightarrow> char" where
  "digit_char d = char_of (48 + d)"

fun nat_text :: "nat \<Rightarrow> string" where
  "nat_text n = (if n < 10 then [digit_char n] else nat_text (n div 10) @ [digit_char (n mod 10)])"

declare nat_text.simps [simp del]

definition int_text :: "int \<Rightarrow> string" where
  "int_text i = (if i < 0 then CHR ''-'' # nat_text (nat (- i)) else nat_text (nat i))"

fun join_text :: "string \<Rightarrow> string list \<Rightarrow> string" where
  "join_text sep [] = []"
| "join_text sep [x] = x"
| "join_text sep (x # y # ys) = x @ sep @ join_text sep (y # ys)"

section \<open>Time\<close>

text \<open>
  A \<open>timestamptz\<close> is a number of microseconds since the epoch, PostgreSQL's own resolution.
  A JavaScript \<open>Date\<close> counts milliseconds.
\<close>

type_synonym time = nat

definition seconds :: "nat \<Rightarrow> nat" where "seconds n = n * 1000000"
definition millis :: "nat \<Rightarrow> nat" where "millis n = n * 1000"
definition days :: "nat \<Rightarrow> nat" where "days n = n * 86400000000"

end
