(* ===== verification/Json.thy ===== *)
theory Json
  imports Prelude "HOL-Library.Multiset"
begin

text \<open>
  JSON values as \<open>JSON.stringify\<close> sees them, and the fingerprint of a request:
  \<open>stableFingerprint\<close> and \<open>sortJson\<close> of \<open>control-plane/src/db.ts\<close>. Numbers are integers, the
  only ones the program puts into fingerprints and job payloads.
\<close>

datatype json =
    JNull
  | JBool bool
  | JNum int
  | JStr string
  | JArr "json list"
  | JObj "(string \<times> json) list"

definition json_of_option :: "('a \<Rightarrow> json) \<Rightarrow> 'a option \<Rightarrow> json" where
  "json_of_option f v = (case v of None \<Rightarrow> JNull | Some x \<Rightarrow> f x)"

text \<open>
  Property access on a parsed value, \<open>(value ?? {}).key\<close>: \<open>None\<close> is \<open>undefined\<close>.
\<close>

definition json_field :: "json \<Rightarrow> string \<Rightarrow> json option" where
  "json_field v k = (case v of JObj kvs \<Rightarrow> map_of kvs k | _ \<Rightarrow> None)"

section \<open>Printing\<close>

definition hex_digit :: "nat \<Rightarrow> char" where
  "hex_digit d = (if d < 10 then char_of (48 + d) else char_of (87 + d))"

definition bslash :: char where
  "bslash = char_of (92 :: nat)"

definition dquote :: char where
  "dquote = char_of (34 :: nat)"

definition json_escape :: "char \<Rightarrow> string" where
  "json_escape c = (let n = (of_char c :: nat) in
     if n = 34 then [bslash, dquote]
     else if n = 92 then [bslash, bslash]
     else if n = 8 then [bslash, CHR ''b'']
     else if n = 9 then [bslash, CHR ''t'']
     else if n = 10 then [bslash, CHR ''n'']
     else if n = 12 then [bslash, CHR ''f'']
     else if n = 13 then [bslash, CHR ''r'']
     else if n < 32 then [bslash, CHR ''u'', CHR ''0'', CHR ''0'', hex_digit (n div 16), hex_digit (n mod 16)]
     else [c])"

definition json_string :: "string \<Rightarrow> string" where
  "json_string s = [dquote] @ concat (map json_escape s) @ [dquote]"

fun json_stringify :: "json \<Rightarrow> string" where
  "json_stringify JNull = ''null''"
| "json_stringify (JBool b) = (if b then ''true'' else ''false'')"
| "json_stringify (JNum i) = int_text i"
| "json_stringify (JStr s) = json_string s"
| "json_stringify (JArr vs) = ''['' @ join_text '','' (map json_stringify vs) @ '']''"
| "json_stringify (JObj kvs) =
     ''{'' @ join_text '','' (map (\<lambda>kv. json_string (fst kv) @ '':'' @ json_stringify (snd kv)) kvs) @ ''}''"

section \<open>Fingerprints\<close>

text \<open>
  \<open>localeCompare\<close> on the keys used here (lower-case letters and underscores) is their byte order.
\<close>

fun sortJson :: "json \<Rightarrow> json" where
  "sortJson (JArr vs) = JArr (map sortJson vs)"
| "sortJson (JObj kvs) = JObj (map (\<lambda>kv. (fst kv, sortJson (snd kv))) (sort_key fst kvs))"
| "sortJson v = v"

definition stableFingerprint :: "json \<Rightarrow> string" where
  "stableFingerprint v = json_stringify (sortJson v)"

subsection \<open>A fingerprint does not depend on the order of an object's keys\<close>

lemma filter_key_le_1: "distinct (map k zs) \<Longrightarrow> length (filter (\<lambda>x. v = k x) zs) \<le> 1"
  by (induction zs) (auto simp: image_iff filter_empty_conv)

lemma sort_key_perm_unique:
  assumes "mset xs = mset ys" and "distinct (map k xs)"
  shows "sort_key k xs = sort_key k ys"
proof (rule properties_for_sort_key)
  show "mset (sort_key k ys) = mset xs" using assms(1) by simp
  show "sorted (map k (sort_key k ys))" by simp
  fix key
  assume "key \<in> set (sort_key k ys)"
  have len1: "length (filter (\<lambda>x. k key = k x) xs) \<le> 1"
    using assms(2) by (rule filter_key_le_1)
  have ms: "mset (filter (\<lambda>x. k key = k x) (sort_key k ys)) = mset (filter (\<lambda>x. k key = k x) xs)"
    using assms(1) by (simp add: mset_filter)
  show "filter (\<lambda>x. k key = k x) (sort_key k ys) = filter (\<lambda>x. k key = k x) xs"
  proof (cases "filter (\<lambda>x. k key = k x) xs")
    case Nil
    with ms show ?thesis by simp
  next
    case (Cons a zs)
    with len1 have "zs = []" by simp
    have "mset (filter (\<lambda>x. k key = k x) (sort_key k ys)) = mset [a]"
      using ms unfolding Cons \<open>zs = []\<close> .
    then show ?thesis unfolding Cons \<open>zs = []\<close> by (simp only: mset.simps mset_single_iff)
  qed
qed

lemma sortJson_key_order:
  assumes "mset kvs = mset kvs'" and "distinct (map fst kvs)"
  shows "sortJson (JObj kvs) = sortJson (JObj kvs')"
  using sort_key_perm_unique [OF assms] by simp

end
