(* ===== verification/Schema.thy ===== *)
theory Schema
  imports Json
begin

text \<open>
  The database of the control plane: one record per table row (the columns of
  \<open>migrations/*.sql\<close> after migration 012), the state that holds all tables, the constraints and
  partial unique indexes, the foreign-key actions, and the three triggers. The primitives
  \<open>update_jobs\<close>, \<open>insert_job\<close>, \<open>update_problems\<close>, \<open>insert_problem\<close>, \<open>upsert_usage\<close>,
  \<open>rename_problem\<close> and \<open>delete_problem\<close> are single SQL statements: they check the constraints,
  fire the triggers and leave the state unchanged when they fail.
\<close>

section \<open>Enumerated columns\<close>

datatype catalog_state = CPresent | COrphan | CMissing | CMirror | CDeleted
datatype local_status = LPresent | LMissing | LPartial | LOrphan
datatype r2_status = RNone | RUploading | RReady | RError | RSuperseded
datatype snapshot_state = Discovered | Hashing | Uploading | Verifying | Ready | SError | Superseded
datatype job_type = Scan | Snapshot | Restore | Evict | Reconcile | Backfill | GcCollect
  | IncidentCommand | UnknownJob string
datatype job_state = Pending | Running | Completed | Failed | Cancelled
datatype object_kind = Content | Manifest

fun catalog_state_text :: "catalog_state \<Rightarrow> string" where
  "catalog_state_text CPresent = ''present''"
| "catalog_state_text COrphan = ''orphan''"
| "catalog_state_text CMissing = ''missing''"
| "catalog_state_text CMirror = ''mirror''"
| "catalog_state_text CDeleted = ''deleted''"

fun local_status_text :: "local_status \<Rightarrow> string" where
  "local_status_text LPresent = ''present''"
| "local_status_text LMissing = ''missing''"
| "local_status_text LPartial = ''partial''"
| "local_status_text LOrphan = ''orphan''"

fun r2_status_text :: "r2_status \<Rightarrow> string" where
  "r2_status_text RNone = ''none''"
| "r2_status_text RUploading = ''uploading''"
| "r2_status_text RReady = ''ready''"
| "r2_status_text RError = ''error''"
| "r2_status_text RSuperseded = ''superseded''"

fun snapshot_state_text :: "snapshot_state \<Rightarrow> string" where
  "snapshot_state_text Discovered = ''discovered''"
| "snapshot_state_text Hashing = ''hashing''"
| "snapshot_state_text Uploading = ''uploading''"
| "snapshot_state_text Verifying = ''verifying''"
| "snapshot_state_text Ready = ''ready''"
| "snapshot_state_text SError = ''error''"
| "snapshot_state_text Superseded = ''superseded''"

fun job_type_text :: "job_type \<Rightarrow> string" where
  "job_type_text Scan = ''scan''"
| "job_type_text Snapshot = ''snapshot''"
| "job_type_text Restore = ''restore''"
| "job_type_text Evict = ''evict''"
| "job_type_text Reconcile = ''reconcile''"
| "job_type_text Backfill = ''backfill''"
| "job_type_text GcCollect = ''gc_collect''"
| "job_type_text IncidentCommand = ''incident_command''"
| "job_type_text (UnknownJob t) = t"

fun job_state_text :: "job_state \<Rightarrow> string" where
  "job_state_text Pending = ''pending''"
| "job_state_text Running = ''running''"
| "job_state_text Completed = ''completed''"
| "job_state_text Failed = ''failed''"
| "job_state_text Cancelled = ''cancelled''"

section \<open>Rows\<close>

record problem =
  p_external_id :: string
  p_code :: string
  p_owner_organization :: "string option"
  p_is_manually_managed :: bool
  p_mirror_of :: "string option"
  p_mirror_root :: "string option"
  p_catalog_state :: catalog_state
  p_observed_at :: time
  p_stale :: bool
  p_dirty :: bool
  p_dirty_generation :: "nat option"
  p_dirty_version :: nat
  p_quota_bytes :: "int option"
  p_schema_version :: int

record usage =
  u_problem_id :: string
  u_logical_bytes :: int
  u_allocated_bytes :: int
  u_archive_bytes :: int
  u_auxiliary_bytes :: int
  u_file_count :: int
  u_local_status :: local_status
  u_r2_status :: r2_status
  u_snapshot_generation :: "nat option"
  u_orphan_bytes :: int
  u_referenced_bytes :: int
  u_observed_at :: time
  u_stale :: bool
  u_last_accessed_at :: "time option"
  u_snapshot_failure_count :: nat
  u_last_snapshot_failed_at :: "time option"
  u_snapshot_schedule_round :: nat

record snapshot =
  s_id :: string
  s_problem_id :: string
  s_generation :: nat
  s_state :: snapshot_state
  s_file_count :: int
  s_total_bytes :: int
  s_manifest_key :: "string option"
  s_error_code :: "string option"
  s_error_message :: "string option"
  s_created_at :: time
  s_completed_at :: "time option"
  s_superseded_at :: "time option"

record snapshot_object =
  o_snapshot_id :: string
  o_sha256 :: string
  o_rel_path :: string
  o_size_bytes :: int
  o_object_key :: string
  o_uploaded :: bool
  o_verified :: bool

record job =
  j_id :: string
  j_idempotency_key :: string
  j_job_type :: job_type
  j_problem_id :: "string option"
  j_target_generation :: "nat option"
  j_state :: job_state
  j_lease_owner :: "string option"
  j_lease_expires_at :: "time option"
  j_fencing_token :: nat
  j_attempt :: nat
  j_max_attempts :: nat
  j_result :: "json option"
  j_error_code :: "string option"
  j_error_message :: "string option"
  j_created_at :: time
  j_updated_at :: time
  j_completed_at :: "time option"
  j_requested_cancel_at :: "time option"
  j_requested_cancel_reason :: "string option"
  j_request_fingerprint :: string

record gc_mark =
  g_id :: string
  g_sha256 :: string
  g_object_key :: string
  g_snapshot_id :: "string option"
  g_object_kind :: object_kind
  g_marked_at :: time
  g_eligible_at :: time
  g_collected :: bool
  g_collected_at :: "time option"
  g_attempts :: nat
  g_last_error :: "string option"

record idempotency_row =
  k_idempotency_key :: string
  k_scope :: string
  k_actor :: "string option"
  k_created_at :: time
  k_request_fingerprint :: "string option"
  k_target_type :: "string option"
  k_target_id :: "string option"
  k_response_problem_id :: "string option"

record audit_event =
  a_id :: string
  a_actor :: string
  a_actor_role :: "string option"
  a_action :: string
  a_target_type :: "string option"
  a_target_id :: "string option"
  a_problem_id :: "string option"
  a_generation :: "nat option"
  a_job_id :: "string option"
  a_metadata :: json
  a_request_id :: "string option"
  a_created_at :: time

record queue_row =
  q_name :: string
  q_paused :: bool
  q_reason :: "string option"
  q_updated_at :: time

record organization_settings =
  os_organization_id :: string
  os_storage_quota_bytes :: "int option"
  os_problem_count_quota :: "int option"
  os_updated_at :: time

record volume =
  v_name :: string
  v_mount_path :: string
  v_total_bytes :: int
  v_free_bytes :: int
  v_available_bytes :: int
  v_observed_at :: time
  v_stale :: bool

record backfill_row =
  b_capability :: string
  b_cursor_value :: "string option"
  b_status :: string
  b_total_processed :: nat
  b_total_ready :: nat
  b_total_error :: nat
  b_total_skipped :: nat
  b_bytes_hashed :: int
  b_started_at :: "time option"

record incident_row =
  i_command :: string
  i_actor :: string
  i_args :: json
  i_dry_run :: bool
  i_result :: json
  i_created_at :: time

record dashboard_user =
  du_username :: string
  du_password_hash :: string
  du_role :: string
  du_enabled :: bool
  du_auth_version :: nat
  du_created_at :: time
  du_updated_at :: time
  du_password_changed_at :: time

section \<open>The database\<close>

text \<open>
  \<open>now_us\<close> is the clock: \<open>now()\<close> does not move inside a transaction, and no function below moves
  it; time passes in the steps of the environment. \<open>uuid_src\<close> is the stream of values
  \<open>uuid_generate_v4()\<close> is going to return and \<open>uuid_pos\<close> how many it has returned; nothing is
  assumed of it where a definition uses it, and a repeated value runs into the primary key.
\<close>

record db =
  now_us :: time
  uuid_src :: "nat \<Rightarrow> string"
  uuid_pos :: nat
  problems :: "problem list"
  problem_usage :: "usage list"
  snapshots :: "snapshot list"
  snapshot_objects :: "snapshot_object list"
  jobs :: "job list"
  job_fencing_counters :: "(string \<times> nat) list"
  problem_generation_counters :: "(string \<times> nat) list"
  idempotency_keys :: "idempotency_row list"
  gc_marks :: "gc_mark list"
  retention_config :: "(string \<times> nat) list"
  queue_state :: "queue_row list"
  audit_events :: "audit_event list"
  organization_settings_rows :: "organization_settings list"
  storage_volumes :: "volume list"
  storage_volume_observations :: "volume list"
  backfill_state :: "backfill_row list"
  incident_commands :: "incident_row list"
  dashboard_users :: "dashboard_user list"

text \<open>What the migrations leave behind: empty tables, the retention defaults, an open queue.\<close>

definition initial_db :: "(nat \<Rightarrow> string) \<Rightarrow> db" where
  "initial_db u =
     \<lparr>now_us = 0, uuid_src = u, uuid_pos = 0, problems = [], problem_usage = [], snapshots = [],
      snapshot_objects = [], jobs = [], job_fencing_counters = [],
      problem_generation_counters = [], idempotency_keys = [], gc_marks = [],
      retention_config = [(''jobs'', 90), (''audit_events'', 365), (''superseded_snapshots'', 90),
        (''content_objects'', 7), (''error_snapshots'', 7)],
      queue_state = [\<lparr>q_name = ''default'', q_paused = False, q_reason = None, q_updated_at = 0\<rparr>],
      audit_events = [], organization_settings_rows = [], storage_volumes = [],
      storage_volume_observations = [], backfill_state = [], incident_commands = [],
      dashboard_users = []\<rparr>"

definition fresh_uuid :: "db \<Rightarrow> string \<times> db" where
  "fresh_uuid s = (uuid_src s (uuid_pos s), s\<lparr>uuid_pos := Suc (uuid_pos s)\<rparr>)"

definition problem_exists :: "string \<Rightarrow> db \<Rightarrow> bool" where
  "problem_exists pid s \<longleftrightarrow> (\<exists>p \<in> set (problems s). p_external_id p = pid)"

definition usage_of :: "string \<Rightarrow> db \<Rightarrow> usage option" where
  "usage_of pid s = List.find (\<lambda>u. u_problem_id u = pid) (problem_usage s)"

section \<open>Retention windows\<close>

definition retention_days :: "db \<Rightarrow> string \<Rightarrow> nat option" where
  "retention_days s entity = map_of (retention_config s) entity"

text \<open>\<open>now() - make_interval(days => (SELECT retention_days \<dots>))\<close>, \<open>NULL\<close> when not configured.\<close>

definition retention_cutoff :: "db \<Rightarrow> string \<Rightarrow> time option" where
  "retention_cutoff s entity = map_option (\<lambda>d. now_us s - days d) (retention_days s entity)"

definition before_cutoff :: "time option \<Rightarrow> time option \<Rightarrow> bool" where
  "before_cutoff t c = (case (t, c) of (Some x, Some y) \<Rightarrow> x < y | _ \<Rightarrow> False)"

definition not_before_cutoff :: "time option \<Rightarrow> time option \<Rightarrow> bool" where
  "not_before_cutoff t c = (case (t, c) of (Some x, Some y) \<Rightarrow> y \<le> x | _ \<Rightarrow> False)"

definition in_progress :: "snapshot_state \<Rightarrow> bool" where
  "in_progress st = (st \<in> {Discovered, Hashing, Uploading, Verifying})"

definition snapshot_is_gc_protected :: "db \<Rightarrow> snapshot \<Rightarrow> bool" where
  "snapshot_is_gc_protected s sn \<longleftrightarrow>
     (in_progress (s_state sn) \<or> s_state sn = Ready)
     \<or> (s_state sn = Superseded
        \<and> not_before_cutoff (s_superseded_at sn) (retention_cutoff s ''superseded_snapshots''))
     \<or> (s_state sn = SError
        \<and> not_before_cutoff (s_completed_at sn) (retention_cutoff s ''error_snapshots''))"

section \<open>Constraints of the jobs table\<close>

definition job_active :: "job \<Rightarrow> bool" where
  "job_active j \<longleftrightarrow> j_state j = Pending \<or> j_state j = Running"

definition job_terminal :: "job \<Rightarrow> bool" where
  "job_terminal j \<longleftrightarrow> j_state j \<in> {Completed, Failed, Cancelled}"

definition local_problem_type :: "job_type \<Rightarrow> bool" where
  "local_problem_type t \<longleftrightarrow> t = Scan \<or> t = Snapshot \<or> t = Restore \<or> t = Evict"

definition local_operation :: "job \<Rightarrow> bool" where
  "local_operation j \<longleftrightarrow> j_problem_id j \<noteq> None \<and> local_problem_type (j_job_type j)"

definition idx_active :: "job \<Rightarrow> bool" where
  "idx_active j \<longleftrightarrow> local_operation j \<and> job_active j"

definition idx_running :: "job \<Rightarrow> bool" where
  "idx_running j \<longleftrightarrow> local_operation j \<and> j_state j = Running"

definition idx_gc :: "job \<Rightarrow> bool" where
  "idx_gc j \<longleftrightarrow> j_job_type j = GcCollect \<and> j_problem_id j = None \<and> job_active j"

definition jobs_violation :: "job list \<Rightarrow> string option" where
  "jobs_violation js =
     (if \<not> distinct (map j_id js) then Some ''jobs_pkey''
      else if \<not> distinct (map (\<lambda>j. (j_idempotency_key j, j_job_type j)) js)
        then Some ''jobs_idempotency_key_job_type_key''
      else if \<not> unique_on idx_active (\<lambda>j. (j_problem_id j, j_job_type j)) js
        then Some ''idx_jobs_one_active_problem_job_type''
      else if \<not> unique_on idx_running j_problem_id js
        then Some ''idx_jobs_one_running_problem_operation''
      else if \<not> unique_on idx_gc j_job_type js
        then Some ''idx_jobs_one_active_gc_collect''
      else None)"

definition counter_key :: "string option \<Rightarrow> string" where
  "counter_key pid = coalesce pid ''__global__''"

section \<open>Triggers\<close>

definition default_usage :: "string \<Rightarrow> time \<Rightarrow> usage" where
  "default_usage pid now =
     \<lparr>u_problem_id = pid, u_logical_bytes = 0, u_allocated_bytes = 0, u_archive_bytes = 0,
      u_auxiliary_bytes = 0, u_file_count = 0, u_local_status = LMissing, u_r2_status = RNone,
      u_snapshot_generation = None, u_orphan_bytes = 0, u_referenced_bytes = 0,
      u_observed_at = now, u_stale = True, u_last_accessed_at = None,
      u_snapshot_failure_count = 0, u_last_snapshot_failed_at = None,
      u_snapshot_schedule_round = 0\<rparr>"

text \<open>\<open>INSERT INTO problem_usage \<dots> ON CONFLICT (problem_id) DO UPDATE\<close>, without the foreign key.\<close>

definition put_usage :: "usage \<Rightarrow> (usage \<Rightarrow> usage) \<Rightarrow> usage list \<Rightarrow> usage list" where
  "put_usage ins upd us =
     (if \<exists>u \<in> set us. u_problem_id u = u_problem_id ins
      then upd_where (\<lambda>u. u_problem_id u = u_problem_id ins) upd us
      else us @ [ins])"

definition permanent_failure :: "job \<Rightarrow> bool" where
  "permanent_failure j \<longleftrightarrow> j_state j = Failed \<and>
     (to_lower (coalesce (j_error_code j) []) \<in> {''manifest_integrity'', ''problem_folder_missing''}
      \<or> (to_lower (coalesce (j_error_code j) []) = ''job_failed''
         \<and> contains_text ''manifest integrity error''
             (to_lower (coalesce (j_error_message j) []))))"

definition track_snapshot_job_outcome :: "job \<Rightarrow> job \<Rightarrow> db \<Rightarrow> db" where
  "track_snapshot_job_outcome old new s =
     (case j_problem_id new of
        None \<Rightarrow> s
      | Some pid \<Rightarrow>
          if j_job_type new \<noteq> Snapshot \<or> j_state new = j_state old then s
          else
            let us1 = (if job_terminal new
                       then put_usage ((default_usage pid (now_us s))\<lparr>u_snapshot_schedule_round := 1\<rparr>)
                              (\<lambda>u. u\<lparr>u_snapshot_schedule_round := u_snapshot_schedule_round u + 1\<rparr>)
                              (problem_usage s)
                       else problem_usage s);
                perm = permanent_failure new;
                failed_at = (if perm then Some (now_us s) else None);
                us2 = (if j_state new = Completed \<or> perm
                       then put_usage
                              ((default_usage pid (now_us s))
                                 \<lparr>u_snapshot_failure_count := (if perm then 1 else 0),
                                  u_last_snapshot_failed_at := failed_at\<rparr>)
                              (\<lambda>u. u\<lparr>u_snapshot_failure_count :=
                                       (if perm then min (u_snapshot_failure_count u + 1) 2147483647
                                        else 0),
                                     u_last_snapshot_failed_at := failed_at\<rparr>)
                              us1
                       else us1)
            in s\<lparr>problem_usage := us2\<rparr>)"

definition reset_snapshot_backoff_on_dirty :: "problem \<Rightarrow> problem \<Rightarrow> db \<Rightarrow> db" where
  "reset_snapshot_backoff_on_dirty old new s =
     (if p_dirty_version old = p_dirty_version new then s
      else s\<lparr>problem_usage :=
             upd_where (\<lambda>u. u_problem_id u = p_external_id new)
               (\<lambda>u. u\<lparr>u_snapshot_failure_count := 0, u_last_snapshot_failed_at := None\<rparr>)
               (problem_usage s)\<rparr>)"

section \<open>Statements on jobs\<close>

text \<open>
  \<open>UPDATE jobs SET \<dots> WHERE p \<dots> RETURNING *\<close>: the \<open>jobs_updated_at\<close> trigger stamps every updated
  row, the indexes are checked, and, when the statement assigns \<open>state\<close>, the outcome trigger
  runs for each row.
\<close>

definition updated_job :: "(job \<Rightarrow> bool) \<Rightarrow> (job \<Rightarrow> job) \<Rightarrow> time \<Rightarrow> job \<Rightarrow> job" where
  "updated_job p f now j = (if p j then (f j)\<lparr>j_updated_at := now\<rparr> else j)"

definition update_jobs :: "bool \<Rightarrow> (job \<Rightarrow> bool) \<Rightarrow> (job \<Rightarrow> job) \<Rightarrow> (db, job list) act" where
  "update_jobs sets_state p f s =
     (let g = updated_job p f (now_us s);
          js = map g (jobs s);
          hit = filter p (jobs s)
      in case jobs_violation js of
           Some c \<Rightarrow> (Inl (UniqueViolation c), s)
         | None \<Rightarrow>
             (Inr (map g hit),
              (if sets_state then fold (\<lambda>j. track_snapshot_job_outcome j (g j)) hit else id)
                (s\<lparr>jobs := js\<rparr>)))"

definition insert_job :: "job \<Rightarrow> (db, job) act" where
  "insert_job j s =
     (let js = jobs s @ [j] in
      case jobs_violation js of
        Some c \<Rightarrow> (Inl (UniqueViolation c), s)
      | None \<Rightarrow>
          if (case j_problem_id j of None \<Rightarrow> True | Some pid \<Rightarrow> problem_exists pid s)
          then (Inr j, s\<lparr>jobs := js\<rparr>)
          else (Inl (ForeignKeyViolation ''jobs_problem_id_fkey''), s))"

definition delete_jobs :: "(job \<Rightarrow> bool) \<Rightarrow> (db, nat) act" where
  "delete_jobs p s = (Inr (count_where p (jobs s)), s\<lparr>jobs := filter (\<lambda>j. \<not> p j) (jobs s)\<rparr>)"

section \<open>Statements on problems and their usage\<close>

definition problems_violation :: "problem list \<Rightarrow> err option" where
  "problems_violation ps =
     (let known = (\<lambda>r. case r of None \<Rightarrow> True | Some pid \<Rightarrow> \<exists>q \<in> set ps. p_external_id q = pid) in
      if \<not> distinct (map p_external_id ps) then Some (UniqueViolation ''problems_pkey'')
      else if \<not> distinct (map p_code ps) then Some (UniqueViolation ''problems_code_key'')
      else if \<exists>p \<in> set ps. \<not> known (p_mirror_of p)
        then Some (ForeignKeyViolation ''problems_mirror_of_fkey'')
      else if \<exists>p \<in> set ps. \<not> known (p_mirror_root p)
        then Some (ForeignKeyViolation ''problems_mirror_root_fkey'')
      else None)"

definition updated_problem :: "(problem \<Rightarrow> bool) \<Rightarrow> (problem \<Rightarrow> problem) \<Rightarrow> problem \<Rightarrow> problem" where
  "updated_problem p f r = (if p r then f r else r)"

definition update_problems ::
  "bool \<Rightarrow> (problem \<Rightarrow> bool) \<Rightarrow> (problem \<Rightarrow> problem) \<Rightarrow> (db, problem list) act" where
  "update_problems sets_version p f s =
     (let g = updated_problem p f;
          ps = map g (problems s);
          hit = filter p (problems s)
      in case problems_violation ps of
           Some e \<Rightarrow> (Inl e, s)
         | None \<Rightarrow>
             (Inr (map g hit),
              (if sets_version then fold (\<lambda>r. reset_snapshot_backoff_on_dirty r (g r)) hit else id)
                (s\<lparr>problems := ps\<rparr>)))"

text \<open>
  \<open>INSERT INTO problems \<dots> ON CONFLICT (external_id) DO UPDATE SET \<dots> RETURNING *\<close>.
\<close>

definition upsert_problem_row ::
  "bool \<Rightarrow> problem \<Rightarrow> (problem \<Rightarrow> problem) \<Rightarrow> (db, problem) act" where
  "upsert_problem_row sets_version ins upd s =
     (if problem_exists (p_external_id ins) s
      then (case update_problems sets_version (\<lambda>r. p_external_id r = p_external_id ins) upd s of
              (Inl e, s') \<Rightarrow> (Inl e, s')
            | (Inr (r # _), s') \<Rightarrow> (Inr r, s')
            | (Inr [], s') \<Rightarrow> (Inr ins, s'))
      else (case problems_violation (problems s @ [ins]) of
              Some e \<Rightarrow> (Inl e, s)
            | None \<Rightarrow> (Inr ins, s\<lparr>problems := problems s @ [ins]\<rparr>)))"

definition upsert_usage :: "usage \<Rightarrow> (usage \<Rightarrow> usage) \<Rightarrow> (db, usage) act" where
  "upsert_usage ins upd s =
     (if problem_exists (u_problem_id ins) s
      then (let s' = s\<lparr>problem_usage := put_usage ins upd (problem_usage s)\<rparr>
            in (Inr (coalesce (usage_of (u_problem_id ins) s') ins), s'))
      else (Inl (ForeignKeyViolation ''problem_usage_problem_id_fkey''), s))"

text \<open>
  \<open>UPDATE problems SET external_id = new WHERE external_id = old AND guard\<close>. The foreign keys of
  migration 006 cascade the new value to every dependent table. \<open>job_fencing_counters\<close> has no
  foreign key and keeps the old key.
\<close>

definition rename_ref :: "string \<Rightarrow> string \<Rightarrow> string option \<Rightarrow> string option" where
  "rename_ref old new r = (if r = Some old then Some new else r)"

definition rename_id :: "string \<Rightarrow> string \<Rightarrow> string \<Rightarrow> string" where
  "rename_id old new x = (if x = old then new else x)"

definition rename_problem :: "string \<Rightarrow> string \<Rightarrow> (problem \<Rightarrow> bool) \<Rightarrow> (db, unit) act" where
  "rename_problem old new guard s =
     (if \<exists>p \<in> set (problems s). p_external_id p = old \<and> guard p then
        if old \<noteq> new \<and> problem_exists new s then (Inl (UniqueViolation ''problems_pkey''), s)
        else
          (Inr (),
           s\<lparr>problems := map (\<lambda>p. p\<lparr>p_external_id := rename_id old new (p_external_id p),
                                 p_mirror_of := rename_ref old new (p_mirror_of p),
                                 p_mirror_root := rename_ref old new (p_mirror_root p)\<rparr>) (problems s),
             problem_usage := map (\<lambda>u. u\<lparr>u_problem_id := rename_id old new (u_problem_id u)\<rparr>) (problem_usage s),
             snapshots := map (\<lambda>n. n\<lparr>s_problem_id := rename_id old new (s_problem_id n)\<rparr>) (snapshots s),
             jobs := map (\<lambda>j. j\<lparr>j_problem_id := rename_ref old new (j_problem_id j)\<rparr>) (jobs s),
             problem_generation_counters :=
               map (\<lambda>(k, n). (rename_id old new k, n)) (problem_generation_counters s),
             idempotency_keys :=
               map (\<lambda>k. k\<lparr>k_response_problem_id := rename_ref old new (k_response_problem_id k)\<rparr>)
                 (idempotency_keys s)\<rparr>)
      else (Inr (), s))"

text \<open>
  \<open>DELETE FROM problems WHERE external_id = pid AND guard\<close>: usage, snapshots (with their objects;
  \<open>gc_marks.snapshot_id\<close> becomes \<open>NULL\<close>), jobs and the generation counter go with the row; a
  mirror or a recorded response that still points at it refuses the statement.
\<close>

definition delete_problem :: "string \<Rightarrow> (problem \<Rightarrow> bool) \<Rightarrow> (db, nat) act" where
  "delete_problem pid guard s =
     (if \<not> (\<exists>p \<in> set (problems s). p_external_id p = pid \<and> guard p) then (Inr 0, s)
      else if \<exists>p \<in> set (problems s). p_external_id p \<noteq> pid \<and> p_mirror_of p = Some pid
        then (Inl (ForeignKeyViolation ''problems_mirror_of_fkey''), s)
      else if \<exists>p \<in> set (problems s). p_external_id p \<noteq> pid \<and> p_mirror_root p = Some pid
        then (Inl (ForeignKeyViolation ''problems_mirror_root_fkey''), s)
      else if \<exists>k \<in> set (idempotency_keys s). k_response_problem_id k = Some pid
        then (Inl (ForeignKeyViolation ''idempotency_keys_response_problem_id_fkey''), s)
      else
        let dead = map s_id (filter (\<lambda>n. s_problem_id n = pid) (snapshots s)) in
        (Inr 1,
         s\<lparr>problems := filter (\<lambda>p. p_external_id p \<noteq> pid) (problems s),
           problem_usage := filter (\<lambda>u. u_problem_id u \<noteq> pid) (problem_usage s),
           snapshots := filter (\<lambda>n. s_problem_id n \<noteq> pid) (snapshots s),
           snapshot_objects := filter (\<lambda>ob. o_snapshot_id ob \<notin> set dead) (snapshot_objects s),
           gc_marks := map (\<lambda>g. if (\<exists>d \<in> set dead. g_snapshot_id g = Some d)
                               then g\<lparr>g_snapshot_id := None\<rparr> else g) (gc_marks s),
           jobs := filter (\<lambda>j. j_problem_id j \<noteq> Some pid) (jobs s),
           problem_generation_counters :=
             filter (\<lambda>(k, n). k \<noteq> pid) (problem_generation_counters s)\<rparr>))"

section \<open>Counters\<close>

text \<open>
  \<open>INSERT INTO counters VALUES (k, by + 1) ON CONFLICT DO UPDATE SET next = next + by\<close>; the value
  before the addition, 1 for a new key, is the first one handed out.
\<close>

definition next_of :: "(string \<times> nat) list \<Rightarrow> string \<Rightarrow> nat" where
  "next_of c k = coalesce (map_of c k) 1"

definition bump :: "string \<Rightarrow> nat \<Rightarrow> (string \<times> nat) list \<Rightarrow> (string \<times> nat) list" where
  "bump k n c = AList.update k (next_of c k + n) c"

lemma next_of_bump: "next_of (bump k n c) k' = (if k' = k then next_of c k + n else next_of c k')"
  by (simp add: next_of_def bump_def update_conv')

lemma next_of_bump_mono: "next_of c k' \<le> next_of (bump k n c) k'"
  by (simp add: next_of_bump)

section \<open>Frame facts\<close>

lemma track_frame [simp]:
  "jobs (track_snapshot_job_outcome a b s) = jobs s"
  "problems (track_snapshot_job_outcome a b s) = problems s"
  "now_us (track_snapshot_job_outcome a b s) = now_us s"
  "uuid_src (track_snapshot_job_outcome a b s) = uuid_src s"
  "uuid_pos (track_snapshot_job_outcome a b s) = uuid_pos s"
  "job_fencing_counters (track_snapshot_job_outcome a b s) = job_fencing_counters s"
  "problem_generation_counters (track_snapshot_job_outcome a b s) = problem_generation_counters s"
  "snapshots (track_snapshot_job_outcome a b s) = snapshots s"
  "snapshot_objects (track_snapshot_job_outcome a b s) = snapshot_objects s"
  "gc_marks (track_snapshot_job_outcome a b s) = gc_marks s"
  "queue_state (track_snapshot_job_outcome a b s) = queue_state s"
  "idempotency_keys (track_snapshot_job_outcome a b s) = idempotency_keys s"
  "retention_config (track_snapshot_job_outcome a b s) = retention_config s"
  by (simp_all add: track_snapshot_job_outcome_def Let_def split: option.splits)

lemma reset_frame [simp]:
  "jobs (reset_snapshot_backoff_on_dirty a b s) = jobs s"
  "problems (reset_snapshot_backoff_on_dirty a b s) = problems s"
  "now_us (reset_snapshot_backoff_on_dirty a b s) = now_us s"
  "uuid_src (reset_snapshot_backoff_on_dirty a b s) = uuid_src s"
  "uuid_pos (reset_snapshot_backoff_on_dirty a b s) = uuid_pos s"
  "job_fencing_counters (reset_snapshot_backoff_on_dirty a b s) = job_fencing_counters s"
  "problem_generation_counters (reset_snapshot_backoff_on_dirty a b s) = problem_generation_counters s"
  "snapshots (reset_snapshot_backoff_on_dirty a b s) = snapshots s"
  "snapshot_objects (reset_snapshot_backoff_on_dirty a b s) = snapshot_objects s"
  "gc_marks (reset_snapshot_backoff_on_dirty a b s) = gc_marks s"
  "queue_state (reset_snapshot_backoff_on_dirty a b s) = queue_state s"
  "idempotency_keys (reset_snapshot_backoff_on_dirty a b s) = idempotency_keys s"
  "retention_config (reset_snapshot_backoff_on_dirty a b s) = retention_config s"
  by (simp_all add: reset_snapshot_backoff_on_dirty_def)

lemma fold_frame: "(\<And>x s. F (h x s) = F s) \<Longrightarrow> F (fold h xs s) = F s"
  by (induction xs arbitrary: s) simp_all

lemma fold_track_frame [simp]:
  "jobs (fold (\<lambda>j. track_snapshot_job_outcome j (g j)) js s) = jobs s"
  "problems (fold (\<lambda>j. track_snapshot_job_outcome j (g j)) js s) = problems s"
  "now_us (fold (\<lambda>j. track_snapshot_job_outcome j (g j)) js s) = now_us s"
  "uuid_src (fold (\<lambda>j. track_snapshot_job_outcome j (g j)) js s) = uuid_src s"
  "uuid_pos (fold (\<lambda>j. track_snapshot_job_outcome j (g j)) js s) = uuid_pos s"
  "job_fencing_counters (fold (\<lambda>j. track_snapshot_job_outcome j (g j)) js s) = job_fencing_counters s"
  "problem_generation_counters (fold (\<lambda>j. track_snapshot_job_outcome j (g j)) js s) = problem_generation_counters s"
  "snapshots (fold (\<lambda>j. track_snapshot_job_outcome j (g j)) js s) = snapshots s"
  "queue_state (fold (\<lambda>j. track_snapshot_job_outcome j (g j)) js s) = queue_state s"
  by (rule fold_frame; simp)+

text \<open>What an \<open>UPDATE\<close> of jobs can do: fail on an index and change nothing, or update the rows.\<close>

lemma update_jobs_cases:
  assumes "update_jobs st p f s = (r, t)"
  obtains
    (failed) c where "r = Inl (UniqueViolation c)" and "t = s"
      and "jobs_violation (map (updated_job p f (now_us s)) (jobs s)) = Some c"
  | (ok) "r = Inr (map (updated_job p f (now_us s)) (filter p (jobs s)))"
      and "jobs t = map (updated_job p f (now_us s)) (jobs s)"
      and "jobs_violation (jobs t) = None"
  using assms
  by (cases "jobs_violation (map (updated_job p f (now_us s)) (jobs s))")
     (auto simp: update_jobs_def Let_def split: if_splits)

lemma update_jobs_frame:
  assumes "update_jobs st p f s = (r, t)"
  shows "now_us t = now_us s" "uuid_src t = uuid_src s" "uuid_pos t = uuid_pos s"
    "job_fencing_counters t = job_fencing_counters s" "problems t = problems s"
    "problem_generation_counters t = problem_generation_counters s"
    "snapshots t = snapshots s" "queue_state t = queue_state s"
  using assms by (auto simp: update_jobs_def Let_def split: option.splits if_splits)

lemma updated_job_simps [simp]:
  "p j \<Longrightarrow> updated_job p f now j = (f j)\<lparr>j_updated_at := now\<rparr>"
  "\<not> p j \<Longrightarrow> updated_job p f now j = j"
  by (simp_all add: updated_job_def)

lemma insert_job_cases:
  assumes "insert_job j s = (r, t)"
  obtains (failed) e where "r = Inl e" and "t = s"
  | (ok) "r = Inr j" and "t = s\<lparr>jobs := jobs s @ [j]\<rparr>" and "jobs_violation (jobs s @ [j]) = None"
  using assms by (auto simp: insert_job_def Let_def split: option.splits if_splits)

end
