(* ===== verification/Jobs.thy ===== *)
theory Jobs
  imports Schema
begin

text \<open>
  The durable job queue of \<open>control-plane/src/db.ts\<close>: creation with idempotency keys and
  per-problem exclusion, leases with fencing tokens, completion, cancellation, retry, and the
  restore claim of the ensure-ready path. Each definition is one exported function; the SQL
  statement inside a large one is a definition of its own with the suffix \<open>_stmt\<close>.
\<close>

section \<open>Rows as the API returns them\<close>

record jobT =
  jt_id :: string
  jt_idempotency_key :: string
  jt_job_type :: job_type
  jt_problem_id :: "string option"
  jt_target_generation :: "nat option"
  jt_state :: job_state
  jt_lease_owner :: "string option"
  jt_lease_expires_at :: "nat option"
  jt_fencing_token :: nat
  jt_attempt :: nat
  jt_max_attempts :: nat
  jt_result :: json
  jt_error_code :: "string option"
  jt_error_message :: "string option"
  jt_created_at :: nat
  jt_updated_at :: nat
  jt_completed_at :: "nat option"

text \<open>
  \<open>toRfc3339\<close> goes through a JavaScript \<open>Date\<close>: the text it prints stands for whole
  milliseconds. A timestamp in a response is that number of milliseconds.
\<close>

definition toRfc3339 :: "time \<Rightarrow> nat" where
  "toRfc3339 t = t div 1000"

definition rowToJob :: "job \<Rightarrow> jobT" where
  "rowToJob r =
     \<lparr>jt_id = j_id r,
      jt_idempotency_key = j_idempotency_key r,
      jt_job_type = j_job_type r,
      jt_problem_id = j_problem_id r,
      jt_target_generation = j_target_generation r,
      jt_state = j_state r,
      jt_lease_owner = j_lease_owner r,
      jt_lease_expires_at = map_option toRfc3339 (j_lease_expires_at r),
      jt_fencing_token = j_fencing_token r,
      jt_attempt = j_attempt r,
      jt_max_attempts = j_max_attempts r,
      jt_result = coalesce (j_result r) JNull,
      jt_error_code = j_error_code r,
      jt_error_message = j_error_message r,
      jt_created_at = toRfc3339 (j_created_at r),
      jt_updated_at = toRfc3339 (j_updated_at r),
      jt_completed_at = map_option toRfc3339 (j_completed_at r)\<rparr>"

section \<open>Creation\<close>

record create_opts =
  co_idempotencyKey :: string
  co_jobType :: job_type
  co_problemId :: "string option"
  co_targetGeneration :: "nat option"
  co_leaseOwner :: string
  co_requestFingerprint :: "string option"

definition isActiveProblemOperationConstraint :: "err \<Rightarrow> bool" where
  "isActiveProblemOperationConstraint e \<longleftrightarrow>
     e = UniqueViolation ''idx_jobs_one_active_problem_job_type''
     \<or> e = UniqueViolation ''idx_jobs_one_running_problem_operation''"

definition isActiveGcConstraint :: "err \<Rightarrow> bool" where
  "isActiveGcConstraint e \<longleftrightarrow> e = UniqueViolation ''idx_jobs_one_active_gc_collect''"

text \<open>A JavaScript string (or null) in a condition.\<close>

definition truthy :: "string option \<Rightarrow> bool" where
  "truthy v \<longleftrightarrow> v \<noteq> None \<and> v \<noteq> Some []"

definition create_fingerprint :: "create_opts \<Rightarrow> string" where
  "create_fingerprint opts =
     (case co_requestFingerprint opts of
        Some f \<Rightarrow> f
      | None \<Rightarrow> stableFingerprint (JObj
          [(''job_type'', JStr (job_type_text (co_jobType opts))),
           (''problem_id'', json_of_option JStr (co_problemId opts)),
           (''target_generation'', json_of_option (\<lambda>g. JNum (int g)) (co_targetGeneration opts))]))"

definition same_request :: "create_opts \<Rightarrow> string \<Rightarrow> job \<Rightarrow> bool" where
  "same_request opts fp j \<longleftrightarrow>
     j_problem_id j = co_problemId opts \<and> j_target_generation j = co_targetGeneration opts
     \<and> j_request_fingerprint j = fp"

definition same_key :: "create_opts \<Rightarrow> job \<Rightarrow> bool" where
  "same_key opts j \<longleftrightarrow>
     j_idempotency_key j = co_idempotencyKey opts \<and> j_job_type j = co_jobType opts"

definition reusable :: "create_opts \<Rightarrow> string \<Rightarrow> job \<Rightarrow> bool" where
  "reusable opts fp j \<longleftrightarrow>
     j_job_type j = co_jobType opts \<and> j_problem_id j = co_problemId opts
     \<and> j_target_generation j = co_targetGeneration opts
     \<and> (j_request_fingerprint j = fp \<or> co_jobType opts \<in> {Scan, Snapshot, Restore, GcCollect})
     \<and> job_active j"

definition incompatible_with :: "create_opts \<Rightarrow> job \<Rightarrow> bool" where
  "incompatible_with opts j \<longleftrightarrow>
     co_problemId opts \<noteq> None \<and> j_problem_id j = co_problemId opts
     \<and> local_problem_type (j_job_type j) \<and> job_active j
     \<and> \<not> ((co_jobType opts = Scan \<and> j_job_type j = Snapshot)
          \<or> (co_jobType opts = Snapshot \<and> j_job_type j = Scan))"

definition new_job :: "create_opts \<Rightarrow> string \<Rightarrow> string \<Rightarrow> time \<Rightarrow> job" where
  "new_job opts fp i now =
     \<lparr>j_id = i, j_idempotency_key = co_idempotencyKey opts, j_job_type = co_jobType opts,
      j_problem_id = co_problemId opts, j_target_generation = co_targetGeneration opts,
      j_state = Pending, j_lease_owner = None, j_lease_expires_at = None,
      j_fencing_token = 0, j_attempt = 1, j_max_attempts = 3, j_result = None,
      j_error_code = None, j_error_message = None, j_created_at = now, j_updated_at = now,
      j_completed_at = None, j_requested_cancel_at = None, j_requested_cancel_reason = None,
      j_request_fingerprint = fp\<rparr>"

text \<open>
  The statement of \<open>createJob\<close>: a replay of the key wins, then an active equivalent job, then an
  insertion, unless the key is taken by another request or the problem is busy. The
  \<open>ON CONFLICT\<close> arm of the insertion needs a row with the same key, which is a replay or a key
  conflict, so it is never taken here.
\<close>

definition createJob_stmt :: "create_opts \<Rightarrow> string \<Rightarrow> (db, job list) act" where
  "createJob_stmt opts fp s =
     (let key_row = filter (same_key opts) (jobs s);
          replay = filter (same_request opts fp) key_row;
          key_conflict = filter (\<lambda>j. \<not> same_request opts fp j) key_row;
          active = (if replay = [] \<and> key_conflict = []
                    then first_by j_created_at (reusable opts fp) (jobs s) else None);
          incompatible = (\<exists>j \<in> set (jobs s). incompatible_with opts j)
      in case replay of
           r # _ \<Rightarrow> update_jobs False (\<lambda>j. j_id j = j_id r) id s
         | [] \<Rightarrow>
             (case active of
                Some a \<Rightarrow> update_jobs False (\<lambda>j. j_id j = j_id a) id s
              | None \<Rightarrow>
                  if key_conflict \<noteq> [] \<or> incompatible then (Inr [], s)
                  else (let (i, s1) = fresh_uuid s in
                        case insert_job (new_job opts fp i (now_us s)) s1 of
                          (Inl e, s2) \<Rightarrow> (Inl e, s)
                        | (Inr j, s2) \<Rightarrow> (Inr [j], s2))))"

definition active_gc_job :: "job list \<Rightarrow> job option" where
  "active_gc_job js =
     first_by j_created_at
       (\<lambda>j. j_job_type j = GcCollect \<and> j_problem_id j = None \<and> job_active j) js"

definition createJob :: "create_opts \<Rightarrow> (db, jobT) act" where
  "createJob opts s =
     (case createJob_stmt opts (create_fingerprint opts) s of
        (Inl e, s1) \<Rightarrow>
          if truthy (co_problemId opts) \<and> isActiveProblemOperationConstraint e
          then (Inl (ProblemOperationConflictError (coalesce (co_problemId opts) [])), s1)
          else if co_jobType opts = GcCollect \<and> isActiveGcConstraint e
          then (case active_gc_job (jobs s1) of
                  Some j \<Rightarrow> (Inr (rowToJob j), s1)
                | None \<Rightarrow> (Inl e, s1))
          else (Inl e, s1)
      | (Inr [], s1) \<Rightarrow>
          if \<exists>j \<in> set (jobs s1). same_key opts j then (Inl IdempotencyConflictError, s1)
          else if truthy (co_problemId opts) \<and> local_problem_type (co_jobType opts)
            \<and> (\<exists>j \<in> set (jobs s1). j_problem_id j = co_problemId opts
                  \<and> local_problem_type (j_job_type j) \<and> job_active j)
          then (Inl (ProblemOperationConflictError (coalesce (co_problemId opts) [])), s1)
          else (Inl (PlainError ''Job creation produced no result''), s1)
      | (Inr (r # _), s1) \<Rightarrow> (Inr (rowToJob r), s1))"

section \<open>Cancelling work that a restore replaces\<close>

definition cancelPendingLocalJobsForRestore :: "string \<Rightarrow> (db, nat) act" where
  "cancelPendingLocalJobsForRestore pid = reading (\<lambda>s.
     bnd (update_jobs True
            (\<lambda>j. j_problem_id j = Some pid \<and> (j_job_type j = Scan \<or> j_job_type j = Snapshot)
                 \<and> j_state j = Pending)
            (\<lambda>j. j\<lparr>j_state := Cancelled, j_completed_at := Some (now_us s),
                   j_error_code := Some ''superseded_by_restore'',
                   j_error_message := Some ''cancelled: local folder missing, restore takes over''\<rparr>))
         (\<lambda>rows. ret (length rows)))"

datatype restore_claim = ClaimReady | ClaimJob jobT

record restore_opts =
  ro_idempotencyKey :: string
  ro_problemId :: string
  ro_targetGeneration :: nat
  ro_leaseOwner :: string
  ro_requestFingerprint :: string
  ro_missingObservedAt :: time

definition restore_create_opts :: "restore_opts \<Rightarrow> create_opts" where
  "restore_create_opts opts =
     \<lparr>co_idempotencyKey = ro_idempotencyKey opts, co_jobType = Restore,
      co_problemId = Some (ro_problemId opts), co_targetGeneration = Some (ro_targetGeneration opts),
      co_leaseOwner = ro_leaseOwner opts, co_requestFingerprint = Some (ro_requestFingerprint opts)\<rparr>"

definition restore_replay :: "restore_opts \<Rightarrow> job list \<Rightarrow> job option" where
  "restore_replay opts js =
     List.find (\<lambda>j. j_idempotency_key j = ro_idempotencyKey opts \<and> j_job_type j = Restore) js"

definition restore_active :: "restore_opts \<Rightarrow> job list \<Rightarrow> job option" where
  "restore_active opts js =
     first_by (\<lambda>j. (j_created_at j, j_id j))
       (\<lambda>j. j_problem_id j = Some (ro_problemId opts) \<and> j_job_type j = Restore
            \<and> j_target_generation j = Some (ro_targetGeneration opts) \<and> job_active j) js"

text \<open>The usage row says the folder is there, and is not older than the observation that it was not.\<close>

definition restored_meanwhile :: "restore_opts \<Rightarrow> db \<Rightarrow> bool" where
  "restored_meanwhile opts s =
     (case usage_of (ro_problemId opts) s of
        None \<Rightarrow> False
      | Some u \<Rightarrow> u_local_status u = LPresent
          \<and> toRfc3339 (ro_missingObservedAt opts) \<le> toRfc3339 (u_observed_at u))"

definition createRestoreJobIfMissing :: "restore_opts \<Rightarrow> (db, restore_claim) act" where
  "createRestoreJobIfMissing opts = tx (reading (\<lambda>s.
     case restore_replay opts (jobs s) of
       Some r \<Rightarrow>
         if j_problem_id r \<noteq> Some (ro_problemId opts)
           \<or> j_target_generation r \<noteq> Some (ro_targetGeneration opts)
           \<or> j_request_fingerprint r \<noteq> ro_requestFingerprint opts
         then throw IdempotencyConflictError
         else ret (ClaimJob (rowToJob r))
     | None \<Rightarrow>
         (case restore_active opts (jobs s) of
            Some a \<Rightarrow> ret (ClaimJob (rowToJob a))
          | None \<Rightarrow>
              bnd (cancelPendingLocalJobsForRestore (ro_problemId opts)) (\<lambda>_. reading (\<lambda>s1.
                if restored_meanwhile opts s1 then ret ClaimReady
                else
                  bnd (upsert_usage
                         ((default_usage (ro_problemId opts) (now_us s1))
                            \<lparr>u_local_status := LMissing,
                             u_observed_at := ro_missingObservedAt opts, u_stale := False\<rparr>)
                         (\<lambda>u. u\<lparr>u_local_status := LMissing,
                                u_observed_at := max (u_observed_at u) (ro_missingObservedAt opts),
                                u_stale := False\<rparr>))
                      (\<lambda>_. bnd (createJob (restore_create_opts opts))
                              (\<lambda>job. ret (ClaimJob job))))))))"

definition touchProblemAccess :: "string \<Rightarrow> (db, unit) act" where
  "touchProblemAccess pid = tx (reading (\<lambda>s.
     bnd (modify (\<lambda>s. s\<lparr>problem_usage :=
            upd_where (\<lambda>u. u_problem_id u = pid)
              (\<lambda>u. u\<lparr>u_last_accessed_at := Some (now_us s)\<rparr>) (problem_usage s)\<rparr>))
         (\<lambda>_. bnd (update_jobs True
                 (\<lambda>j. j_problem_id j = Some pid \<and> j_job_type j = Evict \<and> j_state j = Pending)
                 (\<lambda>j. j\<lparr>j_state := Cancelled, j_error_code := Some ''problem_became_active'',
                        j_error_message :=
                          Some ''Cancelled because ensure-ready observed new problem activity'',
                        j_completed_at := Some (now_us s), j_lease_owner := None,
                        j_lease_expires_at := None\<rparr>))
              (\<lambda>_. ret ()))))"

definition allocateGeneration :: "string \<Rightarrow> (db, nat) act" where
  "allocateGeneration pid s =
     (if problem_exists pid s
      then (Inr (next_of (problem_generation_counters s) pid),
            s\<lparr>problem_generation_counters := bump pid 1 (problem_generation_counters s)\<rparr>)
      else (Inl (ForeignKeyViolation ''problem_generation_counters_problem_id_fkey''), s))"

section \<open>Leases\<close>

definition expired :: "db \<Rightarrow> job \<Rightarrow> bool" where
  "expired s j \<longleftrightarrow> j_state j = Running \<and> lt_null (j_lease_expires_at j) (now_us s)"

definition exhausted :: "db \<Rightarrow> job \<Rightarrow> bool" where
  "exhausted s j \<longleftrightarrow> expired s j \<and> j_max_attempts j \<le> j_attempt j"

text \<open>
  \<open>failExpiredRunningJobs\<close>: every exhausted job fails under a token of its own, the tokens of a
  counter going up with the jobs' ids (\<open>ROW_NUMBER() OVER (PARTITION BY counter_key ORDER BY id)\<close>).
\<close>

definition group_size :: "job list \<Rightarrow> string \<Rightarrow> nat" where
  "group_size locked k = count_where (\<lambda>j. counter_key (j_problem_id j) = k) locked"

definition row_number :: "job list \<Rightarrow> job \<Rightarrow> nat" where
  "row_number locked j =
     Suc (count_where (\<lambda>l. counter_key (j_problem_id l) = counter_key (j_problem_id j)
                           \<and> j_id l < j_id j) locked)"

definition bump_groups :: "job list \<Rightarrow> (string \<times> nat) list \<Rightarrow> (string \<times> nat) list" where
  "bump_groups locked c =
     fold (\<lambda>k c. bump k (group_size locked k) c)
       (remdups (map (\<lambda>j. counter_key (j_problem_id j)) locked)) c"

definition revoked_token :: "job list \<Rightarrow> (string \<times> nat) list \<Rightarrow> job \<Rightarrow> nat" where
  "revoked_token locked bumped j =
     (let k = counter_key (j_problem_id j)
      in next_of bumped k - group_size locked k + row_number locked j - 1)"

definition failExpiredRunningJobs :: "(db, nat) act" where
  "failExpiredRunningJobs s =
     (let locked = filter (exhausted s) (jobs s);
          bumped = bump_groups locked (job_fencing_counters s)
      in case update_jobs True (exhausted s)
                (\<lambda>j. j\<lparr>j_state := Failed, j_fencing_token := revoked_token locked bumped j,
                       j_error_code := Some ''lease_expired'',
                       j_error_message := Some ''Worker lease expired before completion'',
                       j_completed_at := Some (now_us s)\<rparr>)
                (s\<lparr>job_fencing_counters := bumped\<rparr>) of
           (Inl e, _) \<Rightarrow> (Inl e, s)
         | (Inr rows, t) \<Rightarrow> (Inr (length rows), t))"

datatype lane = LaneRestore | LaneBulk

definition queue_paused :: "db \<Rightarrow> bool" where
  "queue_paused s \<longleftrightarrow> (\<exists>q \<in> set (queue_state s). q_name q = ''default'' \<and> q_paused q)"

definition acquirable :: "lane \<Rightarrow> db \<Rightarrow> job \<Rightarrow> bool" where
  "acquirable ln s j \<longleftrightarrow>
     j_attempt j < j_max_attempts j
     \<and> ((j_state j = Pending \<and> \<not> queue_paused s) \<or> expired s j)
     \<and> (ln = LaneRestore \<longrightarrow> j_job_type j = Restore)"

definition candidate :: "lane \<Rightarrow> db \<Rightarrow> job option" where
  "candidate ln s =
     (case ln of
        LaneRestore \<Rightarrow> first_by (\<lambda>j. (j_created_at j, j_id j)) (acquirable ln s) (jobs s)
      | LaneBulk \<Rightarrow>
          first_by (\<lambda>j. (j_job_type j \<noteq> Restore, j_created_at j, j_id j)) (acquirable ln s) (jobs s))"

definition acquire_stmt :: "string \<Rightarrow> nat \<Rightarrow> lane \<Rightarrow> (db, job list) act" where
  "acquire_stmt workerId leaseSeconds ln s =
     (case candidate ln s of
        None \<Rightarrow> (Inr [], s)
      | Some c \<Rightarrow>
          let k = counter_key (j_problem_id c);
              token = next_of (job_fencing_counters s) k
          in case update_jobs True
                    (\<lambda>j. j_id j = j_id c \<and> j_attempt j < j_max_attempts j)
                    (\<lambda>j. j\<lparr>j_state := Running, j_lease_owner := Some workerId,
                           j_lease_expires_at := Some (now_us s + seconds leaseSeconds),
                           j_fencing_token := token,
                           j_attempt := (if j_state j = Pending then j_attempt j else j_attempt j + 1),
                           j_error_code := None, j_error_message := None\<rparr>)
                    (s\<lparr>job_fencing_counters := bump k 1 (job_fencing_counters s)\<rparr>) of
               (Inl e, _) \<Rightarrow> (Inl e, s)
             | (Inr rows, t) \<Rightarrow> (Inr rows, t))"

definition acquireJob :: "string \<Rightarrow> nat \<Rightarrow> lane \<Rightarrow> (db, jobT option) act" where
  "acquireJob workerId leaseSeconds ln =
     bnd failExpiredRunningJobs (\<lambda>_.
       try_catch
         (bnd (acquire_stmt workerId leaseSeconds ln)
           (\<lambda>rows. ret (case rows of [] \<Rightarrow> None | r # _ \<Rightarrow> Some (rowToJob r))))
         (\<lambda>e. if isActiveProblemOperationConstraint e then ret None else throw e))"

text \<open>The guard shared by renewal, assertion and completion.\<close>

definition lease_held :: "db \<Rightarrow> string \<Rightarrow> string option \<Rightarrow> nat \<Rightarrow> job \<Rightarrow> bool" where
  "lease_held s i owner token j \<longleftrightarrow>
     j_id j = i \<and> eq_null (j_lease_owner j) owner \<and> j_fencing_token j = token
     \<and> j_state j = Running \<and> ge_null (j_lease_expires_at j) (now_us s)
     \<and> j_requested_cancel_at j = None"

definition renewJobLease :: "string \<Rightarrow> string \<Rightarrow> nat \<Rightarrow> nat \<Rightarrow> (db, bool) act" where
  "renewJobLease i workerId fencingToken leaseSeconds = reading (\<lambda>s.
     bnd (update_jobs False (lease_held s i (Some workerId) fencingToken)
            (\<lambda>j. j\<lparr>j_lease_expires_at := Some (now_us s + seconds leaseSeconds)\<rparr>))
         (\<lambda>rows. ret (rows \<noteq> [])))"

definition holds_lease :: "db \<Rightarrow> jobT \<Rightarrow> bool" where
  "holds_lease s t \<longleftrightarrow>
     (\<exists>j \<in> set (jobs s). lease_held s (jt_id t) (jt_lease_owner t) (jt_fencing_token t) j)"

definition assertJobLease :: "jobT \<Rightarrow> (db, unit) act" where
  "assertJobLease t = reading (\<lambda>s.
     if holds_lease s t then ret () else throw (JobLeaseLostError (jt_id t)))"

definition getJob :: "string \<Rightarrow> db \<Rightarrow> jobT option" where
  "getJob i s = map_option rowToJob (List.find (\<lambda>j. j_id j = i) (jobs s))"

definition first_row :: "job list \<Rightarrow> jobT option" where
  "first_row rows = (case rows of [] \<Rightarrow> None | r # _ \<Rightarrow> Some (rowToJob r))"

definition completeJobWithLease ::
  "jobT \<Rightarrow> job_state \<Rightarrow> json \<Rightarrow> string option \<Rightarrow> string option \<Rightarrow> (db, jobT option) act" where
  "completeJobWithLease t st res errorCode errorMessage = reading (\<lambda>s.
     bnd (update_jobs True (lease_held s (jt_id t) (jt_lease_owner t) (jt_fencing_token t))
            (\<lambda>j. j\<lparr>j_state := st, j_result := Some res, j_error_code := errorCode,
                   j_error_message := errorMessage, j_completed_at := Some (now_us s)\<rparr>))
         (\<lambda>rows. ret (first_row rows)))"

definition updateJobState ::
  "string \<Rightarrow> job_state \<Rightarrow> json \<Rightarrow> string option \<Rightarrow> string option \<Rightarrow> (db, jobT option) act" where
  "updateJobState i st res errorCode errorMessage = reading (\<lambda>s.
     bnd (update_jobs True (\<lambda>j. j_id j = i \<and> j_state j \<noteq> Running)
            (\<lambda>j. j\<lparr>j_state := st, j_result := Some res, j_error_code := errorCode,
                   j_error_message := errorMessage,
                   j_completed_at := (if st \<in> {Completed, Failed, Cancelled}
                                      then Some (now_us s) else None)\<rparr>))
         (\<lambda>rows. ret (first_row rows)))"

definition setJobPayload :: "string \<Rightarrow> json \<Rightarrow> (db, jobT option) act" where
  "setJobPayload i payload =
     bnd (update_jobs False (\<lambda>j. j_id j = i \<and> j_state j = Pending)
            (\<lambda>j. j\<lparr>j_result := Some payload\<rparr>))
         (\<lambda>rows. ret (first_row rows))"

section \<open>Cancellation and retry\<close>

definition cancelJob :: "string \<Rightarrow> string option \<Rightarrow> (db, jobT option) act" where
  "cancelJob i reason s =
     (case List.find (\<lambda>j. j_id j = i \<and> job_active j) (jobs s) of
        None \<Rightarrow> (Inr None, s)
      | Some l \<Rightarrow>
          let k = counter_key (j_problem_id l);
              token = next_of (job_fencing_counters s) k
          in case update_jobs True (\<lambda>j. j_id j = j_id l)
                    (\<lambda>j. j\<lparr>j_state := Cancelled, j_fencing_token := token,
                           j_requested_cancel_at := Some (now_us s),
                           j_requested_cancel_reason := reason, j_error_message := reason,
                           j_completed_at := Some (now_us s)\<rparr>)
                    (s\<lparr>job_fencing_counters := bump k 1 (job_fencing_counters s)\<rparr>) of
               (Inl e, _) \<Rightarrow> (Inl e, s)
             | (Inr rows, t) \<Rightarrow> (Inr (first_row rows), t))"

definition retryJob :: "string \<Rightarrow> (db, jobT option) act" where
  "retryJob i =
     bnd (update_jobs True
            (\<lambda>j. j_id j = i \<and> (j_state j = Failed \<or> j_state j = Cancelled)
                 \<and> j_attempt j < j_max_attempts j)
            (\<lambda>j. j\<lparr>j_state := Pending, j_lease_owner := None, j_lease_expires_at := None,
                   j_requested_cancel_at := None, j_requested_cancel_reason := None,
                   j_error_code := None, j_error_message := None\<rparr>))
         (\<lambda>rows. ret (first_row rows))"

end
