(* ===== verification/Demo.thy ===== *)
theory Demo
  imports Jobs
begin

text \<open>
  Concrete rows and databases for the witnesses, and the collections \<open>demo_simps\<close> and \<open>queue_eval\<close> of the defining
  equations the simplifier needs to run the operations on them. Nothing here models code.
\<close>

definition demo_uuid :: "nat \<Rightarrow> string" where
  "demo_uuid n = CHR ''i'' # replicate n CHR ''d''"

definition demo_problem :: "string \<Rightarrow> string \<Rightarrow> problem" where
  "demo_problem i c =
     \<lparr>p_external_id = i, p_code = c, p_owner_organization = None,
      p_is_manually_managed = False, p_mirror_of = None, p_mirror_root = None,
      p_catalog_state = CPresent, p_observed_at = 0, p_stale = False, p_dirty = False,
      p_dirty_generation = None, p_dirty_version = 0, p_quota_bytes = None, p_schema_version = 1\<rparr>"

definition demo_job :: "string \<Rightarrow> job_type \<Rightarrow> string option \<Rightarrow> job_state \<Rightarrow> job" where
  "demo_job i ty pid st =
     \<lparr>j_id = i, j_idempotency_key = i, j_job_type = ty, j_problem_id = pid,
      j_target_generation = None, j_state = st, j_lease_owner = None, j_lease_expires_at = None,
      j_fencing_token = 0, j_attempt = 1, j_max_attempts = 3, j_result = None,
      j_error_code = None, j_error_message = None, j_created_at = 0, j_updated_at = 0,
      j_completed_at = None, j_requested_cancel_at = None, j_requested_cancel_reason = None,
      j_request_fingerprint = ''fp''\<rparr>"

definition demo_running :: "string \<Rightarrow> job_type \<Rightarrow> string option \<Rightarrow> job" where
  "demo_running i ty pid =
     (demo_job i ty pid Running)\<lparr>j_lease_owner := Some ''w'', j_lease_expires_at := Some 2000000,
        j_fencing_token := 1\<rparr>"

definition demo_snapshot :: "string \<Rightarrow> string \<Rightarrow> nat \<Rightarrow> snapshot_state \<Rightarrow> snapshot" where
  "demo_snapshot i pid gen st =
     \<lparr>s_id = i, s_problem_id = pid, s_generation = gen, s_state = st, s_file_count = 1,
      s_total_bytes = 10, s_manifest_key = None, s_error_code = None, s_error_message = None,
      s_created_at = 0, s_completed_at = None, s_superseded_at = None\<rparr>"

text \<open>A database at one second past the epoch, with two problems and the given jobs.\<close>

definition demo_db :: "job list \<Rightarrow> db" where
  "demo_db js =
     (initial_db demo_uuid)\<lparr>now_us := 1000000,
        problems := [demo_problem ''1'' ''aplusb'', demo_problem ''2'' ''sum''],
        jobs := js, job_fencing_counters := [(''1'', 2)]\<rparr>"

definition demo_opts :: "string \<Rightarrow> job_type \<Rightarrow> string option \<Rightarrow> create_opts" where
  "demo_opts k ty pid =
     \<lparr>co_idempotencyKey = k, co_jobType = ty, co_problemId = pid,
      co_targetGeneration = None, co_leaseOwner = ''ops'', co_requestFingerprint = Some ''fp''\<rparr>"

lemmas demo_simps = demo_uuid_def demo_problem_def demo_job_def demo_running_def
  demo_snapshot_def demo_db_def demo_opts_def initial_db_def

lemmas queue_eval = createJob_def createJob_stmt_def create_fingerprint_def same_key_def
  same_request_def reusable_def incompatible_with_def job_active_def first_by_def fresh_uuid_def
  insert_job_def new_job_def jobs_violation_def unique_on_def idx_active_def idx_running_def
  idx_gc_def local_operation_def local_problem_type_def problem_exists_def Let_def rowToJob_def
  acquireJob_def acquire_stmt_def candidate_def acquirable_def expired_def exhausted_def
  failExpiredRunningJobs_def update_jobs_def updated_job_def bump_groups_def next_of_def bump_def
  bnd_def try_catch_def queue_paused_def counter_key_def lt_null_def ge_null_def eq_null_def
  track_snapshot_job_outcome_def first_row_def count_where_def job_terminal_def put_usage_def
  truthy_def isActiveProblemOperationConstraint_def isActiveGcConstraint_def active_gc_job_def
  lease_held_def holds_lease_def tx_def seconds_def toRfc3339_def default_usage_def upd_where_def

end
