(* ===== verification/Queue.thy ===== *)
theory Queue
  imports Demo
begin

text \<open>
  The invariants of the job queue: the unique indexes, the fencing tokens and the rows' own
  consistency, each shown for every operation of \<open>Jobs\<close>; the queue as a transition system; and
  what follows for a worker whose lease has passed to another.
\<close>

section \<open>Updates that keep the indexes satisfied\<close>

lemma filter_map_sub:
  assumes "\<And>j. p' (g j) \<Longrightarrow> p j" and "\<And>j. k (g j) = k j" and "distinct (map k (filter p js))"
  shows "distinct (map k (filter p' (map g js)))"
  using assms(3)
proof (induction js)
  case Nil
  then show ?case by simp
next
  case (Cons j js)
  have sub: "k ` {x \<in> g ` set js. p' x} \<subseteq> k ` {x \<in> set js. p x}"
    using assms(1,2) by fastforce
  from Cons show ?case using assms(1,2) sub by (auto split: if_splits)
qed

lemma unique_on_map_sub:
  "(\<And>j. p' (g j) \<Longrightarrow> p j) \<Longrightarrow> (\<And>j. k (g j) = k j) \<Longrightarrow> unique_on p k js \<Longrightarrow> unique_on p' k (map g js)"
  unfolding unique_on_def by (rule filter_map_sub)

text \<open>An update that keeps the identity of the rows and activates none cannot break an index.\<close>

definition no_activation :: "(job \<Rightarrow> job) \<Rightarrow> bool" where
  "no_activation g \<longleftrightarrow>
     (\<forall>j. j_id (g j) = j_id j \<and> j_idempotency_key (g j) = j_idempotency_key j
        \<and> j_job_type (g j) = j_job_type j \<and> j_problem_id (g j) = j_problem_id j
        \<and> (job_active (g j) \<longrightarrow> job_active j) \<and> (j_state (g j) = Running \<longrightarrow> j_state j = Running))"

lemma jobs_violation_None:
  "jobs_violation js = None \<longleftrightarrow>
     distinct (map j_id js) \<and> distinct (map (\<lambda>j. (j_idempotency_key j, j_job_type j)) js)
     \<and> unique_on idx_active (\<lambda>j. (j_problem_id j, j_job_type j)) js
     \<and> unique_on idx_running j_problem_id js \<and> unique_on idx_gc j_job_type js"
  by (auto simp: jobs_violation_def)

lemma jobs_violation_no_activation:
  assumes "jobs_violation js = None" and g: "no_activation g"
  shows "jobs_violation (map g js) = None"
proof -
  have ids: "map j_id (map g js) = map j_id js"
    "map (\<lambda>j. (j_idempotency_key j, j_job_type j)) (map g js)
     = map (\<lambda>j. (j_idempotency_key j, j_job_type j)) js"
    using g by (auto simp: no_activation_def)
  have "unique_on idx_active (\<lambda>j. (j_problem_id j, j_job_type j)) (map g js)"
    using assms by (intro unique_on_map_sub [where p = idx_active])
      (auto simp: no_activation_def jobs_violation_None idx_active_def local_operation_def)
  moreover have "unique_on idx_running j_problem_id (map g js)"
    using assms by (intro unique_on_map_sub [where p = idx_running])
      (auto simp: no_activation_def jobs_violation_None idx_running_def local_operation_def)
  moreover have "unique_on idx_gc j_job_type (map g js)"
    using assms by (intro unique_on_map_sub [where p = idx_gc])
      (auto simp: no_activation_def jobs_violation_None idx_gc_def)
  ultimately show ?thesis
    using assms(1) ids by (simp only: jobs_violation_None)
qed

lemma no_activation_updated:
  "no_activation (updated_job p f now) \<longleftrightarrow>
     (\<forall>j. p j \<longrightarrow> j_id (f j) = j_id j \<and> j_idempotency_key (f j) = j_idempotency_key j
        \<and> j_job_type (f j) = j_job_type j \<and> j_problem_id (f j) = j_problem_id j
        \<and> (job_active (f j) \<longrightarrow> job_active j) \<and> (j_state (f j) = Running \<longrightarrow> j_state j = Running))"
  unfolding no_activation_def updated_job_def by (auto simp: job_active_def)

lemma update_jobs_ok:
  assumes "jobs_violation (jobs s) = None" and "no_activation (updated_job p f (now_us s))"
  obtains t where "update_jobs st p f s = (Inr (map (updated_job p f (now_us s)) (filter p (jobs s))), t)"
    and "jobs t = map (updated_job p f (now_us s)) (jobs s)"
proof -
  obtain r t where u: "update_jobs st p f s = (r, t)" by fastforce
  from u show ?thesis
  proof (cases rule: update_jobs_cases)
    case (failed c)
    with jobs_violation_no_activation [OF assms] show ?thesis by simp
  next
    case ok
    with u that show ?thesis by simp
  qed
qed

section \<open>Fencing\<close>

definition key_of :: "job \<Rightarrow> string" where
  "key_of j = counter_key (j_problem_id j)"

definition fence_ok :: "db \<Rightarrow> bool" where
  "fence_ok s \<longleftrightarrow>
     jobs_violation (jobs s) = None \<and> (\<forall>k. 0 < next_of (job_fencing_counters s) k)
     \<and> (\<forall>j \<in> set (jobs s). j_fencing_token j < next_of (job_fencing_counters s) (key_of j))"

definition future_uuid :: "db \<Rightarrow> string \<Rightarrow> bool" where
  "future_uuid s i \<longleftrightarrow> (\<exists>n \<ge> uuid_pos s. uuid_src s n = i)"

text \<open>
  What every step does to the tokens: the counters only grow, tokens stay below their counter, no
  row's token goes down, and a row that was not there carries a newly generated id.
\<close>

definition token_of :: "db \<Rightarrow> string \<Rightarrow> nat \<Rightarrow> bool" where
  "token_of s i k \<longleftrightarrow> (\<exists>j \<in> set (jobs s). j_id j = i \<and> j_fencing_token j \<le> k)"

definition fence_step :: "db \<Rightarrow> db \<Rightarrow> bool" where
  "fence_step s t \<longleftrightarrow>
     uuid_src t = uuid_src s \<and> uuid_pos s \<le> uuid_pos t \<and> now_us s \<le> now_us t
     \<and> (fence_ok s \<longrightarrow> fence_ok t
         \<and> (\<forall>j \<in> set (jobs t). token_of s (j_id j) (j_fencing_token j) \<or> future_uuid s (j_id j)))"

lemma fence_step_refl: "fence_step s s"
  by (auto simp: fence_step_def token_of_def)

lemma token_of_mono: "token_of s i k \<Longrightarrow> k \<le> l \<Longrightarrow> token_of s i l"
  unfolding token_of_def by (meson order_trans)

lemma future_uuid_mono:
  "future_uuid t i \<Longrightarrow> uuid_src t = uuid_src s \<Longrightarrow> uuid_pos s \<le> uuid_pos t \<Longrightarrow> future_uuid s i"
  unfolding future_uuid_def by (metis order_trans)

lemma fence_step_trans:
  assumes st: "fence_step s t" and tu: "fence_step t u"
  shows "fence_step s u"
proof -
  have "token_of s (j_id j) (j_fencing_token j) \<or> future_uuid s (j_id j)"
    if ok: "fence_ok s" and j: "j \<in> set (jobs u)" for j
  proof -
    have "fence_ok t" using st ok by (simp add: fence_step_def)
    then have "token_of t (j_id j) (j_fencing_token j) \<or> future_uuid t (j_id j)"
      using tu j by (simp add: fence_step_def)
    then show ?thesis
    proof
      assume "token_of t (j_id j) (j_fencing_token j)"
      then obtain j' where j': "j' \<in> set (jobs t)" "j_id j' = j_id j" "j_fencing_token j' \<le> j_fencing_token j"
        by (auto simp: token_of_def)
      then show ?thesis using st ok by (metis fence_step_def token_of_mono)
    next
      assume "future_uuid t (j_id j)"
      then show ?thesis using st by (metis fence_step_def future_uuid_mono)
    qed
  qed
  with st tu show ?thesis by (auto simp: fence_step_def)
qed

interpretation fence: preorder_rel fence_step
  by unfold_locales (auto intro: fence_step_refl fence_step_trans)

lemma fence_step_update_jobs:
  assumes u: "update_jobs st p f (s\<lparr>job_fencing_counters := c\<rparr>) = (r, t)"
    and c: "\<And>k. next_of (job_fencing_counters s) k \<le> next_of c k"
    and f: "\<And>j. fence_ok s \<Longrightarrow> j \<in> set (jobs s) \<Longrightarrow> p j \<Longrightarrow>
              j_id (f j) = j_id j \<and> j_problem_id (f j) = j_problem_id j
              \<and> j_fencing_token j \<le> j_fencing_token (f j) \<and> j_fencing_token (f j) < next_of c (key_of j)"
  shows "fence_step s t"
proof -
  have fr: "uuid_src t = uuid_src s" "uuid_pos t = uuid_pos s" "now_us t = now_us s"
    "job_fencing_counters t = c"
    using update_jobs_frame [OF u] by simp_all
  have js: "jobs t = jobs s \<or> jobs t = map (updated_job p f (now_us s)) (jobs s)"
    and viol: "jobs_violation (jobs s) = None \<longrightarrow> jobs_violation (jobs t) = None"
    using u by (cases rule: update_jobs_cases; simp)+
  have row: "\<exists>j \<in> set (jobs s). j_id j' = j_id j \<and> key_of j' = key_of j
       \<and> j_fencing_token j \<le> j_fencing_token j' \<and> j_fencing_token j' < next_of c (key_of j)"
    if "fence_ok s" and "j' \<in> set (jobs t)" for j'
  proof -
    have old: "j_fencing_token j < next_of c (key_of j)" if "j \<in> set (jobs s)" for j
      using that \<open>fence_ok s\<close> c [of "key_of j"] by (auto simp: fence_ok_def)
    from js \<open>j' \<in> set (jobs t)\<close> consider "j' \<in> set (jobs s)"
      | j where "j \<in> set (jobs s)" "j' = updated_job p f (now_us s) j" by auto
    then show ?thesis
    proof cases
      case 1
      then show ?thesis using old by auto
    next
      case (2 j)
      then show ?thesis using f [of j] old [of j] \<open>fence_ok s\<close>
        by (cases "p j") (auto simp: key_of_def intro!: bexI [of _ j])
    qed
  qed
  have pos: "fence_ok s \<longrightarrow> (\<forall>k. 0 < next_of c k)"
    using c by (auto simp: fence_ok_def intro: less_le_trans)
  have "fence_ok s \<longrightarrow> fence_ok t" using row pos viol fr(4) by (fastforce simp: fence_ok_def)
  moreover have "fence_ok s \<longrightarrow> (\<forall>j \<in> set (jobs t). token_of s (j_id j) (j_fencing_token j))"
    using row by (fastforce simp: token_of_def)
  ultimately show ?thesis using fr by (auto simp: fence_step_def)
qed

lemma fence_step_update_jobs_same:
  assumes u: "update_jobs st p f s = (r, t)"
    and f: "\<And>j. p j \<Longrightarrow> j_id (f j) = j_id j \<and> j_problem_id (f j) = j_problem_id j
                        \<and> j_fencing_token (f j) = j_fencing_token j"
  shows "fence_step s t"
proof (rule fence_step_update_jobs)
  show "update_jobs st p f (s\<lparr>job_fencing_counters := job_fencing_counters s\<rparr>) = (r, t)"
    using u by simp
qed (use f in \<open>auto simp: fence_ok_def\<close>)

lemma fence_step_same_jobs:
  assumes "jobs t = jobs s" "job_fencing_counters t = job_fencing_counters s"
    "uuid_src t = uuid_src s" "uuid_pos s \<le> uuid_pos t" "now_us s \<le> now_us t"
  shows "fence_step s t"
  using assms by (auto simp: fence_step_def fence_ok_def token_of_def)

lemma distinct_map_filter2: "distinct (map k (filter p js)) \<Longrightarrow> distinct (map k (filter (\<lambda>j. q j \<and> p j) js))"
  by (induction js) (auto split: if_splits)

lemma jobs_violation_filter: "jobs_violation js = None \<Longrightarrow> jobs_violation (filter q js) = None"
  by (auto simp: jobs_violation_None unique_on_def distinct_map_filter filter_filter
      intro: distinct_map_filter2)

lemma fence_step_fewer_jobs:
  assumes "jobs t = filter q (jobs s)" "job_fencing_counters t = job_fencing_counters s"
    "uuid_src t = uuid_src s" "uuid_pos s \<le> uuid_pos t" "now_us s \<le> now_us t"
  shows "fence_step s t"
  using assms by (auto simp: fence_step_def fence_ok_def token_of_def jobs_violation_filter)

subsection \<open>Each operation\<close>

lemma snd_createJob: "snd (createJob opts s) = snd (createJob_stmt opts (create_fingerprint opts) s)"
  by (auto simp: createJob_def split: prod.splits sum.splits list.splits option.splits)

lemma fence_createJob_stmt: "fence_step s (snd (createJob_stmt opts fp s))"
proof -
  obtain r t where eq: "createJob_stmt opts fp s = (r, t)" by fastforce
  then consider i where "update_jobs False (\<lambda>j. j_id j = i) id s = (r, t)"
    | "t = s"
    | "t = s\<lparr>uuid_pos := Suc (uuid_pos s), jobs := jobs s @ [new_job opts fp (uuid_src s (uuid_pos s)) (now_us s)]\<rparr>"
      and "jobs_violation (jobs t) = None"
    by (auto simp: createJob_stmt_def Let_def fresh_uuid_def
        split: list.splits option.splits if_splits prod.splits sum.splits elim!: insert_job_cases)
  then show ?thesis
  proof cases
    case 1
    then have "fence_step s t" by (rule fence_step_update_jobs_same) simp
    with eq show ?thesis by simp
  next
    case 2
    with eq show ?thesis by (simp add: fence_step_refl)
  next
    case 3
    have "fence_step s t"
      using 3(2) unfolding 3(1) fence_step_def
      by (auto simp: fence_ok_def token_of_def future_uuid_def new_job_def)
    with eq show ?thesis by simp
  qed
qed

lemma fence_update_jobs_same:
  "(\<And>j. p j \<Longrightarrow> j_id (f j) = j_id j \<and> j_problem_id (f j) = j_problem_id j
              \<and> j_fencing_token (f j) = j_fencing_token j)
   \<Longrightarrow> fence_step s (snd (update_jobs st p f s))"
  by (metis fence_step_update_jobs_same prod.collapse)

lemma fence_createJob: "pres fence_step (createJob opts)"
  by (simp add: pres_def snd_createJob fence_createJob_stmt)

lemma fence_cancelPending: "pres fence_step (cancelPendingLocalJobsForRestore pid)"
  by (auto simp: pres_def cancelPendingLocalJobsForRestore_def intro: fence_update_jobs_same)

lemma fence_upsert_usage: "pres fence_step (upsert_usage ins upd)"
  by (auto simp: pres_def upsert_usage_def Let_def intro!: fence_step_same_jobs fence_step_refl)

lemma fence_modify:
  "(\<And>s. jobs (h s) = jobs s) \<Longrightarrow> (\<And>s. job_fencing_counters (h s) = job_fencing_counters s)
   \<Longrightarrow> (\<And>s. uuid_src (h s) = uuid_src s) \<Longrightarrow> (\<And>s. uuid_pos s \<le> uuid_pos (h s))
   \<Longrightarrow> (\<And>s. now_us s \<le> now_us (h s)) \<Longrightarrow> pres fence_step (modify h)"
  by (auto simp: pres_def intro: fence_step_same_jobs)

lemma pres_fence_update_jobs:
  "(\<And>j. p j \<Longrightarrow> j_id (f j) = j_id j \<and> j_problem_id (f j) = j_problem_id j
              \<and> j_fencing_token (f j) = j_fencing_token j)
   \<Longrightarrow> pres fence_step (update_jobs st p f)"
  by (simp add: pres_def fence_update_jobs_same)

lemma fence_createRestore: "pres fence_step (createRestoreJobIfMissing opts)"
  unfolding createRestoreJobIfMissing_def
  by (intro pres_intros fence_cancelPending fence_upsert_usage fence_createJob)

lemma fence_touchProblemAccess: "pres fence_step (touchProblemAccess pid)"
  unfolding touchProblemAccess_def
  by (intro pres_intros fence_modify pres_fence_update_jobs) simp_all

lemma fence_renew: "pres fence_step (renewJobLease i w k n)"
  by (auto simp: pres_def renewJobLease_def intro: fence_update_jobs_same)

lemma fence_complete: "pres fence_step (completeJobWithLease t st res ec em)"
  by (auto simp: pres_def completeJobWithLease_def intro: fence_update_jobs_same)

lemma fence_updateJobState: "pres fence_step (updateJobState i st res ec em)"
  by (auto simp: pres_def updateJobState_def intro: fence_update_jobs_same)

lemma fence_setJobPayload: "pres fence_step (setJobPayload i v)"
  by (auto simp: pres_def setJobPayload_def intro: fence_update_jobs_same)

lemma fence_retryJob: "pres fence_step (retryJob i)"
  by (auto simp: pres_def retryJob_def intro: fence_update_jobs_same)

lemma id_unique:
  "jobs_violation js = None \<Longrightarrow> j \<in> set js \<Longrightarrow> l \<in> set js \<Longrightarrow> j_id j = j_id l \<Longrightarrow> j = l"
  by (auto simp: jobs_violation_None dest: distinct_map_unique)

text \<open>Granting a row the next token of its counter, as acquisition and cancellation do.\<close>

lemma fence_step_grant:
  assumes l: "l \<in> set (jobs s)"
    and u: "update_jobs st p f (s\<lparr>job_fencing_counters := bump (key_of l) 1 (job_fencing_counters s)\<rparr>) = (r, t)"
    and p: "\<And>j. p j \<Longrightarrow> j_id j = j_id l"
    and f: "\<And>j. j_id (f j) = j_id j \<and> j_problem_id (f j) = j_problem_id j
                \<and> j_fencing_token (f j) = next_of (job_fencing_counters s) (key_of l)"
  shows "fence_step s t"
proof (rule fence_step_update_jobs [OF u next_of_bump_mono])
  fix j
  assume ok: "fence_ok s" and j: "j \<in> set (jobs s)" and "p j"
  then have "j = l" using p l by (metis fence_ok_def id_unique)
  then show "j_id (f j) = j_id j \<and> j_problem_id (f j) = j_problem_id j
      \<and> j_fencing_token j \<le> j_fencing_token (f j)
      \<and> j_fencing_token (f j) < next_of (bump (key_of l) 1 (job_fencing_counters s)) (key_of j)"
    using ok j f by (auto simp: fence_ok_def next_of_bump less_imp_le)
qed

lemma fence_cancelJob: "pres fence_step (cancelJob i reason)"
proof (rule presI)
  fix s
  show "fence_step s (snd (cancelJob i reason s))"
  proof (cases "List.find (\<lambda>j. j_id j = i \<and> job_active j) (jobs s)")
    case None
    then show ?thesis by (simp add: cancelJob_def fence_step_refl)
  next
    case (Some l)
    then have "l \<in> set (jobs s)" by (auto dest: find_Some_in)
    with Some show ?thesis
      by (auto simp: cancelJob_def Let_def fence_step_refl key_of_def [symmetric]
          split: prod.splits sum.splits elim!: fence_step_grant)
  qed
qed

lemma candidate_Some: "candidate ln s = Some c \<Longrightarrow> c \<in> set (jobs s) \<and> acquirable ln s c"
  by (cases ln) (auto simp: candidate_def dest: first_by_Some)

lemma fence_acquire_stmt: "pres fence_step (acquire_stmt w n ln)"
proof (rule presI)
  fix s
  show "fence_step s (snd (acquire_stmt w n ln s))"
  proof (cases "candidate ln s")
    case None
    then show ?thesis by (simp add: acquire_stmt_def fence_step_refl)
  next
    case (Some c)
    then have "c \<in> set (jobs s)" by (auto dest: candidate_Some)
    with Some show ?thesis
      by (auto simp: acquire_stmt_def Let_def fence_step_refl key_of_def [symmetric]
          split: prod.splits sum.splits elim!: fence_step_grant)
  qed
qed

subsection \<open>Expiry\<close>

lemma next_of_fold_bump:
  "distinct ks \<Longrightarrow> next_of (fold (\<lambda>k c. bump k (g k) c) ks c) k
     = next_of c k + (if k \<in> set ks then g k else 0)"
  by (induction ks arbitrary: c) (auto simp: next_of_bump)

lemma next_of_bump_groups: "next_of (bump_groups locked c) k = next_of c k + group_size locked k"
proof -
  have "group_size locked k = 0" if "k \<notin> set (map (\<lambda>j. counter_key (j_problem_id j)) locked)"
    using that by (auto simp: group_size_def count_where_def filter_empty_conv)
  then show ?thesis unfolding bump_groups_def by (subst next_of_fold_bump) auto
qed

lemma row_number_bounds:
  assumes "j \<in> set locked"
  shows "1 \<le> row_number locked j" "row_number locked j \<le> group_size locked (key_of j)"
proof -
  let ?k = "counter_key (j_problem_id j)"
  let ?lt = "filter (\<lambda>l. counter_key (j_problem_id l) = ?k \<and> j_id l < j_id j) locked"
  let ?all = "filter (\<lambda>l. counter_key (j_problem_id l) = ?k) locked"
  have "?lt = filter (\<lambda>l. j_id l < j_id j) ?all" by (simp add: conj_commute)
  moreover have "length (filter (\<lambda>l. j_id l < j_id j) ?all) < length ?all"
    by (rule length_filter_less [of j]) (use assms in auto)
  ultimately have "length ?lt < length ?all" by simp
  then show "row_number locked j \<le> group_size locked (key_of j)"
    by (simp add: row_number_def group_size_def count_where_def key_of_def)
  show "1 \<le> row_number locked j" by (simp add: row_number_def)
qed

text \<open>The statement's arithmetic hands out consecutive tokens from the old counter value.\<close>

lemma revoked_token_eq:
  assumes "j \<in> set locked"
  shows "revoked_token locked (bump_groups locked c) j = next_of c (key_of j) + row_number locked j - 1"
  using row_number_bounds [OF assms]
  by (simp add: revoked_token_def Let_def next_of_bump_groups key_of_def)

lemma fence_failExpired: "pres fence_step failExpiredRunningJobs"
proof (rule presI)
  fix s
  define locked where "locked = filter (exhausted s) (jobs s)"
  define c where "c = bump_groups locked (job_fencing_counters s)"
  show "fence_step s (snd (failExpiredRunningJobs s))"
    unfolding failExpiredRunningJobs_def Let_def locked_def [symmetric] c_def [symmetric]
  proof (auto simp: fence_step_refl split: prod.splits sum.splits elim!: fence_step_update_jobs)
    show "next_of (job_fencing_counters s) k \<le> next_of c k" for k
      by (simp add: c_def next_of_bump_groups)
  next
    fix j
    assume ok: "fence_ok s" and j: "j \<in> set (jobs s)" and ex: "exhausted s j"
    then have l: "j \<in> set locked" by (simp add: locked_def)
    have t: "revoked_token locked c j = next_of (job_fencing_counters s) (key_of j) + row_number locked j - 1"
      unfolding c_def by (rule revoked_token_eq [OF l])
    show "j_fencing_token j \<le> revoked_token locked c j"
      using t row_number_bounds [OF l] ok j by (auto simp: fence_ok_def less_imp_le trans_le_add1)
    show "revoked_token locked c j < next_of c (key_of j)"
      using t row_number_bounds [OF l] by (simp add: c_def next_of_bump_groups)
  qed
qed

lemma fence_acquireJob: "pres fence_step (acquireJob w n ln)"
  unfolding acquireJob_def by (intro pres_intros fence_failExpired fence_acquire_stmt)

section \<open>The rows' own invariant\<close>

text \<open>
  No job is tried more often than allowed and a waiting one still has a try left; a running job
  has an owner and a lease; an active job carries no cancellation mark.
\<close>

definition job_row_ok :: "job \<Rightarrow> bool" where
  "job_row_ok j \<longleftrightarrow>
     j_attempt j \<le> j_max_attempts j
     \<and> (j_state j = Pending \<longrightarrow> j_attempt j < j_max_attempts j)
     \<and> (j_state j = Running \<longrightarrow> j_lease_owner j \<noteq> None \<and> j_lease_expires_at j \<noteq> None)
     \<and> (job_active j \<longrightarrow> j_requested_cancel_at j = None)"

definition rows_ok :: "db \<Rightarrow> bool" where
  "rows_ok s \<longleftrightarrow> jobs_violation (jobs s) = None \<and> (\<forall>j \<in> set (jobs s). job_row_ok j)"

definition keeps_rows :: "db \<Rightarrow> db \<Rightarrow> bool" where
  "keeps_rows s t \<longleftrightarrow> (rows_ok s \<longrightarrow> rows_ok t)"

interpretation rows: preorder_rel keeps_rows
  by unfold_locales (auto simp: keeps_rows_def)

lemma job_row_ok_updated_at [simp]: "job_row_ok (j\<lparr>j_updated_at := n\<rparr>) = job_row_ok j"
  by (simp add: job_row_ok_def job_active_def)

lemma keeps_rows_same: "jobs t = jobs s \<Longrightarrow> keeps_rows s t"
  by (simp add: keeps_rows_def rows_ok_def)

lemma keeps_rows_update:
  assumes u: "update_jobs st p f s0 = (r, t)" and "jobs s0 = jobs s"
    and f: "\<And>j. rows_ok s \<Longrightarrow> j \<in> set (jobs s) \<Longrightarrow> job_row_ok j \<Longrightarrow> p j \<Longrightarrow> job_row_ok (f j)"
  shows "keeps_rows s t"
  using u
proof (cases rule: update_jobs_cases)
  case (failed c)
  with assms(2) show ?thesis by (simp add: keeps_rows_same)
next
  case ok
  with assms(2) f show ?thesis
    by (fastforce simp: keeps_rows_def rows_ok_def updated_job_def)
qed

lemma rows_update_jobs:
  "(\<And>j. job_row_ok j \<Longrightarrow> p j \<Longrightarrow> job_row_ok (f j)) \<Longrightarrow> pres keeps_rows (update_jobs st p f)"
  by (rule presI) (metis keeps_rows_update prod.collapse)

lemma rows_createJob: "pres keeps_rows (createJob opts)"
proof (rule presI)
  fix s
  obtain r t where eq: "createJob_stmt opts (create_fingerprint opts) s = (r, t)" by fastforce
  then consider i where "update_jobs False (\<lambda>j. j_id j = i) id s = (r, t)"
    | "t = s"
    | i fp n where "jobs t = jobs s @ [new_job opts fp i n]" and "jobs_violation (jobs t) = None"
    by (auto simp: createJob_stmt_def Let_def fresh_uuid_def
        split: list.splits option.splits if_splits prod.splits sum.splits elim!: insert_job_cases)
  then have "keeps_rows s t"
  proof cases
    case 1
    then show ?thesis by (rule keeps_rows_update) simp_all
  next
    case 2
    then show ?thesis by (simp add: keeps_rows_same)
  next
    case 3
    then show ?thesis by (auto simp: keeps_rows_def rows_ok_def new_job_def job_row_ok_def)
  qed
  with eq show "keeps_rows s (snd (createJob opts s))" by (simp add: snd_createJob)
qed

lemma rows_cancelPending: "pres keeps_rows (cancelPendingLocalJobsForRestore pid)"
  unfolding cancelPendingLocalJobsForRestore_def
  by (intro pres_intros rows_update_jobs) (simp add: job_row_ok_def job_active_def)

lemma rows_upsert_usage: "pres keeps_rows (upsert_usage ins upd)"
  by (auto simp: pres_def upsert_usage_def Let_def intro!: keeps_rows_same)

lemma rows_modify: "(\<And>s. jobs (h s) = jobs s) \<Longrightarrow> pres keeps_rows (modify h)"
  by (auto simp: pres_def intro: keeps_rows_same)

lemma rows_createRestore: "pres keeps_rows (createRestoreJobIfMissing opts)"
  unfolding createRestoreJobIfMissing_def
  by (intro pres_intros rows_cancelPending rows_upsert_usage rows_createJob)

lemma rows_touchProblemAccess: "pres keeps_rows (touchProblemAccess pid)"
  unfolding touchProblemAccess_def
  by (intro pres_intros rows_modify rows_update_jobs) (simp_all add: job_row_ok_def job_active_def)

lemma rows_renew: "pres keeps_rows (renewJobLease i w k n)"
  unfolding renewJobLease_def
  by (intro pres_intros rows_update_jobs) (simp add: job_row_ok_def job_active_def)

definition final_state :: "job_state \<Rightarrow> bool" where
  "final_state st \<longleftrightarrow> st \<noteq> Pending \<and> st \<noteq> Running"

lemma rows_complete: "final_state st \<Longrightarrow> pres keeps_rows (completeJobWithLease t st res ec em)"
  unfolding completeJobWithLease_def
  by (intro pres_intros rows_update_jobs) (simp add: job_row_ok_def job_active_def final_state_def)

lemma rows_updateJobState: "final_state st \<Longrightarrow> pres keeps_rows (updateJobState i st res ec em)"
  unfolding updateJobState_def
  by (intro pres_intros rows_update_jobs) (simp add: job_row_ok_def job_active_def final_state_def)

lemma rows_setJobPayload: "pres keeps_rows (setJobPayload i v)"
  unfolding setJobPayload_def
  by (intro pres_intros rows_update_jobs) (simp add: job_row_ok_def job_active_def)

lemma rows_retryJob: "pres keeps_rows (retryJob i)"
  unfolding retryJob_def
  by (intro pres_intros rows_update_jobs) (auto simp: job_row_ok_def job_active_def)

lemma rows_cancelJob: "pres keeps_rows (cancelJob i reason)"
  unfolding pres_def cancelJob_def Let_def
  by (auto simp: keeps_rows_same job_row_ok_def job_active_def
      split: option.splits prod.splits sum.splits elim!: keeps_rows_update)

lemma rows_failExpired: "pres keeps_rows failExpiredRunningJobs"
  unfolding pres_def failExpiredRunningJobs_def Let_def
  by (auto simp: keeps_rows_same job_row_ok_def job_active_def
      split: option.splits prod.splits sum.splits elim!: keeps_rows_update)

lemma rows_acquire_stmt: "pres keeps_rows (acquire_stmt w n ln)"
proof (rule presI)
  fix s
  show "keeps_rows s (snd (acquire_stmt w n ln s))"
  proof (cases "candidate ln s")
    case None
    then show ?thesis by (simp add: acquire_stmt_def keeps_rows_same)
  next
    case (Some c)
    then have c: "c \<in> set (jobs s)" "acquirable ln s c" by (auto dest: candidate_Some)
    have act: "job_active j" if "rows_ok s" "j \<in> set (jobs s)" "j_id j = j_id c" for j
      using that c id_unique [of "jobs s" j c]
      by (auto simp: rows_ok_def acquirable_def expired_def job_active_def)
    with Some show ?thesis
      by (auto simp: acquire_stmt_def Let_def keeps_rows_same job_row_ok_def job_active_def
          split: prod.splits sum.splits if_splits elim!: keeps_rows_update)
  qed
qed

lemma rows_acquireJob: "pres keeps_rows (acquireJob w n ln)"
  unfolding acquireJob_def by (intro pres_intros rows_failExpired rows_acquire_stmt)

section \<open>The queue as a transition system\<close>

text \<open>
  One rule per operation on the queue, in any order and with any arguments, a rule for the rows
  retention and cascades delete, and a rule for everything that does not touch the queue: other
  tables, the clock, the identifiers drawn elsewhere.
\<close>

inductive queue_step :: "db \<Rightarrow> db \<Rightarrow> bool" where
  qs_create: "queue_step s (snd (createJob opts s))"
| qs_cancel_local: "queue_step s (snd (cancelPendingLocalJobsForRestore pid s))"
| qs_restore: "queue_step s (snd (createRestoreJobIfMissing ropts s))"
| qs_touch: "queue_step s (snd (touchProblemAccess pid s))"
| qs_expire: "queue_step s (snd (failExpiredRunningJobs s))"
| qs_acquire: "queue_step s (snd (acquireJob w n ln s))"
| qs_renew: "queue_step s (snd (renewJobLease i w k n s))"
| qs_complete: "final_state st \<Longrightarrow> queue_step s (snd (completeJobWithLease t st res ec em s))"
| qs_update: "final_state st \<Longrightarrow> queue_step s (snd (updateJobState i st res ec em s))"
| qs_payload: "queue_step s (snd (setJobPayload i v s))"
| qs_cancel: "queue_step s (snd (cancelJob i reason s))"
| qs_retry: "queue_step s (snd (retryJob i s))"
| qs_prune: "jobs t = filter q (jobs s) \<Longrightarrow> job_fencing_counters t = job_fencing_counters s \<Longrightarrow>
     uuid_src t = uuid_src s \<Longrightarrow> uuid_pos s \<le> uuid_pos t \<Longrightarrow> now_us s \<le> now_us t \<Longrightarrow> queue_step s t"

lemma qs_env:
  "jobs t = jobs s \<Longrightarrow> job_fencing_counters t = job_fencing_counters s \<Longrightarrow> uuid_src t = uuid_src s
   \<Longrightarrow> uuid_pos s \<le> uuid_pos t \<Longrightarrow> now_us s \<le> now_us t \<Longrightarrow> queue_step s t"
  by (rule qs_prune [where q = "\<lambda>_. True"]) simp_all

lemmas fence_ops = fence_createJob fence_cancelPending fence_createRestore fence_touchProblemAccess
  fence_failExpired fence_acquireJob fence_renew fence_complete fence_updateJobState
  fence_setJobPayload fence_cancelJob fence_retryJob

lemmas rows_ops = rows_createJob rows_cancelPending rows_createRestore rows_touchProblemAccess
  rows_failExpired rows_acquireJob rows_renew rows_complete rows_updateJobState
  rows_setJobPayload rows_cancelJob rows_retryJob

lemma queue_step_fence: "queue_step s t \<Longrightarrow> fence_step s t"
  by (induction rule: queue_step.induct) (auto intro: fence_ops [THEN presD] fence_step_fewer_jobs)

lemma queue_step_rows: "queue_step s t \<Longrightarrow> keeps_rows s t"
proof (induction rule: queue_step.induct)
  case (qs_prune t q s)
  then show ?case by (auto simp: keeps_rows_def rows_ok_def jobs_violation_filter)
qed (auto intro: rows_ops [THEN presD])

definition queue_ok :: "db \<Rightarrow> bool" where
  "queue_ok s \<longleftrightarrow> fence_ok s \<and> rows_ok s"

lemma queue_steps_fence: "queue_step\<^sup>*\<^sup>* s t \<Longrightarrow> fence_step s t"
  by (induction rule: rtranclp_induct) (auto intro: fence_step_refl fence_step_trans queue_step_fence)

lemma queue_steps_ok: "queue_step\<^sup>*\<^sup>* s t \<Longrightarrow> queue_ok s \<Longrightarrow> queue_ok t"
proof (induction rule: rtranclp_induct)
  case (step t u)
  then show ?case using queue_step_fence [of t u] queue_step_rows [of t u]
    by (simp add: queue_ok_def fence_step_def keeps_rows_def)
qed

lemma queue_ok_initial: "queue_ok (initial_db u)"
  by (simp add: queue_ok_def fence_ok_def rows_ok_def initial_db_def jobs_violation_None
      unique_on_def next_of_def)

text \<open>The queue's invariant. Every state the queue can reach from the freshly migrated database,
  by any operations in any order and any passage of time, satisfies all unique indexes, keeps
  each job's token below its counter, never exceeds a job's maximal number of attempts, leaves
  a waiting job at least one attempt, and gives every running job an owner and a lease.\<close>

theorem queue_invariant:
  assumes "queue_step\<^sup>*\<^sup>* (initial_db u) s"
  shows "jobs_violation (jobs s) = None
    \<and> (\<forall>j \<in> set (jobs s). j_fencing_token j < next_of (job_fencing_counters s) (key_of j)
                          \<and> job_row_ok j)"
  using queue_steps_ok [OF assms queue_ok_initial]
  by (auto simp: queue_ok_def fence_ok_def rows_ok_def)

theorem queue_invariant_witness:
  "\<exists>s j. queue_step\<^sup>*\<^sup>* (initial_db demo_uuid) s \<and> jobs s = [j] \<and> j_state j = Running
     \<and> j_fencing_token j < next_of (job_fencing_counters s) (key_of j) \<and> job_row_ok j"
proof -
  let ?s1 = "snd (createJob (demo_opts ''k'' Reconcile None) (initial_db demo_uuid))"
  let ?s2 = "snd (acquireJob ''w'' 60 LaneBulk ?s1)"
  have steps: "queue_step\<^sup>*\<^sup>* (initial_db demo_uuid) ?s2"
    by (meson qs_create qs_acquire r_into_rtranclp rtranclp.rtrancl_into_rtrancl)
  have "\<exists>j. jobs ?s2 = [j] \<and> j_state j = Running"
    by (simp add: demo_simps queue_eval)
  then obtain j where j: "jobs ?s2 = [j]" "j_state j = Running" by blast
  with queue_invariant [OF steps] have "j_fencing_token j < next_of (job_fencing_counters ?s2) (key_of j)
      \<and> job_row_ok j" by (metis list.set_intros(1))
  with steps j show ?thesis by blast
qed

section \<open>Stale workers\<close>

definition superseded :: "db \<Rightarrow> jobT \<Rightarrow> bool" where
  "superseded s t \<longleftrightarrow>
     (\<forall>j \<in> set (jobs s). j_id j = jt_id t \<longrightarrow> jt_fencing_token t < j_fencing_token j)
     \<and> \<not> future_uuid s (jt_id t)"

lemma superseded_step:
  assumes "fence_ok s" and "fence_step s t" and "superseded s w"
  shows "superseded t w"
proof -
  have "jt_fencing_token w < j_fencing_token j" if j: "j \<in> set (jobs t)" "j_id j = jt_id w" for j
  proof -
    have "token_of s (j_id j) (j_fencing_token j) \<or> future_uuid s (j_id j)"
      using assms(1,2) j(1) by (simp add: fence_step_def)
    with assms(3) j(2) show ?thesis by (fastforce simp: superseded_def token_of_def)
  qed
  moreover have "\<not> future_uuid t (jt_id w)"
    using assms(2,3) by (metis fence_step_def future_uuid_mono superseded_def)
  ultimately show ?thesis by (simp add: superseded_def)
qed

lemma superseded_no_lease: "superseded s t \<Longrightarrow> \<not> holds_lease s t"
  by (auto simp: superseded_def holds_lease_def lease_held_def)

lemma update_jobs_no_hit:
  assumes "jobs_violation (jobs s) = None" and "\<And>j. j \<in> set (jobs s) \<Longrightarrow> \<not> p j"
  shows "update_jobs st p f s = (Inr [], s)"
proof -
  have "map (updated_job p f (now_us s)) (jobs s) = jobs s"
    using assms(2) by (simp add: map_idI)
  moreover have "filter p (jobs s) = []" using assms(2) by (simp add: filter_empty_conv)
  ultimately show ?thesis using assms(1) by (simp add: update_jobs_def)
qed

lemma complete_without_lease:
  assumes "jobs_violation (jobs s) = None" and "\<not> holds_lease s t"
  shows "completeJobWithLease t st res ec em s = (Inr None, s)"
proof -
  have "update_jobs True (lease_held s (jt_id t) (jt_lease_owner t) (jt_fencing_token t)) f s = (Inr [], s)" for f
    using assms by (intro update_jobs_no_hit) (auto simp: holds_lease_def)
  then show ?thesis by (simp add: completeJobWithLease_def bnd_def first_row_def)
qed

lemma renew_superseded:
  assumes "jobs_violation (jobs s) = None" and "superseded s t"
  shows "renewJobLease (jt_id t) w (jt_fencing_token t) n s = (Inr False, s)"
proof -
  have "update_jobs False (lease_held s (jt_id t) (Some w) (jt_fencing_token t)) f s = (Inr [], s)" for f
    using assms by (intro update_jobs_no_hit) (auto simp: lease_held_def superseded_def)
  then show ?thesis by (simp add: renewJobLease_def bnd_def)
qed

text \<open>Fencing. Once the row of a job carries a token above the one a worker holds (or the row is
  gone and its id will not be generated again), no sequence of queue operations ever lets that
  worker back in: from every later state its lease assertion raises \<open>JobLeaseLostError\<close>, its
  renewal answers false, and its completion returns null and changes nothing.\<close>

theorem stale_worker_never_commits:
  assumes "queue_ok s" and "superseded s t" and "queue_step\<^sup>*\<^sup>* s s'"
  shows "assertJobLease t s' = (Inl (JobLeaseLostError (jt_id t)), s')
    \<and> renewJobLease (jt_id t) w (jt_fencing_token t) n s' = (Inr False, s')
    \<and> completeJobWithLease t st res ec em s' = (Inr None, s')"
proof -
  have "superseded s' t"
    using assms queue_steps_fence superseded_step by (auto simp: queue_ok_def)
  moreover have "jobs_violation (jobs s') = None"
    using queue_steps_ok [OF assms(3,1)] by (simp add: queue_ok_def fence_ok_def)
  ultimately show ?thesis
    using superseded_no_lease complete_without_lease renew_superseded by (simp add: assertJobLease_def)
qed

theorem stale_worker_never_commits_witness:
  "assertJobLease ((rowToJob (demo_running ''a'' Scan (Some ''1'')))\<lparr>jt_fencing_token := 0\<rparr>)
     (snd (renewJobLease ''a'' ''w'' 1 60 (demo_db [demo_running ''a'' Scan (Some ''1'')])))
   = (Inl (JobLeaseLostError ''a''),
      snd (renewJobLease ''a'' ''w'' 1 60 (demo_db [demo_running ''a'' Scan (Some ''1'')])))"
proof -
  let ?s = "demo_db [demo_running ''a'' Scan (Some ''1'')]"
  let ?t = "(rowToJob (demo_running ''a'' Scan (Some ''1'')))\<lparr>jt_fencing_token := 0\<rparr>"
  have ok: "queue_ok ?s"
    by (simp add: queue_ok_def fence_ok_def rows_ok_def job_row_ok_def key_of_def demo_simps queue_eval)
  have sup: "superseded ?s ?t"
    by (simp add: superseded_def future_uuid_def rowToJob_def demo_simps)
  have "queue_step\<^sup>*\<^sup>* ?s (snd (renewJobLease ''a'' ''w'' 1 60 ?s))"
    using qs_renew by blast
  from stale_worker_never_commits [OF ok sup this] show ?thesis
    by (simp add: rowToJob_def demo_running_def demo_job_def)
qed

end
