(* ===== verification/Catalog.thy ===== *)
theory Catalog
  imports Queue
begin

text \<open>
  The problem catalog of \<open>control-plane/src/db.ts\<close>: the projection of the judge's problems, the
  claim of a watcher-made orphan row by its catalog problem, tombstones, and the dirty marks that
  drive automatic snapshots.
\<close>

section \<open>Rows as the API returns them\<close>

text \<open>
  \<open>int8\<close> turns a \<open>bigint\<close> column into a JavaScript number while it is exact and into its decimal
  text above \<open>Number.MAX_SAFE_INTEGER\<close>. (Below minus that bound \<open>Number\<close> would round; no column
  of the schema is that small.)
\<close>

definition max_safe_integer :: int where
  "max_safe_integer = 9007199254740991"

definition int8 :: "int \<Rightarrow> json" where
  "int8 n = (if n \<le> max_safe_integer then JNum n else JStr (int_text n))"

text \<open>\<open>${v}\<close> on such a value.\<close>

definition int8_text :: "json \<Rightarrow> string" where
  "int8_text v = (case v of JNum n \<Rightarrow> int_text n | JStr t \<Rightarrow> t | _ \<Rightarrow> [])"

lemma int8_text_int8 [simp]: "int8_text (int8 n) = int_text n"
  by (simp add: int8_text_def int8_def)

record problemT =
  pt_external_id :: string
  pt_code :: string
  pt_logical_bytes :: "json option"
  pt_owner_organization :: "string option"
  pt_is_manually_managed :: bool
  pt_mirror_of :: "string option"
  pt_mirror_root :: "string option"
  pt_quota_bytes :: "json option"
  pt_catalog_state :: catalog_state
  pt_dirty :: bool
  pt_dirty_generation :: "nat option"
  pt_dirty_version :: json
  pt_observed_at :: nat
  pt_stale :: bool

text \<open>
  The row of a plain \<open>SELECT * FROM problems\<close>; the listing adds the joined \<open>logical_bytes\<close>.
\<close>

definition rowToProblem :: "problem \<Rightarrow> int option \<Rightarrow> problemT" where
  "rowToProblem r logical =
     \<lparr>pt_external_id = p_external_id r,
      pt_code = p_code r,
      pt_logical_bytes = map_option int8 logical,
      pt_owner_organization = p_owner_organization r,
      pt_is_manually_managed = p_is_manually_managed r,
      pt_mirror_of = p_mirror_of r,
      pt_mirror_root = p_mirror_root r,
      pt_quota_bytes = map_option int8 (p_quota_bytes r),
      pt_catalog_state = p_catalog_state r,
      pt_dirty = p_dirty r,
      pt_dirty_generation = p_dirty_generation r,
      pt_dirty_version = int8 (int (p_dirty_version r)),
      pt_observed_at = toRfc3339 (p_observed_at r),
      pt_stale = p_stale r\<rparr>"

section \<open>Upserting a catalog problem\<close>

text \<open>
  What \<open>catalogProblemFrom\<close> of \<open>routes.ts\<close> hands over. A quota arrives as decimal text; the
  entry holds the number, the fingerprint below prints it again.
\<close>

record catalog_entry =
  ce_externalId :: string
  ce_code :: string
  ce_ownerOrganization :: "string option"
  ce_isManuallyManaged :: bool
  ce_mirrorOf :: "string option"
  ce_mirrorRoot :: "string option"
  ce_quotaBytes :: "int option"
  ce_schemaVersion :: int

definition code_owner :: "string \<Rightarrow> db \<Rightarrow> problem option" where
  "code_owner code s = List.find (\<lambda>p. p_code p = code) (problems s)"

definition orphan_id :: "string \<Rightarrow> string" where
  "orphan_id code = ''orphan:'' @ code"

definition is_orphan_row :: "string \<Rightarrow> problem \<Rightarrow> bool" where
  "is_orphan_row code p \<longleftrightarrow> p_code p = code \<and> p_catalog_state p = COrphan"

definition has_history :: "string \<Rightarrow> db \<Rightarrow> bool" where
  "has_history pid s \<longleftrightarrow>
     (\<exists>n \<in> set (snapshots s). s_problem_id n = pid) \<or> (\<exists>j \<in> set (jobs s). j_problem_id j = Some pid)"

text \<open>\<open>INSERT INTO problem_usage \<dots> SELECT \<dots> WHERE problem_id = orphan ON CONFLICT DO UPDATE\<close>.\<close>

definition merge_orphan_usage :: "string \<Rightarrow> string \<Rightarrow> (db, unit) act" where
  "merge_orphan_usage orphan target = reading (\<lambda>s.
     case usage_of orphan s of
       None \<Rightarrow> ret ()
     | Some e \<Rightarrow>
         bnd (upsert_usage
                ((default_usage target (now_us s))
                   \<lparr>u_logical_bytes := u_logical_bytes e, u_allocated_bytes := u_allocated_bytes e,
                    u_archive_bytes := u_archive_bytes e, u_auxiliary_bytes := u_auxiliary_bytes e,
                    u_file_count := u_file_count e, u_local_status := LPresent,
                    u_orphan_bytes := u_orphan_bytes e, u_referenced_bytes := u_referenced_bytes e,
                    u_observed_at := u_observed_at e, u_stale := u_stale e\<rparr>)
                (\<lambda>u. u\<lparr>u_logical_bytes := u_logical_bytes e, u_allocated_bytes := u_allocated_bytes e,
                       u_archive_bytes := u_archive_bytes e, u_auxiliary_bytes := u_auxiliary_bytes e,
                       u_file_count := u_file_count e, u_local_status := LPresent,
                       u_orphan_bytes := u_orphan_bytes e,
                       u_observed_at := max (u_observed_at u) (u_observed_at e),
                       u_stale := u_stale e\<rparr>))
             (\<lambda>_. ret ()))"

text \<open>What \<open>upsertProblem\<close> does about a row that already owns the code.\<close>

definition claim_code :: "string \<Rightarrow> string \<Rightarrow> (db, unit) act" where
  "claim_code externalId code = reading (\<lambda>s.
     case code_owner code s of
       None \<Rightarrow> ret ()
     | Some p \<Rightarrow>
         if p_external_id p = externalId then ret ()
         else if p_catalog_state p \<noteq> COrphan \<or> p_external_id p \<noteq> orphan_id code
         then throw (CatalogCodeConflictError code (p_external_id p))
         else if problem_exists externalId s then
           if has_history (orphan_id code) s then throw (OrphanHistoryConflictError code)
           else bnd (merge_orphan_usage (orphan_id code) externalId)
                    (\<lambda>_. bnd (delete_problem (orphan_id code) (is_orphan_row code)) (\<lambda>_. ret ()))
         else rename_problem (orphan_id code) externalId (is_orphan_row code))"

definition catalog_row :: "catalog_entry \<Rightarrow> time \<Rightarrow> problem" where
  "catalog_row e now =
     \<lparr>p_external_id = ce_externalId e, p_code = ce_code e,
      p_owner_organization = ce_ownerOrganization e,
      p_is_manually_managed = ce_isManuallyManaged e, p_mirror_of = ce_mirrorOf e,
      p_mirror_root = ce_mirrorRoot e, p_catalog_state = CPresent, p_observed_at = now,
      p_stale = False, p_dirty = False, p_dirty_generation = None, p_dirty_version = 0,
      p_quota_bytes = ce_quotaBytes e, p_schema_version = ce_schemaVersion e\<rparr>"

definition set_catalog_columns :: "catalog_entry \<Rightarrow> time \<Rightarrow> problem \<Rightarrow> problem" where
  "set_catalog_columns e now r =
     r\<lparr>p_code := ce_code e, p_owner_organization := ce_ownerOrganization e,
       p_is_manually_managed := ce_isManuallyManaged e, p_mirror_of := ce_mirrorOf e,
       p_mirror_root := ce_mirrorRoot e, p_quota_bytes := ce_quotaBytes e,
       p_schema_version := ce_schemaVersion e, p_catalog_state := CPresent,
       p_observed_at := now, p_stale := False\<rparr>"

definition upsertProblem :: "catalog_entry \<Rightarrow> (db, problemT) act" where
  "upsertProblem e = tx (
     bnd (claim_code (ce_externalId e) (ce_code e)) (\<lambda>_. reading (\<lambda>s.
       bnd (upsert_problem_row False (catalog_row e (now_us s)) (set_catalog_columns e (now_us s)))
           (\<lambda>r. ret (rowToProblem r None)))))"

section \<open>Tombstones\<close>

definition outside_catalog :: "string list \<Rightarrow> problem \<Rightarrow> bool" where
  "outside_catalog ids p \<longleftrightarrow>
     p_catalog_state p \<in> {CPresent, CMirror, CMissing} \<and> p_external_id p \<notin> set ids"

definition markMissingOutsideCatalog :: "string list \<Rightarrow> (db, nat) act" where
  "markMissingOutsideCatalog externalIds =
     (if externalIds = [] then ret 0
      else reading (\<lambda>s.
        bnd (update_problems False (outside_catalog externalIds)
               (\<lambda>p. p\<lparr>p_catalog_state := CDeleted, p_observed_at := now_us s, p_stale := False\<rparr>))
            (\<lambda>rows. ret (length rows))))"

section \<open>Dirty marks\<close>

definition has_ready_snapshot :: "string \<Rightarrow> db \<Rightarrow> bool" where
  "has_ready_snapshot pid s \<longleftrightarrow> (\<exists>n \<in> set (snapshots s). s_problem_id n = pid \<and> s_state n = Ready)"

definition cataloged :: "problem \<Rightarrow> bool" where
  "cataloged p \<longleftrightarrow> p_catalog_state p = CPresent \<or> p_catalog_state p = CMirror"

definition clearDirtyForMissingLocal :: "(db, nat) act" where
  "clearDirtyForMissingLocal = reading (\<lambda>s.
     bnd (update_problems False
            (\<lambda>p. (\<exists>u \<in> set (problem_usage s). u_problem_id u = p_external_id p
                     \<and> u_local_status u = LMissing)
                 \<and> p_dirty p \<and> cataloged p \<and> \<not> has_ready_snapshot (p_external_id p) s)
            (\<lambda>p. p\<lparr>p_dirty := False, p_dirty_generation := None, p_stale := False,
                   p_observed_at := now_us s\<rparr>))
         (\<lambda>rows. ret (length rows)))"

definition first_problem :: "problem list \<Rightarrow> problemT option" where
  "first_problem rows = (case rows of [] \<Rightarrow> None | r # _ \<Rightarrow> Some (rowToProblem r None))"

definition markProblemDirty :: "string \<Rightarrow> (db, problemT option) act" where
  "markProblemDirty externalId = reading (\<lambda>s.
     bnd (update_problems True (\<lambda>p. p_external_id p = externalId)
            (\<lambda>p. p\<lparr>p_dirty := True, p_dirty_version := p_dirty_version p + 1, p_stale := True,
                   p_observed_at := now_us s\<rparr>))
         (\<lambda>rows. ret (first_problem rows)))"

text \<open>The second statement of both dirty transactions.\<close>

definition set_dirty_generation :: "string \<Rightarrow> nat \<Rightarrow> (db, problem list) act" where
  "set_dirty_generation externalId generation =
     update_problems False (\<lambda>p. p_external_id p = externalId \<and> p_dirty p)
       (\<lambda>p. p\<lparr>p_dirty_generation := Some generation\<rparr>)"

definition markDirtyIfNoReady :: "string \<Rightarrow> (db, problemT option) act" where
  "markDirtyIfNoReady externalId = tx (reading (\<lambda>s.
     bnd (update_problems False
            (\<lambda>p. p_external_id p = externalId \<and> \<not> p_dirty p \<and> cataloged p
                 \<and> \<not> has_ready_snapshot (p_external_id p) s)
            (\<lambda>p. p\<lparr>p_dirty := True, p_dirty_generation := None, p_stale := True,
                   p_observed_at := now_us s\<rparr>))
         (\<lambda>rows. if rows = [] then ret None
                 else bnd (allocateGeneration externalId) (\<lambda>generation.
                        bnd (set_dirty_generation externalId generation)
                            (\<lambda>updated. ret (first_problem updated))))))"

subsection \<open>The idempotent notification of the judge\<close>

record dirty_request =
  dr_entry :: catalog_entry
  dr_deleted :: bool

definition dirty_fingerprint :: "dirty_request \<Rightarrow> string" where
  "dirty_fingerprint r =
     (let e = dr_entry r in
      stableFingerprint (JObj
        [(''external_id'', JStr (ce_externalId e)),
         (''code'', JStr (ce_code e)),
         (''owner_organization'', json_of_option JStr (ce_ownerOrganization e)),
         (''is_manually_managed'', JBool (ce_isManuallyManaged e)),
         (''mirror_of'', json_of_option JStr (ce_mirrorOf e)),
         (''mirror_root'', json_of_option JStr (ce_mirrorRoot e)),
         (''quota_bytes'', json_of_option (\<lambda>q. JStr (int_text q)) (ce_quotaBytes e)),
         (''schema_version'', JNum (ce_schemaVersion e)),
         (''catalog_state'', JStr (if dr_deleted r then ''deleted'' else ''present''))]))"

definition claim_code_dirty :: "string \<Rightarrow> string \<Rightarrow> (db, unit) act" where
  "claim_code_dirty externalId code = reading (\<lambda>s.
     case code_owner code s of
       None \<Rightarrow> ret ()
     | Some p \<Rightarrow>
         if p_external_id p = externalId then ret ()
         else if p_catalog_state p \<noteq> COrphan \<or> p_external_id p \<noteq> orphan_id code
         then throw (CatalogCodeConflictError code (p_external_id p))
         else rename_problem (orphan_id code) externalId (is_orphan_row code))"

definition dirty_scope :: string where
  "dirty_scope = ''problem.dirty''"

definition dirty_key_row :: "string \<Rightarrow> db \<Rightarrow> idempotency_row option" where
  "dirty_key_row key s =
     List.find (\<lambda>k. k_idempotency_key k = key \<and> k_scope k = dirty_scope) (idempotency_keys s)"

text \<open>A replay answers with the problem of the first request and writes nothing.\<close>

definition dirty_replay ::
  "dirty_request \<Rightarrow> idempotency_row \<Rightarrow> (db, problemT \<times> bool) act" where
  "dirty_replay r row = reading (\<lambda>s.
     if k_request_fingerprint row \<noteq> Some (dirty_fingerprint r)
       \<or> k_target_id row \<noteq> Some (ce_externalId (dr_entry r))
     then throw IdempotencyConflictError
     else (case List.find (\<lambda>p. p_external_id p = coalesce (k_response_problem_id row) (ce_externalId (dr_entry r)))
                  (problems s) of
             None \<Rightarrow> throw IdempotencyConflictError
           | Some p \<Rightarrow> ret (rowToProblem p None, False)))"

definition dirty_mutation :: "dirty_request \<Rightarrow> (db, problem) act" where
  "dirty_mutation r = reading (\<lambda>s.
     let e = dr_entry r; now = now_us s in
     if dr_deleted r
     then upsert_problem_row False
            ((catalog_row e now)\<lparr>p_catalog_state := CDeleted\<rparr>)
            (\<lambda>p. (set_catalog_columns e now p)
                   \<lparr>p_catalog_state := CDeleted, p_dirty := False, p_dirty_generation := None\<rparr>)
     else upsert_problem_row True
            ((catalog_row e now)\<lparr>p_dirty := True, p_dirty_version := 1, p_stale := True\<rparr>)
            (\<lambda>p. (set_catalog_columns e now p)
                   \<lparr>p_dirty := True, p_dirty_version := p_dirty_version p + 1,
                    p_dirty_generation := None, p_stale := True\<rparr>))"

definition new_key_row :: "string \<Rightarrow> string \<Rightarrow> dirty_request \<Rightarrow> time \<Rightarrow> idempotency_row" where
  "new_key_row key actor r now =
     \<lparr>k_idempotency_key = key, k_scope = dirty_scope, k_actor = Some actor, k_created_at = now,
      k_request_fingerprint = Some (dirty_fingerprint r), k_target_type = Some ''problem'',
      k_target_id = Some (ce_externalId (dr_entry r)), k_response_problem_id = None\<rparr>"

definition record_response :: "string \<Rightarrow> string \<Rightarrow> string \<Rightarrow> db \<Rightarrow> db" where
  "record_response key fp pid s =
     s\<lparr>idempotency_keys :=
         upd_where (\<lambda>k. k_idempotency_key k = key \<and> k_scope k = dirty_scope
                        \<and> k_request_fingerprint k = Some fp)
           (\<lambda>k. k\<lparr>k_response_problem_id := Some pid\<rparr>) (idempotency_keys s)\<rparr>"

definition markProblemDirtyIdempotent ::
  "string \<Rightarrow> string \<Rightarrow> dirty_request \<Rightarrow> (db, problemT \<times> bool) act" where
  "markProblemDirtyIdempotent key actor r = tx (
     let pid = ce_externalId (dr_entry r) in
     bnd (claim_code_dirty pid (ce_code (dr_entry r))) (\<lambda>_. reading (\<lambda>s.
       case dirty_key_row key s of
         Some row \<Rightarrow> dirty_replay r row
       | None \<Rightarrow>
           bnd (modify (\<lambda>s. s\<lparr>idempotency_keys := idempotency_keys s @ [new_key_row key actor r (now_us s)]\<rparr>))
             (\<lambda>_. bnd (dirty_mutation r) (\<lambda>row.
               bnd (if dr_deleted r then ret row
                    else bnd (allocateGeneration pid) (\<lambda>generation.
                           bnd (set_dirty_generation pid generation)
                             (\<lambda>updated. ret (case updated of [] \<Rightarrow> row | u # _ \<Rightarrow> u))))
                 (\<lambda>row'. bnd (modify (record_response key (dirty_fingerprint r) pid))
                           (\<lambda>_. ret (rowToProblem row' None, True))))))))"

section \<open>Lookups\<close>

definition getProblem :: "string \<Rightarrow> db \<Rightarrow> problemT option" where
  "getProblem externalId s =
     map_option (\<lambda>r. rowToProblem r None) (List.find (\<lambda>p. p_external_id p = externalId) (problems s))"

definition getProblemByCode :: "string \<Rightarrow> db \<Rightarrow> problemT option" where
  "getProblemByCode code s = map_option (\<lambda>r. rowToProblem r None) (code_owner code s)"

section \<open>What the statements on problems guarantee\<close>

lemma fold_reset_frame [simp]:
  "jobs (fold (\<lambda>r. reset_snapshot_backoff_on_dirty r (g r)) ps s) = jobs s"
  "problems (fold (\<lambda>r. reset_snapshot_backoff_on_dirty r (g r)) ps s) = problems s"
  "now_us (fold (\<lambda>r. reset_snapshot_backoff_on_dirty r (g r)) ps s) = now_us s"
  "uuid_src (fold (\<lambda>r. reset_snapshot_backoff_on_dirty r (g r)) ps s) = uuid_src s"
  "uuid_pos (fold (\<lambda>r. reset_snapshot_backoff_on_dirty r (g r)) ps s) = uuid_pos s"
  "job_fencing_counters (fold (\<lambda>r. reset_snapshot_backoff_on_dirty r (g r)) ps s) = job_fencing_counters s"
  "problem_generation_counters (fold (\<lambda>r. reset_snapshot_backoff_on_dirty r (g r)) ps s)
     = problem_generation_counters s"
  "snapshots (fold (\<lambda>r. reset_snapshot_backoff_on_dirty r (g r)) ps s) = snapshots s"
  "idempotency_keys (fold (\<lambda>r. reset_snapshot_backoff_on_dirty r (g r)) ps s) = idempotency_keys s"
  by (rule fold_frame; simp)+

lemma update_problems_cases:
  assumes "update_problems st p f s = (r, t)"
  obtains
    (failed) e where "r = Inl e" and "t = s"
  | (ok) "r = Inr (map (updated_problem p f) (filter p (problems s)))"
      and "problems t = map (updated_problem p f) (problems s)"
      and "problems_violation (problems t) = None"
  using assms
  by (cases "problems_violation (map (updated_problem p f) (problems s))")
     (auto simp: update_problems_def Let_def split: if_splits)

lemma update_problems_frame:
  assumes "update_problems st p f s = (r, t)"
  shows "now_us t = now_us s" "uuid_src t = uuid_src s" "uuid_pos t = uuid_pos s" "jobs t = jobs s"
    "job_fencing_counters t = job_fencing_counters s"
    "problem_generation_counters t = problem_generation_counters s"
    "snapshots t = snapshots s" "idempotency_keys t = idempotency_keys s"
  using assms by (auto simp: update_problems_def Let_def split: option.splits if_splits)

lemma updated_problem_simps [simp]:
  "p r \<Longrightarrow> updated_problem p f r = f r"
  "\<not> p r \<Longrightarrow> updated_problem p f r = r"
  by (simp_all add: updated_problem_def)

lemma upsert_problem_row_frame:
  assumes "upsert_problem_row st ins upd s = (r, t)"
  shows "idempotency_keys t = idempotency_keys s" "now_us t = now_us s" "jobs t = jobs s"
    "problem_generation_counters t = problem_generation_counters s" "snapshots t = snapshots s"
  using assms
  by (auto simp: upsert_problem_row_def dest: update_problems_frame
      split: if_splits prod.splits sum.splits list.splits option.splits)

text \<open>The row an upsert returns is in the table, and the table's constraints hold.\<close>

lemma upsert_problem_row_ok:
  assumes u: "upsert_problem_row st ins upd s = (Inr r, t)"
  shows "r \<in> set (problems t) \<and> problems_violation (problems t) = None
    \<and> (if problem_exists (p_external_id ins) s
       then \<exists>p \<in> set (problems s). p_external_id p = p_external_id ins \<and> r = upd p
       else r = ins)"
proof (cases "problem_exists (p_external_id ins) s")
  case True
  let ?p = "\<lambda>r. p_external_id r = p_external_id ins"
  obtain r' t' where u': "update_problems st ?p upd s = (r', t')" by fastforce
  from u' show ?thesis
  proof (cases rule: update_problems_cases)
    case (failed e)
    with u u' True show ?thesis by (simp add: upsert_problem_row_def)
  next
    case ok
    obtain x xs where x: "filter ?p (problems s) = x # xs"
      using True by (cases "filter ?p (problems s)")
        (auto simp: problem_exists_def filter_empty_conv)
    have "x \<in> set (filter ?p (problems s))" unfolding x by simp
    then have "x \<in> set (problems s)" "?p x" by simp_all
    with ok x u u' True show ?thesis
      by (auto simp: upsert_problem_row_def intro!: image_eqI [of _ _ x] bexI [of _ x])
  qed
next
  case False
  with u show ?thesis by (auto simp: upsert_problem_row_def split: option.splits)
qed

lemma problems_violation_distinct:
  assumes "problems_violation ps = None"
  shows "distinct (map p_external_id ps)" "distinct (map p_code ps)"
  using assms by (auto simp: problems_violation_def Let_def split: if_splits)

lemma code_owner_row:
  assumes "problems_violation (problems s) = None" and "p \<in> set (problems s)"
  shows "code_owner (p_code p) s = Some p"
  unfolding code_owner_def by (rule find_unique) (use assms problems_violation_distinct in auto)

lemma find_problem_row:
  assumes "problems_violation (problems s) = None" and "p \<in> set (problems s)"
  shows "List.find (\<lambda>q. p_external_id q = p_external_id p) (problems s) = Some p"
  by (rule find_unique) (use assms problems_violation_distinct in auto)

lemma catalog_columns [simp]:
  "p_external_id (set_catalog_columns e n p) = p_external_id p"
  "p_code (set_catalog_columns e n p) = ce_code e"
  "p_dirty_version (set_catalog_columns e n p) = p_dirty_version p"
  "p_external_id (catalog_row e n) = ce_externalId e"
  "p_code (catalog_row e n) = ce_code e"
  "p_dirty_version (catalog_row e n) = 0"
  "p_dirty (catalog_row e n) = False"
  by (simp_all add: set_catalog_columns_def catalog_row_def)

lemma find_problem_None:
  "List.find (\<lambda>p. p_external_id p = i) (problems s) = None \<longleftrightarrow> \<not> problem_exists i s"
  by (auto simp: find_None_iff2 problem_exists_def)

lemma upsert_problem_row_eq:
  assumes u: "upsert_problem_row st ins upd s = (Inr r, t)"
    and id: "\<And>p. p_external_id (upd p) = p_external_id p"
  shows "r = (case List.find (\<lambda>p. p_external_id p = p_external_id ins) (problems s) of
                None \<Rightarrow> ins | Some p \<Rightarrow> upd p)"
proof (cases "problem_exists (p_external_id ins) s")
  case True
  let ?p = "\<lambda>r. p_external_id r = p_external_id ins"
  obtain r' t' where u': "update_problems st ?p upd s = (r', t')" by fastforce
  with u True have "t = t'" by (auto simp: upsert_problem_row_def split: sum.splits list.splits)
  moreover from u' have "distinct (map p_external_id (problems s))"
  proof (cases rule: update_problems_cases)
    case (failed e)
    with u u' True show ?thesis by (simp add: upsert_problem_row_def)
  next
    case ok
    have "map p_external_id (problems t') = map p_external_id (problems s)"
      unfolding ok(2) by (simp add: updated_problem_def id)
    with problems_violation_distinct(1) [OF ok(3)] show ?thesis by simp
  qed
  moreover obtain p where p: "p \<in> set (problems s)" "p_external_id p = p_external_id ins" "r = upd p"
    using upsert_problem_row_ok [OF u] True by auto
  ultimately show ?thesis using find_unique [of p_external_id "problems s" p] by simp
next
  case False
  then show ?thesis using upsert_problem_row_ok [OF u] find_problem_None [of "p_external_id ins" s] by simp
qed

lemma dirty_mutation_ok:
  assumes m: "dirty_mutation r s = (Inr row, t)"
  shows "row \<in> set (problems t)" "problems_violation (problems t) = None"
    "idempotency_keys t = idempotency_keys s" "now_us t = now_us s"
    "problem_generation_counters t = problem_generation_counters s"
  using m unfolding dirty_mutation_def Let_def
  by (auto simp: Let_def dest: upsert_problem_row_ok upsert_problem_row_frame split: if_splits)

lemma dirty_mutation_row:
  assumes m: "dirty_mutation r s = (Inr row, t)"
  shows "p_external_id row = ce_externalId (dr_entry r)" "p_code row = ce_code (dr_entry r)"
    "p_dirty row = (\<not> dr_deleted r)"
    "\<not> dr_deleted r \<Longrightarrow> p_dirty_version row
       = (case List.find (\<lambda>p. p_external_id p = ce_externalId (dr_entry r)) (problems s) of
            None \<Rightarrow> 1 | Some p \<Rightarrow> p_dirty_version p + 1)"
  using m unfolding dirty_mutation_def Let_def
  by (auto simp: Let_def dest!: upsert_problem_row_eq split: if_splits option.splits
      dest: find_Some_in)

lemma filter_problem_row:
  assumes "problems_violation (problems s) = None" and "p \<in> set (problems s)" and "q p"
  shows "filter (\<lambda>x. p_external_id x = p_external_id p \<and> q x) (problems s) = [p]"
proof -
  have "filter (\<lambda>x. p_external_id x = p_external_id p) (problems s) = [p]"
    by (rule filter_unique_key) (use assms problems_violation_distinct in auto)
  then have "filter q (filter (\<lambda>x. p_external_id x = p_external_id p) (problems s)) = [p]"
    using assms(3) by simp
  then show ?thesis by (simp add: conj_commute)
qed

lemma set_dirty_generation_ok:
  assumes g: "set_dirty_generation pid gen s = (Inr us, t)"
    and ok: "problems_violation (problems s) = None" and p: "p \<in> set (problems s)"
    and "p_external_id p = pid" and "p_dirty p"
  shows "us = [p\<lparr>p_dirty_generation := Some gen\<rparr>]" "p\<lparr>p_dirty_generation := Some gen\<rparr> \<in> set (problems t)"
    "problems_violation (problems t) = None"
proof -
  let ?q = "\<lambda>x. p_external_id x = pid \<and> p_dirty x"
  have f: "filter ?q (problems s) = [p]"
    using filter_problem_row [OF ok p, of p_dirty] assms(4,5) by simp
  have "?q p" using assms(4,5) by simp
  from g have "us = [p\<lparr>p_dirty_generation := Some gen\<rparr>] \<and> p\<lparr>p_dirty_generation := Some gen\<rparr> \<in> set (problems t)
      \<and> problems_violation (problems t) = None"
    unfolding set_dirty_generation_def
  proof (cases rule: update_problems_cases)
    case ok
    with f \<open>?q p\<close> p show ?thesis by (force intro: image_eqI [of _ _ p])
  qed simp
  then show "us = [p\<lparr>p_dirty_generation := Some gen\<rparr>]" "p\<lparr>p_dirty_generation := Some gen\<rparr> \<in> set (problems t)"
    "problems_violation (problems t) = None" by simp_all
qed

lemma allocateGeneration_Inr:
  "allocateGeneration pid s = (Inr g, t) \<longleftrightarrow>
     problem_exists pid s \<and> g = next_of (problem_generation_counters s) pid
     \<and> t = s\<lparr>problem_generation_counters := bump pid 1 (problem_generation_counters s)\<rparr>"
  by (auto simp: allocateGeneration_def)

text \<open>
  A first notification: after the claim of the code (state \<open>s1\<close>) the key is free, and what is
  left behind is the problem's row, the key with its response, and one generation more.
\<close>

lemma dirty_success:
  assumes m: "markProblemDirtyIdempotent key actor r s = (Inr (pt, True), s')"
  obtains p s1 where
    "claim_code_dirty (ce_externalId (dr_entry r)) (ce_code (dr_entry r)) s = (Inr (), s1)"
    and "p \<in> set (problems s')" and "p_external_id p = ce_externalId (dr_entry r)"
    and "p_code p = ce_code (dr_entry r)" and "problems_violation (problems s') = None"
    and "pt = rowToProblem p None" and "p_dirty p = (\<not> dr_deleted r)"
    and "dirty_key_row key s1 = None"
    and "idempotency_keys s' =
         idempotency_keys (record_response key (dirty_fingerprint r) (ce_externalId (dr_entry r))
           (s1\<lparr>idempotency_keys := idempotency_keys s1 @ [new_key_row key actor r (now_us s1)]\<rparr>))"
    and "\<not> dr_deleted r \<Longrightarrow>
         p_dirty_generation p = Some (next_of (problem_generation_counters s1) (ce_externalId (dr_entry r)))
         \<and> problem_generation_counters s' = bump (ce_externalId (dr_entry r)) 1 (problem_generation_counters s1)
         \<and> p_dirty_version p =
           (case List.find (\<lambda>p. p_external_id p = ce_externalId (dr_entry r)) (problems s1) of
              None \<Rightarrow> 1 | Some p \<Rightarrow> p_dirty_version p + 1)"
proof -
  let ?pid = "ce_externalId (dr_entry r)" and ?code = "ce_code (dr_entry r)"
  from m obtain s1 where s1: "claim_code_dirty ?pid ?code s = (Inr (), s1)"
    and rest: "(case dirty_key_row key s1 of
         Some row \<Rightarrow> dirty_replay r row
       | None \<Rightarrow>
           bnd (modify (\<lambda>s. s\<lparr>idempotency_keys := idempotency_keys s @ [new_key_row key actor r (now_us s)]\<rparr>))
             (\<lambda>_. bnd (dirty_mutation r) (\<lambda>row.
               bnd (if dr_deleted r then ret row
                    else bnd (allocateGeneration ?pid) (\<lambda>generation.
                           bnd (set_dirty_generation ?pid generation)
                             (\<lambda>updated. ret (case updated of [] \<Rightarrow> row | u # _ \<Rightarrow> u))))
                 (\<lambda>row'. bnd (modify (record_response key (dirty_fingerprint r) ?pid))
                           (\<lambda>_. ret (rowToProblem row' None, True)))))) s1 = (Inr (pt, True), s')"
    by (auto simp: markProblemDirtyIdempotent_def Let_def tx_eq_Inr bnd_eq_Inr)
  have free: "dirty_key_row key s1 = None"
  proof (cases "dirty_key_row key s1")
    case (Some row)
    with rest show ?thesis by (auto simp: dirty_replay_def split: if_splits option.splits)
  qed simp
  let ?s2 = "s1\<lparr>idempotency_keys := idempotency_keys s1 @ [new_key_row key actor r (now_us s1)]\<rparr>"
  from rest free obtain row s3 row' s4 where s3: "dirty_mutation r ?s2 = (Inr row, s3)"
    and s4: "(if dr_deleted r then ret row
              else bnd (allocateGeneration ?pid) (\<lambda>generation.
                     bnd (set_dirty_generation ?pid generation)
                       (\<lambda>updated. ret (case updated of [] \<Rightarrow> row | u # _ \<Rightarrow> u)))) s3 = (Inr row', s4)"
    and fin: "pt = rowToProblem row' None" "s' = record_response key (dirty_fingerprint r) ?pid s4"
    by (auto simp: bnd_eq_Inr)
  note ok3 = dirty_mutation_ok [OF s3] and row3 = dirty_mutation_row [OF s3]
  have step4: "row' \<in> set (problems s4) \<and> p_external_id row' = ?pid \<and> p_code row' = ?code
      \<and> p_dirty row' = (\<not> dr_deleted r) \<and> problems_violation (problems s4) = None
      \<and> idempotency_keys s4 = idempotency_keys s3
      \<and> (\<not> dr_deleted r \<longrightarrow> p_dirty_generation row' = Some (next_of (problem_generation_counters s1) ?pid)
          \<and> problem_generation_counters s4 = bump ?pid 1 (problem_generation_counters s1)
          \<and> p_dirty_version row' = p_dirty_version row)"
  proof (cases "dr_deleted r")
    case True
    with s4 ok3 row3 show ?thesis by auto
  next
    case False
    with s4 obtain g s3' us where g: "allocateGeneration ?pid s3 = (Inr g, s3')"
      and us: "set_dirty_generation ?pid g s3' = (Inr us, s4)"
      and r': "row' = (case us of [] \<Rightarrow> row | u # _ \<Rightarrow> u)"
      by (auto simp: bnd_eq_Inr)
    from g have s3': "s3' = s3\<lparr>problem_generation_counters := bump ?pid 1 (problem_generation_counters s3)\<rparr>"
      and g': "g = next_of (problem_generation_counters s3) ?pid" by (simp_all add: allocateGeneration_Inr)
    have in3: "problems_violation (problems s3') = None" "row \<in> set (problems s3')" "p_dirty row"
      using ok3 row3 False by (simp_all add: s3')
    note gen = set_dirty_generation_ok [OF us in3(1,2) row3(1) in3(3)]
    have "idempotency_keys s4 = idempotency_keys s3" "problem_generation_counters s4 = problem_generation_counters s3'"
      using us by (auto simp: set_dirty_generation_def s3' dest: update_problems_frame)
    with gen r' g' s3' ok3 row3 False show ?thesis by simp
  qed
  show ?thesis
  proof (rule that [of s1 row'])
    show "idempotency_keys s' = idempotency_keys (record_response key (dirty_fingerprint r) ?pid ?s2)"
      using step4 ok3(3) fin(2) by (simp add: record_response_def)
    assume "\<not> dr_deleted r"
    with step4 row3(4) fin(2) show "p_dirty_generation row' = Some (next_of (problem_generation_counters s1) ?pid)
         \<and> problem_generation_counters s' = bump ?pid 1 (problem_generation_counters s1)
         \<and> p_dirty_version row' =
           (case List.find (\<lambda>p. p_external_id p = ?pid) (problems s1) of
              None \<Rightarrow> 1 | Some p \<Rightarrow> p_dirty_version p + 1)"
      by (simp add: record_response_def)
  qed (use s1 free fin step4 in \<open>simp_all add: record_response_def\<close>)
qed

section \<open>Notifications\<close>

lemma recorded_key_row:
  assumes "dirty_key_row key s1 = None"
    and "idempotency_keys s' = idempotency_keys (record_response key (dirty_fingerprint r) pid
           (s1\<lparr>idempotency_keys := idempotency_keys s1 @ [new_key_row key actor r now]\<rparr>))"
  shows "dirty_key_row key s' = Some ((new_key_row key actor r now)\<lparr>k_response_problem_id := Some pid\<rparr>)"
proof -
  let ?q = "\<lambda>k. k_idempotency_key k = key \<and> k_scope k = dirty_scope"
  have "List.find ?q (idempotency_keys s1 @ [new_key_row key actor r now]) = Some (new_key_row key actor r now)"
    using assms(1) by (simp add: dirty_key_row_def find_append_None new_key_row_def)
  then show ?thesis
    by (simp add: dirty_key_row_def assms(2) record_response_def find_upd_where)
       (simp add: new_key_row_def)
qed

text \<open>A repeated notification is not a second edit. When a dirty notification of the judge was
  accepted, the same notification under the same key answers with the same problem, reports
  that it changed nothing, and leaves the database exactly as it was, so the dirty version and
  the generation counter do not move.\<close>

theorem dirty_notification_idempotent:
  assumes "markProblemDirtyIdempotent key actor r s = (Inr (pt, True), s')"
  shows "markProblemDirtyIdempotent key actor' r s' = (Inr (pt, False), s')"
proof -
  let ?pid = "ce_externalId (dr_entry r)" and ?code = "ce_code (dr_entry r)"
  from assms show ?thesis
  proof (cases rule: dirty_success)
    case (1 p s1)
    have "code_owner ?code s' = Some p" using code_owner_row [OF 1(5,2)] 1(4) by simp
    with 1(3) have claim: "claim_code_dirty ?pid ?code s' = (Inr (), s')"
      by (simp add: claim_code_dirty_def)
    have key: "dirty_key_row key s'
        = Some ((new_key_row key actor r (now_us s1))\<lparr>k_response_problem_id := Some ?pid\<rparr>)"
      by (rule recorded_key_row [OF 1(8,9)])
    have "List.find (\<lambda>q. p_external_id q = ?pid) (problems s') = Some p"
      using find_problem_row [OF 1(5,2)] 1(3) by simp
    then have "dirty_replay r ((new_key_row key actor r (now_us s1))\<lparr>k_response_problem_id := Some ?pid\<rparr>) s'
        = (Inr (pt, False), s')"
      by (simp add: dirty_replay_def new_key_row_def 1(6))
    with claim key show ?thesis
      by (simp add: markProblemDirtyIdempotent_def Let_def tx_def bnd_def)
  qed
qed

text \<open>An edit opens a new version and a new generation. An accepted notification that is not a
  deletion leaves the problem's row dirty, with a version one above the old one (1 for a new
  problem) and with the next value of its generation counter, a value the counter has then
  passed and will not hand out again.\<close>

theorem dirty_notification_advances:
  assumes "markProblemDirtyIdempotent key actor r s = (Inr (pt, True), s')" and "\<not> dr_deleted r"
    and "code_owner (ce_code (dr_entry r)) s = None
         \<or> map_option p_external_id (code_owner (ce_code (dr_entry r)) s) = Some (ce_externalId (dr_entry r))"
  shows "\<exists>p g. List.find (\<lambda>q. p_external_id q = ce_externalId (dr_entry r)) (problems s') = Some p
    \<and> pt = rowToProblem p None \<and> p_dirty p \<and> p_dirty_generation p = Some g
    \<and> g = next_of (problem_generation_counters s) (ce_externalId (dr_entry r))
    \<and> g < next_of (problem_generation_counters s') (ce_externalId (dr_entry r))
    \<and> p_dirty_version p =
        (case List.find (\<lambda>q. p_external_id q = ce_externalId (dr_entry r)) (problems s) of
           None \<Rightarrow> 1 | Some q \<Rightarrow> p_dirty_version q + 1)"
proof -
  have same: "claim_code_dirty (ce_externalId (dr_entry r)) (ce_code (dr_entry r)) s = (Inr (), s1) \<Longrightarrow> s1 = s" for s1
    using assms(3) by (auto simp: claim_code_dirty_def)
  from assms(1) show ?thesis
  proof (cases rule: dirty_success)
    case (1 p s1)
    with same have "s1 = s" by blast
    moreover have "List.find (\<lambda>q. p_external_id q = ce_externalId (dr_entry r)) (problems s') = Some p"
      using find_problem_row [OF 1(5,2)] 1(3) by simp
    ultimately show ?thesis using 1(6,7,10) assms(2) by (simp add: next_of_bump)
  qed
qed

text \<open>A key names one notification. If the key is recorded for another content or another
  problem, the notification raises \<open>IdempotencyConflictError\<close> and nothing is written, neither
  the problem nor the claim of an orphan.\<close>

theorem dirty_key_conflict:
  assumes "dirty_key_row key s1 = Some row"
    and "claim_code_dirty (ce_externalId (dr_entry r)) (ce_code (dr_entry r)) s = (Inr (), s1)"
    and "k_request_fingerprint row \<noteq> Some (dirty_fingerprint r) \<or> k_target_id row \<noteq> Some (ce_externalId (dr_entry r))"
  shows "markProblemDirtyIdempotent key actor r s = (Inl IdempotencyConflictError, s)"
  using assms
  by (simp add: markProblemDirtyIdempotent_def Let_def tx_def dirty_replay_def)

section \<open>Claiming an orphan\<close>

definition mirror_refs :: "problem \<Rightarrow> string set" where
  "mirror_refs p = set_option (p_mirror_of p) \<union> set_option (p_mirror_root p)"

lemma problems_violation_None:
  "problems_violation ps = None \<longleftrightarrow>
     distinct (map p_external_id ps) \<and> distinct (map p_code ps)
     \<and> (\<Union>p \<in> set ps. mirror_refs p) \<subseteq> p_external_id ` set ps"
proof -
  have known: "(case r of None \<Rightarrow> True | Some pid \<Rightarrow> \<exists>q \<in> set ps. p_external_id q = pid)
      \<longleftrightarrow> set_option r \<subseteq> p_external_id ` set ps" for r
    by (auto split: option.splits)
  show ?thesis
    unfolding problems_violation_def Let_def known mirror_refs_def by auto
qed

definition renamed :: "string \<Rightarrow> string \<Rightarrow> problem \<Rightarrow> problem" where
  "renamed old new p =
     p\<lparr>p_external_id := rename_id old new (p_external_id p),
       p_mirror_of := rename_ref old new (p_mirror_of p),
       p_mirror_root := rename_ref old new (p_mirror_root p)\<rparr>"

lemma rename_id_inj: "x \<noteq> new \<Longrightarrow> y \<noteq> new \<Longrightarrow> rename_id old new x = rename_id old new y \<longleftrightarrow> x = y"
  by (auto simp: rename_id_def)

lemma renamed_refs: "mirror_refs (renamed old new p) = rename_id old new ` mirror_refs p"
  by (cases "p_mirror_of p"; cases "p_mirror_root p")
     (auto simp: mirror_refs_def renamed_def rename_ref_def rename_id_def)

lemma renamed_no_violation:
  assumes ok: "problems_violation ps = None" and new: "new \<notin> p_external_id ` set ps"
  shows "problems_violation (map (renamed old new) ps) = None"
proof -
  have "inj_on (rename_id old new) (p_external_id ` set ps)"
    using new by (auto simp: inj_on_def rename_id_def split: if_splits)
  moreover have "distinct (map p_external_id ps)" using ok by (simp add: problems_violation_None)
  ultimately have "distinct (map (rename_id old new) (map p_external_id ps))"
    by (simp only: distinct_map [of "rename_id old new"] set_map)
  moreover have "map p_external_id (map (renamed old new) ps) = map (rename_id old new) (map p_external_id ps)"
    by (simp add: renamed_def)
  moreover have "map p_code (map (renamed old new) ps) = map p_code ps" by (simp add: renamed_def)
  moreover have "(\<Union>p \<in> set (map (renamed old new) ps). mirror_refs p) = rename_id old new ` (\<Union>p \<in> set ps. mirror_refs p)"
    by (simp add: renamed_refs image_UN)
  moreover have "p_external_id ` set (map (renamed old new) ps) = rename_id old new ` p_external_id ` set ps"
    by (simp add: image_image renamed_def)
  ultimately show ?thesis using ok by (simp only: problems_violation_None image_mono simp_thms)
qed

text \<open>Overwriting the catalog columns of the row that owns the code, without mirror references.\<close>

lemma set_columns_no_violation:
  assumes ok: "problems_violation ps = None" and p: "p \<in> set ps"
    and "p_external_id p = ce_externalId e" and "p_code p = ce_code e"
    and "ce_mirrorOf e = None" and "ce_mirrorRoot e = None"
  shows "problems_violation
    (map (updated_problem (\<lambda>r. p_external_id r = ce_externalId e) (set_catalog_columns e n)) ps) = None"
    (is "problems_violation (map ?g ps) = None")
proof -
  have uniq: "x = p" if "x \<in> set ps" "p_external_id x = ce_externalId e" for x
    using that ok p assms(3) by (auto simp: problems_violation_None dest: distinct_map_unique)
  have code: "p_code (?g x) = p_code x" if "x \<in> set ps" for x
    using uniq [OF that] assms(4) by (auto simp: updated_problem_def)
  have id: "p_external_id (?g x) = p_external_id x" for x by (simp add: updated_problem_def)
  have refs: "mirror_refs (?g x) \<subseteq> mirror_refs x" for x
    using assms(5,6) by (simp add: updated_problem_def set_catalog_columns_def mirror_refs_def)
  have "map p_external_id (map ?g ps) = map p_external_id ps" by (simp add: id)
  moreover have "map p_code (map ?g ps) = map p_code ps" using code by simp
  moreover have "p_external_id ` set (map ?g ps) = p_external_id ` set ps"
    by (simp add: image_image id)
  moreover have "(\<Union>p \<in> set (map ?g ps). mirror_refs p) \<subseteq> (\<Union>p \<in> set ps. mirror_refs p)"
    using refs by auto
  ultimately show ?thesis using ok unfolding problems_violation_None by (metis order_trans)
qed

definition rename_state :: "string \<Rightarrow> string \<Rightarrow> db \<Rightarrow> db" where
  "rename_state old new s =
     s\<lparr>problems := map (renamed old new) (problems s),
       problem_usage := map (\<lambda>u. u\<lparr>u_problem_id := rename_id old new (u_problem_id u)\<rparr>) (problem_usage s),
       snapshots := map (\<lambda>n. n\<lparr>s_problem_id := rename_id old new (s_problem_id n)\<rparr>) (snapshots s),
       jobs := map (\<lambda>j. j\<lparr>j_problem_id := rename_ref old new (j_problem_id j)\<rparr>) (jobs s),
       problem_generation_counters := map (\<lambda>(k, n). (rename_id old new k, n)) (problem_generation_counters s),
       idempotency_keys := map (\<lambda>k. k\<lparr>k_response_problem_id := rename_ref old new (k_response_problem_id k)\<rparr>)
         (idempotency_keys s)\<rparr>"

lemma rename_problem_eq:
  assumes "p \<in> set (problems s)" and "p_external_id p = old" and "guard p" and "\<not> problem_exists new s"
  shows "rename_problem old new guard s = (Inr (), rename_state old new s)"
  using assms by (auto simp: rename_problem_def rename_state_def renamed_def)

lemma find_renamed_usage:
  assumes "\<And>u. u \<in> set us \<Longrightarrow> u_problem_id u \<noteq> new"
  shows "List.find (\<lambda>u. u_problem_id u = new) (map (\<lambda>u. u\<lparr>u_problem_id := rename_id old new (u_problem_id u)\<rparr>) us)
     = map_option (\<lambda>u. u\<lparr>u_problem_id := new\<rparr>) (List.find (\<lambda>u. u_problem_id u = old) us)"
  using assms by (induction us) (auto simp: rename_id_def)

lemma problem_exists_updated:
  assumes "\<And>r. p_external_id (f r) = p_external_id r"
  shows "problem_exists i (s\<lparr>problems := map (updated_problem p f) (problems s)\<rparr>) = problem_exists i s"
proof -
  have "p_external_id (updated_problem p f r) = p_external_id r" for r
    by (simp add: updated_problem_def assms)
  then show ?thesis by (simp add: problem_exists_def)
qed

text \<open>A catalog problem inherits what the watcher found. When the code belongs to the watcher's
  orphan row and the catalog id is new, \<open>upsertProblem\<close> succeeds, the orphan's id is gone, the
  new id is present in the catalog, and the orphan's usage row, snapshots and jobs are all still
  there, carrying the new id and otherwise unchanged.\<close>

theorem upsert_claims_orphan:
  assumes ok: "problems_violation (problems s) = None"
    and o: "code_owner (ce_code e) s = Some p" "p_external_id p = orphan_id (ce_code e)" "p_catalog_state p = COrphan"
    and new: "\<not> problem_exists (ce_externalId e) s"
    and fk: "\<forall>u \<in> set (problem_usage s). problem_exists (u_problem_id u) s"
    and mirror: "ce_mirrorOf e = None" "ce_mirrorRoot e = None"
  shows "\<exists>pt s'. upsertProblem e s = (Inr pt, s')
    \<and> pt_external_id pt = ce_externalId e \<and> pt_catalog_state pt = CPresent
    \<and> problem_exists (ce_externalId e) s' \<and> \<not> problem_exists (orphan_id (ce_code e)) s'
    \<and> usage_of (ce_externalId e) s'
        = map_option (\<lambda>u. u\<lparr>u_problem_id := ce_externalId e\<rparr>) (usage_of (orphan_id (ce_code e)) s)
    \<and> snapshots s' = map (\<lambda>n. n\<lparr>s_problem_id := rename_id (orphan_id (ce_code e)) (ce_externalId e) (s_problem_id n)\<rparr>) (snapshots s)
    \<and> jobs s' = map (\<lambda>j. j\<lparr>j_problem_id := rename_ref (orphan_id (ce_code e)) (ce_externalId e) (j_problem_id j)\<rparr>) (jobs s)"
proof -
  let ?old = "orphan_id (ce_code e)" and ?new = "ce_externalId e"
  let ?s1 = "rename_state ?old ?new s"
  let ?upd = "set_catalog_columns e (now_us s)"
  let ?g = "updated_problem (\<lambda>r. p_external_id r = ?new) ?upd"
  have p: "p \<in> set (problems s)" "p_code p = ce_code e"
    using o(1) by (auto simp: code_owner_def dest: find_Some_in)
  have ne: "?old \<noteq> ?new" using new p(1) o(2) by (auto simp: problem_exists_def)
  have "claim_code ?new (ce_code e) s = rename_problem ?old ?new (is_orphan_row (ce_code e)) s"
    using o new ne by (simp add: claim_code_def)
  also have "\<dots> = (Inr (), ?s1)"
    by (rule rename_problem_eq [OF p(1) o(2) _ new]) (simp add: is_orphan_row_def p(2) o(3))
  finally have claim: "claim_code ?new (ce_code e) s = (Inr (), ?s1)" .
  have ok1: "problems_violation (problems ?s1) = None"
    using renamed_no_violation [OF ok, of ?new ?old] new
    by (fastforce simp: rename_state_def problem_exists_def image_iff)
  have p1: "renamed ?old ?new p \<in> set (problems ?s1)" "p_external_id (renamed ?old ?new p) = ?new"
    "p_code (renamed ?old ?new p) = ce_code e"
    using p o(2) by (auto simp: rename_state_def renamed_def rename_id_def)
  have ex1: "problem_exists ?new ?s1" using p1(1,2) by (auto simp: problem_exists_def)
  have v: "problems_violation (map ?g (problems ?s1)) = None"
    by (rule set_columns_no_violation [OF ok1 p1 mirror])
  have f: "filter (\<lambda>r. p_external_id r = ?new) (problems ?s1) = [renamed ?old ?new p]"
    using filter_problem_row [OF ok1 p1(1), of "\<lambda>_. True"] p1(2) by simp
  let ?s2 = "?s1\<lparr>problems := map ?g (problems ?s1)\<rparr>"
  have up: "upsert_problem_row False (catalog_row e (now_us s)) ?upd ?s1
      = (Inr (?upd (renamed ?old ?new p)), ?s2)"
    using ex1 v f p1(2) by (simp add: upsert_problem_row_def update_problems_def Let_def)
  have now1: "now_us ?s1 = now_us s" by (simp add: rename_state_def)
  have run: "upsertProblem e s = (Inr (rowToProblem (?upd (renamed ?old ?new p)) None), ?s2)"
    using claim up by (simp add: upsertProblem_def tx_def now1)
  have gone: "\<not> problem_exists ?old ?s2"
    using ne by (auto simp: problem_exists_def rename_state_def renamed_def rename_id_def updated_problem_def)
  have here: "problem_exists ?new ?s2"
    using ex1 by (simp add: problem_exists_updated)
  have usage: "usage_of ?new ?s2 = map_option (\<lambda>u. u\<lparr>u_problem_id := ?new\<rparr>) (usage_of ?old s)"
    unfolding usage_of_def using fk new by (simp add: rename_state_def) (rule find_renamed_usage, auto)
  show ?thesis
    by (rule exI, rule exI, rule conjI, rule run)
       (use gone here usage p1(2) in \<open>simp add: rowToProblem_def set_catalog_columns_def,
          simp add: rename_state_def\<close>)
qed

section \<open>Tombstones\<close>

lemma tombstone_no_violation:
  assumes "problems_violation ps = None"
    and "\<And>r. p_external_id (f r) = p_external_id r" and "\<And>r. p_code (f r) = p_code r"
    and "\<And>r. mirror_refs (f r) = mirror_refs r"
  shows "problems_violation (map (updated_problem p f) ps) = None"
proof -
  have "map p_external_id (map (updated_problem p f) ps) = map p_external_id ps"
    "map p_code (map (updated_problem p f) ps) = map p_code ps"
    "(\<Union>r \<in> set (map (updated_problem p f) ps). mirror_refs r) = (\<Union>r \<in> set ps. mirror_refs r)"
    using assms(2,3,4) by (auto simp: updated_problem_def)
  moreover from this(1) have "p_external_id ` set (map (updated_problem p f) ps) = p_external_id ` set ps"
    by (metis list.set_map)
  ultimately show ?thesis using assms(1) by (simp only: problems_violation_None)
qed

text \<open>A full reconcile turns exactly the problems it does not list into tombstones. Every listed
  problem, every orphan and every existing tombstone keeps its row as it is; every other one
  becomes \<open>deleted\<close> with its observation time set; the result counts them. An empty list is
  refused as a source of tombstones: it deletes nothing.\<close>

theorem markMissingOutsideCatalog_exact:
  assumes "problems_violation (problems s) = None"
  shows "markMissingOutsideCatalog ids s =
    (if ids = [] then (Inr 0, s)
     else (Inr (count_where (outside_catalog ids) (problems s)),
           s\<lparr>problems := map (\<lambda>p. if outside_catalog ids p
                then p\<lparr>p_catalog_state := CDeleted, p_observed_at := now_us s, p_stale := False\<rparr> else p)
              (problems s)\<rparr>))"
proof -
  let ?f = "\<lambda>p. p\<lparr>p_catalog_state := CDeleted, p_observed_at := now_us s, p_stale := False\<rparr>"
  have "problems_violation (map (updated_problem (outside_catalog ids) ?f) (problems s)) = None"
    by (rule tombstone_no_violation [OF assms]) (simp_all add: mirror_refs_def)
  then show ?thesis
    by (simp add: markMissingOutsideCatalog_def update_problems_def bnd_def count_where_def
        updated_problem_def [abs_def] Let_def)
qed

section \<open>Witnesses\<close>

definition demo_entry :: "string \<Rightarrow> string \<Rightarrow> catalog_entry" where
  "demo_entry i c =
     \<lparr>ce_externalId = i, ce_code = c, ce_ownerOrganization = None, ce_isManuallyManaged = False,
      ce_mirrorOf = None, ce_mirrorRoot = None, ce_quotaBytes = None, ce_schemaVersion = 1\<rparr>"

definition demo_dirty :: dirty_request where
  "demo_dirty = \<lparr>dr_entry = demo_entry ''1'' ''aplusb'', dr_deleted = False\<rparr>"

definition demo_orphan_db :: db where
  "demo_orphan_db =
     (demo_db [(demo_running ''a'' Scan (Some ''orphan:new''))\<lparr>j_lease_owner := Some ''w''\<rparr>])
       \<lparr>problems := [(demo_problem ''orphan:new'' ''new'')\<lparr>p_catalog_state := COrphan\<rparr>],
        problem_usage := [(default_usage ''orphan:new'' 5)\<lparr>u_logical_bytes := 77\<rparr>],
        job_fencing_counters := [(''orphan:new'', 2)]\<rparr>"

lemmas catalog_eval = upsertProblem_def claim_code_def code_owner_def orphan_id_def is_orphan_row_def
  merge_orphan_usage_def usage_of_def catalog_row_def set_catalog_columns_def rowToProblem_def
  upsert_problem_row_def update_problems_def updated_problem_def problems_violation_def
  rename_problem_def rename_id_def rename_ref_def has_history_def outside_catalog_def
  markMissingOutsideCatalog_def markProblemDirtyIdempotent_def claim_code_dirty_def
  dirty_key_row_def dirty_scope_def dirty_replay_def dirty_mutation_def new_key_row_def
  record_response_def set_dirty_generation_def allocateGeneration_def demo_entry_def demo_dirty_def
  demo_orphan_db_def reset_snapshot_backoff_on_dirty_def upsert_usage_def int8_def max_safe_integer_def

lemma demo_first_notification:
  "\<exists>pt s'. markProblemDirtyIdempotent ''k'' ''judge'' demo_dirty (demo_db []) = (Inr (pt, True), s')
     \<and> pt_dirty_version pt = JNum 1"
  by (simp add: demo_simps queue_eval catalog_eval)

theorem dirty_notification_idempotent_witness:
  "\<exists>pt s'. markProblemDirtyIdempotent ''k'' ''judge'' demo_dirty (demo_db []) = (Inr (pt, True), s')
     \<and> markProblemDirtyIdempotent ''k'' ''other'' demo_dirty s' = (Inr (pt, False), s')"
  using demo_first_notification dirty_notification_idempotent by blast

theorem dirty_notification_advances_witness:
  "\<exists>p. List.find (\<lambda>q. p_external_id q = ''1'')
         (problems (snd (markProblemDirtyIdempotent ''k'' ''judge'' demo_dirty (demo_db [])))) = Some p
     \<and> p_dirty_generation p = Some 1 \<and> p_dirty_version p = 1"
proof -
  obtain pt s' where m: "markProblemDirtyIdempotent ''k'' ''judge'' demo_dirty (demo_db []) = (Inr (pt, True), s')"
    using demo_first_notification by blast
  have "\<not> dr_deleted demo_dirty"
    and "map_option p_external_id (code_owner (ce_code (dr_entry demo_dirty)) (demo_db []))
       = Some (ce_externalId (dr_entry demo_dirty))"
    by (simp_all add: demo_simps catalog_eval)
  from dirty_notification_advances [OF m this(1)] this(2) m show ?thesis
    by (auto simp: demo_simps catalog_eval next_of_def)
qed

theorem dirty_key_conflict_witness:
  "\<exists>s'. fst (markProblemDirtyIdempotent ''k'' ''judge'' (demo_dirty\<lparr>dr_deleted := True\<rparr>) s')
      = Inl IdempotencyConflictError"
proof -
  let ?r = "demo_dirty\<lparr>dr_deleted := True\<rparr>"
  let ?row = "new_key_row ''k'' ''judge'' (demo_dirty\<lparr>dr_entry := demo_entry ''2'' ''sum''\<rparr>) 0"
  let ?s = "(demo_db [])\<lparr>idempotency_keys := [?row]\<rparr>"
  have "markProblemDirtyIdempotent ''k'' ''judge'' ?r ?s = (Inl IdempotencyConflictError, ?s)"
    by (rule dirty_key_conflict [where ?s1.0 = ?s and row = ?row])
       (simp_all add: demo_simps catalog_eval)
  then show ?thesis by (metis fst_conv)
qed

theorem upsert_claims_orphan_witness:
  "\<exists>s'. snd (upsertProblem (demo_entry ''9'' ''new'') demo_orphan_db) = s'
     \<and> map_option u_logical_bytes (usage_of ''9'' s') = Some 77 \<and> map j_problem_id (jobs s') = [Some ''9'']"
proof -
  have o: "code_owner (ce_code (demo_entry ''9'' ''new'')) demo_orphan_db
      = Some ((demo_problem ''orphan:new'' ''new'')\<lparr>p_catalog_state := COrphan\<rparr>)"
    by (simp add: demo_simps catalog_eval)
  have "\<exists>pt s'. upsertProblem (demo_entry ''9'' ''new'') demo_orphan_db = (Inr pt, s')
      \<and> usage_of ''9'' s' = map_option (\<lambda>u. u\<lparr>u_problem_id := ''9''\<rparr>) (usage_of (orphan_id ''new'') demo_orphan_db)
      \<and> jobs s' = map (\<lambda>j. j\<lparr>j_problem_id := rename_ref (orphan_id ''new'') ''9'' (j_problem_id j)\<rparr>) (jobs demo_orphan_db)"
    using upsert_claims_orphan [OF _ o]
    by (auto simp: demo_simps catalog_eval problem_exists_def default_usage_def)
  then show ?thesis by (auto simp: demo_simps catalog_eval default_usage_def)
qed

theorem markMissingOutsideCatalog_witness:
  "fst (markMissingOutsideCatalog [''1''] (demo_db [])) = Inr 1"
  by (subst markMissingOutsideCatalog_exact)
     (simp_all add: demo_simps catalog_eval count_where_def)

section \<open>Fencing tokens across a claim\<close>

text \<open>
  \<open>job_fencing_counters\<close> is keyed by the problem's id but has no foreign key, so the rename of an
  orphan leaves the counter behind: the catalog id starts again at 1 below the tokens its jobs
  already carry. In the run below a worker holds a scan of the orphan under token 1; the claim
  renames the problem; after the lease has expired the same worker process takes the job again and
  receives token 1 a second time, so the handle of the first attempt passes for the second.
\<close>

definition claim_then_expire :: db where
  "claim_then_expire =
     (snd (upsertProblem (demo_entry ''9'' ''new'') demo_orphan_db))\<lparr>now_us := 3000000\<rparr>"

theorem orphan_claim_restarts_tokens:
  "\<not> holds_lease claim_then_expire (rowToJob (demo_running ''a'' Scan (Some ''orphan:new'')))
   \<and> holds_lease (snd (acquireJob ''w'' 60 LaneBulk claim_then_expire))
       (rowToJob (demo_running ''a'' Scan (Some ''orphan:new'')))"
  by (simp add: claim_then_expire_def demo_simps queue_eval catalog_eval)

end
