(* ===== verification/Usage.thy ===== *)
theory Usage
  imports Catalog
begin

text \<open>
  The accounting rows of \<open>control-plane/src/db.ts\<close>: the projection \<open>problem_usage\<close>, the writes a
  worker makes under its lease, and the clearing of the dirty mark after a snapshot.
\<close>

section \<open>Rows as the API returns them\<close>

record usageT =
  ut_problem_id :: string
  ut_logical_bytes :: json
  ut_allocated_bytes :: json
  ut_archive_bytes :: json
  ut_auxiliary_bytes :: json
  ut_file_count :: int
  ut_local_status :: local_status
  ut_r2_status :: r2_status
  ut_snapshot_generation :: "nat option"
  ut_orphan_bytes :: json
  ut_referenced_bytes :: json
  ut_quota_bytes :: "json option"
  ut_last_accessed_at :: "nat option"
  ut_observed_at :: nat
  ut_stale :: bool

text \<open>\<open>problem_usage\<close> has no column \<open>quota_bytes\<close>, so the field is always null.\<close>

definition rowToProblemUsage :: "usage \<Rightarrow> usageT" where
  "rowToProblemUsage r =
     \<lparr>ut_problem_id = u_problem_id r,
      ut_logical_bytes = int8 (u_logical_bytes r),
      ut_allocated_bytes = int8 (u_allocated_bytes r),
      ut_archive_bytes = int8 (u_archive_bytes r),
      ut_auxiliary_bytes = int8 (u_auxiliary_bytes r),
      ut_file_count = u_file_count r,
      ut_local_status = u_local_status r,
      ut_r2_status = u_r2_status r,
      ut_snapshot_generation = u_snapshot_generation r,
      ut_orphan_bytes = int8 (u_orphan_bytes r),
      ut_referenced_bytes = int8 (u_referenced_bytes r),
      ut_quota_bytes = None,
      ut_last_accessed_at = map_option toRfc3339 (u_last_accessed_at r),
      ut_observed_at = toRfc3339 (u_observed_at r),
      ut_stale = u_stale r\<rparr>"

definition getProblemUsage :: "string \<Rightarrow> db \<Rightarrow> usageT option" where
  "getProblemUsage externalId s = map_option rowToProblemUsage (usage_of externalId s)"

section \<open>Writes\<close>

text \<open>The optional fields of the \<open>usage\<close> argument; an absent one takes the default of the code.\<close>

record usage_patch =
  up_logical_bytes :: "int option"
  up_allocated_bytes :: "int option"
  up_archive_bytes :: "int option"
  up_auxiliary_bytes :: "int option"
  up_file_count :: "int option"
  up_local_status :: "local_status option"
  up_r2_status :: "r2_status option"
  up_snapshot_generation :: "nat option"
  up_orphan_bytes :: "int option"
  up_referenced_bytes :: "int option"
  up_last_accessed_at :: "time option"
  up_observed_at :: "time option"

definition usage_columns :: "usage_patch \<Rightarrow> time \<Rightarrow> usage \<Rightarrow> usage" where
  "usage_columns v now u =
     u\<lparr>u_logical_bytes := coalesce (up_logical_bytes v) 0,
       u_allocated_bytes := coalesce (up_allocated_bytes v) 0,
       u_archive_bytes := coalesce (up_archive_bytes v) 0,
       u_auxiliary_bytes := coalesce (up_auxiliary_bytes v) 0,
       u_file_count := coalesce (up_file_count v) 0,
       u_local_status := coalesce (up_local_status v) LPresent,
       u_r2_status := coalesce (up_r2_status v) RNone,
       u_snapshot_generation := up_snapshot_generation v,
       u_orphan_bytes := coalesce (up_orphan_bytes v) 0,
       u_referenced_bytes := coalesce (up_referenced_bytes v) 0,
       u_last_accessed_at := or_else (up_last_accessed_at v) (u_last_accessed_at u),
       u_observed_at := coalesce (up_observed_at v) now,
       u_stale := False\<rparr>"

definition upsertProblemUsage :: "string \<Rightarrow> usage_patch \<Rightarrow> (db, usageT) act" where
  "upsertProblemUsage externalId v = reading (\<lambda>s.
     bnd (upsert_usage (usage_columns v (now_us s) (default_usage externalId (now_us s)))
            (usage_columns v (now_us s)))
         (\<lambda>u. ret (rowToProblemUsage u)))"

text \<open>
  The writes of a worker are three statements on the pool, so other connections run in between.
  \<open>other n\<close> is what they do to the database at the \<open>n\<close>-th gap.
\<close>

type_synonym others = "nat \<Rightarrow> db \<Rightarrow> db"

definition upsertProblemUsageForJob ::
  "others \<Rightarrow> jobT \<Rightarrow> string \<Rightarrow> usage_patch \<Rightarrow> (db, usageT) act" where
  "upsertProblemUsageForJob other t externalId v =
     bnd (assertJobLease t) (\<lambda>_.
     bnd (modify (other 0)) (\<lambda>_.
     bnd (upsertProblemUsage externalId v) (\<lambda>u.
     bnd (modify (other 1)) (\<lambda>_.
     bnd (assertJobLease t) (\<lambda>_. ret u)))))"

definition mark_present_columns :: "nat option \<Rightarrow> time \<Rightarrow> usage \<Rightarrow> usage" where
  "mark_present_columns generation now u =
     u\<lparr>u_local_status := LPresent,
       u_snapshot_generation := or_else generation (u_snapshot_generation u),
       u_last_accessed_at := Some now, u_observed_at := now, u_stale := False\<rparr>"

definition markLocalPresentForJob ::
  "others \<Rightarrow> jobT \<Rightarrow> string \<Rightarrow> nat option \<Rightarrow> (db, unit) act" where
  "markLocalPresentForJob other t externalId generation =
     bnd (assertJobLease t) (\<lambda>_.
     bnd (modify (other 0)) (\<lambda>_. reading (\<lambda>s.
     bnd (upsert_usage (mark_present_columns generation (now_us s) (default_usage externalId (now_us s)))
            (mark_present_columns generation (now_us s))) (\<lambda>_.
     bnd (modify (other 1)) (\<lambda>_. assertJobLease t)))))"

definition clear_dirty_guard :: "string \<Rightarrow> nat \<Rightarrow> nat \<Rightarrow> problem \<Rightarrow> bool" where
  "clear_dirty_guard externalId generation dirtyVersion p \<longleftrightarrow>
     p_external_id p = externalId \<and> p_dirty p \<and> le_null (p_dirty_generation p) generation
     \<and> p_dirty_version p = dirtyVersion"

definition clearDirtyAfterSnapshotForJob ::
  "others \<Rightarrow> jobT \<Rightarrow> string \<Rightarrow> nat \<Rightarrow> nat option \<Rightarrow> (db, unit) act" where
  "clearDirtyAfterSnapshotForJob other t externalId generation dirtyVersion =
     bnd (assertJobLease t) (\<lambda>_.
       case dirtyVersion of
         None \<Rightarrow> ret ()
       | Some v \<Rightarrow>
           bnd (modify (other 0)) (\<lambda>_. reading (\<lambda>s.
           bnd (update_problems False (clear_dirty_guard externalId generation v)
                  (\<lambda>p. p\<lparr>p_dirty := False, p_dirty_generation := None, p_stale := False,
                         p_observed_at := now_us s\<rparr>)) (\<lambda>_.
           bnd (modify (other 1)) (\<lambda>_. assertJobLease t)))))"

section \<open>What a write does to the projection\<close>

lemma usage_of_put_usage:
  assumes "\<And>u. u_problem_id (upd u) = u_problem_id u"
  shows "List.find (\<lambda>u. u_problem_id u = i) (put_usage ins upd us) =
    (if u_problem_id ins = i
     then Some (case List.find (\<lambda>u. u_problem_id u = i) us of None \<Rightarrow> ins | Some u \<Rightarrow> upd u)
     else List.find (\<lambda>u. u_problem_id u = i) us)"
proof (cases "\<exists>u \<in> set us. u_problem_id u = u_problem_id ins")
  case True
  then have "put_usage ins upd us = upd_where (\<lambda>u. u_problem_id u = u_problem_id ins) upd us"
    by (simp add: put_usage_def)
  then have f: "List.find (\<lambda>u. u_problem_id u = i) (put_usage ins upd us) = map_option
      (\<lambda>u. if u_problem_id u = u_problem_id ins then upd u else u) (List.find (\<lambda>u. u_problem_id u = i) us)"
    using assms by (simp add: find_upd_where)
  show ?thesis
  proof (cases "List.find (\<lambda>u. u_problem_id u = i) us")
    case None
    with True have "u_problem_id ins \<noteq> i" by (auto simp: find_None_iff2)
    with f None show ?thesis by simp
  next
    case (Some u)
    then have "u_problem_id u = i" by (auto dest: find_Some_in)
    with f Some show ?thesis by auto
  qed
next
  case False
  then have eq: "put_usage ins upd us = us @ [ins]" by (auto simp: put_usage_def)
  show ?thesis
  proof (cases "List.find (\<lambda>u. u_problem_id u = i) us")
    case None
    then show ?thesis by (simp add: eq find_append_None)
  next
    case (Some u)
    then have "u \<in> set us" "u_problem_id u = i" by (auto dest: find_Some_in)
    with False have "u_problem_id ins \<noteq> i" by metis
    moreover have "List.find (\<lambda>u. u_problem_id u = i) (us @ [ins]) = Some u"
      using Some by (induction us) (auto split: if_splits)
    ultimately show ?thesis using Some by (simp add: eq)
  qed
qed

lemma usage_columns_id [simp]: "u_problem_id (usage_columns v n u) = u_problem_id u"
  by (simp add: usage_columns_def)

lemma default_usage_id [simp]: "u_problem_id (default_usage i n) = i"
  by (simp add: default_usage_def)

text \<open>A usage write replaces the whole projection of its problem and touches no other. The
  problem's row afterwards is the old one (or a fresh one) with every column taken from the
  argument or its default; only the time of the last access survives an argument that does not
  give one. Another problem's row is the same as before.\<close>

theorem upsertProblemUsage_replaces:
  assumes "problem_exists pid s"
  shows "\<exists>s'. upsertProblemUsage pid v s
      = (Inr (rowToProblemUsage (usage_columns v (now_us s)
                (case usage_of pid s of None \<Rightarrow> default_usage pid (now_us s) | Some u \<Rightarrow> u))), s')
    \<and> (\<forall>i. usage_of i s' =
         (if i = pid then Some (usage_columns v (now_us s)
                (case usage_of pid s of None \<Rightarrow> default_usage pid (now_us s) | Some u \<Rightarrow> u))
          else usage_of i s))"
proof -
  let ?upd = "usage_columns v (now_us s)" and ?ins = "usage_columns v (now_us s) (default_usage pid (now_us s))"
  let ?s' = "s\<lparr>problem_usage := put_usage ?ins ?upd (problem_usage s)\<rparr>"
  have row: "usage_of i ?s' = (if i = pid then Some (?upd
        (case usage_of pid s of None \<Rightarrow> default_usage pid (now_us s) | Some u \<Rightarrow> u)) else usage_of i s)" for i
    by (simp add: usage_of_def usage_of_put_usage split: option.splits)
  moreover from row [of pid] have "upsertProblemUsage pid v s
      = (Inr (rowToProblemUsage (?upd (case usage_of pid s of None \<Rightarrow> default_usage pid (now_us s) | Some u \<Rightarrow> u))), ?s')"
    using assms by (simp add: upsertProblemUsage_def bnd_def upsert_usage_def)
  ultimately show ?thesis by blast
qed

section \<open>Writes under a lease\<close>

lemma assert_Inr: "assertJobLease t s = (Inr (), s') \<longleftrightarrow> s' = s \<and> holds_lease s t"
  by (auto simp: assertJobLease_def)

lemma assert_lost: "\<not> holds_lease s t \<Longrightarrow> assertJobLease t s = (Inl (JobLeaseLostError (jt_id t)), s)"
  by (simp add: assertJobLease_def)

text \<open>A worker without its lease writes nothing. When the lease is not held at the start, each of
  the three writes a worker makes raises \<open>JobLeaseLostError\<close> and leaves the database alone,
  whatever other connections would have done.\<close>

theorem worker_writes_need_lease:
  assumes "\<not> holds_lease s t"
  shows "upsertProblemUsageForJob other t pid v s = (Inl (JobLeaseLostError (jt_id t)), s)
    \<and> markLocalPresentForJob other t pid g s = (Inl (JobLeaseLostError (jt_id t)), s)
    \<and> clearDirtyAfterSnapshotForJob other t pid gen dv s = (Inl (JobLeaseLostError (jt_id t)), s)"
  using assert_lost [OF assms]
  by (simp add: upsertProblemUsageForJob_def markLocalPresentForJob_def clearDirtyAfterSnapshotForJob_def)

text \<open>A write reported as done was made under a lease held both before and after it. If
  \<open>upsertProblemUsageForJob\<close> returns a value, the lease was held when it started and is held in
  the state it returns in, so a lease lost in between is always noticed.\<close>

theorem worker_write_brackets:
  assumes "upsertProblemUsageForJob other t pid v s = (Inr u, s')"
  shows "holds_lease s t \<and> holds_lease s' t
    \<and> (\<exists>s1. upsertProblemUsage pid v (other 0 s) = (Inr u, s1) \<and> s' = other 1 s1)"
  using assms by (auto simp: upsertProblemUsageForJob_def bnd_eq_Inr assert_Inr)

section \<open>Edits during a snapshot\<close>

text \<open>The problem carries an edit newer than version \<open>v\<close>: its row is dirty and its version is higher.\<close>

definition newer_edit :: "string \<Rightarrow> nat \<Rightarrow> db \<Rightarrow> bool" where
  "newer_edit pid v s \<longleftrightarrow> (\<exists>p \<in> set (problems s). p_external_id p = pid \<and> p_dirty p \<and> v < p_dirty_version p)"

definition keeps_edit :: "string \<Rightarrow> nat \<Rightarrow> db \<Rightarrow> db \<Rightarrow> bool" where
  "keeps_edit pid v s t \<longleftrightarrow> (newer_edit pid v s \<longrightarrow> newer_edit pid v t)"

interpretation edits: preorder_rel "keeps_edit pid v" for pid v
  by unfold_locales (auto simp: keeps_edit_def)

lemma keeps_edit_same: "problems t = problems s \<Longrightarrow> keeps_edit pid v s t"
  by (simp add: keeps_edit_def newer_edit_def)

lemma keeps_edit_update:
  assumes "\<And>p. p_external_id p = pid \<Longrightarrow> p_dirty p \<Longrightarrow> v < p_dirty_version p \<Longrightarrow> q p \<Longrightarrow>
             p_external_id (f p) = pid \<and> p_dirty (f p) \<and> v < p_dirty_version (f p)"
  shows "pres (keeps_edit pid v) (update_problems st q f)"
proof (rule presI)
  fix s
  obtain r t where u: "update_problems st q f s = (r, t)" by fastforce
  then have "keeps_edit pid v s t"
  proof (cases rule: update_problems_cases)
    case (failed e)
    then show ?thesis by (simp add: keeps_edit_same)
  next
    case ok
    have "newer_edit pid v t" if "newer_edit pid v s"
    proof -
      from that obtain p where p: "p \<in> set (problems s)" "p_external_id p = pid" "p_dirty p" "v < p_dirty_version p"
        by (auto simp: newer_edit_def)
      have "updated_problem q f p \<in> set (problems t)" using ok(2) p(1) by simp
      moreover have "p_external_id (updated_problem q f p) = pid \<and> p_dirty (updated_problem q f p)
          \<and> v < p_dirty_version (updated_problem q f p)"
        using assms [of p] p(2,3,4) by (cases "q p") simp_all
      ultimately show ?thesis unfolding newer_edit_def by blast
    qed
    then show ?thesis by (simp add: keeps_edit_def)
  qed
  with u show "keeps_edit pid v s (snd (update_problems st q f s))" by simp
qed

lemma keeps_edit_assert: "pres (keeps_edit pid v) (assertJobLease t)"
  unfolding assertJobLease_def by (intro pres_intros)

lemma keeps_edit_modify: "(\<And>s. keeps_edit pid v s (h s)) \<Longrightarrow> pres (keeps_edit pid v) (modify h)"
  by (simp add: pres_def)

text \<open>C18: an edit that arrives while a snapshot is being taken is never lost. The snapshot's job
  clears the dirty mark for the version it was scheduled with. If the problem carries a newer
  edit when the clearing starts, it carries one when it is over, on success and on every error,
  as long as the other connections that run in between do not drop it either.\<close>

theorem newer_edit_survives_snapshot:
  assumes "newer_edit pid v s" and "\<forall>n s. keeps_edit pid v s (other n s)"
  shows "newer_edit pid v (snd (clearDirtyAfterSnapshotForJob other t pid gen (Some v) s))"
proof -
  have "pres (keeps_edit pid v) (clearDirtyAfterSnapshotForJob other t pid gen (Some v))"
    unfolding clearDirtyAfterSnapshotForJob_def option.case using assms(2)
    by (intro pres_intros keeps_edit_assert keeps_edit_modify keeps_edit_update)
       (auto simp: clear_dirty_guard_def)
  with assms(1) show ?thesis by (simp add: pres_def keeps_edit_def)
qed

text \<open>A finished snapshot does clean its problem. When the lease is held and the row is dirty with
  the snapshot's version and a generation not above the snapshot's, the clearing succeeds and
  the row is clean: no dirty mark, no dirty generation, not stale.\<close>

theorem snapshot_clears_dirty:
  assumes ok: "problems_violation (problems s) = None" and p: "p \<in> set (problems s)"
    and g: "clear_dirty_guard pid gen v p" and l: "holds_lease s t"
  shows "\<exists>s'. clearDirtyAfterSnapshotForJob (\<lambda>n s. s) t pid gen (Some v) s = (Inr (), s')
    \<and> p\<lparr>p_dirty := False, p_dirty_generation := None, p_stale := False, p_observed_at := now_us s\<rparr> \<in> set (problems s')"
proof -
  let ?f = "\<lambda>p. p\<lparr>p_dirty := False, p_dirty_generation := None, p_stale := False, p_observed_at := now_us s\<rparr>"
  let ?g = "updated_problem (clear_dirty_guard pid gen v) ?f"
  have v: "problems_violation (map ?g (problems s)) = None"
    by (rule tombstone_no_violation [OF ok]) (simp_all add: mirror_refs_def)
  let ?s' = "s\<lparr>problems := map ?g (problems s)\<rparr>"
  have u: "update_problems False (clear_dirty_guard pid gen v) ?f s
      = (Inr (map ?g (filter (clear_dirty_guard pid gen v) (problems s))), ?s')"
    using v by (simp add: update_problems_def Let_def)
  have "holds_lease ?s' t" using l by (simp add: holds_lease_def lease_held_def)
  then have "clearDirtyAfterSnapshotForJob (\<lambda>n s. s) t pid gen (Some v) s = (Inr (), ?s')"
    using l u by (simp add: clearDirtyAfterSnapshotForJob_def assertJobLease_def bnd_def)
  moreover have "?f p \<in> set (problems ?s')" using p g by (force intro: image_eqI [of _ _ p])
  ultimately show ?thesis by blast
qed

section \<open>A scan forgets the snapshot\<close>

text \<open>
  The scan of a worker passes sizes, \<open>local_status\<close> and the observation time, and no \<open>r2_status\<close>.
\<close>

definition scan_patch :: "int \<Rightarrow> int \<Rightarrow> time \<Rightarrow> usage_patch" where
  "scan_patch logical files observed =
     \<lparr>up_logical_bytes = Some logical, up_allocated_bytes = Some logical,
      up_archive_bytes = Some 0, up_auxiliary_bytes = Some 0, up_file_count = Some files,
      up_local_status = Some LPresent, up_r2_status = None, up_snapshot_generation = None,
      up_orphan_bytes = None, up_referenced_bytes = None, up_last_accessed_at = None,
      up_observed_at = Some observed\<rparr>"

text \<open>
  So a problem whose snapshot is ready loses \<open>r2_status\<close> and \<open>snapshot_generation\<close> with the next
  scan: the projection says \<open>none\<close> although the snapshot is still there. The data plane's own
  upsert of the same row keeps both columns.
\<close>

lemma scan_drops_r2_status:
  assumes "problem_exists pid s"
  shows "\<exists>u s'. upsertProblemUsage pid (scan_patch n files obs) s = (Inr u, s')
    \<and> ut_r2_status u = RNone \<and> ut_snapshot_generation u = None \<and> snapshots s' = snapshots s"
  using assms
  by (auto simp: upsertProblemUsage_def bnd_def upsert_usage_def Let_def rowToProblemUsage_def
      scan_patch_def usage_columns_def usage_of_def usage_of_put_usage split: option.splits)

section \<open>Witnesses\<close>

definition demo_usage_db :: db where
  "demo_usage_db =
     (demo_db [demo_running ''a'' Snapshot (Some ''1'')])
       \<lparr>problem_usage := [(default_usage ''1'' 0)\<lparr>u_logical_bytes := 5, u_last_accessed_at := Some 9\<rparr>],
        problems := [(demo_problem ''1'' ''aplusb'')\<lparr>p_dirty := True, p_dirty_version := 3,
                       p_dirty_generation := Some 2\<rparr>]\<rparr>"

lemmas usage_eval = usage_of_def default_usage_def usage_columns_def scan_patch_def
  rowToProblemUsage_def int8_def max_safe_integer_def demo_usage_db_def

theorem upsertProblemUsage_replaces_witness:
  "\<exists>s'. snd (upsertProblemUsage ''1'' (scan_patch 70 2 8) demo_usage_db) = s'
     \<and> map_option u_logical_bytes (usage_of ''1'' s') = Some 70
     \<and> map_option u_last_accessed_at (usage_of ''1'' s') = Some (Some 9)"
proof -
  have "problem_exists ''1'' demo_usage_db" by (simp add: demo_usage_db_def demo_simps problem_exists_def)
  from upsertProblemUsage_replaces [OF this, of "scan_patch 70 2 8"] show ?thesis
    by (auto simp: usage_eval demo_simps)
qed

theorem worker_writes_need_lease_witness:
  "upsertProblemUsageForJob (\<lambda>n s. s) (rowToJob (demo_job ''a'' Scan (Some ''1'') Pending)) ''1'' (scan_patch 70 2 8) (demo_db [])
   = (Inl (JobLeaseLostError ''a''), demo_db [])"
proof -
  have "\<not> holds_lease (demo_db []) (rowToJob (demo_job ''a'' Scan (Some ''1'') Pending))"
    by (simp add: demo_simps queue_eval)
  from worker_writes_need_lease [OF this, of "\<lambda>n s. s" "''1''" "scan_patch 70 2 8"] show ?thesis
    by (simp add: rowToJob_def demo_job_def)
qed

theorem worker_write_brackets_witness:
  "\<exists>u s'. upsertProblemUsageForJob (\<lambda>n s. s) (rowToJob (demo_running ''a'' Snapshot (Some ''1''))) ''1''
       (scan_patch 70 2 8) demo_usage_db = (Inr u, s')
     \<and> holds_lease s' (rowToJob (demo_running ''a'' Snapshot (Some ''1'')))"
proof -
  let ?t = "rowToJob (demo_running ''a'' Snapshot (Some ''1''))"
  have "\<exists>u s'. upsertProblemUsageForJob (\<lambda>n s. s) ?t ''1'' (scan_patch 70 2 8) demo_usage_db = (Inr u, s')"
    by (simp add: upsertProblemUsageForJob_def upsertProblemUsage_def assertJobLease_def upsert_usage_def
        usage_eval demo_simps queue_eval)
  with worker_write_brackets show ?thesis by blast
qed

theorem newer_edit_survives_snapshot_witness:
  "newer_edit ''1'' 2 (snd (clearDirtyAfterSnapshotForJob (\<lambda>n s. s)
      (rowToJob (demo_running ''a'' Snapshot (Some ''1''))) ''1'' 2 (Some 2) demo_usage_db))"
  by (rule newer_edit_survives_snapshot)
     (simp_all add: newer_edit_def keeps_edit_def demo_usage_db_def demo_simps)

theorem snapshot_clears_dirty_witness:
  "\<exists>s'. clearDirtyAfterSnapshotForJob (\<lambda>n s. s) (rowToJob (demo_running ''a'' Snapshot (Some ''1'')))
       ''1'' 2 (Some 3) demo_usage_db = (Inr (), s')
     \<and> (\<exists>p \<in> set (problems s'). p_external_id p = ''1'' \<and> \<not> p_dirty p)"
proof -
  let ?p = "(demo_problem ''1'' ''aplusb'')\<lparr>p_dirty := True, p_dirty_version := 3, p_dirty_generation := Some 2\<rparr>"
  have a: "problems_violation (problems demo_usage_db) = None"
    by (simp add: demo_usage_db_def demo_simps problems_violation_def)
  have b: "?p \<in> set (problems demo_usage_db)" by (simp add: demo_usage_db_def)
  have c: "clear_dirty_guard ''1'' 2 3 ?p"
    by (simp add: clear_dirty_guard_def demo_problem_def le_null_def)
  have d: "holds_lease demo_usage_db (rowToJob (demo_running ''a'' Snapshot (Some ''1'')))"
    by (simp add: usage_eval demo_simps queue_eval)
  from snapshot_clears_dirty [OF a b c d] show ?thesis
    by (elim exE conjE) (intro exI conjI, assumption, rule bexI, simp_all add: demo_problem_def)
qed

end
