(* ===== verification/Scheduling.thy ===== *)
theory Scheduling
  imports Usage
begin

text \<open>
  Automatic snapshots: \<open>maintenance-config.ts\<close>, \<open>scheduleAutoSnapshotJobs\<close> and
  \<open>scheduleDirtySnapshotBatch\<close> of \<open>control-plane/src/db.ts\<close>, with the backoff that parks a problem
  whose snapshots keep failing.
\<close>

section \<open>Configuration\<close>

text \<open>
  \<open>Number(raw)\<close> on an integer literal: white space around it is ignored, a sign is allowed, the
  empty text is 0. Fractions, exponents and other radixes are not integer literals here and are
  rejected; \<open>Number\<close> would accept the ones whose value is a whole number.
\<close>

definition is_digit :: "char \<Rightarrow> bool" where
  "is_digit c \<longleftrightarrow> (let n = (of_char c :: nat) in 48 \<le> n \<and> n \<le> 57)"

definition is_space :: "char \<Rightarrow> bool" where
  "is_space c \<longleftrightarrow> (let n = (of_char c :: nat) in n = 32 \<or> (9 \<le> n \<and> n \<le> 13))"

definition digits_value :: "string \<Rightarrow> nat" where
  "digits_value ds = foldl (\<lambda>n c. 10 * n + (of_char c - 48)) 0 ds"

definition trim :: "string \<Rightarrow> string" where
  "trim s = rev (dropWhile is_space (rev (dropWhile is_space s)))"

definition js_integer :: "string \<Rightarrow> int option" where
  "js_integer raw =
     (case trim raw of
        [] \<Rightarrow> Some 0
      | c # cs \<Rightarrow>
          if c = CHR ''-'' \<or> c = CHR ''+''
          then if cs \<noteq> [] \<and> list_all is_digit cs
               then Some (if c = CHR ''-'' then - int (digits_value cs) else int (digits_value cs))
               else None
          else if list_all is_digit (c # cs) then Some (int (digits_value (c # cs))) else None)"

definition is_safe_integer :: "int \<Rightarrow> bool" where
  "is_safe_integer n \<longleftrightarrow> \<bar>n\<bar> \<le> max_safe_integer"

type_synonym process_env = "string \<Rightarrow> string option"

definition positiveInteger :: "process_env \<Rightarrow> string \<Rightarrow> nat \<Rightarrow> err + nat" where
  "positiveInteger env name fallback =
     (case env name of
        None \<Rightarrow> Inr fallback
      | Some raw \<Rightarrow>
          (case js_integer raw of
             None \<Rightarrow> Inl (PlainError (name @ '' must be a positive integer''))
           | Some v \<Rightarrow>
               if \<not> is_safe_integer v \<or> v \<le> 0
               then Inl (PlainError (name @ '' must be a positive integer''))
               else Inr (nat v)))"

record maintenance_config =
  mc_permanentFailureThreshold :: nat
  mc_snapshotBackoffIntervalMs :: nat
  mc_terminalJobRetentionDays :: nat

definition threshold_var :: string where
  "threshold_var = ''STORAGE_PERMANENT_FAILURE_THRESHOLD''"

definition backoff_var :: string where
  "backoff_var = ''STORAGE_SNAPSHOT_BACKOFF_INTERVAL_MS''"

definition retention_var :: string where
  "retention_var = ''STORAGE_TERMINAL_JOB_RETENTION_DAYS''"

definition maintenanceConfig :: "process_env \<Rightarrow> err + maintenance_config" where
  "maintenanceConfig env =
     (case positiveInteger env threshold_var 3 of
        Inl e \<Rightarrow> Inl e
      | Inr threshold \<Rightarrow>
          (case positiveInteger env backoff_var 86400000 of
             Inl e \<Rightarrow> Inl e
           | Inr backoff \<Rightarrow>
               (case positiveInteger env retention_var 14 of
                  Inl e \<Rightarrow> Inl e
                | Inr ret_days \<Rightarrow>
                    Inr \<lparr>mc_permanentFailureThreshold = threshold,
                         mc_snapshotBackoffIntervalMs = backoff,
                         mc_terminalJobRetentionDays = ret_days\<rparr>)))"

definition lift_sum :: "err + 'a \<Rightarrow> ('s, 'a) act" where
  "lift_sum r = (case r of Inl e \<Rightarrow> throw e | Inr x \<Rightarrow> ret x)"

section \<open>Scheduling one problem\<close>

text \<open>
  \<open>snapshot_failure_count >= threshold AND last_snapshot_failed_at > now() - backoff\<close>, where a
  null time makes the condition not true.
\<close>

definition parked :: "maintenance_config \<Rightarrow> time \<Rightarrow> usage \<Rightarrow> bool" where
  "parked cfg now u \<longleftrightarrow>
     mc_permanentFailureThreshold cfg \<le> u_snapshot_failure_count u
     \<and> (case u_last_snapshot_failed_at u of
          None \<Rightarrow> False
        | Some t \<Rightarrow> now < t + millis (mc_snapshotBackoffIntervalMs cfg))"

definition schedule_round :: "usage option \<Rightarrow> string" where
  "schedule_round u =
     ''v2-'' @ (case u of None \<Rightarrow> ''0'' | Some v \<Rightarrow> nat_text (u_snapshot_schedule_round v))"

definition auto_scan_opts :: "problemT \<Rightarrow> string \<Rightarrow> string \<Rightarrow> create_opts" where
  "auto_scan_opts problem rnd actor =
     \<lparr>co_idempotencyKey = ''auto-scan:'' @ pt_external_id problem @ '':''
        @ int8_text (pt_dirty_version problem) @ '':'' @ rnd,
      co_jobType = Scan, co_problemId = Some (pt_external_id problem), co_targetGeneration = None,
      co_leaseOwner = actor,
      co_requestFingerprint = Some (stableFingerprint (JObj
        [(''action'', JStr ''auto-scan''), (''external_id'', JStr (pt_external_id problem)),
         (''dirty_version'', pt_dirty_version problem), (''round'', JStr rnd)]))\<rparr>"

definition auto_snapshot_opts :: "problemT \<Rightarrow> nat \<Rightarrow> string \<Rightarrow> string \<Rightarrow> create_opts" where
  "auto_snapshot_opts problem generation rnd actor =
     \<lparr>co_idempotencyKey = ''auto-snapshot:'' @ pt_external_id problem @ '':''
        @ int8_text (pt_dirty_version problem) @ '':'' @ rnd,
      co_jobType = Snapshot, co_problemId = Some (pt_external_id problem),
      co_targetGeneration = Some generation, co_leaseOwner = actor,
      co_requestFingerprint = Some (stableFingerprint (JObj
        [(''action'', JStr ''auto-snapshot''), (''external_id'', JStr (pt_external_id problem)),
         (''generation'', JNum (int generation)),
         (''dirty_version'', pt_dirty_version problem), (''round'', JStr rnd)]))\<rparr>"

definition scheduleAutoSnapshotJobs ::
  "process_env \<Rightarrow> problemT \<Rightarrow> string \<Rightarrow> (db, (string \<times> string) option) act" where
  "scheduleAutoSnapshotJobs env problem actor =
     (if \<not> pt_dirty problem then ret None
      else bnd (lift_sum (maintenanceConfig env)) (\<lambda>config. reading (\<lambda>s.
        let row = usage_of (pt_external_id problem) s in
        if (case row of None \<Rightarrow> False | Some u \<Rightarrow> parked config (now_us s) u) then ret None
        else
          bnd (case pt_dirty_generation problem of
                 Some g \<Rightarrow> ret g
               | None \<Rightarrow> allocateGeneration (pt_external_id problem)) (\<lambda>generation.
          bnd (createJob (auto_scan_opts problem (schedule_round row) actor)) (\<lambda>scan.
          bnd (createJob (auto_snapshot_opts problem generation (schedule_round row) actor)) (\<lambda>snapshot.
          bnd (setJobPayload (jt_id snapshot)
                 (JObj [(''dirty_version'', pt_dirty_version problem), (''auto_push'', JBool True)]))
              (\<lambda>_. ret (Some (jt_id scan, jt_id snapshot)))))))))"

section \<open>The batch\<close>

definition batch_eligible :: "maintenance_config \<Rightarrow> db \<Rightarrow> problem \<Rightarrow> bool" where
  "batch_eligible cfg s p \<longleftrightarrow>
     cataloged p
     \<and> (case usage_of (p_external_id p) s of
          None \<Rightarrow> False
        | Some u \<Rightarrow> u_local_status u = LPresent \<and> \<not> parked cfg (now_us s) u)
     \<and> (p_dirty p \<or> \<not> has_ready_snapshot (p_external_id p) s)"

definition batch_rows :: "maintenance_config \<Rightarrow> nat \<Rightarrow> db \<Rightarrow> problem list" where
  "batch_rows cfg lim s =
     order_limit (\<lambda>p. (p_observed_at p, p_external_id p)) lim (filter (batch_eligible cfg s) (problems s))"

record scheduled =
  sc_problem_id :: string
  sc_scan_job_id :: string
  sc_snapshot_job_id :: string

text \<open>One turn of the loop: a conflict with an active operation skips the problem.\<close>

definition skip_conflict :: "err \<Rightarrow> (db, scheduled list) act" where
  "skip_conflict e = (case e of ProblemOperationConflictError _ \<Rightarrow> ret [] | _ \<Rightarrow> throw e)"

definition schedule_row :: "process_env \<Rightarrow> string \<Rightarrow> problem \<Rightarrow> (db, scheduled list) act" where
  "schedule_row env actor row =
     (let problem = rowToProblem row None in
      try_catch
        (bnd (if pt_dirty problem then ret problem
              else bnd (markDirtyIfNoReady (pt_external_id problem))
                       (\<lambda>marked. ret (coalesce marked problem))) (\<lambda>dirty.
         bnd (scheduleAutoSnapshotJobs env dirty actor) (\<lambda>jobs. ret (case jobs of
             None \<Rightarrow> []
           | Some (scan, snap) \<Rightarrow>
               [\<lparr>sc_problem_id = pt_external_id problem, sc_scan_job_id = scan,
                 sc_snapshot_job_id = snap\<rparr>]))))
        skip_conflict)"

definition scheduleDirtySnapshotBatch ::
  "process_env \<Rightarrow> string \<Rightarrow> nat \<Rightarrow> (db, scheduled list) act" where
  "scheduleDirtySnapshotBatch env actor lim =
     bnd (lift_sum (maintenanceConfig env)) (\<lambda>config. reading (\<lambda>s.
       bnd (each (schedule_row env actor) (batch_rows config lim s)) (\<lambda>outs. ret (concat outs))))"

section \<open>Configuration values\<close>

lemma positiveInteger_Inl:
  "positiveInteger env name d = Inl e \<Longrightarrow> e = PlainError (name @ '' must be a positive integer'')"
  unfolding positiveInteger_def
  by (simp split: option.splits if_splits)

lemma positiveInteger_Inr: "positiveInteger env name d = Inr v \<Longrightarrow> 0 < d \<Longrightarrow> 0 < v"
  unfolding positiveInteger_def
  by (simp split: option.splits if_splits) linarith

lemma maintenanceConfig_Inl:
  "maintenanceConfig env = Inl e \<Longrightarrow>
     \<exists>name \<in> {threshold_var, backoff_var, retention_var}. e = PlainError (name @ '' must be a positive integer'')"
  unfolding maintenanceConfig_def
  by (simp split: sum.splits) (auto dest: positiveInteger_Inl)

text \<open>A configured value is a positive integer or the process says so. Whatever text the
  environment holds, \<open>maintenanceConfig\<close> either fails with the message that names the variable
  or yields a threshold, a backoff and a retention that are all positive.\<close>

theorem maintenanceConfig_positive:
  "case maintenanceConfig env of
     Inl e \<Rightarrow> \<exists>name \<in> {threshold_var, backoff_var, retention_var}.
                e = PlainError (name @ '' must be a positive integer'')
   | Inr c \<Rightarrow> 0 < mc_permanentFailureThreshold c \<and> 0 < mc_snapshotBackoffIntervalMs c
             \<and> 0 < mc_terminalJobRetentionDays c"
proof (cases "maintenanceConfig env")
  case (Inl e)
  with maintenanceConfig_Inl show ?thesis by simp
next
  case (Inr c)
  then show ?thesis
    unfolding maintenanceConfig_def by (auto dest!: positiveInteger_Inr split: sum.splits)
qed

section \<open>The backoff\<close>

text \<open>A parked problem is left alone. While the failure count has reached the threshold and the
  last failure is younger than the backoff, scheduling answers null and writes nothing: no job,
  no generation.\<close>

theorem parked_problem_left_alone:
  assumes "maintenanceConfig env = Inr cfg" and "usage_of (pt_external_id p) s = Some u"
    and "parked cfg (now_us s) u"
  shows "scheduleAutoSnapshotJobs env p actor s = (Inr None, s)"
  using assms by (simp add: scheduleAutoSnapshotJobs_def lift_sum_def bnd_def)

lemma parked_iff:
  "u_last_snapshot_failed_at u = Some t \<Longrightarrow>
     parked cfg now u \<longleftrightarrow> mc_permanentFailureThreshold cfg \<le> u_snapshot_failure_count u
       \<and> now < t + millis (mc_snapshotBackoffIntervalMs cfg)"
  by (simp add: parked_def)

lemma skip_conflict_Inl: "skip_conflict e s \<noteq> (Inl (ProblemOperationConflictError i), t)"
  by (cases e) (simp_all add: skip_conflict_def)

lemma skip_conflict_Inr: "skip_conflict e s = (Inr x, t) \<Longrightarrow> x = []"
  by (cases e) (simp_all add: skip_conflict_def)

lemma schedule_row_Inr:
  assumes "schedule_row env actor row s = (Inr outs, t)"
  shows "length outs \<le> 1 \<and> (\<forall>sc \<in> set outs. sc_problem_id sc = p_external_id row)"
  using assms
  by (auto simp: schedule_row_def Let_def try_catch_eq_Inr bnd_eq_Inr rowToProblem_def
      split: option.splits if_splits dest!: skip_conflict_Inr)

lemma schedule_row_conflict: "schedule_row env actor row s \<noteq> (Inl (ProblemOperationConflictError i), t)"
  by (simp add: schedule_row_def Let_def try_catch_eq_Inl skip_conflict_Inl)

lemma length_concat_le: "list_all2 (\<lambda>x ys. length ys \<le> 1) xs yss \<Longrightarrow> length (concat yss) \<le> length xs"
  by (induction xs yss rule: list_all2_induct) auto

text \<open>The batch takes what is due and no more. It schedules at most \<open>limit\<close> problems, each of
  them cataloged, with its folder present, not parked, and dirty or without a ready snapshot in
  the state the batch started from.\<close>

theorem batch_schedules_due:
  assumes "scheduleDirtySnapshotBatch env actor lim s = (Inr outs, s')"
  shows "\<exists>cfg. maintenanceConfig env = Inr cfg \<and> length outs \<le> lim
    \<and> (\<forall>sc \<in> set outs. \<exists>p \<in> set (problems s). p_external_id p = sc_problem_id sc \<and> batch_eligible cfg s p)"
proof -
  from assms obtain cfg yss where cfg: "maintenanceConfig env = Inr cfg"
    and e: "each (schedule_row env actor) (batch_rows cfg lim s) s = (Inr yss, s')" and outs: "outs = concat yss"
    by (auto simp: scheduleDirtySnapshotBatch_def bnd_eq_Inr lift_sum_def split: sum.splits)
  have l: "list_all2 (\<lambda>x ys. length ys \<le> 1 \<and> (\<forall>sc \<in> set ys. sc_problem_id sc = p_external_id x))
      (batch_rows cfg lim s) yss"
    using each_Inr [OF e] by (rule list_all2_mono) (auto dest: schedule_row_Inr)
  have "length outs \<le> length (batch_rows cfg lim s)"
    unfolding outs by (rule length_concat_le) (use l in \<open>rule list_all2_mono, simp\<close>)
  also have "\<dots> \<le> lim" by (simp add: batch_rows_def order_limit_def)
  finally have "length outs \<le> lim" .
  moreover have "\<exists>p \<in> set (problems s). p_external_id p = sc_problem_id sc \<and> batch_eligible cfg s p"
    if "sc \<in> set outs" for sc
  proof -
    from that obtain ys where ys: "ys \<in> set yss" "sc \<in> set ys" by (auto simp: outs)
    then obtain n where n: "n < length yss" "sc \<in> set (yss ! n)" by (metis in_set_conv_nth)
    with l have "sc_problem_id sc = p_external_id (batch_rows cfg lim s ! n)"
      "n < length (batch_rows cfg lim s)"
      by (auto simp: list_all2_conv_all_nth)
    moreover from this(2) have "batch_rows cfg lim s ! n \<in> set (batch_rows cfg lim s)" by simp
    then have "batch_rows cfg lim s ! n \<in> set (filter (batch_eligible cfg s) (problems s))"
      unfolding batch_rows_def order_limit_def by (auto dest: in_set_takeD)
    ultimately show ?thesis by auto
  qed
  ultimately show ?thesis using cfg by blast
qed

text \<open>A busy problem does not stop the batch. Whatever the state, the batch never fails with a
  conflict of an active operation: such a problem is skipped and the next one is scheduled.\<close>

theorem batch_skips_conflicts:
  "fst (scheduleDirtySnapshotBatch env actor lim s) \<noteq> Inl (ProblemOperationConflictError i)"
proof
  assume "fst (scheduleDirtySnapshotBatch env actor lim s) = Inl (ProblemOperationConflictError i)"
  then obtain t where "scheduleDirtySnapshotBatch env actor lim s = (Inl (ProblemOperationConflictError i), t)"
    by (metis prod.collapse)
  then consider "maintenanceConfig env = Inl (ProblemOperationConflictError i)"
    | xs s1 t1 where "each (schedule_row env actor) xs s1 = (Inl (ProblemOperationConflictError i), t1)"
    by (auto simp: scheduleDirtySnapshotBatch_def bnd_eq_Inl lift_sum_def split: sum.splits)
  then show False
  proof cases
    case 1
    then show ?thesis
      by (auto dest: maintenanceConfig_Inl)
  next
    case 2
    then show ?thesis by (auto dest: each_Inl simp: schedule_row_conflict)
  qed
qed

section \<open>How a problem gets parked and released\<close>

lemma lease_row:
  assumes "jobs_violation (jobs s) = None" and "j \<in> set (jobs s)" and "lease_held s i w k j"
  shows "filter (lease_held s i w k) (jobs s) = [j]"
proof -
  have "filter (\<lambda>x. j_id x = j_id j) (jobs s) = [j]"
    by (rule filter_unique_key) (use assms in \<open>auto simp: jobs_violation_None\<close>)
  moreover have "j_id j = i" using assms(3) by (simp add: lease_held_def)
  ultimately have "filter (lease_held s i w k) (filter (\<lambda>x. j_id x = i) (jobs s)) = [j]"
    using assms(3) by (simp del: filter_filter)
  moreover have "filter (lease_held s i w k) (filter (\<lambda>x. j_id x = i) (jobs s)) = filter (lease_held s i w k) (jobs s)"
    by (auto simp: lease_held_def intro!: filter_cong)
  ultimately show ?thesis by simp
qed

definition completed_row ::
  "job_state \<Rightarrow> json \<Rightarrow> string option \<Rightarrow> string option \<Rightarrow> time \<Rightarrow> job \<Rightarrow> job" where
  "completed_row st res ec em now j =
     j\<lparr>j_state := st, j_result := Some res, j_error_code := ec, j_error_message := em,
       j_completed_at := Some now, j_updated_at := now\<rparr>"

text \<open>A completion under a held lease changes the job's row and runs the outcome trigger.\<close>

lemma complete_with_lease:
  assumes ok: "jobs_violation (jobs s) = None" and j: "j \<in> set (jobs s)"
    and l: "lease_held s (jt_id t) (jt_lease_owner t) (jt_fencing_token t) j" and st: "final_state st"
  shows "\<exists>s'. completeJobWithLease t st res ec em s
      = (Inr (Some (rowToJob (completed_row st res ec em (now_us s) j))), s')
    \<and> jobs s' = map (\<lambda>x. if j_id x = j_id j then completed_row st res ec em (now_us s) j else x) (jobs s)
    \<and> problem_usage s'
        = problem_usage (track_snapshot_job_outcome j (completed_row st res ec em (now_us s) j) s)
    \<and> now_us s' = now_us s"
proof -
  let ?new = "completed_row st res ec em (now_us s) j"
  let ?p = "lease_held s (jt_id t) (jt_lease_owner t) (jt_fencing_token t)"
  let ?f = "\<lambda>j. j\<lparr>j_state := st, j_result := Some res, j_error_code := ec, j_error_message := em,
                   j_completed_at := Some (now_us s)\<rparr>"
  let ?g = "updated_job ?p ?f (now_us s)"
  have "no_activation ?g"
    using st by (auto simp: no_activation_updated job_active_def final_state_def)
  then have viol: "jobs_violation (map ?g (jobs s)) = None"
    by (rule jobs_violation_no_activation [OF ok])
  have hit: "filter ?p (jobs s) = [j]" by (rule lease_row [OF ok j l])
  have new: "?g j = ?new" using l by (simp add: completed_row_def)
  have g: "?g x = (if j_id x = j_id j then ?new else x)" if "x \<in> set (jobs s)" for x
  proof (cases "j_id x = j_id j")
    case True
    then have "x = j" using id_unique [OF ok that j] by simp
    then show ?thesis using new by simp
  next
    case False
    then have "\<not> ?p x" using l by (auto simp: lease_held_def)
    with False show ?thesis by simp
  qed
  let ?s' = "track_snapshot_job_outcome j ?new (s\<lparr>jobs := map ?g (jobs s)\<rparr>)"
  have "update_jobs True ?p ?f s = (Inr [?new], ?s')"
    using viol hit new by (simp add: update_jobs_def)
  then have "completeJobWithLease t st res ec em s = (Inr (Some (rowToJob ?new)), ?s')"
    by (simp add: completeJobWithLease_def bnd_def first_row_def)
  moreover have "problem_usage ?s' = problem_usage (track_snapshot_job_outcome j ?new s)"
    by (simp add: track_snapshot_job_outcome_def Let_def split: option.splits)
  moreover have "jobs ?s' = map (\<lambda>x. if j_id x = j_id j then ?new else x) (jobs s)" using g by simp
  ultimately show ?thesis by auto
qed

lemma permanent_failure_effect:
  assumes ok: "jobs_violation (jobs s) = None" and j: "j \<in> set (jobs s)"
    and l: "lease_held s (jt_id t) (jt_lease_owner t) (jt_fencing_token t) j"
    and snap: "j_job_type j = Snapshot" "j_problem_id j = Some pid"
    and u: "usage_of pid s = Some u"
    and code: "to_lower code \<in> {''manifest_integrity'', ''problem_folder_missing''}"
  shows "usage_of pid (snd (completeJobWithLease t Failed res (Some code) em s)) = Some
    (u\<lparr>u_snapshot_schedule_round := u_snapshot_schedule_round u + 1,
       u_snapshot_failure_count := min (u_snapshot_failure_count u + 1) 2147483647,
       u_last_snapshot_failed_at := Some (now_us s)\<rparr>)"
proof -
  let ?new = "completed_row Failed res (Some code) em (now_us s) j"
  have run: "j_state j = Running" using l by (simp add: lease_held_def)
  have new: "j_problem_id ?new = Some pid" "j_job_type ?new = Snapshot" "j_state ?new = Failed"
    using snap by (simp_all add: completed_row_def)
  have perm: "permanent_failure ?new" using code by (auto simp: permanent_failure_def completed_row_def)
  have "usage_of pid (track_snapshot_job_outcome j ?new s) = Some
    (u\<lparr>u_snapshot_schedule_round := u_snapshot_schedule_round u + 1,
       u_snapshot_failure_count := min (u_snapshot_failure_count u + 1) 2147483647,
       u_last_snapshot_failed_at := Some (now_us s)\<rparr>)"
    using new run perm u
    by (simp add: track_snapshot_job_outcome_def usage_of_def usage_of_put_usage job_terminal_def Let_def)
  moreover obtain s' where "completeJobWithLease t Failed res (Some code) em s = (Inr (Some (rowToJob ?new)), s')"
    and "problem_usage s' = problem_usage (track_snapshot_job_outcome j ?new s)"
    using complete_with_lease [OF ok j l, of Failed res "Some code" em] by (auto simp: final_state_def)
  ultimately show ?thesis by (simp add: usage_of_def)
qed

text \<open>Repeated permanent failures park a problem. When a snapshot job of the problem fails under
  its lease with an integrity or missing-folder error and this failure brings the count to the
  threshold, the problem is parked from then on for the length of the backoff, to the
  microsecond, and not longer.\<close>

theorem permanent_failure_parks:
  assumes ok: "jobs_violation (jobs s) = None" and j: "j \<in> set (jobs s)"
    and l: "lease_held s (jt_id t) (jt_lease_owner t) (jt_fencing_token t) j"
    and snap: "j_job_type j = Snapshot" "j_problem_id j = Some pid"
    and u: "usage_of pid s = Some u"
    and code: "to_lower code \<in> {''manifest_integrity'', ''problem_folder_missing''}"
    and thr: "mc_permanentFailureThreshold cfg \<le> u_snapshot_failure_count u + 1"
      "mc_permanentFailureThreshold cfg \<le> 2147483647"
  shows "\<exists>s' u'. snd (completeJobWithLease t Failed res (Some code) em s) = s'
    \<and> usage_of pid s' = Some u'
    \<and> (\<forall>now. parked cfg now u' \<longleftrightarrow> now < now_us s + millis (mc_snapshotBackoffIntervalMs cfg))"
proof -
  have "mc_permanentFailureThreshold cfg \<le> min (u_snapshot_failure_count u + 1) 2147483647"
    using thr by simp
  then show ?thesis
    by (auto simp: permanent_failure_effect [OF ok j l snap u code] parked_def)
qed

text \<open>An edit releases a parked problem at once. \<open>markProblemDirty\<close> on an existing problem sets
  its dirty mark, raises its version by one, and clears the failure count and time of its usage
  row, so that no configuration with a positive threshold considers it parked.\<close>

theorem edit_releases:
  assumes ok: "problems_violation (problems s) = None" and p: "p \<in> set (problems s)" "p_external_id p = pid"
    and u: "usage_of pid s = Some u" and thr: "0 < mc_permanentFailureThreshold cfg"
  shows "\<exists>pt s' u'. markProblemDirty pid s = (Inr (Some pt), s') \<and> pt_dirty pt
    \<and> pt_dirty_version pt = int8 (int (p_dirty_version p + 1))
    \<and> usage_of pid s' = Some u' \<and> \<not> parked cfg now u'"
proof -
  let ?f = "\<lambda>p. p\<lparr>p_dirty := True, p_dirty_version := p_dirty_version p + 1, p_stale := True,
                   p_observed_at := now_us s\<rparr>"
  let ?g = "updated_problem (\<lambda>p. p_external_id p = pid) ?f"
  let ?s1 = "s\<lparr>problems := map ?g (problems s)\<rparr>"
  have v: "problems_violation (map ?g (problems s)) = None"
    by (rule tombstone_no_violation [OF ok]) (simp_all add: mirror_refs_def)
  have hit: "filter (\<lambda>p. p_external_id p = pid) (problems s) = [p]"
    using filter_problem_row [OF ok p(1), of "\<lambda>_. True"] p(2) by simp
  have "update_problems True (\<lambda>p. p_external_id p = pid) ?f s
      = (Inr [?f p], reset_snapshot_backoff_on_dirty p (?f p) ?s1)"
    using v hit p(2) by (simp add: update_problems_def Let_def)
  then have run: "markProblemDirty pid s
      = (Inr (Some (rowToProblem (?f p) None)), reset_snapshot_backoff_on_dirty p (?f p) ?s1)"
    by (simp add: markProblemDirty_def bnd_def first_problem_def)
  have "usage_of pid (reset_snapshot_backoff_on_dirty p (?f p) ?s1)
      = Some (u\<lparr>u_snapshot_failure_count := 0, u_last_snapshot_failed_at := None\<rparr>)"
    using u p(2) find_Some_in [of "\<lambda>u. u_problem_id u = pid" "problem_usage s" u]
    by (simp add: reset_snapshot_backoff_on_dirty_def usage_of_def find_upd_where)
  with run show ?thesis by (auto simp: rowToProblem_def parked_def)
qed

section \<open>A failure of an old version\<close>

text \<open>
  The trigger of migration 010 compared the version in the job's payload with the problem's and
  ignored the failure of an older attempt; its replacement in migration 011, the one modelled
  here, does not compare them. In the state below the problem has been edited (version 3, count
  reset to 0) after its snapshot was scheduled for version 2; with a threshold of 1 the failure
  of that old attempt parks the new edit.
\<close>

definition edited_while_snapshotting :: db where
  "edited_while_snapshotting =
     (demo_db [(demo_running ''a'' Snapshot (Some ''1''))
                 \<lparr>j_result := Some (JObj [(''dirty_version'', JNum 2), (''auto_push'', JBool True)])\<rparr>])
       \<lparr>problem_usage := [default_usage ''1'' 0],
        problems := [(demo_problem ''1'' ''aplusb'')\<lparr>p_dirty := True, p_dirty_version := 3\<rparr>]\<rparr>"

definition config_once :: maintenance_config where
  "config_once = \<lparr>mc_permanentFailureThreshold = 1, mc_snapshotBackoffIntervalMs = 86400000,
     mc_terminalJobRetentionDays = 14\<rparr>"

text \<open>A process environment with none of the variables set.\<close>

definition no_env :: process_env where
  "no_env name = None"

lemmas schedule_eval = edited_while_snapshotting_def config_once_def parked_def millis_def
  permanent_failure_def to_lower_def to_lower_char_def completeJobWithLease_def

theorem old_failure_parks_new_edit:
  "case usage_of ''1'' (snd (completeJobWithLease (rowToJob (demo_running ''a'' Snapshot (Some ''1''))) Failed
       JNull (Some ''manifest_integrity'') None edited_while_snapshotting)) of
     None \<Rightarrow> False | Some u \<Rightarrow> parked config_once 1000000 u"
proof -
  let ?t = "rowToJob (demo_running ''a'' Snapshot (Some ''1''))"
  let ?j = "(demo_running ''a'' Snapshot (Some ''1''))
              \<lparr>j_result := Some (JObj [(''dirty_version'', JNum 2), (''auto_push'', JBool True)])\<rparr>"
  have ok: "jobs_violation (jobs edited_while_snapshotting) = None" and j: "?j \<in> set (jobs edited_while_snapshotting)"
    and l: "lease_held edited_while_snapshotting (jt_id ?t) (jt_lease_owner ?t) (jt_fencing_token ?t) ?j"
    and snap: "j_job_type ?j = Snapshot" "j_problem_id ?j = Some ''1''"
    and u: "usage_of ''1'' edited_while_snapshotting = Some (default_usage ''1'' 0)"
    by (simp_all add: edited_while_snapshotting_def demo_simps queue_eval usage_eval)
  have code: "to_lower ''manifest_integrity'' \<in> {''manifest_integrity'', ''problem_folder_missing''}"
    by (simp add: to_lower_def to_lower_char_def)
  show ?thesis
    unfolding permanent_failure_effect [OF ok j l snap u code]
    by (simp add: parked_def config_once_def default_usage_def edited_while_snapshotting_def demo_simps millis_def)
qed

section \<open>Witnesses\<close>

definition default_config :: maintenance_config where
  "default_config = \<lparr>mc_permanentFailureThreshold = 3, mc_snapshotBackoffIntervalMs = 86400000,
     mc_terminalJobRetentionDays = 14\<rparr>"

lemma maintenanceConfig_default: "maintenanceConfig no_env = Inr default_config"
  by (simp add: maintenanceConfig_def positiveInteger_def no_env_def default_config_def)

definition demo_dirty_problem :: problem where
  "demo_dirty_problem = (demo_problem ''1'' ''aplusb'')\<lparr>p_dirty := True, p_dirty_version := 1,
     p_dirty_generation := Some 1\<rparr>"

definition demo_schedule_db :: "nat \<Rightarrow> db" where
  "demo_schedule_db failures =
     (demo_db [])\<lparr>problems := [demo_dirty_problem],
       problem_usage := [(default_usage ''1'' 0)\<lparr>u_local_status := LPresent,
         u_snapshot_failure_count := failures, u_last_snapshot_failed_at := Some 5\<rparr>]\<rparr>"

theorem parked_problem_left_alone_witness:
  "scheduleAutoSnapshotJobs no_env (rowToProblem demo_dirty_problem None) ''ops'' (demo_schedule_db 3)
   = (Inr None, demo_schedule_db 3)"
  by (rule parked_problem_left_alone [OF maintenanceConfig_default,
        of _ _ "(default_usage ''1'' 0)\<lparr>u_local_status := LPresent, u_snapshot_failure_count := 3,
                   u_last_snapshot_failed_at := Some 5\<rparr>"])
     (simp_all add: demo_schedule_db_def demo_dirty_problem_def rowToProblem_def demo_simps usage_eval
        parked_def default_config_def millis_def)

lemma digit_chars [simp]: "nat_text 0 = ''0''" "nat_text (Suc 0) = ''1''"
  by (simp_all add: nat_text.simps digit_char_def char_of_def bit_0)

theorem batch_schedules_due_witness:
  "\<exists>outs s'. scheduleDirtySnapshotBatch no_env ''ops'' 10 (demo_schedule_db 0) = (Inr outs, s')
     \<and> length outs \<le> 10 \<and> map sc_problem_id outs = [''1'']"
proof -
  obtain outs s' where r: "scheduleDirtySnapshotBatch no_env ''ops'' 10 (demo_schedule_db 0) = (Inr outs, s')"
    and ids: "map sc_problem_id outs = [''1'']"
    by (simp add: scheduleDirtySnapshotBatch_def schedule_row_def batch_rows_def batch_eligible_def
        scheduleAutoSnapshotJobs_def lift_sum_def maintenanceConfig_default demo_schedule_db_def
        demo_dirty_problem_def demo_simps queue_eval catalog_eval usage_eval parked_def default_config_def
        order_limit_def cataloged_def schedule_round_def auto_scan_opts_def auto_snapshot_opts_def
        setJobPayload_def int8_text_def)
  have "length outs \<le> 10" using batch_schedules_due [OF r] by auto
  with r ids show ?thesis by (intro exI conjI)
qed

theorem permanent_failure_parks_witness:
  "\<exists>u'. usage_of ''1'' (snd (completeJobWithLease (rowToJob (demo_running ''a'' Snapshot (Some ''1''))) Failed
        JNull (Some ''manifest_integrity'') None edited_while_snapshotting)) = Some u' \<and> parked config_once 7 u'"
proof -
  let ?t = "rowToJob (demo_running ''a'' Snapshot (Some ''1''))"
  let ?j = "(demo_running ''a'' Snapshot (Some ''1''))
              \<lparr>j_result := Some (JObj [(''dirty_version'', JNum 2), (''auto_push'', JBool True)])\<rparr>"
  have ok: "jobs_violation (jobs edited_while_snapshotting) = None" and j: "?j \<in> set (jobs edited_while_snapshotting)"
    and l: "lease_held edited_while_snapshotting (jt_id ?t) (jt_lease_owner ?t) (jt_fencing_token ?t) ?j"
    and snap: "j_job_type ?j = Snapshot" "j_problem_id ?j = Some ''1''"
    and u: "usage_of ''1'' edited_while_snapshotting = Some (default_usage ''1'' 0)"
    by (simp_all add: edited_while_snapshotting_def demo_simps queue_eval usage_eval)
  have code: "to_lower ''manifest_integrity'' \<in> {''manifest_integrity'', ''problem_folder_missing''}"
    by (simp add: to_lower_def to_lower_char_def)
  show ?thesis
    using permanent_failure_parks [OF ok j l snap u code, of config_once JNull None]
    by (auto simp: config_once_def edited_while_snapshotting_def demo_simps millis_def)
qed

theorem edit_releases_witness:
  "\<exists>pt s' u'. markProblemDirty ''1'' (demo_schedule_db 3) = (Inr (Some pt), s')
     \<and> pt_dirty_version pt = JNum 2 \<and> usage_of ''1'' s' = Some u' \<and> \<not> parked default_config 7 u'"
proof -
  have a: "problems_violation (problems (demo_schedule_db 3)) = None"
    by (simp add: demo_schedule_db_def demo_dirty_problem_def demo_simps problems_violation_def)
  have b: "demo_dirty_problem \<in> set (problems (demo_schedule_db 3))" "p_external_id demo_dirty_problem = ''1''"
    by (simp_all add: demo_schedule_db_def demo_dirty_problem_def demo_simps)
  have c: "usage_of ''1'' (demo_schedule_db 3) = Some ((default_usage ''1'' 0)\<lparr>u_local_status := LPresent,
      u_snapshot_failure_count := 3, u_last_snapshot_failed_at := Some 5\<rparr>)"
    by (simp add: demo_schedule_db_def usage_of_def)
  have d: "0 < mc_permanentFailureThreshold default_config" by (simp add: default_config_def)
  from edit_releases [OF a b c d, of 7] show ?thesis
    by (auto simp: demo_dirty_problem_def int8_def max_safe_integer_def)
qed

end
