(* ===== verification/Retention.thy ===== *)
theory Retention
  imports Scheduling
begin

text \<open>
  Retention and garbage collection of \<open>control-plane/src/db.ts\<close>: stalled snapshots, the four
  statements of \<open>applyRetention\<close>, the marks of the collector, and the batched purge of terminal
  jobs.
\<close>

section \<open>Stalled snapshots\<close>

definition stalled :: "db \<Rightarrow> snapshot \<Rightarrow> bool" where
  "stalled s n \<longleftrightarrow> in_progress (s_state n) \<and> s_created_at n + seconds 21600 < now_us s"

definition failStalledSnapshots :: "(db, nat) act" where
  "failStalledSnapshots s =
     (Inr (count_where (stalled s) (snapshots s)),
      s\<lparr>snapshots := upd_where (stalled s)
          (\<lambda>n. n\<lparr>s_state := SError, s_error_code := Some ''stalled'',
                 s_error_message :=
                   Some ''snapshot stalled in a non-terminal state (no live uploader)'',
                 s_completed_at := Some (now_us s)\<rparr>) (snapshots s)\<rparr>)"

section \<open>Expired metadata\<close>

definition delete_old_jobs :: "(db, nat) act" where
  "delete_old_jobs = reading (\<lambda>s.
     delete_jobs (\<lambda>j. before_cutoff (j_completed_at j) (retention_cutoff s ''jobs'')))"

definition delete_old_audit_events :: "(db, nat) act" where
  "delete_old_audit_events s =
     (let old = (\<lambda>a. before_cutoff (Some (a_created_at a)) (retention_cutoff s ''audit_events'')) in
      (Inr (count_where old (audit_events s)),
       s\<lparr>audit_events := filter (\<lambda>a. \<not> old a) (audit_events s)\<rparr>))"

section \<open>Pruning snapshots\<close>

definition expired_snapshot :: "db \<Rightarrow> snapshot \<Rightarrow> bool" where
  "expired_snapshot s n \<longleftrightarrow>
     (s_state n = Superseded
        \<and> before_cutoff (s_superseded_at n) (retention_cutoff s ''superseded_snapshots''))
     \<or> (s_state n = SError
        \<and> before_cutoff (s_completed_at n) (retention_cutoff s ''error_snapshots''))"

definition collected_key :: "db \<Rightarrow> string \<Rightarrow> bool" where
  "collected_key s k \<longleftrightarrow> (\<exists>g \<in> set (gc_marks s). g_object_key g = k \<and> g_collected g)"

definition manifest_released :: "db \<Rightarrow> snapshot \<Rightarrow> bool" where
  "manifest_released s n \<longleftrightarrow>
     (case s_manifest_key n of
        None \<Rightarrow> True
      | Some k \<Rightarrow>
          collected_key s k
          \<or> (\<exists>m \<in> set (snapshots s). s_id m \<noteq> s_id n \<and> s_manifest_key m = Some k
                \<and> snapshot_is_gc_protected s m))"

definition object_released :: "db \<Rightarrow> snapshot \<Rightarrow> snapshot_object \<Rightarrow> bool" where
  "object_released s n old \<longleftrightarrow>
     collected_key s (o_object_key old)
     \<or> (\<exists>live \<in> set (snapshot_objects s). \<exists>m \<in> set (snapshots s).
           s_id m = o_snapshot_id live \<and> o_object_key live = o_object_key old
           \<and> s_id m \<noteq> s_id n \<and> snapshot_is_gc_protected s m)"

definition prunable :: "db \<Rightarrow> snapshot \<Rightarrow> bool" where
  "prunable s n \<longleftrightarrow>
     expired_snapshot s n \<and> manifest_released s n
     \<and> (\<forall>old \<in> set (snapshot_objects s). o_snapshot_id old = s_id n \<longrightarrow> object_released s n old)"

text \<open>
  \<open>DELETE FROM snapshots\<close>: the objects go with their snapshot, a mark that names it keeps a null.
\<close>

definition prune_snapshots :: "(db, nat) act" where
  "prune_snapshots s =
     (let dead = map s_id (filter (prunable s) (snapshots s)) in
      (Inr (count_where (prunable s) (snapshots s)),
       s\<lparr>snapshots := filter (\<lambda>n. \<not> prunable s n) (snapshots s),
         snapshot_objects := filter (\<lambda>ob. o_snapshot_id ob \<notin> set dead) (snapshot_objects s),
         gc_marks := map (\<lambda>g. if (\<exists>d \<in> set dead. g_snapshot_id g = Some d)
                              then g\<lparr>g_snapshot_id := None\<rparr> else g) (gc_marks s)\<rparr>))"

section \<open>Marking objects\<close>

record gc_candidate =
  gcc_sha256 :: string
  gcc_object_key :: string
  gcc_snapshot_id :: string
  gcc_object_kind :: object_kind
  gcc_anchor :: time

definition retention_anchor :: "snapshot \<Rightarrow> time" where
  "retention_anchor n = coalesce (or_else (s_superseded_at n) (s_completed_at n)) 0"

definition live_content_key :: "db \<Rightarrow> string \<Rightarrow> bool" where
  "live_content_key s k \<longleftrightarrow>
     (\<exists>live \<in> set (snapshot_objects s). \<exists>m \<in> set (snapshots s).
        s_id m = o_snapshot_id live \<and> o_object_key live = k \<and> snapshot_is_gc_protected s m)"

definition live_manifest_key :: "db \<Rightarrow> string \<Rightarrow> bool" where
  "live_manifest_key s k \<longleftrightarrow>
     (\<exists>m \<in> set (snapshots s). s_manifest_key m = Some k \<and> snapshot_is_gc_protected s m)"

definition content_candidates :: "db \<Rightarrow> gc_candidate list" where
  "content_candidates s =
     concat (map (\<lambda>n. map (\<lambda>ob.
           \<lparr>gcc_sha256 = o_sha256 ob, gcc_object_key = o_object_key ob, gcc_snapshot_id = s_id n,
            gcc_object_kind = Content, gcc_anchor = retention_anchor n\<rparr>)
         (filter (\<lambda>ob. o_snapshot_id ob = s_id n \<and> \<not> live_content_key s (o_object_key ob))
           (snapshot_objects s)))
       (filter (expired_snapshot s) (snapshots s)))"

definition manifest_candidates :: "db \<Rightarrow> gc_candidate list" where
  "manifest_candidates s =
     concat (map (\<lambda>n. case s_manifest_key n of
           None \<Rightarrow> []
         | Some k \<Rightarrow>
             if live_manifest_key s k then []
             else [\<lparr>gcc_sha256 = ''manifest:'' @ s_id n, gcc_object_key = k, gcc_snapshot_id = s_id n,
                    gcc_object_kind = Manifest, gcc_anchor = retention_anchor n\<rparr>])
       (filter (expired_snapshot s) (snapshots s)))"

text \<open>\<open>SELECT DISTINCT ON (object_key) \<dots> ORDER BY object_key, retention_anchor DESC, snapshot_id\<close>.\<close>

definition distinct_on_key :: "gc_candidate list \<Rightarrow> gc_candidate list" where
  "distinct_on_key cs =
     map (\<lambda>k. hd (sort_key (\<lambda>c. (- int (gcc_anchor c), gcc_snapshot_id c))
                   (filter (\<lambda>c. gcc_object_key c = k) cs)))
       (sort (remdups (map gcc_object_key cs)))"

definition same_mark :: "gc_candidate \<Rightarrow> gc_mark \<Rightarrow> bool" where
  "same_mark c g \<longleftrightarrow> g_sha256 g = gcc_sha256 c \<and> g_object_key g = gcc_object_key c"

definition remark_due :: "gc_candidate \<Rightarrow> gc_mark \<Rightarrow> bool" where
  "remark_due c g \<longleftrightarrow>
     (g_collected g \<and> g_snapshot_id g = None) \<or> g_snapshot_id g \<noteq> Some (gcc_snapshot_id c)"

definition renewed_mark :: "gc_candidate \<Rightarrow> time \<Rightarrow> time \<Rightarrow> gc_mark \<Rightarrow> gc_mark" where
  "renewed_mark c now eligible g =
     g\<lparr>g_snapshot_id := Some (gcc_snapshot_id c), g_object_kind := gcc_object_kind c,
       g_marked_at := now, g_eligible_at := eligible, g_collected := False,
       g_collected_at := None, g_attempts := 0, g_last_error := None\<rparr>"

definition new_mark :: "gc_candidate \<Rightarrow> string \<Rightarrow> time \<Rightarrow> time \<Rightarrow> gc_mark" where
  "new_mark c i now eligible =
     \<lparr>g_id = i, g_sha256 = gcc_sha256 c, g_object_key = gcc_object_key c,
      g_snapshot_id = Some (gcc_snapshot_id c), g_object_kind = gcc_object_kind c,
      g_marked_at = now, g_eligible_at = eligible, g_collected = False,
      g_collected_at = None, g_attempts = 0, g_last_error = None\<rparr>"

text \<open>One row of the upsert; the result is its share of the row count.\<close>

definition mark_candidate :: "gc_candidate \<Rightarrow> (db, nat) act" where
  "mark_candidate c s =
     (case retention_days s ''content_objects'' of
        None \<Rightarrow> (Inl (PlainError ''null value in column eligible_at''), s)
      | Some d \<Rightarrow>
          let eligible = now_us s + days d in
          if \<exists>g \<in> set (gc_marks s). same_mark c g then
            if \<exists>g \<in> set (gc_marks s). same_mark c g \<and> remark_due c g
            then (Inr 1, s\<lparr>gc_marks := upd_where (\<lambda>g. same_mark c g \<and> remark_due c g)
                            (renewed_mark c (now_us s) eligible) (gc_marks s)\<rparr>)
            else (Inr 0, s)
          else (let (i, s1) = fresh_uuid s in
                (Inr 1, s1\<lparr>gc_marks := gc_marks s1 @ [new_mark c i (now_us s) eligible]\<rparr>)))"

definition mark_objects :: "(db, nat) act" where
  "mark_objects = reading (\<lambda>s.
     bnd (each mark_candidate (distinct_on_key (content_candidates s @ manifest_candidates s)))
         (\<lambda>ns. ret (sum_list ns)))"

record retention_result =
  rr_jobs :: nat
  rr_audit_events :: nat
  rr_gc_marks :: nat
  rr_snapshots_pruned :: nat

definition applyRetention :: "(db, retention_result) act" where
  "applyRetention = tx (
     bnd delete_old_jobs (\<lambda>jobs.
     bnd delete_old_audit_events (\<lambda>audits.
     bnd prune_snapshots (\<lambda>pruned.
     bnd mark_objects (\<lambda>marked.
       ret \<lparr>rr_jobs = jobs, rr_audit_events = audits, rr_gc_marks = marked,
            rr_snapshots_pruned = pruned\<rparr>)))))"

section \<open>Collecting objects\<close>

definition gc_eligible :: "db \<Rightarrow> gc_mark \<Rightarrow> bool" where
  "gc_eligible s g \<longleftrightarrow>
     g_eligible_at g \<le> now_us s \<and> \<not> g_collected g
     \<and> \<not> live_content_key s (g_object_key g) \<and> \<not> live_manifest_key s (g_object_key g)"

definition listGcEligible :: "nat \<Rightarrow> db \<Rightarrow> gc_mark list" where
  "listGcEligible lim s =
     order_limit (\<lambda>g. (g_eligible_at g, g_id g)) lim (filter (gc_eligible s) (gc_marks s))"

definition markGcCollected :: "string list \<Rightarrow> (db, nat) act" where
  "markGcCollected ids s =
     (if ids = [] then (Inr 0, s)
      else (let hit = (\<lambda>g. g_id g \<in> set ids \<and> \<not> g_collected g) in
            (Inr (count_where hit (gc_marks s)),
             s\<lparr>gc_marks := upd_where hit
                 (\<lambda>g. g\<lparr>g_collected := True, g_collected_at := Some (now_us s)\<rparr>) (gc_marks s)\<rparr>)))"

definition open_mark :: "string \<Rightarrow> gc_mark \<Rightarrow> bool" where
  "open_mark i g \<longleftrightarrow> g_id g = i \<and> \<not> g_collected g"

definition deferGcMark :: "string \<Rightarrow> string \<Rightarrow> (db, bool) act" where
  "deferGcMark i error s =
     (if \<exists>g \<in> set (gc_marks s). open_mark i g then
        (case retention_days s ''content_objects'' of
           None \<Rightarrow> (Inl (PlainError ''null value in column eligible_at''), s)
         | Some d \<Rightarrow>
             (Inr (count_where (open_mark i) (gc_marks s) = 1),
              s\<lparr>gc_marks := upd_where (open_mark i)
                  (\<lambda>g. g\<lparr>g_eligible_at := now_us s + days d, g_attempts := g_attempts g + 1,
                         g_last_error := Some (take 1000 error)\<rparr>) (gc_marks s)\<rparr>))
      else (Inr False, s))"

text \<open>\<open>LEAST(86400, 60 * power(2, LEAST(attempts, 10)))\<close> seconds.\<close>

definition gc_backoff_seconds :: "nat \<Rightarrow> nat" where
  "gc_backoff_seconds attempts = min 86400 (60 * 2 ^ min attempts 10)"

definition recordGcFailure :: "string \<Rightarrow> string \<Rightarrow> (db, bool) act" where
  "recordGcFailure i error s =
     (Inr (count_where (open_mark i) (gc_marks s) = 1),
      s\<lparr>gc_marks := upd_where (open_mark i)
          (\<lambda>g. g\<lparr>g_eligible_at := now_us s + seconds (gc_backoff_seconds (g_attempts g)),
                 g_attempts := g_attempts g + 1, g_last_error := Some (take 1000 error)\<rparr>)
          (gc_marks s)\<rparr>)"

section \<open>Purging terminal jobs\<close>

definition purge_due :: "nat \<Rightarrow> db \<Rightarrow> job \<Rightarrow> bool" where
  "purge_due retentionDays s j \<longleftrightarrow>
     job_terminal j \<and> j_updated_at j + days retentionDays < now_us s"

definition purge_ids :: "nat \<Rightarrow> nat \<Rightarrow> db \<Rightarrow> string list" where
  "purge_ids retentionDays batchSize s =
     map j_id (order_limit (\<lambda>j. (j_updated_at j, j_id j)) batchSize
       (filter (purge_due retentionDays s) (jobs s)))"

definition purge_batch :: "nat \<Rightarrow> nat \<Rightarrow> db \<Rightarrow> nat \<times> db" where
  "purge_batch retentionDays batchSize s =
     (let ids = purge_ids retentionDays batchSize s in
      (count_where (\<lambda>j. j_id j \<in> set ids) (jobs s),
       s\<lparr>jobs := filter (\<lambda>j. j_id j \<notin> set ids) (jobs s)\<rparr>))"

lemma purge_batch_shrinks:
  assumes "purge_batch d n s = (deleted, t)"
  shows "length (jobs t) = length (jobs s) - deleted" "deleted \<le> length (jobs s)"
  using assms sum_length_filter_compl [of "\<lambda>j. j_id j \<in> set (purge_ids d n s)" "jobs s"]
  by (auto simp: purge_batch_def Let_def count_where_def)

text \<open>The loop runs until a batch is not full.\<close>

function purge_loop :: "nat \<Rightarrow> nat \<Rightarrow> nat \<Rightarrow> db \<Rightarrow> nat \<times> db" where
  "purge_loop d n acc s =
     (case purge_batch d n s of (deleted, t) \<Rightarrow>
        if deleted < n \<or> n = 0 then (acc + deleted, t) else purge_loop d n (acc + deleted) t)"
  by pat_completeness auto

termination
proof (relation "measure (\<lambda>(d, n, acc, s). length (jobs s))")
  fix d n acc s deleted t
  assume "(deleted, t) = purge_batch d n s" and "\<not> (deleted < n \<or> n = 0)"
  then show "((d, n, acc + deleted, t), (d, n, acc, s)) \<in> measure (\<lambda>(d, n, acc, s). length (jobs s))"
    using purge_batch_shrinks [of d n s deleted t] by auto
qed simp

declare purge_loop.simps [simp del]

definition purgeTerminalJobs :: "process_env \<Rightarrow> int \<Rightarrow> (db, nat) act" where
  "purgeTerminalJobs env batchSize =
     (if \<not> is_safe_integer batchSize \<or> batchSize \<le> 0
      then throw (PlainError ''Terminal job delete batch size must be a positive integer'')
      else bnd (lift_sum (maintenanceConfig env)) (\<lambda>cfg. (\<lambda>s.
        case purge_loop (mc_terminalJobRetentionDays cfg) (nat batchSize) 0 s of
          (acc, t) \<Rightarrow> (Inr acc, t))))"

section \<open>What a retention run leaves\<close>

text \<open>Every statement of the run keeps the clock, the windows and, but for the pruning, the snapshots.\<close>

definition gc_frame :: "db \<Rightarrow> db \<Rightarrow> bool" where
  "gc_frame s t \<longleftrightarrow>
     snapshots t = snapshots s \<and> snapshot_objects t = snapshot_objects s \<and> jobs t = jobs s
     \<and> now_us t = now_us s \<and> retention_config t = retention_config s"

interpretation gcf: preorder_rel gc_frame
  by unfold_locales (auto simp: gc_frame_def)

text \<open>A mark that is due afterwards was there, open and due at the same time, before.\<close>

definition same_due :: "gc_mark \<Rightarrow> gc_mark \<Rightarrow> bool" where
  "same_due g0 g \<longleftrightarrow> g_id g0 = g_id g \<and> g_object_key g0 = g_object_key g
     \<and> g_eligible_at g0 = g_eligible_at g \<and> g_collected g0 = g_collected g"

definition no_new_due :: "db \<Rightarrow> db \<Rightarrow> bool" where
  "no_new_due s t \<longleftrightarrow>
     now_us t = now_us s \<and> retention_config t = retention_config s
     \<and> (retention_days s ''content_objects'' \<noteq> Some 0 \<longrightarrow>
         (\<forall>g \<in> set (gc_marks t). g_eligible_at g \<le> now_us s \<longrightarrow> (\<exists>g0 \<in> set (gc_marks s). same_due g0 g)))"

lemma no_new_due_trans:
  assumes "no_new_due s t" and "no_new_due t u"
  shows "no_new_due s u"
proof -
  have eq: "now_us t = now_us s" "retention_days t = retention_days s"
    using assms(1) by (auto simp: no_new_due_def retention_days_def fun_eq_iff)
  have "\<exists>g0 \<in> set (gc_marks s). same_due g0 g"
    if d: "retention_days s ''content_objects'' \<noteq> Some 0" "g \<in> set (gc_marks u)" "g_eligible_at g \<le> now_us s" for g
  proof -
    obtain g1 where g1: "g1 \<in> set (gc_marks t)" "same_due g1 g"
      using assms(2) d unfolding no_new_due_def eq by blast
    then have "g_eligible_at g1 \<le> now_us s" using d(3) by (simp add: same_due_def)
    with g1(1) d(1) assms(1) obtain g0 where "g0 \<in> set (gc_marks s)" "same_due g0 g1"
      unfolding no_new_due_def by blast
    with g1(2) show ?thesis by (auto simp: same_due_def intro!: bexI [of _ g0])
  qed
  with assms show ?thesis by (simp add: no_new_due_def)
qed

interpretation due: preorder_rel no_new_due
proof unfold_locales
  show "no_new_due s s" for s by (auto simp: no_new_due_def same_due_def)
  show "no_new_due s t \<Longrightarrow> no_new_due t u \<Longrightarrow> no_new_due s u" for s t u by (rule no_new_due_trans)
qed

lemma no_new_due_map:
  assumes "gc_marks t = map h (gc_marks s)" and "\<And>g. same_due g (h g)"
    and "now_us t = now_us s" and "retention_config t = retention_config s"
  shows "no_new_due s t"
  using assms by (auto simp: no_new_due_def)

lemma mark_candidate_frame: "pres gc_frame (mark_candidate c)"
  by (auto simp: pres_def mark_candidate_def gc_frame_def fresh_uuid_def Let_def split: option.splits)

lemma mark_candidate_due: "pres no_new_due (mark_candidate c)"
  by (auto simp: pres_def mark_candidate_def no_new_due_def same_due_def fresh_uuid_def Let_def retention_days_def
      new_mark_def renewed_mark_def in_upd_where days_def split: option.splits if_splits)

lemma mark_objects_frame: "pres gc_frame mark_objects"
  unfolding mark_objects_def by (intro pres_intros mark_candidate_frame)

lemma mark_objects_due: "pres no_new_due mark_objects"
  unfolding mark_objects_def by (intro pres_intros mark_candidate_due)

lemma protected_cong:
  "now_us t = now_us s \<Longrightarrow> retention_config t = retention_config s \<Longrightarrow>
     snapshot_is_gc_protected t = snapshot_is_gc_protected s"
  by (simp add: fun_eq_iff snapshot_is_gc_protected_def retention_cutoff_def retention_days_def)

lemma prunable_cong:
  assumes "now_us t = now_us s" "retention_config t = retention_config s" "snapshots t = snapshots s"
    "snapshot_objects t = snapshot_objects s" "gc_marks t = gc_marks s"
  shows "prunable t = prunable s"
  using assms protected_cong [OF assms(1,2)]
  by (simp add: fun_eq_iff prunable_def expired_snapshot_def manifest_released_def object_released_def
      collected_key_def retention_cutoff_def retention_days_def cong: option.case_cong)

lemma applyRetention_Inr:
  assumes "applyRetention s = (Inr r, s')"
  shows "snapshots s' = filter (\<lambda>n. \<not> prunable s n) (snapshots s)"
    and "snapshot_objects s' = filter (\<lambda>ob. o_snapshot_id ob \<notin> set (map s_id (filter (prunable s) (snapshots s))))
           (snapshot_objects s)"
    and "now_us s' = now_us s" and "retention_config s' = retention_config s"
    and "jobs s' = filter (\<lambda>j. \<not> before_cutoff (j_completed_at j) (retention_cutoff s ''jobs'')) (jobs s)"
    and "no_new_due s s'"
proof -
  from assms obtain n1 s1 n2 s2 n3 s3 n4 where s1: "delete_old_jobs s = (Inr n1, s1)"
    and s2: "delete_old_audit_events s1 = (Inr n2, s2)" and s3: "prune_snapshots s2 = (Inr n3, s3)"
    and s4: "mark_objects s3 = (Inr n4, s')"
    by (auto simp: applyRetention_def tx_eq_Inr bnd_eq_Inr)
  have eq2: "now_us s2 = now_us s" "retention_config s2 = retention_config s" "snapshots s2 = snapshots s"
    "snapshot_objects s2 = snapshot_objects s" "gc_marks s2 = gc_marks s"
    "jobs s2 = filter (\<lambda>j. \<not> before_cutoff (j_completed_at j) (retention_cutoff s ''jobs'')) (jobs s)"
    using s1 s2 by (auto simp: delete_old_jobs_def delete_jobs_def delete_old_audit_events_def Let_def)
  note pr = prunable_cong [OF eq2(1,2,3,4,5)]
  have eq3: "snapshots s3 = filter (\<lambda>n. \<not> prunable s n) (snapshots s)"
    "snapshot_objects s3 = filter (\<lambda>ob. o_snapshot_id ob \<notin> set (map s_id (filter (prunable s) (snapshots s)))) (snapshot_objects s)"
    "now_us s3 = now_us s" "retention_config s3 = retention_config s" "jobs s3 = jobs s2"
    using s3 eq2 by (auto simp: prune_snapshots_def Let_def pr)
  have due3: "no_new_due s s3"
  proof (rule no_new_due_map)
    show "gc_marks s3 = map (\<lambda>g. if (\<exists>d \<in> set (map s_id (filter (prunable s) (snapshots s))). g_snapshot_id g = Some d)
        then g\<lparr>g_snapshot_id := None\<rparr> else g) (gc_marks s)"
      using s3 eq2 by (auto simp: prune_snapshots_def Let_def pr)
  qed (use eq3 in \<open>simp_all add: same_due_def\<close>)
  have "gc_frame s3 s'" using presD [OF mark_objects_frame, of s3] s4 by simp
  then show "snapshots s' = filter (\<lambda>n. \<not> prunable s n) (snapshots s)"
    "snapshot_objects s' = filter (\<lambda>ob. o_snapshot_id ob \<notin> set (map s_id (filter (prunable s) (snapshots s)))) (snapshot_objects s)"
    "now_us s' = now_us s" "retention_config s' = retention_config s"
    "jobs s' = filter (\<lambda>j. \<not> before_cutoff (j_completed_at j) (retention_cutoff s ''jobs'')) (jobs s)"
    using eq2 eq3 by (simp_all add: gc_frame_def)
  have "no_new_due s3 s'" using presD [OF mark_objects_due, of s3] s4 by simp
  with due3 show "no_new_due s s'" by (rule no_new_due_trans)
qed

lemma expired_not_protected: "expired_snapshot s n \<Longrightarrow> \<not> snapshot_is_gc_protected s n"
  by (auto simp: expired_snapshot_def snapshot_is_gc_protected_def before_cutoff_def
      not_before_cutoff_def in_progress_def split: option.splits)

text \<open>C19: retention never removes what is protected. After a successful run every snapshot that was
  ready, in progress, or superseded or failed within its window is still there, with every one
  of its objects.\<close>

theorem retention_keeps_protected:
  assumes "applyRetention s = (Inr r, s')" and "distinct (map s_id (snapshots s))"
    and "n \<in> set (snapshots s)" and "snapshot_is_gc_protected s n"
  shows "n \<in> set (snapshots s')
    \<and> (\<forall>ob \<in> set (snapshot_objects s). o_snapshot_id ob = s_id n \<longrightarrow> ob \<in> set (snapshot_objects s'))"
proof -
  have np: "\<not> prunable s n" using assms(4) expired_not_protected by (auto simp: prunable_def)
  have "s_id n \<notin> set (map s_id (filter (prunable s) (snapshots s)))"
    using assms(2,3) np by (auto dest: distinct_map_unique)
  with np assms(3) show ?thesis by (auto simp: applyRetention_Inr [OF assms(1)])
qed

text \<open>C31: retention forgets metadata only after the data. When a snapshot's row disappears, each
  object it listed was collected already, or some snapshot that is still there and protected
  lists the same object.\<close>

theorem pruned_data_accounted:
  assumes "applyRetention s = (Inr r, s')" and "distinct (map s_id (snapshots s))"
    and "n \<in> set (snapshots s)" and "n \<notin> set (snapshots s')"
    and "old \<in> set (snapshot_objects s)" and "o_snapshot_id old = s_id n"
  shows "collected_key s (o_object_key old) \<or> live_content_key s' (o_object_key old)"
proof -
  note eqs = applyRetention_Inr [OF assms(1)]
  have "prunable s n" using assms(3,4) by (simp add: eqs)
  then have "object_released s n old" using assms(5,6) by (simp add: prunable_def)
  moreover have "live_content_key s' (o_object_key old)"
    if live: "live \<in> set (snapshot_objects s)" "m \<in> set (snapshots s)" "s_id m = o_snapshot_id live"
      "o_object_key live = o_object_key old" "snapshot_is_gc_protected s m" for live m
  proof -
    have np: "\<not> prunable s m" using live(5) expired_not_protected by (auto simp: prunable_def)
    then have "s_id m \<notin> set (map s_id (filter (prunable s) (snapshots s)))"
      using assms(2) live(2) by (auto dest: distinct_map_unique)
    with np live have "live \<in> set (snapshot_objects s')" "m \<in> set (snapshots s')" by (simp_all add: eqs)
    then show ?thesis using live protected_cong [OF eqs(3,4)] by (auto simp: live_content_key_def)
  qed
  ultimately show ?thesis by (auto simp: object_released_def)
qed

text \<open>A run starts clocks, it never stops them. With a grace period for objects, a mark that is
  eligible for collection after a run was open and due before it: an object whose snapshot has
  just expired always waits out the whole grace period first.\<close>

theorem retention_grants_grace:
  assumes "applyRetention s = (Inr r, s')" and "retention_days s ''content_objects'' \<noteq> Some 0"
    and "g \<in> set (gc_marks s')" and "gc_eligible s' g"
  shows "\<exists>g0 \<in> set (gc_marks s). g_id g0 = g_id g \<and> g_object_key g0 = g_object_key g
    \<and> \<not> g_collected g0 \<and> g_eligible_at g0 \<le> now_us s"
  using applyRetention_Inr(3,6) [OF assms(1)] assms(2,3,4)
  by (fastforce simp: no_new_due_def same_due_def gc_eligible_def)

section \<open>What the collector is given\<close>

lemma order_limit_sub: "set (order_limit k n xs) \<subseteq> set xs"
  by (auto simp: order_limit_def dest: in_set_takeD)

lemma order_limit_sorted: "sorted (map k (order_limit k n xs))"
  by (simp add: order_limit_def take_map [symmetric])

text \<open>The rows left out come after every row listed.\<close>

lemma order_limit_first:
  assumes "x \<in> set (order_limit k n xs)" and "y \<in> set xs" and "y \<notin> set (order_limit k n xs)"
  shows "k x \<le> k y"
proof -
  let ?ys = "sort_key k xs"
  have "y \<in> set (take n ?ys @ drop n ?ys)" using assms(2) by (simp only: append_take_drop_id set_sort)
  then have "y \<in> set (drop n ?ys)" using assms(3) unfolding order_limit_def set_append by blast
  moreover have "sorted (map k (take n ?ys) @ map k (drop n ?ys))"
    by (metis append_take_drop_id map_append sorted_sort_key)
  ultimately show ?thesis using assms(1) by (auto simp: sorted_append order_limit_def)
qed

text \<open>Nothing live is collected. Every mark handed to the collector is due, not collected, and its
  object belongs to no protected snapshot, neither as content nor as manifest; at most \<open>limit\<close>
  marks are handed out, and none that is left out has been due for longer.\<close>

theorem listGcEligible_safe:
  "length (listGcEligible lim s) \<le> lim
   \<and> (\<forall>g \<in> set (listGcEligible lim s). g \<in> set (gc_marks s) \<and> g_eligible_at g \<le> now_us s \<and> \<not> g_collected g
        \<and> (\<forall>n \<in> set (snapshots s). snapshot_is_gc_protected s n \<longrightarrow>
             s_manifest_key n \<noteq> Some (g_object_key g)
             \<and> (\<forall>ob \<in> set (snapshot_objects s). o_snapshot_id ob = s_id n \<longrightarrow> o_object_key ob \<noteq> g_object_key g)))
   \<and> (\<forall>g \<in> set (listGcEligible lim s). \<forall>g' \<in> set (gc_marks s).
        gc_eligible s g' \<and> g' \<notin> set (listGcEligible lim s) \<longrightarrow> g_eligible_at g \<le> g_eligible_at g')"
proof (intro conjI ballI)
  show "length (listGcEligible lim s) \<le> lim" by (simp add: listGcEligible_def order_limit_def)
next
  fix g
  assume "g \<in> set (listGcEligible lim s)"
  then have g: "g \<in> set (gc_marks s)" "gc_eligible s g"
    using order_limit_sub unfolding listGcEligible_def by fastforce+
  then show "g \<in> set (gc_marks s)" "g_eligible_at g \<le> now_us s" "\<not> g_collected g"
    by (simp_all add: gc_eligible_def)
  fix n
  assume "n \<in> set (snapshots s)"
  with g(2) show "snapshot_is_gc_protected s n \<longrightarrow> s_manifest_key n \<noteq> Some (g_object_key g)
      \<and> (\<forall>ob \<in> set (snapshot_objects s). o_snapshot_id ob = s_id n \<longrightarrow> o_object_key ob \<noteq> g_object_key g)"
    by (auto simp: gc_eligible_def live_content_key_def live_manifest_key_def)
next
  fix g g'
  assume g: "g \<in> set (listGcEligible lim s)" and g': "g' \<in> set (gc_marks s)"
  show "gc_eligible s g' \<and> g' \<notin> set (listGcEligible lim s) \<longrightarrow> g_eligible_at g \<le> g_eligible_at g'"
    using g g' order_limit_first [of g "\<lambda>g. (g_eligible_at g, g_id g)" lim "filter (gc_eligible s) (gc_marks s)" g']
    by (auto simp: listGcEligible_def)
qed

text \<open>A failed deletion is retried later and later, within bounds. Recording a failure on the one
  open mark with that id counts the attempt and postpones the mark by a minute doubled for each
  earlier attempt, at least 60 and never more than 61440 seconds; every other mark stays as it
  is.\<close>

theorem recordGcFailure_backoff:
  assumes "distinct (map g_id (gc_marks s))" and "g \<in> set (gc_marks s)" and "\<not> g_collected g"
  shows "recordGcFailure (g_id g) error s =
      (Inr True, s\<lparr>gc_marks := map (\<lambda>x. if x = g
          then g\<lparr>g_eligible_at := now_us s + seconds (60 * 2 ^ min (g_attempts g) 10),
                 g_attempts := g_attempts g + 1, g_last_error := Some (take 1000 error)\<rparr> else x) (gc_marks s)\<rparr>)
    \<and> 60 \<le> gc_backoff_seconds (g_attempts g) \<and> gc_backoff_seconds (g_attempts g) \<le> 61440"
proof -
  have pow: "(2::nat) ^ min n 10 \<le> 2 ^ 10" for n by (rule power_increasing) simp_all
  have one: "(1::nat) \<le> 2 ^ min n 10" for n by simp
  have b: "gc_backoff_seconds n = 60 * 2 ^ min n 10" for n
    using pow [of n] by (simp add: gc_backoff_seconds_def)
  have hit: "open_mark (g_id g) x \<longleftrightarrow> x = g" if "x \<in> set (gc_marks s)" for x
    using that assms by (auto simp: open_mark_def dest: distinct_map_unique)
  have "filter (open_mark (g_id g)) (gc_marks s) = filter (\<lambda>x. x = g) (gc_marks s)"
    using hit by (rule filter_cong [OF refl])
  also have "\<dots> = [g]"
    using filter_unique_key [of "\<lambda>x. x" "gc_marks s" g] assms(1,2) by (simp add: distinct_map)
  finally have "count_where (open_mark (g_id g)) (gc_marks s) = 1" by (simp add: count_where_def)
  moreover have "60 * 2 ^ min n 10 \<le> (61440::nat)" and "60 \<le> 60 * (2::nat) ^ min n 10" for n
    using pow [of n] one [of n] by simp_all
  ultimately show ?thesis
    using hit by (simp add: recordGcFailure_def upd_where_def b cong: map_cong if_cong)
qed

text \<open>A stalled upload cannot block its problem for ever. After the sweep no snapshot that was
  created more than six hours ago is in progress; the ones it touched carry the error
  \<open>stalled\<close>, all others are unchanged, and the result counts them.\<close>

theorem failStalledSnapshots_sweeps:
  "\<exists>s'. failStalledSnapshots s = (Inr (count_where (stalled s) (snapshots s)), s')
    \<and> (\<forall>n \<in> set (snapshots s'). \<not> stalled s' n)
    \<and> length (snapshots s') = length (snapshots s)
    \<and> (\<forall>i < length (snapshots s).
         if stalled s (snapshots s ! i)
         then s_state (snapshots s' ! i) = SError \<and> s_error_code (snapshots s' ! i) = Some ''stalled''
              \<and> s_id (snapshots s' ! i) = s_id (snapshots s ! i)
         else snapshots s' ! i = snapshots s ! i)"
  by (rule exI, rule conjI, unfold failStalledSnapshots_def, rule refl)
     (auto simp: upd_where_def stalled_def in_progress_def)

section \<open>The purge computes its specification\<close>

lemma length_filter_chosen:
  assumes "distinct (map k xs)" and "ys = order_limit f n (filter p xs)"
  shows "length (filter (\<lambda>x. k x \<in> set (map k ys)) xs) = min n (length (filter p xs))"
    and "filter (\<lambda>x. k x \<notin> set (map k ys)) xs = filter (\<lambda>x. x \<notin> set ys) xs"
proof -
  have sub: "set ys \<subseteq> set (filter p xs)" unfolding assms(2) by (rule order_limit_sub)
  have mem: "k x \<in> set (map k ys) \<longleftrightarrow> x \<in> set ys" if "x \<in> set xs" for x
    using sub that assms(1) by (auto dest: distinct_map_unique)
  then show "filter (\<lambda>x. k x \<notin> set (map k ys)) xs = filter (\<lambda>x. x \<notin> set ys) xs"
    by (intro filter_cong) auto
  have d: "distinct xs" using assms(1) by (simp add: distinct_map)
  then have dys: "distinct ys" unfolding assms(2) order_limit_def by simp
  have "filter (\<lambda>x. k x \<in> set (map k ys)) xs = filter (\<lambda>x. x \<in> set ys) xs"
    using mem by (intro filter_cong) auto
  moreover have "length (filter (\<lambda>x. x \<in> set ys) xs) = card (set ys)"
    using d sub by (subst distinct_card [symmetric]) (auto intro: arg_cong [where f = card])
  ultimately show "length (filter (\<lambda>x. k x \<in> set (map k ys)) xs) = min n (length (filter p xs))"
    using dys by (simp add: distinct_card assms(2) order_limit_def)
qed

lemma purge_loop_spec:
  assumes "0 < n" and "distinct (map j_id (jobs s))"
  shows "purge_loop d n acc s =
    (acc + count_where (purge_due d s) (jobs s), s\<lparr>jobs := filter (\<lambda>j. \<not> purge_due d s j) (jobs s)\<rparr>)"
  using assms
proof (induction d n acc s rule: purge_loop.induct)
  case (1 d n acc s)
  let ?due = "purge_due d s"
  define ys where "ys = order_limit (\<lambda>j. (j_updated_at j, j_id j)) n (filter ?due (jobs s))"
  define t where "t = s\<lparr>jobs := filter (\<lambda>j. j \<notin> set ys) (jobs s)\<rparr>"
  note ch = length_filter_chosen [OF 1(3) ys_def]
  have ids: "purge_ids d n s = map j_id ys" by (simp add: purge_ids_def ys_def)
  have b: "purge_batch d n s = (min n (length (filter ?due (jobs s))), t)"
    using ch by (simp add: purge_batch_def Let_def ids count_where_def t_def)
  have sub: "set ys \<subseteq> set (filter ?due (jobs s))" unfolding ys_def by (rule order_limit_sub)
  show ?case
  proof (cases "length (filter ?due (jobs s)) < n")
    case True
    then have "set ys = set (filter ?due (jobs s))" by (simp add: ys_def order_limit_def)
    then have "filter (\<lambda>j. j \<notin> set ys) (jobs s) = filter (\<lambda>j. \<not> ?due j) (jobs s)"
      by (intro filter_cong) auto
    with True b show ?thesis
      by (subst purge_loop.simps) (simp add: t_def count_where_def)
  next
    case False
    have due_t: "purge_due d t = ?due" by (simp add: fun_eq_iff purge_due_def t_def)
    have rest: "filter (\<lambda>j. \<not> ?due j) (jobs t) = filter (\<lambda>j. \<not> ?due j) (jobs s)"
      using sub by (auto simp: t_def filter_filter intro!: filter_cong)
    have "length (filter ?due (jobs t)) = length (filter ?due (jobs s)) - n"
    proof -
      have "length (jobs t) = length (jobs s) - n" "n \<le> length (jobs s)"
        using purge_batch_shrinks [OF b] False by auto
      moreover have "length (filter ?due (jobs t)) + length (filter (\<lambda>j. \<not> ?due j) (jobs t)) = length (jobs t)"
        "length (filter ?due (jobs s)) + length (filter (\<lambda>j. \<not> ?due j) (jobs s)) = length (jobs s)"
        by (rule sum_length_filter_compl)+
      ultimately show ?thesis using rest by simp
    qed
    moreover have "distinct (map j_id (jobs t))" using 1(3) by (simp add: t_def distinct_map_filter)
    ultimately have "purge_loop d n (acc + n) t = (acc + length (filter ?due (jobs s)), t\<lparr>jobs := filter (\<lambda>j. \<not> ?due j) (jobs t)\<rparr>)"
      using 1(1) [OF b [symmetric]] 1(2) False due_t by (simp add: count_where_def)
    with b False 1(2) rest show ?thesis
      by (subst purge_loop.simps) (simp add: t_def count_where_def)
  qed
qed

text \<open>The batched purge is one deletion. Whatever the batch size, the loop ends, deletes exactly
  the jobs that are completed, failed or cancelled and have not changed for the configured number
  of days, keeps every other row, and returns how many it deleted.\<close>

theorem purgeTerminalJobs_exact:
  assumes "maintenanceConfig env = Inr cfg" and "0 < batchSize" and "is_safe_integer batchSize"
    and "distinct (map j_id (jobs s))"
  shows "purgeTerminalJobs env batchSize s =
    (Inr (count_where (purge_due (mc_terminalJobRetentionDays cfg) s) (jobs s)),
     s\<lparr>jobs := filter (\<lambda>j. \<not> purge_due (mc_terminalJobRetentionDays cfg) s j) (jobs s)\<rparr>)"
  using assms purge_loop_spec [of "nat batchSize" s "mc_terminalJobRetentionDays cfg" 0]
  by (simp add: purgeTerminalJobs_def lift_sum_def bnd_def)

section \<open>A retried job keeps its old completion time\<close>

text \<open>
  \<open>retryJob\<close> and \<open>acquireJob\<close> leave \<open>completed_at\<close> as the failed attempt set it, and the first
  statement of \<open>applyRetention\<close> looks at nothing else. So a job that failed longer ago than the
  window, was retried and is pending again is deleted while it waits.
\<close>

definition old_failed_job :: job where
  "old_failed_job = (demo_job ''a'' Reconcile None Failed)\<lparr>j_completed_at := Some 0\<rparr>"

definition later_db :: db where
  "later_db = (demo_db [old_failed_job])\<lparr>now_us := days 91\<rparr>"

lemma retention_deletes_retried_job:
  "map j_state (jobs (snd (retryJob ''a'' later_db))) = [Pending]
   \<and> jobs (snd (delete_old_jobs (snd (retryJob ''a'' later_db)))) = []"
  by (simp add: later_db_def old_failed_job_def retryJob_def delete_old_jobs_def delete_jobs_def
      before_cutoff_def retention_cutoff_def retention_days_def days_def demo_simps queue_eval)

section \<open>Witnesses\<close>

definition demo_mark :: "string \<Rightarrow> string \<Rightarrow> gc_mark" where
  "demo_mark i k =
     \<lparr>g_id = i, g_sha256 = k, g_object_key = k, g_snapshot_id = None, g_object_kind = Content,
      g_marked_at = 0, g_eligible_at = 0, g_collected = False, g_collected_at = None,
      g_attempts = 0, g_last_error = None\<rparr>"

definition demo_object :: "string \<Rightarrow> string \<Rightarrow> snapshot_object" where
  "demo_object n k =
     \<lparr>o_snapshot_id = n, o_sha256 = k, o_rel_path = k, o_size_bytes = 1, o_object_key = k,
      o_uploaded = True, o_verified = True\<rparr>"

text \<open>One ready snapshot and one superseded a hundred days ago that share the object \<open>x\<close>.\<close>

definition demo_snapshots_db :: db where
  "demo_snapshots_db =
     (demo_db [])\<lparr>now_us := days 100, gc_marks := [demo_mark ''m'' ''z''],
       snapshots := [demo_snapshot ''r'' ''1'' 2 Ready,
         (demo_snapshot ''o'' ''1'' 1 Superseded)\<lparr>s_superseded_at := Some 0\<rparr>],
       snapshot_objects := [demo_object ''r'' ''x'', demo_object ''o'' ''x'']\<rparr>"

text \<open>The run step by step: nothing old but the superseded snapshot, and then nothing to mark.\<close>

definition pruned_db :: db where
  "pruned_db = demo_snapshots_db\<lparr>snapshots := [demo_snapshot ''r'' ''1'' 2 Ready],
     snapshot_objects := [demo_object ''r'' ''x'']\<rparr>"

lemmas window_eval = retention_cutoff_def retention_days_def before_cutoff_def not_before_cutoff_def
  expired_snapshot_def snapshot_is_gc_protected_def in_progress_def days_def

lemma demo_deletions:
  "delete_old_jobs demo_snapshots_db = (Inr 0, demo_snapshots_db)"
  "delete_old_audit_events demo_snapshots_db = (Inr 0, demo_snapshots_db)"
  by (simp_all add: delete_old_jobs_def delete_jobs_def delete_old_audit_events_def demo_snapshots_db_def
      demo_simps count_where_def)

lemma demo_prunable:
  "\<not> prunable demo_snapshots_db (demo_snapshot ''r'' ''1'' 2 Ready)"
  "prunable demo_snapshots_db ((demo_snapshot ''o'' ''1'' 1 Superseded)\<lparr>s_superseded_at := Some 0\<rparr>)"
  by (simp_all add: prunable_def manifest_released_def object_released_def demo_snapshots_db_def
      demo_object_def demo_simps window_eval)

lemma demo_prune: "prune_snapshots demo_snapshots_db = (Inr 1, pruned_db)"
proof -
  have "filter (prunable demo_snapshots_db) (snapshots demo_snapshots_db)
      = [(demo_snapshot ''o'' ''1'' 1 Superseded)\<lparr>s_superseded_at := Some 0\<rparr>]"
    and "filter (\<lambda>n. \<not> prunable demo_snapshots_db n) (snapshots demo_snapshots_db) = [demo_snapshot ''r'' ''1'' 2 Ready]"
    using demo_prunable by (simp_all add: demo_snapshots_db_def)
  then show ?thesis
    by (simp add: prune_snapshots_def count_where_def pruned_db_def)
       (simp add: demo_snapshots_db_def demo_object_def demo_mark_def demo_snapshot_def)
qed

lemma demo_marking: "mark_objects pruned_db = (Inr 0, pruned_db)"
proof -
  have "filter (expired_snapshot pruned_db) (snapshots pruned_db) = []"
    by (simp add: pruned_db_def demo_snapshot_def expired_snapshot_def)
  then show ?thesis
    by (simp add: mark_objects_def content_candidates_def manifest_candidates_def distinct_on_key_def bnd_def)
qed

lemma demo_retention:
  obtains r where "applyRetention demo_snapshots_db = (Inr r, pruned_db)"
  using demo_deletions demo_prune demo_marking by (simp add: applyRetention_def tx_def bnd_def)

theorem retention_keeps_protected_witness:
  "\<exists>r s'. applyRetention demo_snapshots_db = (Inr r, s')
     \<and> demo_snapshot ''r'' ''1'' 2 Ready \<in> set (snapshots s')
     \<and> demo_object ''r'' ''x'' \<in> set (snapshot_objects s')"
proof -
  obtain r where run: "applyRetention demo_snapshots_db = (Inr r, pruned_db)" by (rule demo_retention)
  have "demo_snapshot ''r'' ''1'' 2 Ready \<in> set (snapshots pruned_db)
      \<and> (\<forall>ob \<in> set (snapshot_objects demo_snapshots_db).
           o_snapshot_id ob = s_id (demo_snapshot ''r'' ''1'' 2 Ready) \<longrightarrow> ob \<in> set (snapshot_objects pruned_db))"
    by (rule retention_keeps_protected [OF run])
       (simp_all add: demo_snapshots_db_def demo_simps snapshot_is_gc_protected_def)
  with run show ?thesis by (auto simp: demo_snapshots_db_def demo_object_def demo_snapshot_def)
qed

theorem pruned_data_accounted_witness:
  "\<exists>r s'. applyRetention demo_snapshots_db = (Inr r, s') \<and> live_content_key s' ''x''"
proof -
  obtain r where run: "applyRetention demo_snapshots_db = (Inr r, pruned_db)" by (rule demo_retention)
  let ?n = "(demo_snapshot ''o'' ''1'' 1 Superseded)\<lparr>s_superseded_at := Some 0\<rparr>"
  have gone: "?n \<notin> set (snapshots pruned_db)" by (simp add: pruned_db_def demo_snapshot_def)
  have d: "distinct (map s_id (snapshots demo_snapshots_db))" and n: "?n \<in> set (snapshots demo_snapshots_db)"
    and ob: "demo_object ''o'' ''x'' \<in> set (snapshot_objects demo_snapshots_db)"
    and own: "o_snapshot_id (demo_object ''o'' ''x'') = s_id ?n"
    by (simp_all add: demo_snapshots_db_def demo_simps demo_object_def)
  have "collected_key demo_snapshots_db ''x'' \<or> live_content_key pruned_db ''x''"
    using pruned_data_accounted [OF run d n gone ob own] by (simp add: demo_object_def)
  moreover have "\<not> collected_key demo_snapshots_db ''x''"
    by (simp add: collected_key_def demo_snapshots_db_def demo_mark_def)
  ultimately show ?thesis using run by blast
qed

theorem retention_grants_grace_witness:
  "\<exists>r s'. applyRetention demo_snapshots_db = (Inr r, s') \<and> gc_eligible s' (demo_mark ''m'' ''z'')
     \<and> (\<exists>g0 \<in> set (gc_marks demo_snapshots_db). g_id g0 = ''m'' \<and> \<not> g_collected g0)"
proof -
  obtain r where run: "applyRetention demo_snapshots_db = (Inr r, pruned_db)" by (rule demo_retention)
  have el: "gc_eligible pruned_db (demo_mark ''m'' ''z'')"
    by (simp add: gc_eligible_def live_content_key_def live_manifest_key_def pruned_db_def demo_snapshots_db_def
        demo_mark_def demo_object_def demo_snapshot_def demo_simps)
  have "retention_days demo_snapshots_db ''content_objects'' \<noteq> Some 0"
    by (simp add: retention_days_def demo_snapshots_db_def demo_simps)
  moreover have "demo_mark ''m'' ''z'' \<in> set (gc_marks pruned_db)" by (simp add: pruned_db_def demo_snapshots_db_def)
  ultimately show ?thesis
    using retention_grants_grace [OF run _ _ el] run el by (fastforce simp: demo_mark_def)
qed

theorem recordGcFailure_backoff_witness:
  "\<exists>s'. recordGcFailure ''m'' ''boom'' demo_snapshots_db = (Inr True, s')
     \<and> map g_attempts (gc_marks s') = [1] \<and> map g_eligible_at (gc_marks s') = [days 100 + seconds 60]"
proof -
  have a: "distinct (map g_id (gc_marks demo_snapshots_db))" "demo_mark ''m'' ''z'' \<in> set (gc_marks demo_snapshots_db)"
    "\<not> g_collected (demo_mark ''m'' ''z'')"
    by (simp_all add: demo_snapshots_db_def demo_mark_def)
  have "now_us demo_snapshots_db = days 100" "gc_marks demo_snapshots_db = [demo_mark ''m'' ''z'']"
    by (simp_all add: demo_snapshots_db_def)
  with recordGcFailure_backoff [OF a, of "''boom''"] show ?thesis by (simp add: demo_mark_def)
qed

theorem purgeTerminalJobs_exact_witness:
  "purgeTerminalJobs no_env 1 later_db = (Inr 1, later_db\<lparr>jobs := []\<rparr>)"
proof -
  have "jobs later_db = [old_failed_job]" "purge_due 14 later_db old_failed_job"
    by (simp_all add: later_db_def old_failed_job_def demo_simps purge_due_def job_terminal_def days_def)
  then show ?thesis
    by (subst purgeTerminalJobs_exact [OF maintenanceConfig_default])
       (simp_all add: default_config_def is_safe_integer_def max_safe_integer_def count_where_def)
qed

theorem listGcEligible_safe_witness:
  "length (listGcEligible 5 demo_snapshots_db) \<le> 5
   \<and> demo_mark ''m'' ''z'' \<in> set (listGcEligible 5 demo_snapshots_db)
   \<and> \<not> g_collected (demo_mark ''m'' ''z'')
   \<and> s_manifest_key (demo_snapshot ''r'' ''1'' 2 Ready) \<noteq> Some (g_object_key (demo_mark ''m'' ''z''))"
proof -
  have el: "gc_eligible demo_snapshots_db (demo_mark ''m'' ''z'')"
    by (simp add: gc_eligible_def live_content_key_def live_manifest_key_def demo_snapshots_db_def
        demo_mark_def demo_object_def demo_simps)
  then have "demo_mark ''m'' ''z'' \<in> set (listGcEligible 5 demo_snapshots_db)"
    by (simp add: listGcEligible_def order_limit_def demo_snapshots_db_def)
  moreover have "demo_snapshot ''r'' ''1'' 2 Ready \<in> set (snapshots demo_snapshots_db)"
    and "snapshot_is_gc_protected demo_snapshots_db (demo_snapshot ''r'' ''1'' 2 Ready)"
    by (simp_all add: demo_snapshots_db_def demo_snapshot_def snapshot_is_gc_protected_def)
  ultimately show ?thesis using listGcEligible_safe [of 5 demo_snapshots_db] by blast
qed

definition stalled_db :: db where
  "stalled_db = (demo_db [])\<lparr>now_us := seconds 30000, snapshots := [demo_snapshot ''r'' ''1'' 2 Uploading]\<rparr>"

theorem failStalledSnapshots_sweeps_witness:
  "\<exists>s'. failStalledSnapshots stalled_db = (Inr 1, s') \<and> s_state (snapshots s' ! 0) = SError"
proof -
  have "snapshots stalled_db = [demo_snapshot ''r'' ''1'' 2 Uploading]"
    and "stalled stalled_db (demo_snapshot ''r'' ''1'' 2 Uploading)"
    by (simp_all add: stalled_db_def stalled_def in_progress_def seconds_def demo_simps)
  then show ?thesis using failStalledSnapshots_sweeps [of stalled_db] by (auto simp: count_where_def)
qed

end
