(* ===== verification/Paging.thy ===== *)
theory Paging
  imports Usage
begin

text \<open>
  Keyset pagination, the pattern behind every list function of \<open>control-plane/src/db.ts\<close>: fetch one
  row more than the page holds, hand out a cursor made from the page's last row, and continue
  after it. \<open>key\<close> is what the query orders by; \<open>cur\<close> is the key the cursor of a row decodes to.
  The client relies on one law between the two, stated as the locale \<open>keyset_cursor\<close>: a cursor
  decodes to the key of the row it was made from, for the rows in \<open>R\<close>. Under that law walking the
  pages of a table of such rows yields every row exactly once.

  A cursor itself is \<open>encodeCursor\<close> of a small JSON value and \<open>decodeCursor\<close> of it; here it is the
  decoded value, and a text that does not decode is the fallback value the function names.
\<close>

record ('r, 'c) page =
  pg_items :: "'r list"
  pg_next_cursor :: "'c option"
  pg_has_more :: bool

definition map_page :: "('r \<Rightarrow> 'q) \<Rightarrow> ('r, 'c) page \<Rightarrow> ('q, 'c) page" where
  "map_page f p = \<lparr>pg_items = map f (pg_items p), pg_next_cursor = pg_next_cursor p,
     pg_has_more = pg_has_more p\<rparr>"

text \<open>\<open>rows\<close> is the result of the query with \<open>LIMIT limit + 1\<close>.\<close>

definition page_of :: "('r \<Rightarrow> 'c) \<Rightarrow> nat \<Rightarrow> 'r list \<Rightarrow> ('r, 'c) page" where
  "page_of cur lim rows =
     (let items = take lim rows; more = lim < length rows in
      \<lparr>pg_items = items,
       pg_next_cursor = (if more \<and> items \<noteq> [] then Some (cur (rows ! (lim - 1))) else None),
       pg_has_more = more\<rparr>)"

definition after_cursor :: "('r \<Rightarrow> 'k::linorder) \<Rightarrow> 'k option \<Rightarrow> 'r \<Rightarrow> bool" where
  "after_cursor key c r = (case c of None \<Rightarrow> True | Some k \<Rightarrow> k < key r)"

definition before_cursor :: "('r \<Rightarrow> 'k::linorder) \<Rightarrow> 'k option \<Rightarrow> 'r \<Rightarrow> bool" where
  "before_cursor key c r = (case c of None \<Rightarrow> True | Some k \<Rightarrow> key r < k)"

definition page_asc ::
  "('r \<Rightarrow> 'k::linorder) \<Rightarrow> ('r \<Rightarrow> 'k) \<Rightarrow> nat \<Rightarrow> 'k option \<Rightarrow> 'r list \<Rightarrow> ('r, 'k) page" where
  "page_asc key cur lim c rs =
     page_of cur lim (take (Suc lim) (sort_key key (filter (after_cursor key c) rs)))"

text \<open>\<open>ORDER BY \<dots> DESC\<close>; equal keys do not occur, the id is part of every key.\<close>

definition page_desc ::
  "('r \<Rightarrow> 'k::linorder) \<Rightarrow> ('r \<Rightarrow> 'k) \<Rightarrow> nat \<Rightarrow> 'k option \<Rightarrow> 'r list \<Rightarrow> ('r, 'k) page" where
  "page_desc key cur lim c rs =
     page_of cur lim (take (Suc lim) (rev (sort_key key (filter (before_cursor key c) rs))))"

text \<open>The client: follow the cursor while there is more, at most \<open>fuel\<close> pages.\<close>

fun walk :: "('c option \<Rightarrow> ('r, 'c) page) \<Rightarrow> nat \<Rightarrow> 'c option \<Rightarrow> 'r list" where
  "walk fetch 0 c = []"
| "walk fetch (Suc fuel) c =
     (let p = fetch c in
      pg_items p @ (if pg_has_more p then walk fetch fuel (pg_next_cursor p) else []))"

lemma walk_map_page: "walk (\<lambda>c. map_page f (fetch c)) fuel c = map f (walk fetch fuel c)"
  by (induction fuel arbitrary: c) (simp_all add: map_page_def Let_def)

section \<open>The law and what follows from it\<close>

lemma drop_sorted_filter:
  assumes "sorted (map k L)" and "distinct (map k L)" and "n < length L"
  shows "filter (\<lambda>r. k (L ! n) < k r) L = drop (Suc n) L"
proof -
  have "L = take (Suc n) L @ drop (Suc n) L" by simp
  moreover have "filter (\<lambda>r. k (L ! n) < k r) (take (Suc n) L) = []"
  proof (rule filter_False, rule ballI)
    fix x
    assume "x \<in> set (take (Suc n) L)"
    then obtain i where i: "i < length (take (Suc n) L)" "x = take (Suc n) L ! i" by (metis in_set_conv_nth)
    then have "i \<le> n" "x = L ! i" "i < length L" by auto
    with assms(1,3) show "\<not> k (L ! n) < k x" using sorted_nth_mono [of "map k L" i n] by auto
  qed
  moreover have "filter (\<lambda>r. k (L ! n) < k r) (drop (Suc n) L) = drop (Suc n) L"
  proof (rule filter_True, rule ballI)
    fix x
    assume "x \<in> set (drop (Suc n) L)"
    then obtain i where i: "i < length (drop (Suc n) L)" "x = drop (Suc n) L ! i" by (metis in_set_conv_nth)
    then have "x = L ! (Suc n + i)" "Suc n + i < length L" by auto
    moreover from this have "k (L ! n) \<le> k x" using sorted_nth_mono [OF assms(1), of n "Suc n + i"] assms(3) by simp
    moreover from calculation have "k (L ! n) \<noteq> k x"
      using nth_eq_iff_index_eq [OF assms(2), of n "Suc n + i"] assms(3) by simp
    ultimately show "k (L ! n) < k x" by simp
  qed
  ultimately show ?thesis by (metis append_Nil filter_append)
qed

lemma distinct_map_sort_key: "distinct (map k (sort_key f xs)) = distinct (map k xs)"
  by (simp add: distinct_map)

locale keyset_cursor =
  fixes key :: "'r \<Rightarrow> 'k::linorder"
    and cur :: "'r \<Rightarrow> 'k"
    and R :: "'r set"
  assumes cursor_is_key: "r \<in> R \<Longrightarrow> cur r = key r"
begin

lemma next_page:
  assumes d: "distinct (map key rs)" and R: "set rs \<subseteq> R" and lim: "0 < lim"
    and L: "L = sort_key key (filter (after_cursor key c) rs)" and more: "lim < length L"
  shows "sort_key key (filter (after_cursor key (Some (cur (take (Suc lim) L ! (lim - 1))))) rs) = drop lim L"
proof -
  let ?k = "key (L ! (lim - 1))"
  have "L ! (lim - 1) \<in> set L" using more by simp
  moreover from this have "L ! (lim - 1) \<in> R" using R L by auto
  ultimately have k: "cur (take (Suc lim) L ! (lim - 1)) = ?k" using lim by (simp add: cursor_is_key)
  have "L ! (lim - 1) \<in> set L" using more by simp
  then have "after_cursor key c (L ! (lim - 1))" using L by simp
  then have "filter (after_cursor key (Some ?k)) rs = filter (\<lambda>r. ?k < key r) (filter (after_cursor key c) rs)"
    by (auto simp: after_cursor_def intro!: filter_cong split: option.splits)
  then have "sort_key key (filter (after_cursor key (Some ?k)) rs) = filter (\<lambda>r. ?k < key r) L"
    by (simp add: L filter_sort)
  also have "\<dots> = drop (Suc (lim - 1)) L"
  proof (rule drop_sorted_filter)
    show "sorted (map key L)" by (simp add: L)
    show "distinct (map key L)" using d by (simp add: L distinct_map_sort_key distinct_map_filter)
    show "lim - 1 < length L" using more by simp
  qed
  finally show ?thesis using lim k by simp
qed

lemma walk_rest:
  assumes "distinct (map key rs)" and R: "set rs \<subseteq> R" and "0 < lim"
    and "length (filter (after_cursor key c) rs) \<le> fuel * lim" and "0 < fuel"
  shows "walk (\<lambda>c. page_asc key cur lim c rs) fuel c = sort_key key (filter (after_cursor key c) rs)"
  using assms(4,5)
proof (induction fuel arbitrary: c)
  case (Suc fuel)
  define L where "L = sort_key key (filter (after_cursor key c) rs)"
  have len: "length L \<le> Suc fuel * lim" using Suc.prems(1) by (simp add: L_def)
  have p: "pg_items (page_asc key cur lim c rs) = take lim L"
    "pg_has_more (page_asc key cur lim c rs) = (lim < length L)"
    "lim < length L \<Longrightarrow> pg_next_cursor (page_asc key cur lim c rs) = Some (cur (take (Suc lim) L ! (lim - 1)))"
    using assms(3) by (auto simp: page_asc_def page_of_def Let_def L_def [symmetric] min_def)
  show ?case
  proof (cases "lim < length L")
    case False
    with p show ?thesis by (simp add: Let_def L_def [symmetric])
  next
    case True
    let ?c = "Some (cur (take (Suc lim) L ! (lim - 1)))"
    have nxt: "sort_key key (filter (after_cursor key ?c) rs) = drop lim L"
      by (rule next_page [OF assms(1,2,3) L_def True])
    then have "length (filter (after_cursor key ?c) rs) = length L - lim"
      by (metis length_drop length_sort)
    then have small: "length (filter (after_cursor key ?c) rs) \<le> fuel * lim" using len by simp
    have "0 < fuel" using len True by (cases fuel) auto
    from Suc.IH [OF small this] nxt
    have "walk (\<lambda>c. page_asc key cur lim c rs) fuel ?c = drop lim L" by simp
    with p True show ?thesis by (simp add: Let_def L_def [symmetric])
  qed
qed simp

lemma walk_complete:
  assumes "distinct (map key rs)" and "set rs \<subseteq> R" and "0 < lim"
  shows "walk (\<lambda>c. page_asc key cur lim c rs) (Suc (length rs)) None = sort_key key rs"
proof -
  have "length rs \<le> Suc (length rs) * lim" using assms(3) by (cases lim) auto
  with walk_rest [OF assms, of None "Suc (length rs)"] show ?thesis by (simp add: after_cursor_def)
qed

end

end
