(* ===== verification/Listing.thy ===== *)
theory Listing
  imports Usage Paging
begin

text \<open>
  The list functions and aggregates of \<open>control-plane/src/db.ts\<close>, each a pure function of the
  database. Rows are turned into the responses of \<open>schemas.ts\<close>; a cursor is its decoded value.
\<close>

section \<open>Snapshots\<close>

record snapshotT =
  st_id :: string
  st_problem_id :: string
  st_generation :: nat
  st_state :: snapshot_state
  st_file_count :: int
  st_total_bytes :: json
  st_manifest_key :: "string option"
  st_error_code :: "string option"
  st_error_message :: "string option"
  st_created_at :: nat
  st_completed_at :: "nat option"

definition rowToSnapshot :: "snapshot \<Rightarrow> snapshotT" where
  "rowToSnapshot r =
     \<lparr>st_id = s_id r,
      st_problem_id = s_problem_id r,
      st_generation = s_generation r,
      st_state = s_state r,
      st_file_count = s_file_count r,
      st_total_bytes = int8 (s_total_bytes r),
      st_manifest_key = s_manifest_key r,
      st_error_code = s_error_code r,
      st_error_message = s_error_message r,
      st_created_at = toRfc3339 (s_created_at r),
      st_completed_at = map_option toRfc3339 (s_completed_at r)\<rparr>"

text \<open>\<open>ORDER BY generation DESC, completed_at DESC NULLS LAST\<close>.\<close>

definition latest_first :: "snapshot \<Rightarrow> int \<times> bool \<times> int" where
  "latest_first n =
     (- int (s_generation n), s_completed_at n = None, - int (coalesce (s_completed_at n) 0))"

definition getLatestReadySnapshot :: "string \<Rightarrow> db \<Rightarrow> snapshotT option" where
  "getLatestReadySnapshot externalId s =
     map_option rowToSnapshot
       (first_by latest_first (\<lambda>n. s_problem_id n = externalId \<and> s_state n = Ready) (snapshots s))"

definition getSnapshot :: "string \<Rightarrow> db \<Rightarrow> snapshotT option" where
  "getSnapshot i s = map_option rowToSnapshot (List.find (\<lambda>n. s_id n = i) (snapshots s))"

definition getSnapshotByGeneration :: "string \<Rightarrow> nat \<Rightarrow> db \<Rightarrow> snapshotT option" where
  "getSnapshotByGeneration problemId generation s =
     map_option rowToSnapshot
       (List.find (\<lambda>n. s_problem_id n = problemId \<and> s_generation n = generation) (snapshots s))"

text \<open>A cursor of the time-ordered lists: \<open>toRfc3339\<close> keeps milliseconds, the column microseconds.\<close>

definition cursor_time :: "time \<Rightarrow> time" where
  "cursor_time t = toRfc3339 t * 1000"

definition listSnapshots ::
  "string option \<Rightarrow> (time \<times> string) option \<Rightarrow> nat \<Rightarrow> db \<Rightarrow> (snapshotT, time \<times> string) page" where
  "listSnapshots problemId c lim s =
     map_page rowToSnapshot
       (page_desc (\<lambda>n. (s_created_at n, s_id n)) (\<lambda>n. (cursor_time (s_created_at n), s_id n))
         (min lim 200) c
         (filter (\<lambda>n. \<not> truthy problemId \<or> Some (s_problem_id n) = problemId) (snapshots s)))"

record problem_file =
  pf_snapshot_id :: string
  pf_rel_path :: string
  pf_sha256 :: string
  pf_size_bytes :: json
  pf_object_key :: string
  pf_uploaded :: bool
  pf_verified :: bool

record problem_files =
  pfs_problem_id :: string
  pfs_generation :: "nat option"
  pfs_snapshot_id :: "string option"
  pfs_snapshot_state :: "snapshot_state option"
  pfs_snapshot_completed_at :: "nat option"
  pfs_total_bytes :: "json option"
  pfs_file_count :: "int option"
  pfs_page :: "(problem_file, string) page"

definition file_item :: "snapshot_object \<Rightarrow> problem_file" where
  "file_item r =
     \<lparr>pf_snapshot_id = o_snapshot_id r, pf_rel_path = o_rel_path r, pf_sha256 = o_sha256 r,
      pf_size_bytes = int8 (o_size_bytes r), pf_object_key = o_object_key r,
      pf_uploaded = o_uploaded r, pf_verified = o_verified r\<rparr>"

definition empty_page :: "('r, 'c) page" where
  "empty_page = \<lparr>pg_items = [], pg_next_cursor = None, pg_has_more = False\<rparr>"

definition listProblemFiles :: "string \<Rightarrow> string option \<Rightarrow> nat \<Rightarrow> db \<Rightarrow> problem_files" where
  "listProblemFiles externalId c lim s =
     (case getLatestReadySnapshot externalId s of
        None \<Rightarrow>
          \<lparr>pfs_problem_id = externalId, pfs_generation = None, pfs_snapshot_id = None,
           pfs_snapshot_state = None, pfs_snapshot_completed_at = None, pfs_total_bytes = None,
           pfs_file_count = None, pfs_page = empty_page\<rparr>
      | Some snap \<Rightarrow>
          \<lparr>pfs_problem_id = externalId, pfs_generation = Some (st_generation snap),
           pfs_snapshot_id = Some (st_id snap), pfs_snapshot_state = Some (st_state snap),
           pfs_snapshot_completed_at = st_completed_at snap,
           pfs_total_bytes = Some (st_total_bytes snap), pfs_file_count = Some (st_file_count snap),
           pfs_page = map_page file_item
             (page_asc o_rel_path o_rel_path (min lim 500) c
               (filter (\<lambda>ob. o_snapshot_id ob = st_id snap) (snapshot_objects s)))\<rparr>)"

section \<open>Problems\<close>

datatype sort_field = SortExternalId | SortCode | SortOwner | SortObservedAt

definition mapSortColumn :: "string \<Rightarrow> sort_field" where
  "mapSortColumn col =
     (if col = ''code'' then SortCode
      else if col = ''owner_organization'' then SortOwner
      else if col = ''observed_at'' then SortObservedAt
      else SortExternalId)"

text \<open>\<open>ILIKE\<close>: \<open>%\<close> matches any text, \<open>_\<close> any character, a backslash quotes the next character.\<close>

function like :: "string \<Rightarrow> string \<Rightarrow> bool" where
  "like [] s = (s = [])"
| "like (p # ps) s =
     (if p = CHR ''%'' then like ps s \<or> (case s of [] \<Rightarrow> False | c # cs \<Rightarrow> like (p # ps) cs)
      else if p = CHR ''_'' then (case s of [] \<Rightarrow> False | c # cs \<Rightarrow> like ps cs)
      else if p = bslash \<and> ps \<noteq> []
        then (case s of [] \<Rightarrow> False | c # cs \<Rightarrow> c = hd ps \<and> like (tl ps) cs)
      else (case s of [] \<Rightarrow> False | c # cs \<Rightarrow> c = p \<and> like ps cs))"
  by pat_completeness auto

termination
  by (relation "measure (\<lambda>(p, s). length p + length s)") auto

declare like.simps [simp del]

definition ilike :: "string \<Rightarrow> string \<Rightarrow> bool" where
  "ilike pattern t = like (to_lower pattern) (to_lower t)"

text \<open>
  The value of the sort column, nulls above all others (PostgreSQL's default), and its text as
  \<open>String(\<dots>)\<close> puts it into the cursor. A \<open>Date\<close> prints whole seconds there.
\<close>

definition sort_value :: "sort_field \<Rightarrow> problem \<Rightarrow> bool \<times> nat \<times> string" where
  "sort_value f p =
     (case f of
        SortExternalId \<Rightarrow> (False, 0, p_external_id p)
      | SortCode \<Rightarrow> (False, 0, p_code p)
      | SortOwner \<Rightarrow>
          (case p_owner_organization p of None \<Rightarrow> (True, 0, []) | Some org \<Rightarrow> (False, 0, org))
      | SortObservedAt \<Rightarrow> (False, p_observed_at p, []))"

definition sort_cursor :: "sort_field \<Rightarrow> problem \<Rightarrow> bool \<times> nat \<times> string" where
  "sort_cursor f p =
     (case f of
        SortOwner \<Rightarrow> (False, 0, coalesce (p_owner_organization p) [])
      | SortObservedAt \<Rightarrow> (False, p_observed_at p div 1000000 * 1000000, [])
      | _ \<Rightarrow> sort_value f p)"

record list_problems_opts =
  lp_search :: "string option"
  lp_ownerOrg :: "string option"
  lp_catalogState :: "string option"
  lp_sort :: "string option"
  lp_order :: "string option"
  lp_cursor :: "((bool \<times> nat \<times> string) \<times> string) option"
  lp_limit :: nat

definition problem_matches :: "list_problems_opts \<Rightarrow> problem \<Rightarrow> bool" where
  "problem_matches opts p \<longleftrightarrow>
     (truthy (lp_search opts) \<longrightarrow>
        (let pattern = ''%'' @ coalesce (lp_search opts) [] @ ''%'' in
         ilike pattern (p_code p) \<or> ilike pattern (p_external_id p)))
     \<and> (truthy (lp_ownerOrg opts) \<longrightarrow> p_owner_organization p = lp_ownerOrg opts)
     \<and> (truthy (lp_catalogState opts) \<longrightarrow>
          Some (catalog_state_text (p_catalog_state p)) = lp_catalogState opts)"

definition problem_item :: "db \<Rightarrow> problem \<Rightarrow> problemT" where
  "problem_item s p =
     rowToProblem p (map_option u_logical_bytes (usage_of (p_external_id p) s))"

text \<open>With a cursor, a row whose sort column is null compares as unknown and is left out.\<close>

definition listProblems ::
  "list_problems_opts \<Rightarrow> db \<Rightarrow> (problemT, (bool \<times> nat \<times> string) \<times> string) page" where
  "listProblems opts s =
     (let f = mapSortColumn (if truthy (lp_sort opts) then coalesce (lp_sort opts) [] else ''external_id'');
          key = (\<lambda>p. (sort_value f p, p_external_id p));
          cur = (\<lambda>p. (sort_cursor f p, p_external_id p));
          known = (\<lambda>p. lp_cursor opts = None \<or> \<not> fst (sort_value f p));
          rows = filter (\<lambda>p. problem_matches opts p \<and> known p) (problems s);
          lim = min (lp_limit opts) 200
      in map_page (problem_item s)
           (if lp_order opts = Some ''desc''
            then page_desc key cur lim (lp_cursor opts) rows
            else page_asc key cur lim (lp_cursor opts) rows))"

section \<open>Usage and orphans\<close>

definition listProblemUsage :: "string option \<Rightarrow> nat \<Rightarrow> db \<Rightarrow> (usageT, string) page" where
  "listProblemUsage c lim s =
     map_page rowToProblemUsage
       (page_asc u_problem_id u_problem_id (min lim 200) c (problem_usage s))"

record orphanT =
  ot_code :: string
  ot_logical_bytes :: json
  ot_allocated_bytes :: json
  ot_file_count :: int
  ot_observed_at :: nat

definition orphan_rows :: "db \<Rightarrow> (problem \<times> usage) list" where
  "orphan_rows s =
     concat (map (\<lambda>p. case usage_of (p_external_id p) s of None \<Rightarrow> [] | Some u \<Rightarrow> [(p, u)])
       (filter (\<lambda>p. p_catalog_state p = COrphan) (problems s)))"

definition orphan_item :: "problem \<times> usage \<Rightarrow> orphanT" where
  "orphan_item r =
     (case r of (p, u) \<Rightarrow>
        \<lparr>ot_code = p_code p, ot_logical_bytes = int8 (u_logical_bytes u),
         ot_allocated_bytes = int8 (u_allocated_bytes u), ot_file_count = u_file_count u,
         ot_observed_at = toRfc3339 (u_observed_at u)\<rparr>)"

definition listOrphans :: "string option \<Rightarrow> nat \<Rightarrow> db \<Rightarrow> (orphanT, string) page" where
  "listOrphans c lim s =
     map_page orphan_item
       (page_asc (\<lambda>r. p_code (fst r)) (\<lambda>r. p_code (fst r)) (min lim 200) c (orphan_rows s))"

section \<open>Organizations\<close>

record organization_usageT =
  ou_organization_id :: string
  ou_problem_count :: nat
  ou_logical_bytes :: json
  ou_allocated_bytes :: json
  ou_archive_bytes :: json
  ou_auxiliary_bytes :: json
  ou_referenced_bytes :: json
  ou_quota_bytes :: "json option"
  ou_problem_count_quota :: "int option"
  ou_observed_at :: nat
  ou_stale :: bool

definition max_option :: "'a::linorder list \<Rightarrow> 'a option" where
  "max_option xs = (if xs = [] then None else Some (Max (set xs)))"

definition settings_of :: "string \<Rightarrow> db \<Rightarrow> organization_settings option" where
  "settings_of org s = List.find (\<lambda>r. os_organization_id r = org) (organization_settings_rows s)"

definition org_problems :: "string \<Rightarrow> db \<Rightarrow> problem list" where
  "org_problems org s = filter (\<lambda>p. p_owner_organization p = Some org \<and> cataloged p) (problems s)"

definition usages_of :: "problem list \<Rightarrow> db \<Rightarrow> usage list" where
  "usages_of ps s = List.map_filter (\<lambda>p. usage_of (p_external_id p) s) ps"

definition sum_of :: "(usage \<Rightarrow> int) \<Rightarrow> problem list \<Rightarrow> db \<Rightarrow> int" where
  "sum_of f ps s = sum_list (map f (usages_of ps s))"

definition or_null :: "bool list \<Rightarrow> bool option" where
  "or_null bs = (if bs = [] then None else Some (list_ex id bs))"

text \<open>One group of the \<open>GROUP BY\<close>, already through \<open>rowToOrgUsage\<close>.\<close>

definition rowToOrgUsage :: "string \<Rightarrow> db \<Rightarrow> organization_usageT" where
  "rowToOrgUsage org s =
     (let ps = org_problems org s; us = usages_of ps s; st = settings_of org s in
      \<lparr>ou_organization_id = org,
       ou_problem_count = length ps,
       ou_logical_bytes = int8 (sum_of u_logical_bytes ps s),
       ou_allocated_bytes = int8 (sum_of u_allocated_bytes ps s),
       ou_archive_bytes = int8 (sum_of u_archive_bytes ps s),
       ou_auxiliary_bytes = int8 (sum_of u_auxiliary_bytes ps s),
       ou_referenced_bytes = int8 (sum_of u_referenced_bytes ps s),
       ou_quota_bytes = map_option int8
         (or_else (Option.bind st os_storage_quota_bytes)
                  (max_option (List.map_filter p_quota_bytes ps))),
       ou_problem_count_quota = Option.bind st os_problem_count_quota,
       ou_observed_at = toRfc3339 (coalesce (max_option (map u_observed_at us)) (now_us s)),
       ou_stale = coalesce (or_null (map u_stale us)) True\<rparr>)"

definition getOrganizationUsage :: "string \<Rightarrow> db \<Rightarrow> organization_usageT option" where
  "getOrganizationUsage orgId s =
     (if org_problems orgId s = [] then None else Some (rowToOrgUsage orgId s))"

definition organizations :: "db \<Rightarrow> string list" where
  "organizations s = remdups (List.map_filter p_owner_organization (filter cataloged (problems s)))"

definition listOrganizationUsage :: "string option \<Rightarrow> nat \<Rightarrow> db \<Rightarrow> (organization_usageT, string) page" where
  "listOrganizationUsage c lim s =
     map_page (\<lambda>org. rowToOrgUsage org s)
       (page_asc (\<lambda>org. org) (\<lambda>org. org) (min lim 200) c (organizations s))"

definition listLargestOrganizations :: "nat \<Rightarrow> db \<Rightarrow> organization_usageT list" where
  "listLargestOrganizations lim s =
     map (\<lambda>org. rowToOrgUsage org s)
       (order_limit (\<lambda>org. (- sum_of u_logical_bytes (org_problems org s) s, org)) lim (organizations s))"

definition upsertOrganizationSettings ::
  "string \<Rightarrow> int option \<Rightarrow> int option \<Rightarrow> (db, organization_settings) act" where
  "upsertOrganizationSettings organizationId storageQuotaBytes problemCountQuota s =
     (let new = \<lparr>os_organization_id = organizationId, os_storage_quota_bytes = storageQuotaBytes,
                 os_problem_count_quota = problemCountQuota, os_updated_at = now_us s\<rparr> in
      (Inr new,
       s\<lparr>organization_settings_rows :=
           (if settings_of organizationId s = None then organization_settings_rows s @ [new]
            else upd_where (\<lambda>r. os_organization_id r = organizationId) (\<lambda>_. new)
                   (organization_settings_rows s))\<rparr>))"

section \<open>Jobs and audit events\<close>

definition listJobs ::
  "string option \<Rightarrow> string option \<Rightarrow> (time \<times> string) option \<Rightarrow> nat \<Rightarrow> db \<Rightarrow> (jobT, time \<times> string) page" where
  "listJobs state problemId c lim s =
     map_page rowToJob
       (page_desc (\<lambda>j. (j_created_at j, j_id j)) (\<lambda>j. (cursor_time (j_created_at j), j_id j))
         (min lim 200) c
         (filter (\<lambda>j. (truthy state \<longrightarrow> Some (job_state_text (j_state j)) = state)
                      \<and> (truthy problemId \<longrightarrow> j_problem_id j = problemId)) (jobs s)))"

record audit_opts =
  ao_actor :: string
  ao_actorRole :: "string option"
  ao_action :: string
  ao_targetType :: "string option"
  ao_targetId :: "string option"
  ao_problemId :: "string option"
  ao_generation :: "nat option"
  ao_jobId :: "string option"
  ao_metadata :: "json option"
  ao_requestId :: "string option"

definition insertAuditEvent :: "audit_opts \<Rightarrow> (db, unit) act" where
  "insertAuditEvent opts s =
     (let (i, s1) = fresh_uuid s in
      (Inr (), s1\<lparr>audit_events := audit_events s1 @
         [\<lparr>a_id = i, a_actor = ao_actor opts, a_actor_role = ao_actorRole opts,
           a_action = ao_action opts, a_target_type = ao_targetType opts,
           a_target_id = ao_targetId opts, a_problem_id = ao_problemId opts,
           a_generation = ao_generation opts, a_job_id = ao_jobId opts,
           a_metadata = coalesce (ao_metadata opts) (JObj []), a_request_id = ao_requestId opts,
           a_created_at = now_us s\<rparr>]\<rparr>))"

record auditT =
  at_id :: string
  at_actor :: string
  at_actor_role :: "string option"
  at_action :: string
  at_target_type :: "string option"
  at_target_id :: "string option"
  at_problem_id :: "string option"
  at_generation :: "nat option"
  at_job_id :: "string option"
  at_metadata :: json
  at_request_id :: "string option"
  at_created_at :: nat

definition rowToAudit :: "audit_event \<Rightarrow> auditT" where
  "rowToAudit r =
     \<lparr>at_id = a_id r, at_actor = a_actor r, at_actor_role = a_actor_role r, at_action = a_action r,
      at_target_type = a_target_type r, at_target_id = a_target_id r,
      at_problem_id = a_problem_id r, at_generation = a_generation r,
      at_job_id = a_job_id r, at_metadata = a_metadata r, at_request_id = a_request_id r,
      at_created_at = toRfc3339 (a_created_at r)\<rparr>"

record list_audit_opts =
  la_actor :: "string option"
  la_action :: "string option"
  la_problemId :: "string option"
  la_from :: "time option"
  la_to :: "time option"
  la_cursor :: "(time \<times> string) option"
  la_limit :: nat

definition audit_matches :: "list_audit_opts \<Rightarrow> audit_event \<Rightarrow> bool" where
  "audit_matches opts a \<longleftrightarrow>
     (case la_from opts of None \<Rightarrow> True | Some t \<Rightarrow> t \<le> a_created_at a)
     \<and> (case la_to opts of None \<Rightarrow> True | Some t \<Rightarrow> a_created_at a \<le> t)
     \<and> (truthy (la_actor opts) \<longrightarrow> Some (a_actor a) = la_actor opts)
     \<and> (truthy (la_action opts) \<longrightarrow> Some (a_action a) = la_action opts)
     \<and> (truthy (la_problemId opts) \<longrightarrow> a_problem_id a = la_problemId opts)"

definition listAuditEvents :: "list_audit_opts \<Rightarrow> db \<Rightarrow> (auditT, time \<times> string) page" where
  "listAuditEvents opts s =
     map_page rowToAudit
       (page_desc (\<lambda>a. (a_created_at a, a_id a)) (\<lambda>a. (cursor_time (a_created_at a), a_id a))
         (min (la_limit opts) 200) (la_cursor opts) (filter (audit_matches opts) (audit_events s)))"

section \<open>The synchronization feed\<close>

record sync_change =
  sy_external_id :: string
  sy_code :: string
  sy_owner_organization :: "string option"
  sy_is_manually_managed :: bool
  sy_mirror_of :: "string option"
  sy_mirror_root :: "string option"
  sy_catalog_state :: string
  sy_event_kind :: string
  sy_schema_version :: nat
  sy_downloadable :: bool
  sy_quota_bytes :: "json option"
  sy_logical_bytes :: json
  sy_allocated_bytes :: json
  sy_archive_bytes :: json
  sy_auxiliary_bytes :: json
  sy_file_count :: int
  sy_local_status :: string
  sy_r2_status :: string
  sy_snapshot_generation :: "nat option"
  sy_orphan_bytes :: json
  sy_referenced_bytes :: json
  sy_last_accessed_at :: "nat option"
  sy_observed_at :: nat
  sy_stale :: bool
  sy_updated_at :: nat

type_synonym sync_row = "problem \<times> usage option"

definition sync_rows :: "db \<Rightarrow> sync_row list" where
  "sync_rows s = map (\<lambda>p. (p, usage_of (p_external_id p) s)) (problems s)"

text \<open>\<open>GREATEST\<close> ignores a null argument.\<close>

definition sync_updated_at :: "sync_row \<Rightarrow> time" where
  "sync_updated_at r =
     (case r of (p, u) \<Rightarrow>
        (case u of None \<Rightarrow> p_observed_at p | Some v \<Rightarrow> max (p_observed_at p) (u_observed_at v)))"

definition usage_field :: "(usage \<Rightarrow> 'a) \<Rightarrow> 'a \<Rightarrow> usage option \<Rightarrow> 'a" where
  "usage_field f d u = (case u of None \<Rightarrow> d | Some v \<Rightarrow> f v)"

text \<open>Both tables have a column \<open>stale\<close>; the one of \<open>problem_usage\<close> comes last and wins.\<close>

definition rowToSyncChange :: "sync_row \<Rightarrow> sync_change" where
  "rowToSyncChange r =
     (case r of (p, u) \<Rightarrow>
        \<lparr>sy_external_id = p_external_id p,
         sy_code = p_code p,
         sy_owner_organization = p_owner_organization p,
         sy_is_manually_managed = p_is_manually_managed p,
         sy_mirror_of = p_mirror_of p,
         sy_mirror_root = p_mirror_root p,
         sy_catalog_state = catalog_state_text (p_catalog_state p),
         sy_event_kind = (if p_catalog_state p \<in> {CMissing, CDeleted} then ''delete'' else ''upsert''),
         sy_schema_version = 1,
         sy_downloadable =
           (usage_field u_r2_status RNone u = RReady \<and> usage_field u_snapshot_generation None u \<noteq> None),
         sy_quota_bytes = map_option int8 (p_quota_bytes p),
         sy_logical_bytes = int8 (usage_field u_logical_bytes 0 u),
         sy_allocated_bytes = int8 (usage_field u_allocated_bytes 0 u),
         sy_archive_bytes = int8 (usage_field u_archive_bytes 0 u),
         sy_auxiliary_bytes = int8 (usage_field u_auxiliary_bytes 0 u),
         sy_file_count = usage_field u_file_count 0 u,
         sy_local_status = local_status_text (usage_field u_local_status LMissing u),
         sy_r2_status = r2_status_text (usage_field u_r2_status RNone u),
         sy_snapshot_generation = usage_field u_snapshot_generation None u,
         sy_orphan_bytes = int8 (usage_field u_orphan_bytes 0 u),
         sy_referenced_bytes = int8 (usage_field u_referenced_bytes 0 u),
         sy_last_accessed_at = map_option toRfc3339 (usage_field u_last_accessed_at None u),
         sy_observed_at = toRfc3339 (usage_field u_observed_at (p_observed_at p) u),
         sy_stale = usage_field u_stale True u,
         sy_updated_at = toRfc3339 (sync_updated_at r)\<rparr>)"

definition sync_key :: "sync_row \<Rightarrow> time \<times> string" where
  "sync_key r = (sync_updated_at r, p_external_id (fst r))"

definition sync_cursor :: "sync_row \<Rightarrow> time \<times> string" where
  "sync_cursor r = (cursor_time (sync_updated_at r), p_external_id (fst r))"

text \<open>The feed hands out a cursor with every page that has a row, also with the last one.\<close>

definition getSyncChanges :: "(time \<times> string) option \<Rightarrow> nat \<Rightarrow> db \<Rightarrow> (sync_change, time \<times> string) page" where
  "getSyncChanges c lim0 s =
     (let lim = min lim0 500;
          rows = take (Suc lim) (sort_key sync_key (filter (after_cursor sync_key c) (sync_rows s)));
          changes = map rowToSyncChange (take lim rows)
      in \<lparr>pg_items = changes,
          pg_next_cursor =
            (if changes \<noteq> [] then Some (sync_cursor (rows ! (min lim (length rows) - 1))) else None),
          pg_has_more = lim < length rows\<rparr>)"

section \<open>Volumes\<close>

record volumeT =
  vt_name :: string
  vt_mount_path :: string
  vt_total_bytes :: json
  vt_free_bytes :: json
  vt_available_bytes :: json
  vt_observed_at :: nat
  vt_stale :: bool

definition volume_item :: "volume \<Rightarrow> volumeT" where
  "volume_item r =
     \<lparr>vt_name = v_name r, vt_mount_path = v_mount_path r, vt_total_bytes = int8 (v_total_bytes r),
      vt_free_bytes = int8 (v_free_bytes r), vt_available_bytes = int8 (v_available_bytes r),
      vt_observed_at = toRfc3339 (v_observed_at r), vt_stale = v_stale r\<rparr>"

definition getVolume :: "db \<Rightarrow> volumeT option" where
  "getVolume s =
     map_option volume_item (first_by (\<lambda>v. - int (v_observed_at v)) (\<lambda>_. True) (storage_volumes s))"

definition upsertVolume :: "string \<Rightarrow> string \<Rightarrow> int \<Rightarrow> int \<Rightarrow> int \<Rightarrow> (db, unit) act" where
  "upsertVolume name mountPath all free available s =
     (let new = \<lparr>v_name = name, v_mount_path = mountPath, v_total_bytes = all, v_free_bytes = free,
                 v_available_bytes = available, v_observed_at = now_us s, v_stale = False\<rparr> in
      (Inr (),
       s\<lparr>storage_volumes :=
           (if \<exists>v \<in> set (storage_volumes s). v_name v = name
            then upd_where (\<lambda>v. v_name v = name) (\<lambda>_. new) (storage_volumes s)
            else storage_volumes s @ [new]),
         storage_volume_observations := storage_volume_observations s @ [new]\<rparr>))"

definition listVolumeTimeseries :: "string option \<Rightarrow> nat \<Rightarrow> db \<Rightarrow> volumeT list" where
  "listVolumeTimeseries name lim s =
     map volume_item
       (order_limit (\<lambda>v. - int (v_observed_at v)) lim
         (filter (\<lambda>v. truthy name \<longrightarrow> Some (v_name v) = name) (storage_volume_observations s)))"

section \<open>The dashboard\<close>

record dashboard_summary =
  ds_catalog_problem_count :: nat
  ds_active_problem_count :: nat
  ds_dirty_problem_count :: nat
  ds_orphan_count :: nat
  ds_logical_bytes :: json
  ds_allocated_bytes :: json
  ds_archive_bytes :: json
  ds_auxiliary_bytes :: json
  ds_local_problem_count :: nat
  ds_local_allocated_bytes :: json
  ds_r2_snapshot_problem_count :: nat
  ds_r2_snapshot_bytes :: json

definition has_local :: "db \<Rightarrow> problem \<Rightarrow> bool" where
  "has_local s p \<longleftrightarrow>
     (case usage_of (p_external_id p) s of None \<Rightarrow> False | Some u \<Rightarrow> u_local_status u = LPresent)"

definition ready_snapshots :: "db \<Rightarrow> snapshot list" where
  "ready_snapshots s =
     filter (\<lambda>n. s_state n = Ready
                 \<and> (\<exists>p \<in> set (problems s). p_external_id p = s_problem_id n \<and> cataloged p)) (snapshots s)"

definition getDashboardSummary :: "db \<Rightarrow> dashboard_summary" where
  "getDashboardSummary s =
     (let active = filter cataloged (problems s);
          local = filter (has_local s) active
      in \<lparr>ds_catalog_problem_count = length (problems s),
          ds_active_problem_count = length active,
          ds_dirty_problem_count = count_where p_dirty (problems s),
          ds_orphan_count = count_where (\<lambda>p. p_catalog_state p = COrphan) (problems s),
          ds_logical_bytes = int8 (sum_of u_logical_bytes active s),
          ds_allocated_bytes = int8 (sum_of u_allocated_bytes active s),
          ds_archive_bytes = int8 (sum_of u_archive_bytes active s),
          ds_auxiliary_bytes = int8 (sum_of u_auxiliary_bytes active s),
          ds_local_problem_count = length local,
          ds_local_allocated_bytes = int8 (sum_of u_allocated_bytes local s),
          ds_r2_snapshot_problem_count = length (ready_snapshots s),
          ds_r2_snapshot_bytes = int8 (sum_list (map s_total_bytes (ready_snapshots s)))\<rparr>)"

definition group_counts :: "string list \<Rightarrow> (string \<times> nat) list" where
  "group_counts xs = map (\<lambda>v. (v, count_list xs v)) (sort (remdups xs))"

record status_distributions =
  sd_local_status :: "(string \<times> nat) list"
  sd_r2_status :: "(string \<times> nat) list"
  sd_catalog_state :: "(string \<times> nat) list"

definition getStatusDistributions :: "db \<Rightarrow> status_distributions" where
  "getStatusDistributions s =
     (let us = map (\<lambda>p. usage_of (p_external_id p) s) (problems s) in
      \<lparr>sd_local_status = group_counts (map (usage_field (\<lambda>u. local_status_text (u_local_status u)) ''unknown'') us),
       sd_r2_status = group_counts (map (usage_field (\<lambda>u. r2_status_text (u_r2_status u)) ''none'') us),
       sd_catalog_state = group_counts (map (\<lambda>p. catalog_state_text (p_catalog_state p)) (problems s))\<rparr>)"

definition listLargestProblems :: "nat \<Rightarrow> db \<Rightarrow> usageT list" where
  "listLargestProblems lim s =
     map rowToProblemUsage
       (order_limit (\<lambda>u. (- u_logical_bytes u, u_problem_id u)) lim
         (filter (\<lambda>u. \<exists>p \<in> set (problems s). p_external_id p = u_problem_id u \<and> cataloged p) (problem_usage s)))"

section \<open>Walking the pages\<close>

text \<open>The cursors that carry the whole key: the law holds for every row.\<close>

interpretation usage_pages: keyset_cursor u_problem_id u_problem_id UNIV
  by unfold_locales simp

interpretation orphan_pages: keyset_cursor "\<lambda>r. p_code (fst r)" "\<lambda>r. p_code (fst r)" UNIV
  by unfold_locales simp

interpretation org_pages: keyset_cursor "\<lambda>org. org" "\<lambda>org. org" UNIV
  by unfold_locales simp

interpretation file_pages: keyset_cursor o_rel_path o_rel_path UNIV
  by unfold_locales simp

text \<open>The feed's cursor keeps milliseconds, so the law holds for rows stamped with whole ones.\<close>

definition whole_millis :: "sync_row set" where
  "whole_millis = {r. sync_updated_at r mod 1000 = 0}"

interpretation sync_pages: keyset_cursor sync_key sync_cursor whole_millis
proof unfold_locales
  fix r :: sync_row
  assume "r \<in> whole_millis"
  then have "sync_updated_at r div 1000 * 1000 = sync_updated_at r"
    by (auto simp: whole_millis_def)
  then show "sync_cursor r = sync_key r" by (simp add: sync_cursor_def sync_key_def cursor_time_def toRfc3339_def)
qed

lemma min_pos: "0 < lim \<Longrightarrow> 0 < min lim (200::nat)"
  by simp

text \<open>Paging through the accounting rows is exact. With any page size, following the cursors of
  \<open>listProblemUsage\<close> until there is no more ends and yields every row of the table exactly once,
  in the order of the problem ids.\<close>

theorem usage_pages_complete:
  assumes "distinct (map u_problem_id (problem_usage s))" and "0 < lim"
  shows "walk (\<lambda>c. listProblemUsage c lim s) (Suc (length (problem_usage s))) None
    = map rowToProblemUsage (sort_key u_problem_id (problem_usage s))"
  unfolding listProblemUsage_def walk_map_page
  using usage_pages.walk_complete [OF assms(1) subset_UNIV min_pos [OF assms(2)]] by simp

lemma walk_sync_eq:
  "walk (\<lambda>c. getSyncChanges c lim s) fuel c
     = map rowToSyncChange (walk (\<lambda>c. page_asc sync_key sync_cursor (min lim 500) c (sync_rows s)) fuel c)"
proof (induction fuel arbitrary: c)
  case (Suc fuel)
  let ?p = "getSyncChanges c lim s" and ?q = "page_asc sync_key sync_cursor (min lim 500) c (sync_rows s)"
  have items: "pg_items ?p = map rowToSyncChange (pg_items ?q)" "pg_has_more ?p = pg_has_more ?q"
    by (simp_all add: getSyncChanges_def page_asc_def page_of_def Let_def)
  have nxt: "pg_next_cursor ?p = pg_next_cursor ?q" if "pg_has_more ?q" "0 < min lim 500"
    using that by (auto simp: getSyncChanges_def page_asc_def page_of_def Let_def min_def)
  show ?case
  proof (cases "pg_has_more ?q \<and> 0 < min lim 500")
    case True
    with items nxt Suc.IH show ?thesis by (simp add: Let_def)
  next
    case False
    show ?thesis
    proof (cases "pg_has_more ?q")
      case True
      with False have z: "min lim 500 = 0" by simp
      have "pg_next_cursor ?p = None" "pg_next_cursor ?q = None"
        unfolding getSyncChanges_def page_asc_def page_of_def Let_def z by simp_all
      with items Suc.IH show ?thesis by (simp add: Let_def)
    next
      case no: False
      with items show ?thesis by (simp add: Let_def)
    qed
  qed
qed simp

text \<open>C39: the synchronization feed is complete for rows stamped with whole milliseconds. If every
  problem's last change falls on one, following the cursors of \<open>getSyncChanges\<close> yields the change
  of every problem exactly once, oldest first. (For other stamps see \<open>sync_feed_stuck\<close>.)\<close>

theorem sync_feed_complete:
  assumes "distinct (map p_external_id (problems s))" and "set (sync_rows s) \<subseteq> whole_millis" and "0 < lim"
  shows "walk (\<lambda>c. getSyncChanges c lim s) (Suc (length (problems s))) None
    = map rowToSyncChange (sort_key sync_key (sync_rows s))"
proof -
  have "map (p_external_id \<circ> fst) (sync_rows s) = map p_external_id (problems s)"
    by (simp add: sync_rows_def)
  with assms(1) have "distinct (map (p_external_id \<circ> fst) (sync_rows s))" by simp
  then have "distinct (map snd (map sync_key (sync_rows s)))" by (simp add: sync_key_def comp_def)
  then have "distinct (map sync_key (sync_rows s))" using distinct_map by blast
  moreover have "0 < min lim 500" using assms(3) by simp
  moreover have "length (sync_rows s) = length (problems s)" by (simp add: sync_rows_def)
  ultimately show ?thesis
    unfolding walk_sync_eq using sync_pages.walk_complete [OF _ assms(2)] by metis
qed

section \<open>Search\<close>

lemma like_percent: "like (CHR ''%'' # ps) s \<longleftrightarrow> (\<exists>n \<le> length s. like ps (drop n s))"
proof (induction s)
  case Nil
  then show ?case by (simp add: like.simps)
next
  case (Cons c cs)
  have "like (CHR ''%'' # ps) (c # cs) \<longleftrightarrow> like ps (c # cs) \<or> (\<exists>n \<le> length cs. like ps (drop n cs))"
    by (subst like.simps) (simp add: Cons)
  also have "\<dots> \<longleftrightarrow> (\<exists>n \<le> length (c # cs). like ps (drop n (c # cs)))"
  proof
    assume "like ps (c # cs) \<or> (\<exists>n \<le> length cs. like ps (drop n cs))"
    then show "\<exists>n \<le> length (c # cs). like ps (drop n (c # cs))"
    proof
      assume "like ps (c # cs)"
      then show ?thesis by (intro exI [of _ 0]) simp
    next
      assume "\<exists>n \<le> length cs. like ps (drop n cs)"
      then obtain n where "n \<le> length cs" "like ps (drop n cs)" by blast
      then show ?thesis by (intro exI [of _ "Suc n"]) simp
    qed
  next
    assume "\<exists>n \<le> length (c # cs). like ps (drop n (c # cs))"
    then obtain n where "n \<le> length (c # cs)" "like ps (drop n (c # cs))" by blast
    then show "like ps (c # cs) \<or> (\<exists>n \<le> length cs. like ps (drop n cs))" by (cases n) auto
  qed
  finally show ?case .
qed

text \<open>A text without wildcards.\<close>

definition plain :: "string \<Rightarrow> bool" where
  "plain x \<longleftrightarrow> CHR ''%'' \<notin> set x \<and> CHR ''_'' \<notin> set x \<and> bslash \<notin> set x"

lemma like_literal: "plain x \<Longrightarrow> like (x @ ps) s \<longleftrightarrow> starts_with x s \<and> like ps (drop (length x) s)"
proof (induction x arbitrary: s)
  case (Cons p x)
  then have "plain x" "p \<noteq> CHR ''%''" "p \<noteq> CHR ''_''" "p \<noteq> bslash" by (auto simp: plain_def)
  with Cons.IH show ?case by (cases s) (auto simp: like.simps)
qed simp

lemma contains_text_iff: "contains_text p s \<longleftrightarrow> (\<exists>n \<le> length s. starts_with p (drop n s))"
proof (induction s)
  case Nil
  then show ?case by (cases p) simp_all
next
  case (Cons c cs)
  have "(\<exists>n \<le> length (c # cs). starts_with p (drop n (c # cs)))
      \<longleftrightarrow> starts_with p (c # cs) \<or> (\<exists>n \<le> length cs. starts_with p (drop n cs))"
    by (metis Suc_le_mono drop0 drop_Suc_Cons le0 length_Cons not0_implies_Suc)
  with Cons show ?case by simp
qed

lemma like_anything: "like ''%'' s"
  by (simp add: like_percent like.simps(1) exI [of _ "length s"])

text \<open>A search is a substring test. For a search text without wildcard characters the pattern
  \<open>%text%\<close> matches a code or id exactly when the text occurs in it, ignoring the case of ASCII
  letters.\<close>

theorem search_is_substring:
  assumes "plain (to_lower x)"
  shows "ilike (''%'' @ x @ ''%'') t = contains_text (to_lower x) (to_lower t)"
proof -
  have l: "to_lower (''%'' @ x @ ''%'') = CHR ''%'' # (to_lower x @ ''%'')"
    by (simp add: to_lower_def to_lower_char_def)
  have "ilike (''%'' @ x @ ''%'') t
      \<longleftrightarrow> (\<exists>n \<le> length (to_lower t). starts_with (to_lower x) (drop n (to_lower t)))"
    unfolding ilike_def l
    by (simp add: like_percent [of "to_lower x @ ''%''"] like_literal [OF assms] like_anything)
  then show ?thesis by (simp add: contains_text_iff)
qed

section \<open>Sums\<close>

lemma sum_of_eq: "sum_of f ps s = sum_list (map (\<lambda>p. usage_field f 0 (usage_of (p_external_id p) s)) ps)"
  by (induction ps) (auto simp: sum_of_def usages_of_def map_filter_def usage_field_def)

lemma sum_list_groups:
  assumes "finite S"
  shows "(\<Sum>org\<in>S. sum_list (map w (filter (\<lambda>p. owner p = Some org) ps)))
    = (sum_list (map w (filter (\<lambda>p. \<exists>org \<in> S. owner p = Some org) ps)) :: int)"
proof (induction ps)
  case (Cons p ps)
  have "(\<Sum>org\<in>S. sum_list (map w (filter (\<lambda>p. owner p = Some org) (p # ps))))
      = (\<Sum>org\<in>S. (if owner p = Some org then w p else 0) + sum_list (map w (filter (\<lambda>p. owner p = Some org) ps)))"
    by (rule sum.cong) auto
  also have "\<dots> = (\<Sum>org\<in>S. if owner p = Some org then w p else 0)
      + (\<Sum>org\<in>S. sum_list (map w (filter (\<lambda>p. owner p = Some org) ps)))"
    by (rule sum.distrib)
  also have "(\<Sum>org\<in>S. if owner p = Some org then w p else 0) = (if \<exists>org \<in> S. owner p = Some org then w p else 0)"
    using assms by (cases "owner p") (auto simp: sum.delta')
  finally show ?case using Cons by simp
qed simp

text \<open>The accounts add up. The dashboard's total of a usage column over the active problems is the
  sum of that column over all organizations that are listed plus the problems nobody owns.\<close>

theorem organizations_add_up:
  "sum_of f (filter cataloged (problems s)) s
   = sum_list (map (\<lambda>org. sum_of f (org_problems org s) s) (organizations s))
     + sum_of f (filter (\<lambda>p. cataloged p \<and> p_owner_organization p = None) (problems s)) s"
proof -
  let ?w = "\<lambda>p. usage_field f 0 (usage_of (p_external_id p) s)"
  let ?ps = "filter cataloged (problems s)"
  have owned: "(\<exists>org \<in> set (organizations s). p_owner_organization p = Some org) \<longleftrightarrow> p_owner_organization p \<noteq> None"
    if "p \<in> set ?ps" for p
    using that by (force simp: organizations_def map_filter_def)
  have "sum_list (map (\<lambda>org. sum_of f (org_problems org s) s) (organizations s))
      = (\<Sum>org\<in>set (organizations s). sum_list (map ?w (filter (\<lambda>p. p_owner_organization p = Some org) ?ps)))"
    by (simp add: sum_list_distinct_conv_sum_set organizations_def sum_of_eq org_problems_def conj_commute)
  also have "\<dots> = sum_list (map ?w (filter (\<lambda>p. \<exists>org \<in> set (organizations s). p_owner_organization p = Some org) ?ps))"
    by (rule sum_list_groups) simp
  also have "\<dots> = sum_list (map ?w (filter (\<lambda>p. p_owner_organization p \<noteq> None) ?ps))"
    by (rule arg_cong [where f = "\<lambda>xs. sum_list (map ?w xs)"], rule filter_cong [OF refl owned])
  finally have orgs: "sum_list (map (\<lambda>org. sum_of f (org_problems org s) s) (organizations s))
      = sum_list (map ?w (filter (\<lambda>p. p_owner_organization p \<noteq> None) ?ps))" .
  have un: "filter (\<lambda>p. cataloged p \<and> p_owner_organization p = None) (problems s)
      = filter (\<lambda>p. p_owner_organization p = None) ?ps"
    by (simp add: conj_commute)
  have split: "sum_list (map ?w xs) = sum_list (map ?w (filter (\<lambda>p. p_owner_organization p \<noteq> None) xs))
      + sum_list (map ?w (filter (\<lambda>p. p_owner_organization p = None) xs))" for xs
    by (induction xs) auto
  show ?thesis
    unfolding un sum_of_eq [of f ?ps] sum_of_eq [of f "filter (\<lambda>p. p_owner_organization p = None) ?ps"]
    using split [of ?ps] orgs by linarith
qed

section \<open>Where the law fails\<close>

text \<open>
  \<open>markMissingOutsideCatalog\<close> stamps all its rows with one \<open>now()\<close>. Three problems with the same
  stamp, which is not a whole millisecond, and a page of two: the cursor of the first page lies
  before all of them, so the feed answers with the same page and the same cursor for ever, and
  the third problem is never delivered.
\<close>

definition same_stamp_db :: db where
  "same_stamp_db = (demo_db [])\<lparr>problems :=
     [(demo_problem ''1'' ''a'')\<lparr>p_observed_at := 1500\<rparr>, (demo_problem ''2'' ''b'')\<lparr>p_observed_at := 1500\<rparr>,
      (demo_problem ''3'' ''c'')\<lparr>p_observed_at := 1500\<rparr>]\<rparr>"

lemmas sync_eval = same_stamp_db_def getSyncChanges_def sync_rows_def sync_key_def sync_cursor_def
  sync_updated_at_def cursor_time_def toRfc3339_def after_cursor_def rowToSyncChange_def usage_of_def

lemma sync_feed_stuck:
  "pg_next_cursor (getSyncChanges None 2 same_stamp_db) = Some (1000, ''2'')"
  "getSyncChanges (Some (1000, ''2'')) 2 same_stamp_db = getSyncChanges None 2 same_stamp_db"
  "map sy_external_id (pg_items (getSyncChanges None 2 same_stamp_db)) = [''1'', ''2'']"
  "pg_has_more (getSyncChanges None 2 same_stamp_db)"
  by (simp_all add: sync_eval demo_simps)

text \<open>
  The lists ordered by descending time lose rows instead: of two jobs created within the same
  millisecond, the older one is not after the cursor of the younger one.
\<close>

definition two_jobs_db :: db where
  "two_jobs_db = demo_db [(demo_job ''a'' Scan None Completed)\<lparr>j_created_at := 1500\<rparr>,
     (demo_job ''b'' Scan None Completed)\<lparr>j_created_at := 1200\<rparr>]"

lemma job_list_skips:
  "map jt_id (pg_items (listJobs None None None 1 two_jobs_db)) = [''a'']"
  "pg_next_cursor (listJobs None None None 1 two_jobs_db) = Some (1000, ''a'')"
  "pg_items (listJobs None None (Some (1000, ''a'')) 1 two_jobs_db) = []"
  by (simp_all add: two_jobs_db_def listJobs_def page_desc_def page_of_def before_cursor_def map_page_def
      cursor_time_def toRfc3339_def truthy_def rowToJob_def demo_simps)

section \<open>Witnesses\<close>

definition two_usages_db :: db where
  "two_usages_db = (demo_db [])\<lparr>problem_usage := [default_usage ''2'' 0, default_usage ''1'' 0]\<rparr>"

theorem usage_pages_complete_witness:
  "map ut_problem_id (walk (\<lambda>c. listProblemUsage c 1 two_usages_db) 3 None) = [''1'', ''2'']"
proof -
  have "distinct (map u_problem_id (problem_usage two_usages_db))" "length (problem_usage two_usages_db) = 2"
    by (simp_all add: two_usages_db_def default_usage_def)
  with usage_pages_complete [of two_usages_db 1] show ?thesis
    by (simp add: two_usages_db_def default_usage_def rowToProblemUsage_def numeral_3_eq_3 del: walk.simps)
qed

theorem sync_feed_complete_witness:
  "map sy_external_id (walk (\<lambda>c. getSyncChanges c 1 (demo_db [])) 3 None) = [''1'', ''2'']"
proof -
  have "distinct (map p_external_id (problems (demo_db [])))" "length (problems (demo_db [])) = 2"
    and "set (sync_rows (demo_db [])) \<subseteq> whole_millis"
    and "map sy_external_id (map rowToSyncChange (sort_key sync_key (sync_rows (demo_db [])))) = [''1'', ''2'']"
    by (simp_all add: demo_simps sync_rows_def whole_millis_def sync_updated_at_def sync_key_def
        rowToSyncChange_def usage_of_def)
  with sync_feed_complete [of "demo_db []" 1] show ?thesis by (simp add: numeral_3_eq_3 del: walk.simps)
qed

theorem search_is_substring_witness: "ilike (''%'' @ ''Plus'' @ ''%'') ''aplusb''"
  by (subst search_is_substring) (simp_all add: to_lower_def to_lower_char_def plain_def bslash_def char_of_def bit_0)

end
