(* ===== verification/Worker.thy ===== *)
theory Worker
  imports Retention Listing
begin

text \<open>
  The job worker of \<open>control-plane/src/worker.ts\<close> and the error of \<open>rust-client.ts\<close>. The data plane
  is a parameter: each of its calls is a computation that may change the database in any way,
  which stands for its own writes, for everything other connections do while the call runs, and
  for the time that passes.
\<close>

section \<open>Errors\<close>

text \<open>
  The message of an exception. The texts of database errors come from PostgreSQL, \<open>pg\<close> gives them.
\<close>

definition err_message :: "(err \<Rightarrow> string) \<Rightarrow> err \<Rightarrow> string" where
  "err_message pg e =
     (case e of
        UniqueViolation c \<Rightarrow> pg e
      | ForeignKeyViolation c \<Rightarrow> pg e
      | JobLeaseLostError jobId \<Rightarrow> ''Job lease lost for '' @ jobId
      | IdempotencyConflictError \<Rightarrow> ''Idempotency-Key already used with a different request''
      | ProblemOperationConflictError problemId \<Rightarrow>
          ''Another local storage operation is already active for problem '' @ problemId
      | CatalogCodeConflictError code externalId \<Rightarrow>
          ''Problem code '' @ code @ '' is already owned by catalog problem '' @ externalId
      | OrphanHistoryConflictError code \<Rightarrow>
          ''Orphan '' @ code @ '' has immutable history and cannot be merged automatically''
      | LastDashboardAdministratorError \<Rightarrow>
          ''Cannot delete the last enabled dashboard administrator; create another administrator first''
      | RustError statusCode code message \<Rightarrow>
          ''Rust data plane error '' @ nat_text statusCode
          @ (if truthy code then '' '' @ coalesce code [] else []) @ '': '' @ message
      | PlainError message \<Rightarrow> message)"

text \<open>
  The constructor of \<open>RustError\<close>: \<open>body\<close> is the parsed response, \<open>None\<close> when it is not JSON. The
  third component is the upstream's message; the exception's own text is \<open>err_message\<close> of it.
\<close>

definition rust_error :: "nat \<Rightarrow> json option \<Rightarrow> err" where
  "rust_error statusCode body =
     (let payload = (case body of Some (JObj kvs) \<Rightarrow> Some (JObj kvs) | _ \<Rightarrow> None);
          text_field = (\<lambda>k. case Option.bind payload (\<lambda>v. json_field v k) of
                              Some (JStr t) \<Rightarrow> Some t | _ \<Rightarrow> None)
      in RustError statusCode (text_field ''code'')
           (coalesce (text_field ''message'') ''data plane request failed''))"

definition errorCode :: "(err \<Rightarrow> string) \<Rightarrow> err \<Rightarrow> string" where
  "errorCode pg e =
     (case e of
        RustError statusCode (Some (c # cs)) message \<Rightarrow> to_lower (c # cs)
      | _ \<Rightarrow> if contains_text ''Unsupported'' (err_message pg e) then ''unsupported_job''
             else ''job_failed'')"

definition isLiveReferenceError :: "err \<Rightarrow> bool" where
  "isLiveReferenceError e =
     (case e of RustError statusCode code message \<Rightarrow>
        statusCode = 409 \<and> code = Some ''OBJECT_LIVE_REFERENCE'' | _ \<Rightarrow> False)"

section \<open>The data plane and the worker's context\<close>

record scan_result =
  sr_logical_bytes :: int
  sr_allocated_bytes :: int
  sr_archive_bytes :: int
  sr_auxiliary_bytes :: int
  sr_file_count :: int
  sr_observed_at :: time
  sr_raw :: json

record rust_snapshot =
  rs_state :: string
  rs_raw :: "(string \<times> json) list"

record rust_client =
  rc_scan :: "string \<Rightarrow> string \<Rightarrow> (db, scan_result) act"
  rc_createSnapshot :: "string \<Rightarrow> nat \<Rightarrow> string \<Rightarrow> nat \<Rightarrow> json \<Rightarrow> (db, rust_snapshot) act"
  rc_restore :: "string \<Rightarrow> nat \<Rightarrow> string \<Rightarrow> nat \<Rightarrow> (db, json) act"
  rc_evict :: "string \<Rightarrow> string \<Rightarrow> bool \<Rightarrow> bool \<Rightarrow> nat \<Rightarrow> string option \<Rightarrow> (db, json) act"
  rc_deleteObject :: "string \<Rightarrow> nat \<Rightarrow> (db, unit) act"

text \<open>
  \<open>wc_leaseValid\<close> is the flag the renewal timer maintains, \<open>wc_sleep\<close> what happens during a pause of
  five seconds, \<open>wc_other\<close> what other connections do between the statements of the writes under a
  lease; \<open>wc_enc\<close> and \<open>wc_dec\<close> are the text of a cursor and its decoding.
\<close>

record worker_ctx =
  wc_rust :: rust_client
  wc_problemRootContainer :: string
  wc_workerId :: string
  wc_leaseValid :: "db \<Rightarrow> bool"
  wc_sleep :: "(db, unit) act"
  wc_other :: others
  wc_enc :: "string \<Rightarrow> string"
  wc_dec :: "string \<Rightarrow> string"
  wc_pg :: "err \<Rightarrow> string"
  wc_polls :: nat

definition guard_lease :: "worker_ctx \<Rightarrow> jobT \<Rightarrow> (db, unit) act" where
  "guard_lease ctx t = reading (\<lambda>s.
     if \<not> wc_leaseValid ctx s then throw (JobLeaseLostError (jt_id t)) else assertJobLease t)"

text \<open>The checks the handlers share: a problem id (not empty), and the problem itself.\<close>

definition require_problem_id :: "string \<Rightarrow> jobT \<Rightarrow> (db, string) act" where
  "require_problem_id message t =
     (if truthy (jt_problem_id t) then ret (coalesce (jt_problem_id t) [])
      else throw (PlainError message))"

definition require_problem :: "string \<Rightarrow> (db, problemT) act" where
  "require_problem pid = reading (\<lambda>s.
     case getProblem pid s of
       None \<Rightarrow> throw (PlainError (''Problem not found: '' @ pid))
     | Some p \<Rightarrow> ret p)"

section \<open>Handlers\<close>

definition scan_usage :: "scan_result \<Rightarrow> usage_patch" where
  "scan_usage r =
     \<lparr>up_logical_bytes = Some (sr_logical_bytes r), up_allocated_bytes = Some (sr_allocated_bytes r),
      up_archive_bytes = Some (sr_archive_bytes r), up_auxiliary_bytes = Some (sr_auxiliary_bytes r),
      up_file_count = Some (sr_file_count r), up_local_status = Some LPresent, up_r2_status = None,
      up_snapshot_generation = None, up_orphan_bytes = None, up_referenced_bytes = None,
      up_last_accessed_at = None, up_observed_at = Some (sr_observed_at r)\<rparr>"

definition scan_handler :: "worker_ctx \<Rightarrow> jobT \<Rightarrow> (db, json) act" where
  "scan_handler ctx t =
     bnd (require_problem_id ''scan job requires problem_id'' t) (\<lambda>pid.
     bnd (require_problem pid) (\<lambda>problem.
     bnd (guard_lease ctx t) (\<lambda>_.
     bnd (rc_scan (wc_rust ctx) (pt_code problem) (pt_external_id problem)) (\<lambda>result.
     bnd (guard_lease ctx t) (\<lambda>_.
     bnd (upsertProblemUsageForJob (wc_other ctx) t (pt_external_id problem) (scan_usage result))
       (\<lambda>_. ret (sr_raw result)))))))"

text \<open>\<open>payload.dirty_version ?? null\<close>, and its value as a \<open>bigint\<close>.\<close>

definition dirty_version_json :: "json \<Rightarrow> json" where
  "dirty_version_json payload = coalesce (json_field payload ''dirty_version'') JNull"

definition dirty_version_of :: "json \<Rightarrow> nat option" where
  "dirty_version_of v =
     (case v of JNum n \<Rightarrow> Some (nat n) | JStr t \<Rightarrow> Some (digits_value t) | _ \<Rightarrow> None)"

definition snapshot_row :: "string \<Rightarrow> nat \<Rightarrow> db \<Rightarrow> snapshot option" where
  "snapshot_row pid generation s =
     List.find (\<lambda>n. s_problem_id n = pid \<and> s_generation n = generation) (snapshots s)"

definition terminal_text :: "string \<Rightarrow> bool" where
  "terminal_text st \<longleftrightarrow> st = ''ready'' \<or> st = ''error'' \<or> st = ''superseded''"

text \<open>
  The polling loop. The deadline is 90 minutes after the start and a round sleeps five seconds;
  \<open>fuel\<close> counts the rounds and \<open>snapshot_waits_enough\<close> below shows how many suffice.
\<close>

definition snapshot_wait_us :: nat where
  "snapshot_wait_us = 5400000000"

definition out_of_fuel :: err where
  "out_of_fuel = PlainError ''out of fuel''"

fun poll_snapshot ::
  "worker_ctx \<Rightarrow> jobT \<Rightarrow> string \<Rightarrow> nat \<Rightarrow> time \<Rightarrow> nat \<Rightarrow> string \<Rightarrow> (db, string) act" where
  "poll_snapshot ctx t pid generation deadline 0 st =
     (if terminal_text st then ret st else throw out_of_fuel)"
| "poll_snapshot ctx t pid generation deadline (Suc fuel) st =
     (if terminal_text st then ret st
      else reading (\<lambda>s.
        if deadline < now_us s
        then throw (PlainError (''snapshot did not reach a terminal state within 5400000ms (last state: '' @ st @ '')''))
        else
          bnd (wc_sleep ctx) (\<lambda>_.
          bnd (guard_lease ctx t) (\<lambda>_. reading (\<lambda>s.
            case snapshot_row pid generation s of
              None \<Rightarrow> throw (PlainError (''snapshot row disappeared for '' @ pid @ '' generation '' @ nat_text generation))
            | Some row \<Rightarrow>
                poll_snapshot ctx t pid generation deadline fuel (snapshot_state_text (s_state row)))))))"

definition snapshot_failure :: "string \<Rightarrow> snapshot option \<Rightarrow> err" where
  "snapshot_failure st row =
     rust_error 500 (Some (JObj
       [(''error_code'', JStr (coalesce (Option.bind row s_error_code) ''snapshot_failed'')),
        (''message'', JStr (coalesce (Option.bind row s_error_message) (''snapshot state: '' @ st)))]))"

definition snapshot_handler :: "worker_ctx \<Rightarrow> jobT \<Rightarrow> (db, json) act" where
  "snapshot_handler ctx t =
     (if \<not> truthy (jt_problem_id t) \<or> jt_target_generation t = None
      then throw (PlainError ''snapshot job requires problem_id and generation'')
      else
        (let generation = coalesce (jt_target_generation t) 0;
             dirtyVersion = dirty_version_json (jt_result t) in
         bnd (require_problem (coalesce (jt_problem_id t) [])) (\<lambda>problem.
         bnd (guard_lease ctx t) (\<lambda>_.
         bnd (rc_createSnapshot (wc_rust ctx) (pt_external_id problem) generation (pt_code problem)
                (jt_fencing_token t) dirtyVersion) (\<lambda>snap. reading (\<lambda>s0.
         bnd (poll_snapshot ctx t (pt_external_id problem) generation (now_us s0 + snapshot_wait_us)
                (wc_polls ctx) (to_lower (rs_state snap))) (\<lambda>st.
           if st \<noteq> ''ready''
           then reading (\<lambda>s. throw (snapshot_failure st (snapshot_row (pt_external_id problem) generation s)))
           else
             bnd (clearDirtyAfterSnapshotForJob (wc_other ctx) t (pt_external_id problem) generation
                    (dirty_version_of dirtyVersion))
               (\<lambda>_. ret (JObj (AList.update ''state'' (JStr st) (rs_raw snap)))))))))))"

text \<open>\<open>root.replace(/\/$/, '')\<close>.\<close>

definition strip_slash :: "string \<Rightarrow> string" where
  "strip_slash root = (if root \<noteq> [] \<and> last root = CHR ''/'' then butlast root else root)"

definition restore_handler :: "worker_ctx \<Rightarrow> jobT \<Rightarrow> (db, json) act" where
  "restore_handler ctx t =
     bnd (require_problem_id ''restore job requires problem_id'' t) (\<lambda>pid.
     bnd (require_problem pid) (\<lambda>problem.
     bnd (guard_lease ctx t) (\<lambda>_.
     bnd (rc_restore (wc_rust ctx) (pt_external_id problem) (coalesce (jt_target_generation t) 0)
            (strip_slash (wc_problemRootContainer ctx) @ ''/'' @ pt_code problem) (jt_fencing_token t))
       (\<lambda>result.
     bnd (markLocalPresentForJob (wc_other ctx) t (pt_external_id problem) (jt_target_generation t))
       (\<lambda>_. ret result)))))"

definition bool_field :: "json \<Rightarrow> string \<Rightarrow> bool \<Rightarrow> bool" where
  "bool_field v k d = (case json_field v k of Some (JBool b) \<Rightarrow> b | _ \<Rightarrow> d)"

definition text_field :: "json \<Rightarrow> string \<Rightarrow> string option" where
  "text_field v k = (case json_field v k of Some (JStr t) \<Rightarrow> Some t | _ \<Rightarrow> None)"

definition evict_handler :: "worker_ctx \<Rightarrow> jobT \<Rightarrow> (db, json) act" where
  "evict_handler ctx t =
     bnd (require_problem_id ''evict job requires problem_id'' t) (\<lambda>pid.
     bnd (require_problem pid) (\<lambda>problem.
     bnd (guard_lease ctx t) (\<lambda>_.
       rc_evict (wc_rust ctx) (pt_external_id problem) (pt_code problem)
         (bool_field (jt_result t) ''dry_run'' True) (bool_field (jt_result t) ''force'' False)
         (jt_fencing_token t) (text_field (jt_result t) ''idle_before''))))"

definition reconcile_handler :: "(db, json) act" where
  "reconcile_handler =
     throw (PlainError ''reconcile job requires catalog payload persisted by caller; use /catalog/problems:reconcile'')"

definition incident_handler :: "jobT \<Rightarrow> (db, json) act" where
  "incident_handler t =
     (if truthy (text_field (jt_result t) ''command'')
      then throw (PlainError (''Incident command '' @ coalesce (text_field (jt_result t) ''command'') []
             @ '' has no automated implementation in the TypeScript control plane''))
      else throw (PlainError ''incident command missing command name''))"

section \<open>Backfill\<close>

record backfill_counts =
  bc_ready :: nat
  bc_error :: nat
  bc_skipped :: nat
  bc_bytesHashed :: int

definition no_counts :: backfill_counts where
  "no_counts = \<lparr>bc_ready = 0, bc_error = 0, bc_skipped = 0, bc_bytesHashed = 0\<rparr>"

definition backfill_snapshot_opts :: "jobT \<Rightarrow> string \<Rightarrow> problemT \<Rightarrow> nat \<Rightarrow> create_opts" where
  "backfill_snapshot_opts t capability problem generation =
     \<lparr>co_idempotencyKey = jt_id t @ '':snapshot:'' @ pt_external_id problem @ '':'' @ nat_text generation,
      co_jobType = Snapshot, co_problemId = Some (pt_external_id problem),
      co_targetGeneration = Some generation, co_leaseOwner = ''backfill'',
      co_requestFingerprint = Some (stableFingerprint (JObj
        [(''capability'', JStr capability), (''problem_id'', JStr (pt_external_id problem)),
         (''generation'', JNum (int generation))]))\<rparr>"

text \<open>One turn of the loop: the \<open>catch\<close> without a binding counts every exception as an error.\<close>

definition backfill_item ::
  "worker_ctx \<Rightarrow> jobT \<Rightarrow> string \<Rightarrow> problemT \<Rightarrow> backfill_counts \<Rightarrow> (db, backfill_counts) act" where
  "backfill_item ctx t capability problem counts =
     try_catch
       (bnd (guard_lease ctx t) (\<lambda>_.
          if capability = ''accounting'' then
            bnd (rc_scan (wc_rust ctx) (pt_code problem) (pt_external_id problem)) (\<lambda>result.
            bnd (upsertProblemUsageForJob (wc_other ctx) t (pt_external_id problem)
                   ((scan_usage result)\<lparr>up_local_status := None\<rparr>)) (\<lambda>_.
              ret (counts\<lparr>bc_bytesHashed := bc_bytesHashed counts + sr_logical_bytes result,
                          bc_ready := bc_ready counts + 1\<rparr>)))
          else if capability = ''r2_snapshot'' then
            bnd (allocateGeneration (pt_external_id problem)) (\<lambda>generation.
            bnd (createJob (backfill_snapshot_opts t capability problem generation)) (\<lambda>child.
            bnd (setJobPayload (jt_id child)
                   (JObj [(''parent_job_id'', JStr (jt_id t)), (''capability'', JStr capability)])) (\<lambda>_.
              ret (counts\<lparr>bc_ready := bc_ready counts + 1\<rparr>))))
          else ret (counts\<lparr>bc_skipped := bc_skipped counts + 1\<rparr>)))
       (\<lambda>_. ret (counts\<lparr>bc_error := bc_error counts + 1\<rparr>))"

fun backfill_items ::
  "worker_ctx \<Rightarrow> jobT \<Rightarrow> string \<Rightarrow> problemT list \<Rightarrow> backfill_counts \<Rightarrow> (db, backfill_counts) act" where
  "backfill_items ctx t capability [] counts = ret counts"
| "backfill_items ctx t capability (p # ps) counts =
     bnd (backfill_item ctx t capability p counts) (backfill_items ctx t capability ps)"

definition nat_field :: "json \<Rightarrow> string \<Rightarrow> nat \<Rightarrow> nat" where
  "nat_field v k d = (case json_field v k of Some (JNum n) \<Rightarrow> nat n | _ \<Rightarrow> d)"

definition backfill_page_opts :: "worker_ctx \<Rightarrow> string option \<Rightarrow> nat \<Rightarrow> list_problems_opts" where
  "backfill_page_opts ctx c lim =
     \<lparr>lp_search = None, lp_ownerOrg = None, lp_catalogState = None, lp_sort = Some ''external_id'',
      lp_order = Some ''asc'',
      lp_cursor = (if truthy c then (let i = wc_dec ctx (coalesce c []) in Some ((False, 0, i), i)) else None),
      lp_limit = lim\<rparr>"

definition backfill_advance ::
  "string \<Rightarrow> string option \<Rightarrow> bool \<Rightarrow> nat \<Rightarrow> backfill_counts \<Rightarrow> db \<Rightarrow> db" where
  "backfill_advance capability next_cursor has_more n counts s =
     s\<lparr>backfill_state := upd_where (\<lambda>b. b_capability b = capability)
         (\<lambda>b. b\<lparr>b_cursor_value := next_cursor,
                b_status := (if has_more then ''running'' else ''completed''),
                b_total_processed := b_total_processed b + n,
                b_total_ready := b_total_ready b + bc_ready counts,
                b_total_error := b_total_error b + bc_error counts,
                b_total_skipped := b_total_skipped b + bc_skipped counts,
                b_bytes_hashed := b_bytes_hashed b + bc_bytesHashed counts\<rparr>) (backfill_state s)\<rparr>"

definition backfill_next_opts ::
  "worker_ctx \<Rightarrow> jobT \<Rightarrow> string \<Rightarrow> string option \<Rightarrow> nat \<Rightarrow> create_opts" where
  "backfill_next_opts ctx t capability next_cursor lim =
     \<lparr>co_idempotencyKey = jt_id t @ '':'' @ coalesce next_cursor ''null'', co_jobType = Backfill,
      co_problemId = None, co_targetGeneration = None, co_leaseOwner = wc_workerId ctx,
      co_requestFingerprint = Some (stableFingerprint (JObj
        [(''action'', JStr ''backfill-page''), (''capability'', JStr capability),
         (''cursor'', json_of_option JStr next_cursor), (''limit'', JNum (int lim))]))\<rparr>"

definition backfill_handler :: "worker_ctx \<Rightarrow> jobT \<Rightarrow> (db, json) act" where
  "backfill_handler ctx t = reading (\<lambda>s.
     let cfg = jt_result t;
         capability = coalesce (text_field cfg ''capability'') ''accounting'';
         lim = min (nat_field cfg ''limit'' 25) 500;
         cur = Option.bind (List.find (\<lambda>b. b_capability b = capability) (backfill_state s)) b_cursor_value;
         page = listProblems (backfill_page_opts ctx cur lim) s;
         next_cursor = map_option (\<lambda>k. wc_enc ctx (snd k)) (pg_next_cursor page);
         n = length (pg_items page)
     in bnd (backfill_items ctx t capability (pg_items page) no_counts) (\<lambda>counts.
        bnd (modify (backfill_advance capability next_cursor (pg_has_more page) n counts)) (\<lambda>_.
        bnd (if pg_has_more page then
               bnd (createJob (backfill_next_opts ctx t capability next_cursor lim)) (\<lambda>nxt.
                 bnd (setJobPayload (jt_id nxt)
                        (JObj [(''capability'', JStr capability), (''limit'', JNum (int lim))])) (\<lambda>_. ret ()))
             else ret ()) (\<lambda>_.
          ret (JObj [(''capability'', JStr capability), (''processed'', JNum (int n)),
                     (''ready'', JNum (int (bc_ready counts))), (''error'', JNum (int (bc_error counts))),
                     (''skipped'', JNum (int (bc_skipped counts))), (''has_more'', JBool (pg_has_more page))])))))"

section \<open>Garbage collection\<close>

record gc_counts =
  gct_collected :: nat
  gct_deferred :: nat

definition gc_item :: "worker_ctx \<Rightarrow> jobT \<Rightarrow> gc_mark \<Rightarrow> gc_counts \<Rightarrow> (db, gc_counts) act" where
  "gc_item ctx t g counts =
     bnd (guard_lease ctx t) (\<lambda>_.
     try_catch
       (bnd (rc_deleteObject (wc_rust ctx) (g_object_key g) (jt_fencing_token t)) (\<lambda>_.
        bnd (guard_lease ctx t) (\<lambda>_.
        bnd (markGcCollected [g_id g]) (\<lambda>n.
          ret (counts\<lparr>gct_collected := gct_collected counts + n\<rparr>)))))
       (\<lambda>e. if isLiveReferenceError e
            then bnd (deferGcMark (g_id g) (err_message (wc_pg ctx) e))
                     (\<lambda>_. ret (counts\<lparr>gct_deferred := gct_deferred counts + 1\<rparr>))
            else bnd (recordGcFailure (g_id g) (err_message (wc_pg ctx) e)) (\<lambda>_. throw e)))"

fun gc_items :: "worker_ctx \<Rightarrow> jobT \<Rightarrow> gc_mark list \<Rightarrow> gc_counts \<Rightarrow> (db, gc_counts) act" where
  "gc_items ctx t [] counts = ret counts"
| "gc_items ctx t (g # gs) counts = bnd (gc_item ctx t g counts) (gc_items ctx t gs)"

text \<open>The requested limit: a positive safe integer up to 500, else 100.\<close>

definition gc_limit :: "json \<Rightarrow> nat" where
  "gc_limit v =
     (case json_field v ''limit'' of
        Some (JNum n) \<Rightarrow> if is_safe_integer n \<and> 0 < n then min (nat n) 500 else 100
      | _ \<Rightarrow> 100)"

definition gcCollect_handler :: "worker_ctx \<Rightarrow> jobT \<Rightarrow> (db, json) act" where
  "gcCollect_handler ctx t = reading (\<lambda>s.
     let objects = listGcEligible (gc_limit (jt_result t)) s in
     bnd (gc_items ctx t objects \<lparr>gct_collected = 0, gct_deferred = 0\<rparr>) (\<lambda>counts.
       ret (JObj [(''collected'', JNum (int (gct_collected counts))),
                  (''deferred'', JNum (int (gct_deferred counts))),
                  (''examined'', JNum (int (length objects)))])))"

section \<open>Running a job\<close>

definition dispatch :: "worker_ctx \<Rightarrow> jobT \<Rightarrow> (db, json) act" where
  "dispatch ctx t =
     (case jt_job_type t of
        Scan \<Rightarrow> scan_handler ctx t
      | Snapshot \<Rightarrow> snapshot_handler ctx t
      | Restore \<Rightarrow> restore_handler ctx t
      | Evict \<Rightarrow> evict_handler ctx t
      | Reconcile \<Rightarrow> reconcile_handler
      | Backfill \<Rightarrow> backfill_handler ctx t
      | GcCollect \<Rightarrow> gcCollect_handler ctx t
      | IncidentCommand \<Rightarrow> incident_handler t
      | UnknownJob ty \<Rightarrow> throw (PlainError (''Unsupported job type '' @ ty)))"

definition is_lease_lost :: "err \<Rightarrow> bool" where
  "is_lease_lost e = (case e of JobLeaseLostError i \<Rightarrow> True | _ \<Rightarrow> False)"

definition runJob :: "worker_ctx \<Rightarrow> jobT \<Rightarrow> (db, unit) act" where
  "runJob ctx t =
     try_catch
       (bnd (guard_lease ctx t) (\<lambda>_.
        bnd (dispatch ctx t) (\<lambda>result.
        bnd (guard_lease ctx t) (\<lambda>_.
        bnd (completeJobWithLease t Completed result None None) (\<lambda>committed.
          if committed = None then throw (JobLeaseLostError (jt_id t)) else ret ())))))
       (\<lambda>e. if is_lease_lost e then ret ()
            else bnd (completeJobWithLease t Failed JNull (Some (errorCode (wc_pg ctx) e))
                        (Some (err_message (wc_pg ctx) e))) (\<lambda>_. ret ()))"

text \<open>One turn of a worker's loop, without its pauses: the result tells whether a job was run.\<close>

definition loop_turn :: "worker_ctx \<Rightarrow> nat \<Rightarrow> lane \<Rightarrow> (db, bool) act" where
  "loop_turn ctx leaseSeconds ln =
     bnd failExpiredRunningJobs (\<lambda>_.
     bnd failStalledSnapshots (\<lambda>_.
     bnd (acquireJob (wc_workerId ctx) leaseSeconds ln) (\<lambda>j.
       case j of None \<Rightarrow> ret False | Some t \<Rightarrow> bnd (runJob ctx t) (\<lambda>_. ret True))))"

text \<open>Which lane the \<open>i\<close>-th of the parallel loops works on.\<close>

definition lane_of :: "nat \<Rightarrow> nat \<Rightarrow> nat \<Rightarrow> lane" where
  "lane_of concurrency restoreReserved i =
     (if i < min restoreReserved concurrency then LaneRestore else LaneBulk)"


section \<open>A worker without its lease\<close>

lemma guard_lost: "\<not> holds_lease s t \<Longrightarrow> guard_lease ctx t s = (Inl (JobLeaseLostError (jt_id t)), s)"
  by (simp add: guard_lease_def assertJobLease_def)

lemma guard_ok: "holds_lease s t \<Longrightarrow> wc_leaseValid ctx s \<Longrightarrow> guard_lease ctx t s = (Inr (), s)"
  by (simp add: guard_lease_def assertJobLease_def)

lemma guard_cases: "guard_lease ctx t s = (Inr (), s) \<and> holds_lease s t
    \<or> guard_lease ctx t s = (Inl (JobLeaseLostError (jt_id t)), s)"
  by (simp add: guard_lease_def assertJobLease_def)

lemma guard_eq_Inr:
  "guard_lease ctx t s = (Inr u, s') \<longleftrightarrow> s' = s \<and> holds_lease s t \<and> wc_leaseValid ctx s"
  by (auto simp: guard_lease_def assertJobLease_def)

lemma guard_state: "snd (guard_lease ctx t s) = s"
  using guard_cases [of ctx t s] by auto

text \<open>C27: a stale outcome is suppressed. If the lease is gone when the handler of a job returns, with a
  result or with any error, \<open>runJob\<close> ends without an error and without a write of its own; if it was
  gone at the start, the handler does not even run and nothing changes.\<close>

theorem stale_run_suppressed:
  assumes "dispatch ctx t s = (r, s')" and "jobs_violation (jobs s') = None" and "\<not> holds_lease s' t"
  shows "runJob ctx t s = (Inr (), if holds_lease s t \<and> wc_leaseValid ctx s then s' else s)"
proof (cases "holds_lease s t \<and> wc_leaseValid ctx s")
  case False
  then have "guard_lease ctx t s = (Inl (JobLeaseLostError (jt_id t)), s)"
    by (auto simp: guard_lease_def assertJobLease_def)
  with False show ?thesis by (auto simp: runJob_def try_catch_def is_lease_lost_def)
next
  case True
  then have g: "guard_lease ctx t s = (Inr (), s)" by (simp add: guard_ok)
  have g': "guard_lease ctx t s' = (Inl (JobLeaseLostError (jt_id t)), s')" by (rule guard_lost [OF assms(3)])
  note c = complete_without_lease [OF assms(2,3)]
  show ?thesis
  proof (cases r)
    case (Inl e)
    with assms(1) g True c show ?thesis by (simp add: runJob_def try_catch_def bnd_def)
  next
    case (Inr v)
    with assms(1) g g' True show ?thesis by (simp add: runJob_def try_catch_def bnd_def is_lease_lost_def)
  qed
qed

text \<open>The row of a job whose handler ended with \<open>r\<close>.\<close>

definition recorded :: "worker_ctx \<Rightarrow> err + json \<Rightarrow> time \<Rightarrow> job \<Rightarrow> job" where
  "recorded ctx r now j =
     (case r of
        Inr v \<Rightarrow> completed_row Completed v None None now j
      | Inl e \<Rightarrow> completed_row Failed JNull (Some (errorCode (wc_pg ctx) e))
                   (Some (err_message (wc_pg ctx) e)) now j)"

lemma run_recorded:
  assumes start: "holds_lease s t" "wc_leaseValid ctx s"
    and run: "dispatch ctx t s = (r, s')" and kept: "\<And>i. r \<noteq> Inl (JobLeaseLostError i)"
    and ok: "jobs_violation (jobs s') = None" and valid: "wc_leaseValid ctx s'"
    and j: "j \<in> set (jobs s')" "lease_held s' (jt_id t) (jt_lease_owner t) (jt_fencing_token t) j"
  shows "fst (runJob ctx t s) = Inr ()
    \<and> jobs (snd (runJob ctx t s)) = map (\<lambda>x. if j_id x = j_id j then recorded ctx r (now_us s') j else x) (jobs s')"
proof -
  have l: "holds_lease s' t" using j by (auto simp: holds_lease_def)
  show ?thesis
  proof (cases r)
    case (Inr v)
    obtain s2 where "completeJobWithLease t Completed v None None s'
        = (Inr (Some (rowToJob (completed_row Completed v None None (now_us s') j))), s2)"
      "jobs s2 = map (\<lambda>x. if j_id x = j_id j then completed_row Completed v None None (now_us s') j else x) (jobs s')"
      using complete_with_lease [OF ok j, of Completed v None None] by (auto simp: final_state_def)
    with Inr run start l valid show ?thesis
      by (simp add: runJob_def try_catch_def bnd_def guard_ok recorded_def)
  next
    case (Inl e)
    let ?c = "Some (errorCode (wc_pg ctx) e)" and ?m = "Some (err_message (wc_pg ctx) e)"
    obtain s2 where "completeJobWithLease t Failed JNull ?c ?m s'
        = (Inr (Some (rowToJob (completed_row Failed JNull ?c ?m (now_us s') j))), s2)"
      "jobs s2 = map (\<lambda>x. if j_id x = j_id j then completed_row Failed JNull ?c ?m (now_us s') j else x) (jobs s')"
      using complete_with_lease [OF ok j, of Failed JNull ?c ?m] by (auto simp: final_state_def)
    moreover have "\<not> is_lease_lost e" using kept Inl by (auto simp: is_lease_lost_def split: err.splits)
    ultimately show ?thesis using Inl run start
      by (simp add: runJob_def try_catch_def bnd_def guard_ok recorded_def)
  qed
qed

text \<open>A live outcome is recorded. If the lease is held when the handler starts and when it returns,
  the job's row, and only it, becomes completed with the handler's result, or failed with the
  error's code and message, at that moment.\<close>

theorem runJob_records_outcome:
  assumes start: "holds_lease s t" "wc_leaseValid ctx s"
    and run: "dispatch ctx t s = (r, s')" and kept: "\<And>i. r \<noteq> Inl (JobLeaseLostError i)"
    and ok: "jobs_violation (jobs s') = None" and valid: "wc_leaseValid ctx s'"
    and j: "j \<in> set (jobs s')" "lease_held s' (jt_id t) (jt_lease_owner t) (jt_fencing_token t) j"
  shows "fst (runJob ctx t s) = Inr ()
    \<and> jobs (snd (runJob ctx t s)) = map (\<lambda>x. if j_id x = j_id j then recorded ctx r (now_us s') j else x) (jobs s')"
  using run_recorded [OF assms] .

section \<open>The polling loop\<close>

text \<open>What the loop needs of \<open>sleep(5000)\<close>: it returns, at least five seconds later.\<close>

definition sleeps :: "worker_ctx \<Rightarrow> bool" where
  "sleeps ctx \<longleftrightarrow> (\<forall>s. \<exists>s'. wc_sleep ctx s = (Inr (), s') \<and> now_us s + 5000000 \<le> now_us s')"

lemma poll_terminal: "terminal_text st \<Longrightarrow> poll_snapshot ctx t pid gen deadline fuel st s = (Inr st, s)"
  by (cases fuel) simp_all

lemma poll_fuel:
  assumes "sleeps ctx" and "deadline < now_us s + fuel * 5000000"
  shows "fst (poll_snapshot ctx t pid gen deadline (Suc fuel) st s) \<noteq> Inl out_of_fuel
    \<and> poll_snapshot ctx t pid gen deadline (Suc (fuel + k)) st s = poll_snapshot ctx t pid gen deadline (Suc fuel) st s"
  using assms(2)
proof (induction fuel arbitrary: st s)
  case 0
  then show ?case by (cases "terminal_text st") (simp_all add: out_of_fuel_def)
next
  case (Suc fuel)
  show ?case
  proof (cases "terminal_text st \<or> deadline < now_us s")
    case True
    then show ?thesis by (cases "terminal_text st") (simp_all add: poll_terminal out_of_fuel_def)
  next
    case False
    obtain s1 where s1: "wc_sleep ctx s = (Inr (), s1)" "now_us s + 5000000 \<le> now_us s1"
      using assms(1) by (auto simp: sleeps_def)
    have IH: "fst (poll_snapshot ctx t pid gen deadline (Suc fuel) st' s1) \<noteq> Inl out_of_fuel
        \<and> poll_snapshot ctx t pid gen deadline (Suc (fuel + k)) st' s1 = poll_snapshot ctx t pid gen deadline (Suc fuel) st' s1" for st'
      using Suc.prems s1(2) by (intro Suc.IH) simp
    have unf: "poll_snapshot ctx t pid gen deadline (Suc n) st s =
        bnd (guard_lease ctx t) (\<lambda>_. reading (\<lambda>s.
            case snapshot_row pid gen s of
              None \<Rightarrow> throw (PlainError (''snapshot row disappeared for '' @ pid @ '' generation '' @ nat_text gen))
            | Some row \<Rightarrow> poll_snapshot ctx t pid gen deadline n (snapshot_state_text (s_state row)))) s1" for n
      using False s1(1) by simp
    have "fst (poll_snapshot ctx t pid gen deadline (Suc (Suc fuel)) st s) \<noteq> Inl out_of_fuel
      \<and> poll_snapshot ctx t pid gen deadline (Suc (Suc (fuel + k))) st s = poll_snapshot ctx t pid gen deadline (Suc (Suc fuel)) st s"
      unfolding unf using guard_cases [of ctx t s1] IH
      by (auto simp: out_of_fuel_def simp del: poll_snapshot.simps split: option.splits)
    then show ?thesis by simp
  qed
qed

text \<open>C32: waiting for a snapshot ends. Each round of the polling loop sleeps at least five seconds and the
  deadline is ninety minutes away, so 1082 rounds of fuel always suffice: the loop never runs out
  of it, and more fuel gives the same result.\<close>

theorem snapshot_waits_enough:
  assumes "sleeps ctx" and "1081 < n"
  shows "fst (poll_snapshot ctx t pid gen (now_us s + snapshot_wait_us) n st s) \<noteq> Inl out_of_fuel
    \<and> poll_snapshot ctx t pid gen (now_us s + snapshot_wait_us) (n + k) st s
      = poll_snapshot ctx t pid gen (now_us s + snapshot_wait_us) n st s"
proof -
  obtain m where m: "n = Suc m" using assms(2) by (cases n) auto
  then have "now_us s + snapshot_wait_us < now_us s + m * 5000000"
    using assms(2) by (simp add: snapshot_wait_us_def)
  from poll_fuel [OF assms(1) this, of t pid gen st k] m show ?thesis by simp
qed

text \<open>A state the loop waited for is the one its snapshot row has, read under the lease.\<close>

lemma poll_reads_row:
  assumes "poll_snapshot ctx t pid gen deadline fuel st s = (Inr st', s')" and "\<not> terminal_text st"
  shows "terminal_text st' \<and> holds_lease s' t
    \<and> (\<exists>row. snapshot_row pid gen s' = Some row \<and> st' = snapshot_state_text (s_state row))"
  using assms
proof (induction fuel arbitrary: st s)
  case (Suc fuel)
  have "poll_snapshot ctx t pid gen deadline (Suc fuel) st s = (Inr st', s')" by (rule Suc.prems(1))
  with Suc.prems(2) have "\<exists>s1. holds_lease s1 t \<and> (\<exists>row. snapshot_row pid gen s1 = Some row
      \<and> poll_snapshot ctx t pid gen deadline fuel (snapshot_state_text (s_state row)) s1 = (Inr st', s'))"
    by (auto simp: bnd_eq_Inr guard_eq_Inr split: if_splits option.splits)
  then obtain s1 where "holds_lease s1 t" and r: "\<exists>row. snapshot_row pid gen s1 = Some row
      \<and> poll_snapshot ctx t pid gen deadline fuel (snapshot_state_text (s_state row)) s1 = (Inr st', s')" by blast
  from r obtain row where row: "snapshot_row pid gen s1 = Some row"
    "poll_snapshot ctx t pid gen deadline fuel (snapshot_state_text (s_state row)) s1 = (Inr st', s')" by blast
  show ?case
  proof (cases "terminal_text (snapshot_state_text (s_state row))")
    case True
    with row poll_terminal [OF True] \<open>holds_lease s1 t\<close> show ?thesis by auto
  next
    case False
    from Suc.IH [OF row(2) False] show ?thesis .
  qed
qed simp

section \<open>Backfill\<close>

definition counted :: "backfill_counts \<Rightarrow> nat" where
  "counted c = bc_ready c + bc_error c + bc_skipped c"

lemma backfill_item_counts: "\<exists>c'. fst (backfill_item ctx t capability p c s) = Inr c' \<and> counted c' = Suc (counted c)"
  unfolding backfill_item_def try_catch_def
  by (auto simp: counted_def bnd_eq_Inr split: prod.splits sum.splits if_splits)

text \<open>Backfill accounts for every problem of its page. Whatever the data plane and the lease do, the
  loop finishes and each problem is counted exactly once, as ready, failed or skipped.\<close>

theorem backfill_counts_every_problem:
  "\<exists>c'. fst (backfill_items ctx t capability ps c s) = Inr c' \<and> counted c' = counted c + length ps"
proof (induction ps arbitrary: c s)
  case (Cons p ps)
  obtain c1 s1 where 1: "backfill_item ctx t capability p c s = (Inr c1, s1)" "counted c1 = Suc (counted c)"
    using backfill_item_counts [of ctx t capability p c s] by (metis prod.collapse)
  with Cons [of c1 s1] show ?case by simp
qed simp

text \<open>
  The \<open>catch\<close> of the loop swallows the loss of the lease as well: a worker that has lost it runs
  through the whole page, counting errors, and goes on to advance the shared cursor.
\<close>

lemma backfill_ignores_lease_loss:
  assumes "\<And>s. \<not> wc_leaseValid ctx s"
  shows "backfill_items ctx t capability ps c s = (Inr (c\<lparr>bc_error := bc_error c + length ps\<rparr>), s)"
proof (induction ps arbitrary: c)
  case (Cons p ps)
  have "backfill_item ctx t capability p c s = (Inr (c\<lparr>bc_error := bc_error c + 1\<rparr>), s)"
    using assms by (simp add: backfill_item_def try_catch_def guard_lease_def)
  with Cons show ?case by simp
qed simp

section \<open>Collection\<close>

text \<open>The data plane never deletes this object; and its deletions do not touch the marks.\<close>

definition refuses :: "worker_ctx \<Rightarrow> string \<Rightarrow> bool" where
  "refuses ctx key \<longleftrightarrow> (\<forall>token s. \<exists>e. fst (rc_deleteObject (wc_rust ctx) key token s) = Inl e)"

definition leaves_marks :: "worker_ctx \<Rightarrow> bool" where
  "leaves_marks ctx \<longleftrightarrow> (\<forall>key token s. gc_marks (snd (rc_deleteObject (wc_rust ctx) key token s)) = gc_marks s)"

text \<open>What holds of the marks throughout a collection that started with the marks \<open>ms\<close>: none is new,
  and one that was collected since had been listed and its object not refused.\<close>

definition sound_marks :: "worker_ctx \<Rightarrow> gc_mark list \<Rightarrow> gc_mark list \<Rightarrow> db \<Rightarrow> bool" where
  "sound_marks ctx listed ms s \<longleftrightarrow>
     (\<forall>g' \<in> set (gc_marks s). \<exists>g \<in> set ms. g_id g = g_id g' \<and> g_object_key g = g_object_key g'
        \<and> (g_collected g' \<longrightarrow> g_collected g \<or> g \<in> set listed \<and> \<not> refuses ctx (g_object_key g)))"

interpretation collecting: preorder_rel "\<lambda>s s'. sound_marks ctx listed ms s \<longrightarrow> sound_marks ctx listed ms s'"
  for ctx listed ms
  by unfold_locales auto

lemma sound_upd:
  assumes "sound_marks ctx listed ms s"
    and "\<And>g. g_id (f g) = g_id g" "\<And>g. g_object_key (f g) = g_object_key g" "\<And>g. g_collected (f g) = g_collected g"
  shows "sound_marks ctx listed ms (s\<lparr>gc_marks := upd_where p f (gc_marks s)\<rparr>)"
  using assms unfolding sound_marks_def by (auto simp: in_upd_where)

lemma defer_sound: "sound_marks ctx listed ms s \<Longrightarrow> sound_marks ctx listed ms (snd (deferGcMark i e s))"
  by (auto simp: deferGcMark_def intro!: sound_upd split: option.splits)

lemma failure_sound: "sound_marks ctx listed ms s \<Longrightarrow> sound_marks ctx listed ms (snd (recordGcFailure i e s))"
  by (auto simp: recordGcFailure_def intro!: sound_upd)

lemma collected_sound:
  assumes "sound_marks ctx listed ms s" and "distinct (map g_id ms)" and "g \<in> set ms" "g \<in> set listed"
    and "\<not> refuses ctx (g_object_key g)"
  shows "sound_marks ctx listed ms (snd (markGcCollected [g_id g] s))"
proof -
  have "\<exists>g0 \<in> set ms. g_id g0 = g_id g' \<and> g_object_key g0 = g_object_key g' \<and>
      (g0 \<in> set listed \<and> \<not> refuses ctx (g_object_key g0))"
    if g': "g' \<in> set (gc_marks s)" "g_id g' = g_id g" for g'
  proof -
    obtain g0 where g0: "g0 \<in> set ms" "g_id g0 = g_id g'" "g_object_key g0 = g_object_key g'"
      using assms(1) g'(1) unfolding sound_marks_def by blast
    then have "g0 = g" using distinct_map_unique [OF assms(2)] assms(3) g'(2) by metis
    with g0 assms(3-5) show ?thesis by auto
  qed
  with assms(1) show ?thesis
    by (auto simp: sound_marks_def markGcCollected_def Let_def in_upd_where) blast
qed

lemma delete_sound:
  "leaves_marks ctx \<Longrightarrow> sound_marks ctx listed ms s
   \<Longrightarrow> sound_marks ctx listed ms (snd (rc_deleteObject (wc_rust ctx) key token s))"
  by (simp add: sound_marks_def leaves_marks_def)

lemma gc_item_sound:
  assumes d: "distinct (map g_id ms)" and g: "g \<in> set ms" "g \<in> set listed" and l: "leaves_marks ctx"
    and s: "sound_marks ctx listed ms s"
  shows "sound_marks ctx listed ms (snd (gc_item ctx t g c s))"
proof (cases "guard_lease ctx t s = (Inr (), s)")
  case False
  then have "guard_lease ctx t s = (Inl (JobLeaseLostError (jt_id t)), s)" using guard_cases [of ctx t s] by auto
  with s show ?thesis by (simp add: gc_item_def)
next
  case True
  let ?h = "\<lambda>e. if isLiveReferenceError e
            then bnd (deferGcMark (g_id g) (err_message (wc_pg ctx) e))
                     (\<lambda>_. ret (c\<lparr>gct_deferred := gct_deferred c + 1\<rparr>))
            else bnd (recordGcFailure (g_id g) (err_message (wc_pg ctx) e)) (\<lambda>_. throw e)"
  obtain r s1 where r: "rc_deleteObject (wc_rust ctx) (g_object_key g) (jt_fencing_token t) s = (r, s1)" by fastforce
  have s1: "sound_marks ctx listed ms s1" using delete_sound [OF l s] r by (metis snd_conv)
  have h: "sound_marks ctx listed ms (snd (?h e s1))" for e
    using defer_sound [OF s1] failure_sound [OF s1]
    by (auto simp: bnd_def split: prod.splits sum.splits) (metis snd_conv)+
  show ?thesis
  proof (cases r)
    case (Inl e)
    with True r h [of e] show ?thesis by (simp add: gc_item_def try_catch_def)
  next
    case (Inr u)
    then have "fst (rc_deleteObject (wc_rust ctx) (g_object_key g) (jt_fencing_token t) s) \<noteq> Inl e" for e
      using r by simp
    then have nr: "\<not> refuses ctx (g_object_key g)" unfolding refuses_def by blast
    show ?thesis
    proof (cases "guard_lease ctx t s1 = (Inr (), s1)")
      case False
      then have "guard_lease ctx t s1 = (Inl (JobLeaseLostError (jt_id t)), s1)" using guard_cases [of ctx t s1] by auto
      with True r Inr h show ?thesis by (simp add: gc_item_def try_catch_def)
    next
      case g1: True
      obtain n s2 where "markGcCollected [g_id g] s1 = (Inr n, s2)" by (auto simp: markGcCollected_def Let_def)
      with True r Inr g1 collected_sound [OF s1 d g nr] show ?thesis by (simp add: gc_item_def try_catch_def)
    qed
  qed
qed

lemma gc_items_sound:
  assumes "distinct (map g_id ms)" and "leaves_marks ctx" and "set gs \<subseteq> set ms" "set gs \<subseteq> set listed"
  shows "pres (\<lambda>s s'. sound_marks ctx listed ms s \<longrightarrow> sound_marks ctx listed ms s') (gc_items ctx t gs c)"
  using assms(3,4)
proof (induction gs arbitrary: c)
  case (Cons g gs)
  have "pres (\<lambda>s s'. sound_marks ctx listed ms s \<longrightarrow> sound_marks ctx listed ms s') (gc_item ctx t g c)"
    using Cons.prems assms(1,2) by (intro presI) (auto intro: gc_item_sound)
  with Cons show ?case by (auto intro!: collecting.pres_bnd)
qed (auto intro: collecting.pres_ret)


section \<open>What a failed snapshot reports\<close>

text \<open>
  \<open>snapshot\<close> throws the row's \<open>error_code\<close> under a field of that name, \<open>RustError\<close> reads the field
  \<open>code\<close>: the job never carries the snapshot's own code. So a snapshot that failed with
  \<open>problem_folder_missing\<close> is not counted as a permanent failure by \<open>track_snapshot_job_outcome\<close>,
  which knows the class by that code.
\<close>

lemma snapshot_error_code_lost:
  "errorCode pg (snapshot_failure st row) \<in> {''job_failed'', ''unsupported_job''}"
  by (simp add: snapshot_failure_def rust_error_def json_field_def errorCode_def split: option.splits)

definition folder_missing :: snapshot where
  "folder_missing = (demo_snapshot ''n'' ''1'' 1 SError)
     \<lparr>s_error_code := Some ''problem_folder_missing'', s_error_message := Some ''no such folder''\<rparr>"

lemma folder_missing_error:
  "snapshot_failure ''error'' (Some folder_missing) = RustError 500 None ''no such folder''"
  by (simp add: snapshot_failure_def folder_missing_def rust_error_def json_field_def demo_snapshot_def)

lemma text_500: "nat_text 500 = ''500''"
  by (simp add: nat_text.simps digit_char_def char_of_def bit_0)

lemma folder_missing_not_counted:
  "\<not> permanent_failure (completed_row Failed JNull
      (Some (errorCode pg (snapshot_failure ''error'' (Some folder_missing))))
      (Some (err_message pg (snapshot_failure ''error'' (Some folder_missing)))) now j)"
  unfolding folder_missing_error
  by (simp add: permanent_failure_def completed_row_def errorCode_def err_message_def text_500 truthy_def
      to_lower_def to_lower_char_def char_of_def bit_0)

section \<open>Witnesses\<close>

text \<open>A data plane that answers at once and a worker that runs alone.\<close>

definition demo_scan :: scan_result where
  "demo_scan = \<lparr>sr_logical_bytes = 7, sr_allocated_bytes = 8, sr_archive_bytes = 0, sr_auxiliary_bytes = 0,
     sr_file_count = 1, sr_observed_at = 0, sr_raw = JNull\<rparr>"

definition demo_rust :: rust_client where
  "demo_rust =
     \<lparr>rc_scan = (\<lambda>code i. ret demo_scan),
      rc_createSnapshot = (\<lambda>i gen code token v. ret \<lparr>rs_state = ''ready'', rs_raw = []\<rparr>),
      rc_restore = (\<lambda>i gen dest token. ret JNull), rc_evict = (\<lambda>i code dry force token idle. ret JNull),
      rc_deleteObject = (\<lambda>key token. if key = ''z'' then ret () else throw (RustError 500 None []))\<rparr>"

definition demo_ctx :: worker_ctx where
  "demo_ctx =
     \<lparr>wc_rust = demo_rust, wc_problemRootContainer = ''/p'', wc_workerId = ''w'', wc_leaseValid = (\<lambda>s. True),
      wc_sleep = modify (\<lambda>s. s\<lparr>now_us := now_us s + 5000000\<rparr>), wc_other = (\<lambda>n s. s), wc_enc = id, wc_dec = id,
      wc_pg = (\<lambda>e. []), wc_polls = 1082\<rparr>"

lemmas worker_eval = demo_ctx_def demo_rust_def demo_scan_def runJob_def dispatch_def guard_lease_def
  assertJobLease_def is_lease_lost_def incident_handler_def

definition incident_db :: db where
  "incident_db = demo_db [demo_running ''a'' IncidentCommand None]"

definition incident_job :: jobT where
  "incident_job = rowToJob (demo_running ''a'' IncidentCommand None)"

definition incident_error :: err where
  "incident_error = PlainError ''incident command missing command name''"

lemma incident_run: "dispatch ctx incident_job s = (Inl incident_error, s)"
  by (simp add: dispatch_def incident_job_def rowToJob_def demo_simps incident_handler_def text_field_def
      json_field_def truthy_def incident_error_def)

lemma incident_ok: "jobs_violation (jobs incident_db) = None"
  by (simp add: incident_db_def demo_simps queue_eval)

lemma incident_lease:
  "lease_held incident_db (jt_id incident_job) (jt_lease_owner incident_job) (jt_fencing_token incident_job)
     (demo_running ''a'' IncidentCommand None)"
  by (simp add: incident_db_def incident_job_def lease_held_def rowToJob_def demo_simps eq_null_def ge_null_def)

theorem stale_run_suppressed_witness:
  "runJob demo_ctx (incident_job\<lparr>jt_fencing_token := 0\<rparr>) incident_db = (Inr (), incident_db)"
proof -
  have no: "\<not> holds_lease incident_db (incident_job\<lparr>jt_fencing_token := 0\<rparr>)"
    by (simp add: holds_lease_def lease_held_def incident_db_def incident_job_def rowToJob_def demo_simps)
  have "dispatch demo_ctx (incident_job\<lparr>jt_fencing_token := 0\<rparr>) incident_db = (Inl incident_error, incident_db)"
    by (simp add: dispatch_def incident_job_def rowToJob_def demo_simps incident_handler_def text_field_def
        json_field_def truthy_def incident_error_def)
  from stale_run_suppressed [OF this incident_ok no] no show ?thesis by simp
qed

theorem runJob_records_outcome_witness:
  "map (\<lambda>j. (j_state j, j_error_code j)) (jobs (snd (runJob demo_ctx incident_job incident_db)))
     = [(Failed, Some ''job_failed'')]"
proof -
  have j: "demo_running ''a'' IncidentCommand None \<in> set (jobs incident_db)"
    by (simp add: incident_db_def demo_db_def)
  have l: "holds_lease incident_db incident_job" using j incident_lease by (auto simp: holds_lease_def)
  have v: "wc_leaseValid demo_ctx incident_db" by (simp add: demo_ctx_def)
  have "Inl incident_error \<noteq> (Inl (JobLeaseLostError i) :: err + json)" for i by (simp add: incident_error_def)
  from runJob_records_outcome [OF l v incident_run this incident_ok v j incident_lease]
  have "jobs (snd (runJob demo_ctx incident_job incident_db)) =
      map (\<lambda>x. if j_id x = ''a'' then recorded demo_ctx (Inl incident_error) (now_us incident_db)
        (demo_running ''a'' IncidentCommand None) else x) (jobs incident_db)"
    by (simp add: demo_running_def demo_job_def)
  moreover have "errorCode (wc_pg demo_ctx) incident_error = ''job_failed''"
    by (simp add: errorCode_def incident_error_def err_message_def)
  ultimately show ?thesis
    by (simp add: recorded_def completed_row_def incident_db_def demo_db_def initial_db_def demo_running_def demo_job_def)
qed

theorem snapshot_waits_enough_witness:
  "fst (poll_snapshot demo_ctx incident_job ''1'' 1 (now_us incident_db + snapshot_wait_us) (wc_polls demo_ctx)
     ''uploading'' incident_db) \<noteq> Inl out_of_fuel"
proof -
  have "sleeps demo_ctx" by (simp add: sleeps_def demo_ctx_def)
  moreover have "1081 < wc_polls demo_ctx" by (simp add: demo_ctx_def)
  ultimately show ?thesis using snapshot_waits_enough [of demo_ctx] by blast
qed

definition collect_db :: db where
  "collect_db = incident_db\<lparr>gc_marks := [demo_mark ''m'' ''z'', demo_mark ''n'' ''y'']\<rparr>"


end
