(* ===== verification/Password.thy ===== *)
theory Password
  imports Scheduling
begin

text \<open>
  Password hashes: \<open>control-plane/src/password.ts\<close>. \<open>scrypt\<close> is a parameter. The base64url text of
  a byte string is modelled here, since the stored hash has to be read back. A password is the list of
  its characters; \<open>password.length\<close> counts them for ASCII passwords.
\<close>

section \<open>base64url\<close>

fun sextets :: "nat list \<Rightarrow> nat list" where
  "sextets [] = []"
| "sextets [a] = [a div 4, a mod 4 * 16]"
| "sextets [a, b] = [a div 4, a mod 4 * 16 + b div 16, b mod 16 * 4]"
| "sextets (a # b # c # r) =
     [a div 4, a mod 4 * 16 + b div 16, b mod 16 * 4 + c div 64, c mod 64] @ sextets r"

fun octets :: "nat list \<Rightarrow> nat list" where
  "octets [] = []"
| "octets [x] = []"
| "octets [x, y] = [x * 4 + y div 16]"
| "octets [x, y, z] = [x * 4 + y div 16, y mod 16 * 16 + z div 4]"
| "octets (x # y # z # w # r) = [x * 4 + y div 16, y mod 16 * 16 + z div 4, z mod 4 * 64 + w] @ octets r"

definition sextet_char :: "nat \<Rightarrow> char" where
  "sextet_char n =
     (if n < 26 then char_of (65 + n) else if n < 52 then char_of (71 + n)
      else if n < 62 then char_of (n - 4) else if n = 62 then CHR ''-'' else CHR ''_'')"

text \<open>Node's decoder accepts both alphabets and skips every other character.\<close>

definition char_sextet :: "char \<Rightarrow> nat option" where
  "char_sextet c =
     (let n = (of_char c :: nat) in
      if 65 \<le> n \<and> n \<le> 90 then Some (n - 65)
      else if 97 \<le> n \<and> n \<le> 122 then Some (n - 71)
      else if 48 \<le> n \<and> n \<le> 57 then Some (n + 4)
      else if n = 45 \<or> n = 43 then Some 62
      else if n = 95 \<or> n = 47 then Some 63 else None)"

definition to_base64url :: "string \<Rightarrow> string" where
  "to_base64url s = map sextet_char (sextets (map of_char s))"

definition from_base64url :: "string \<Rightarrow> string" where
  "from_base64url s = map char_of (octets (List.map_filter char_sextet s))"

lemma octets_sextets: "\<forall>b \<in> set bs. b < 256 \<Longrightarrow> octets (sextets bs) = bs"
proof (induction bs rule: sextets.induct)
  case (2 a)
  then show ?case by simp
next
  case (3 a b)
  then have "b div 16 < 16" by auto
  with 3 show ?case by simp
next
  case (4 a b c r)
  then have "b div 16 < 16" "c div 64 < 4" by auto
  with 4 show ?case by simp
qed simp

lemma sextet_arith:
  fixes a b c :: nat
  assumes "b < 256" "c < 256"
  shows "a mod 4 * 16 + b div 16 < 64" "b mod 16 * 4 + c div 64 < 64" "a mod 4 * 16 < 64" "b mod 16 * 4 < 64"
proof -
  have "b div 16 < 16" "c div 64 < 4" "a mod 4 < 4" "b mod 16 < 16" using assms by auto
  then show "a mod 4 * 16 + b div 16 < 64" "b mod 16 * 4 + c div 64 < 64" "a mod 4 * 16 < 64" "b mod 16 * 4 < 64"
    by linarith+
qed

lemma sextets_less: "\<forall>b \<in> set bs. b < 256 \<Longrightarrow> \<forall>x \<in> set (sextets bs). x < 64"
proof (induction bs rule: sextets.induct)
  case (2 a)
  then show ?case by (simp add: sextet_arith)
next
  case (3 a b)
  then have "a div 4 < 64" by auto
  with 3 sextet_arith(1,3,4) [where b = b and c = 0] show ?case by simp
next
  case (4 a b c r)
  then have "a div 4 < 64" by auto
  with 4 sextet_arith [where b = b and c = c] show ?case by simp
qed simp

lemma char_sextet_inverse:
  assumes "n < 64"
  shows "char_sextet (sextet_char n) = Some n"
proof -
  consider "n < 26" | "26 \<le> n" "n < 52" | "52 \<le> n" "n < 62" | "n = 62" | "n = 63" using assms by linarith
  then show ?thesis
    by cases (auto simp: char_sextet_def sextet_char_def Let_def)
qed

lemma base64url_roundtrip: "from_base64url (to_base64url s) = s"
proof -
  have b: "\<forall>b \<in> set (map of_char s). (b :: nat) < 256" by auto
  have "List.map_filter char_sextet (map sextet_char xs) = xs" if "\<forall>x \<in> set xs. x < 64" for xs
    using that by (induction xs) (simp_all add: char_sextet_inverse map_filter_simps)
  then have "List.map_filter char_sextet (to_base64url s) = sextets (map of_char s)"
    using sextets_less [OF b] by (simp add: to_base64url_def)
  then show ?thesis using octets_sextets [OF b] by (simp add: from_base64url_def comp_def)
qed

lemma sextet_char_not: "n < 64 \<Longrightarrow> char_sextet c = None \<Longrightarrow> sextet_char n \<noteq> c"
  using char_sextet_inverse by force

lemma base64url_avoids: "char_sextet c = None \<Longrightarrow> c \<notin> set (to_base64url s)"
  using sextets_less [of "map of_char s"] sextet_char_not by (auto simp: to_base64url_def)

section \<open>Splitting at a character\<close>

fun split_on :: "char \<Rightarrow> string \<Rightarrow> string list" where
  "split_on d [] = [[]]"
| "split_on d (c # cs) =
     (if c = d then [] # split_on d cs
      else (case split_on d cs of [] \<Rightarrow> [[c]] | p # ps \<Rightarrow> (c # p) # ps))"

lemma split_on_not_Nil [simp]: "split_on d s \<noteq> []"
  by (induction s) (auto split: list.splits)

lemma split_on_plain: "d \<notin> set p \<Longrightarrow> split_on d p = [p]"
  by (induction p) auto

lemma split_on_append: "d \<notin> set p \<Longrightarrow> split_on d (p @ d # s) = p # split_on d s"
  by (induction p) auto

lemma split_join: "ps \<noteq> [] \<Longrightarrow> \<forall>p \<in> set ps. d \<notin> set p \<Longrightarrow> split_on d (join_text [d] ps) = ps"
proof (induction "[d]" ps rule: join_text.induct)
  case (3 x y ys)
  then show ?case using split_on_append [of d x] by simp
qed (simp_all add: split_on_plain)

section \<open>Names and passwords\<close>

definition is_name_start :: "char \<Rightarrow> bool" where
  "is_name_start c \<longleftrightarrow> is_digit c \<or> (let n = (of_char c :: nat) in 97 \<le> n \<and> n \<le> 122)"

definition is_name_char :: "char \<Rightarrow> bool" where
  "is_name_char c \<longleftrightarrow> is_name_start c \<or> c = CHR ''.'' \<or> c = CHR ''_'' \<or> c = CHR ''-''"

text \<open>\<open>/^[a-z0-9][a-z0-9._-]{2,63}$/\<close>.\<close>

definition username_format :: "string \<Rightarrow> bool" where
  "username_format s \<longleftrightarrow>
     (case s of [] \<Rightarrow> False
      | c # cs \<Rightarrow> is_name_start c \<and> list_all is_name_char cs \<and> 2 \<le> length cs \<and> length cs \<le> 63)"

definition normalizeUsername :: "string \<Rightarrow> string option" where
  "normalizeUsername v = (let n = to_lower (trim v) in if username_format n then Some n else None)"

definition validatePassword :: "string \<Rightarrow> err + unit" where
  "validatePassword password =
     (if length password < 12 then Inl (PlainError ''Password must be at least 12 characters'')
      else if 1024 < length password then Inl (PlainError ''Password must be at most 1024 characters'')
      else Inr ())"

section \<open>Hashes\<close>

definition COST :: nat where "COST = 32768"
definition BLOCK_SIZE :: nat where "BLOCK_SIZE = 8"
definition PARALLELIZATION :: nat where "PARALLELIZATION = 1"
definition KEY_LENGTH :: nat where "KEY_LENGTH = 32"
definition SALT_LENGTH :: nat where "SALT_LENGTH = 16"

text \<open>
  \<open>scrypt password salt keylen N r p\<close>. What the code relies on is that a key has the
  requested length; that is a hypothesis where it matters.
\<close>

type_synonym scrypt = "string \<Rightarrow> string \<Rightarrow> nat \<Rightarrow> nat \<Rightarrow> nat \<Rightarrow> nat \<Rightarrow> err + string"

definition deriveKey :: "scrypt \<Rightarrow> string \<Rightarrow> string \<Rightarrow> nat \<Rightarrow> nat \<Rightarrow> nat \<Rightarrow> err + string" where
  "deriveKey scrypt password salt cost blockSize parallelization =
     scrypt password salt KEY_LENGTH cost blockSize parallelization"

definition encode_hash :: "string \<Rightarrow> string \<Rightarrow> string" where
  "encode_hash salt key =
     join_text ''$'' [''scrypt'', ''v1'', nat_text COST, nat_text BLOCK_SIZE, nat_text PARALLELIZATION,
       to_base64url salt, to_base64url key]"

text \<open>\<open>salt\<close> is what \<open>randomBytes\<close> returns.\<close>

definition hashPassword :: "scrypt \<Rightarrow> string \<Rightarrow> string \<Rightarrow> err + string" where
  "hashPassword scrypt salt password =
     (case validatePassword password of
        Inl e \<Rightarrow> Inl e
      | Inr _ \<Rightarrow>
          (case deriveKey scrypt password salt COST BLOCK_SIZE PARALLELIZATION of
             Inl e \<Rightarrow> Inl e
           | Inr key \<Rightarrow> Inr (encode_hash salt key)))"

text \<open>Every exception of the body ends in \<open>return false\<close>, and so does a missing or an extra part.\<close>

definition verifyPassword :: "scrypt \<Rightarrow> string \<Rightarrow> string \<Rightarrow> bool" where
  "verifyPassword scrypt password encoded =
     (case split_on (CHR ''$'') encoded of
        [algorithm, version, costRaw, blockSizeRaw, parallelizationRaw, saltRaw, keyRaw] \<Rightarrow>
          algorithm = ''scrypt'' \<and> version = ''v1''
          \<and> js_integer costRaw = Some (int COST) \<and> js_integer blockSizeRaw = Some (int BLOCK_SIZE)
          \<and> js_integer parallelizationRaw = Some (int PARALLELIZATION)
          \<and> (let salt = from_base64url saltRaw; expected = from_base64url keyRaw in
             length salt = SALT_LENGTH \<and> length expected = KEY_LENGTH
             \<and> (case deriveKey scrypt password salt COST BLOCK_SIZE PARALLELIZATION of
                  Inl e \<Rightarrow> False
                | Inr actual \<Rightarrow> actual = expected))
      | _ \<Rightarrow> False)"

definition DUMMY_PASSWORD_HASH :: "scrypt \<Rightarrow> string" where
  "DUMMY_PASSWORD_HASH scrypt =
     (let dummySalt = replicate SALT_LENGTH (CHR ''Z'') in
      encode_hash dummySalt
        (case scrypt ''clueoj-dashboard-dummy-password'' dummySalt KEY_LENGTH COST BLOCK_SIZE PARALLELIZATION of
           Inl e \<Rightarrow> [] | Inr key \<Rightarrow> key))"

lemma hash_texts:
  "nat_text COST = ''32768''" "nat_text BLOCK_SIZE = ''8''" "nat_text PARALLELIZATION = ''1''"
  by (simp_all add: nat_text.simps digit_char_def char_of_def bit_0 COST_def BLOCK_SIZE_def PARALLELIZATION_def)

lemma hash_numbers:
  "js_integer ''32768'' = Some 32768" "js_integer ''8'' = Some 8" "js_integer ''1'' = Some 1"
  by (simp_all add: js_integer_def trim_def is_space_def is_digit_def digits_value_def)

lemma split_hash:
  "split_on (CHR ''$'') (encode_hash salt key)
     = [''scrypt'', ''v1'', ''32768'', ''8'', ''1'', to_base64url salt, to_base64url key]"
proof -
  have "char_sextet (CHR ''$'') = None" by (simp add: char_sextet_def)
  then have "CHR ''$'' \<notin> set (to_base64url x)" for x by (rule base64url_avoids)
  then show ?thesis
    unfolding encode_hash_def hash_texts by (intro split_join) auto
qed

text \<open>A stored hash accepts exactly the passwords with its key. If \<open>hashPassword\<close> produced the text from
  a 16-byte salt, then parsing it back, \<open>verifyPassword\<close> accepts a password iff \<open>scrypt\<close> maps it to the
  same key as the original under that salt; in particular it accepts the original.\<close>

theorem verifyPassword_hash:
  assumes "hashPassword scrypt salt password = Inr encoded" and "length salt = SALT_LENGTH"
    and "\<And>pw s k. scrypt pw s KEY_LENGTH COST BLOCK_SIZE PARALLELIZATION = Inr k \<Longrightarrow> length k = KEY_LENGTH"
  shows "verifyPassword scrypt candidate_password encoded \<longleftrightarrow>
    scrypt candidate_password salt KEY_LENGTH COST BLOCK_SIZE PARALLELIZATION
      = scrypt password salt KEY_LENGTH COST BLOCK_SIZE PARALLELIZATION"
proof -
  obtain key where key: "scrypt password salt KEY_LENGTH COST BLOCK_SIZE PARALLELIZATION = Inr key"
    and enc: "encoded = encode_hash salt key"
    using assms(1) by (auto simp: hashPassword_def deriveKey_def split: sum.splits)
  have "length key = KEY_LENGTH" by (rule assms(3) [OF key])
  with assms(2) show ?thesis
    unfolding enc verifyPassword_def split_hash key
    by (auto simp: hash_numbers base64url_roundtrip deriveKey_def Let_def COST_def BLOCK_SIZE_def
        PARALLELIZATION_def split: sum.splits)
qed

definition demo_scrypt :: scrypt where
  "demo_scrypt password salt keylen n r p = Inr (take keylen (password @ replicate keylen (CHR ''x'')))"

theorem verifyPassword_hash_witness:
  "\<exists>encoded. hashPassword demo_scrypt (replicate 16 (CHR ''s'')) ''correct horse'' = Inr encoded
     \<and> verifyPassword demo_scrypt ''correct horse'' encoded \<and> \<not> verifyPassword demo_scrypt ''wrong'' encoded"
proof -
  obtain encoded where run: "hashPassword demo_scrypt (replicate 16 (CHR ''s'')) ''correct horse'' = Inr encoded"
    by (simp add: hashPassword_def validatePassword_def deriveKey_def demo_scrypt_def)
  have len: "length (replicate 16 (CHR ''s'')) = SALT_LENGTH" by (simp add: SALT_LENGTH_def)
  have "verifyPassword demo_scrypt pw encoded \<longleftrightarrow>
      demo_scrypt pw (replicate 16 (CHR ''s'')) KEY_LENGTH COST BLOCK_SIZE PARALLELIZATION
      = demo_scrypt ''correct horse'' (replicate 16 (CHR ''s'')) KEY_LENGTH COST BLOCK_SIZE PARALLELIZATION" for pw
    by (rule verifyPassword_hash [OF run len]) (auto simp: demo_scrypt_def)
  moreover have "demo_scrypt ''wrong'' (replicate 16 (CHR ''s'')) KEY_LENGTH COST BLOCK_SIZE PARALLELIZATION
      \<noteq> demo_scrypt ''correct horse'' (replicate 16 (CHR ''s'')) KEY_LENGTH COST BLOCK_SIZE PARALLELIZATION"
    by (simp add: demo_scrypt_def KEY_LENGTH_def)
  ultimately show ?thesis using run by auto
qed

end
