(* ===== verification/Users.thy ===== *)
theory Users
  imports Password
begin

text \<open>
  Tokens and dashboard accounts: \<open>control-plane/src/auth.ts\<close> and \<open>dashboard-users.ts\<close>. The token
  library \<open>jose\<close> and \<open>scrypt\<close> are parameters.
\<close>

section \<open>Tokens\<close>

datatype role = Viewer | Operator | StorageAdmin | Auditor
datatype token_kind = OperatorToken | ServiceToken

record payload =
  tp_sub :: string
  tp_role :: role
  tp_scopes :: "string list"
  tp_kind :: token_kind
  tp_auth_version :: "int option"

fun role_text :: "role \<Rightarrow> string" where
  "role_text Viewer = ''viewer''"
| "role_text Operator = ''operator''"
| "role_text StorageAdmin = ''storage-admin''"
| "role_text Auditor = ''auditor''"

fun operatorScopes :: "role \<Rightarrow> string list" where
  "operatorScopes Viewer = [''read'']"
| "operatorScopes Operator = [''read'', ''mutate'']"
| "operatorScopes StorageAdmin = [''read'', ''mutate'', ''admin'']"
| "operatorScopes Auditor = [''read'', ''audit'']"

definition hasScope :: "payload \<Rightarrow> string \<Rightarrow> bool" where
  "hasScope p scope \<longleftrightarrow> scope \<in> set (tp_scopes p) \<or> ''admin'' \<in> set (tp_scopes p)"

definition requireRole :: "payload \<Rightarrow> role list \<Rightarrow> bool" where
  "requireRole p roles \<longleftrightarrow> tp_role p \<in> set roles"

text \<open>
  \<open>jose\<close>: \<open>jl_sign secret audience ttl claims now\<close> is the token text, \<open>jl_verify token secret audience
  now\<close> the claims, or an error when the signature, issuer, audience or expiry is not right.
\<close>

record jwt_lib =
  jl_sign :: "string \<Rightarrow> string \<Rightarrow> nat \<Rightarrow> payload \<Rightarrow> time \<Rightarrow> string"
  jl_verify :: "string \<Rightarrow> string \<Rightarrow> string option \<Rightarrow> time \<Rightarrow> err + payload"

definition signOperatorToken ::
  "jwt_lib \<Rightarrow> string \<Rightarrow> string \<Rightarrow> role \<Rightarrow> nat \<Rightarrow> string \<Rightarrow> int \<Rightarrow> time \<Rightarrow> string" where
  "signOperatorToken lib secret sub role ttlSeconds audience authVersion =
     jl_sign lib secret audience ttlSeconds
       \<lparr>tp_sub = sub, tp_role = role, tp_scopes = operatorScopes role, tp_kind = OperatorToken,
        tp_auth_version = Some authVersion\<rparr>"

definition signServiceToken ::
  "jwt_lib \<Rightarrow> string \<Rightarrow> string \<Rightarrow> string \<Rightarrow> string list \<Rightarrow> nat \<Rightarrow> time \<Rightarrow> string" where
  "signServiceToken lib secret sub audience scopes ttlSeconds =
     jl_sign lib secret audience ttlSeconds
       \<lparr>tp_sub = sub, tp_role = StorageAdmin, tp_scopes = scopes, tp_kind = ServiceToken,
        tp_auth_version = None\<rparr>"

definition verifyToken ::
  "jwt_lib \<Rightarrow> string \<Rightarrow> string \<Rightarrow> string option \<Rightarrow> token_kind option \<Rightarrow> time \<Rightarrow> err + payload" where
  "verifyToken lib token secret expectedAudience expectedKind now =
     (case jl_verify lib token secret expectedAudience now of
        Inl e \<Rightarrow> Inl e
      | Inr p \<Rightarrow>
          (case expectedKind of
             None \<Rightarrow> Inr p
           | Some k \<Rightarrow>
               if tp_kind p \<noteq> k
               then Inl (PlainError (''Expected '' @ (if k = OperatorToken then ''operator'' else ''service'') @ '' token''))
               else Inr p))"

text \<open>\<open>/^Bearer\s+(.+)$/i\<close> on the header; the token is what follows the white space
  (or its last character, if nothing follows).\<close>

definition extractBearerToken :: "string option \<Rightarrow> string option" where
  "extractBearerToken authorization =
     (case authorization of
        None \<Rightarrow> None
      | Some h \<Rightarrow>
          if to_lower (take 6 h) = ''bearer''
          then (let rest = drop 6 h; token = dropWhile is_space rest in
                if rest = token then None
                else if token \<noteq> [] then Some token
                else if 2 \<le> length rest then Some [last rest] else None)
          else None)"

section \<open>Accounts\<close>

text \<open>A \<open>Date\<close> made from \<open>String(date)\<close> has lost its milliseconds.\<close>

record dashboard_user_auth =
  dua_username :: string
  dua_passwordHash :: string
  dua_role :: string
  dua_enabled :: bool
  dua_authVersion :: nat
  dua_createdAt :: nat
  dua_updatedAt :: nat
  dua_passwordChangedAt :: nat

definition whole_seconds :: "time \<Rightarrow> nat" where
  "whole_seconds t = t div 1000000 * 1000"

definition rowToUser :: "dashboard_user \<Rightarrow> dashboard_user_auth" where
  "rowToUser r =
     \<lparr>dua_username = du_username r, dua_passwordHash = du_password_hash r, dua_role = du_role r,
      dua_enabled = du_enabled r, dua_authVersion = du_auth_version r,
      dua_createdAt = whole_seconds (du_created_at r), dua_updatedAt = whole_seconds (du_updated_at r),
      dua_passwordChangedAt = whole_seconds (du_password_changed_at r)\<rparr>"

definition user_row :: "string \<Rightarrow> db \<Rightarrow> dashboard_user option" where
  "user_row name s = List.find (\<lambda>u. du_username u = name) (dashboard_users s)"

definition getDashboardUser :: "string \<Rightarrow> db \<Rightarrow> dashboard_user_auth option" where
  "getDashboardUser username s =
     (case normalizeUsername username of
        None \<Rightarrow> None
      | Some n \<Rightarrow> map_option rowToUser (user_row n s))"

definition verifyDashboardCredentials ::
  "scrypt \<Rightarrow> string \<Rightarrow> string \<Rightarrow> db \<Rightarrow> dashboard_user_auth option" where
  "verifyDashboardCredentials scrypt username password s =
     (let user = getDashboardUser username s;
          valid = verifyPassword scrypt password
            (coalesce (map_option dua_passwordHash user) (DUMMY_PASSWORD_HASH scrypt))
      in case user of
           None \<Rightarrow> None
         | Some u \<Rightarrow> if \<not> dua_enabled u \<or> \<not> valid then None else Some u)"

definition isDashboardSessionActive :: "payload \<Rightarrow> db \<Rightarrow> bool" where
  "isDashboardSessionActive p s =
     (case tp_auth_version p of
        None \<Rightarrow> False
      | Some v \<Rightarrow>
          if tp_kind p \<noteq> OperatorToken \<or> \<not> is_safe_integer v then False
          else (case getDashboardUser (tp_sub p) s of
                  None \<Rightarrow> False
                | Some u \<Rightarrow> dua_enabled u \<and> int (dua_authVersion u) = v))"

text \<open>The row an \<open>INSERT\<close> of the three columns makes, and the \<open>SET\<close> of a password change.\<close>

definition new_user :: "string \<Rightarrow> string \<Rightarrow> time \<Rightarrow> dashboard_user" where
  "new_user n passwordHash now =
     \<lparr>du_username = n, du_password_hash = passwordHash, du_role = ''storage-admin'', du_enabled = True,
      du_auth_version = 1, du_created_at = now, du_updated_at = now, du_password_changed_at = now\<rparr>"

definition repassworded :: "string \<Rightarrow> time \<Rightarrow> dashboard_user \<Rightarrow> dashboard_user" where
  "repassworded passwordHash now u =
     u\<lparr>du_password_hash := passwordHash, du_auth_version := du_auth_version u + 1,
       du_password_changed_at := now, du_updated_at := now\<rparr>"

definition createDashboardUser :: "scrypt \<Rightarrow> string \<Rightarrow> string \<Rightarrow> string \<Rightarrow> (db, dashboard_user_auth) act" where
  "createDashboardUser scrypt salt username password =
     (case normalizeUsername username of
        None \<Rightarrow> throw (PlainError ''Username must be 3-64 characters using letters, numbers, dot, underscore, or dash'')
      | Some n \<Rightarrow>
          bnd (lift_sum (hashPassword scrypt salt password)) (\<lambda>passwordHash s.
            if user_row n s \<noteq> None then (Inl (UniqueViolation ''dashboard_users_pkey''), s)
            else (Inr (rowToUser (new_user n passwordHash (now_us s))),
                  s\<lparr>dashboard_users := dashboard_users s @ [new_user n passwordHash (now_us s)]\<rparr>)))"

definition changeDashboardUserPassword ::
  "scrypt \<Rightarrow> string \<Rightarrow> string \<Rightarrow> string \<Rightarrow> (db, dashboard_user_auth option) act" where
  "changeDashboardUserPassword scrypt salt username password =
     (case normalizeUsername username of
        None \<Rightarrow> ret None
      | Some n \<Rightarrow>
          bnd (lift_sum (hashPassword scrypt salt password)) (\<lambda>passwordHash s.
            (Inr (map_option (\<lambda>u. rowToUser (repassworded passwordHash (now_us s) u)) (user_row n s)),
             s\<lparr>dashboard_users := upd_where (\<lambda>u. du_username u = n)
                 (repassworded passwordHash (now_us s)) (dashboard_users s)\<rparr>)))"

definition enabled_count :: "db \<Rightarrow> nat" where
  "enabled_count s = count_where du_enabled (dashboard_users s)"

definition deleteDashboardUser :: "string \<Rightarrow> (db, bool) act" where
  "deleteDashboardUser username =
     (case normalizeUsername username of
        None \<Rightarrow> ret False
      | Some n \<Rightarrow> tx (reading (\<lambda>s.
          case user_row n s of
            None \<Rightarrow> ret False
          | Some target \<Rightarrow>
              if du_enabled target \<and> enabled_count s \<le> 1 then throw LastDashboardAdministratorError
              else bnd (modify (\<lambda>s. s\<lparr>dashboard_users := filter (\<lambda>u. du_username u \<noteq> n) (dashboard_users s)\<rparr>))
                       (\<lambda>_. ret True))))"

definition listDashboardUsers :: "db \<Rightarrow> dashboard_user_auth list" where
  "listDashboardUsers s = map rowToUser (sort_key du_username (dashboard_users s))"

section \<open>Revocation\<close>

definition users_unique :: "db \<Rightarrow> bool" where
  "users_unique s \<longleftrightarrow> distinct (map du_username (dashboard_users s))"

inductive user_step :: "db \<Rightarrow> db \<Rightarrow> bool" where
  us_create: "user_step s (snd (createDashboardUser scrypt salt n pw s))"
| us_change: "user_step s (snd (changeDashboardUserPassword scrypt salt n pw s))"
| us_delete: "user_step s (snd (deleteDashboardUser n s))"
| us_other: "dashboard_users t = dashboard_users s \<Longrightarrow> user_step s t"

lemma find_filter: "List.find p (filter q xs) = List.find (\<lambda>x. q x \<and> p x) xs"
  by (induction xs) auto

lemma lift_sum_simps [simp]: "lift_sum (Inl e) = throw e" "lift_sum (Inr x) = ret x"
  by (simp_all add: lift_sum_def)

lemma repassworded_simps [simp]:
  "du_username (repassworded h now u) = du_username u"
  "du_enabled (repassworded h now u) = du_enabled u"
  "du_auth_version (repassworded h now u) = du_auth_version u + 1"
  by (simp_all add: repassworded_def)

lemma create_cases:
  obtains (same) "snd (createDashboardUser scrypt salt n pw s) = s"
  | (new) name h where "user_row name s = None"
      "snd (createDashboardUser scrypt salt n pw s)
        = s\<lparr>dashboard_users := dashboard_users s @ [new_user name h (now_us s)]\<rparr>"
proof (cases "normalizeUsername n")
  case None
  then show ?thesis by (intro same) (simp add: createDashboardUser_def)
next
  case (Some name)
  show ?thesis
  proof (cases "hashPassword scrypt salt pw")
    case (Inl e)
    with Some show ?thesis by (intro same) (simp add: createDashboardUser_def)
  next
    case (Inr h)
    show ?thesis
    proof (cases "user_row name s")
      case None
      with Some Inr show ?thesis by (intro new [of name h]) (simp_all add: createDashboardUser_def)
    next
      case (Some u)
      with \<open>normalizeUsername n = Some name\<close> Inr show ?thesis by (intro same) (simp add: createDashboardUser_def)
    qed
  qed
qed

lemma change_cases:
  obtains (same) "snd (changeDashboardUserPassword scrypt salt n pw s) = s"
  | (changed) name h where
      "snd (changeDashboardUserPassword scrypt salt n pw s) =
        s\<lparr>dashboard_users := upd_where (\<lambda>u. du_username u = name) (repassworded h (now_us s)) (dashboard_users s)\<rparr>"
proof (cases "normalizeUsername n")
  case None
  then show ?thesis by (intro same) (simp add: changeDashboardUserPassword_def)
next
  case (Some name)
  show ?thesis
  proof (cases "hashPassword scrypt salt pw")
    case (Inl e)
    with Some show ?thesis by (intro same) (simp add: changeDashboardUserPassword_def)
  next
    case (Inr h)
    with Some show ?thesis by (intro changed [of name h]) (simp add: changeDashboardUserPassword_def)
  qed
qed

lemma delete_cases:
  obtains (same) "snd (deleteDashboardUser n s) = s"
  | (deleted) name target where "user_row name s = Some target"
      "\<not> du_enabled target \<or> 1 < enabled_count s"
      "snd (deleteDashboardUser n s) = s\<lparr>dashboard_users := filter (\<lambda>u. du_username u \<noteq> name) (dashboard_users s)\<rparr>"
proof (cases "normalizeUsername n")
  case None
  then show ?thesis by (intro same) (simp add: deleteDashboardUser_def)
next
  case (Some name)
  show ?thesis
  proof (cases "user_row name s")
    case None
    with Some show ?thesis by (intro same) (simp add: deleteDashboardUser_def tx_def)
  next
    case (Some target)
    with \<open>normalizeUsername n = Some name\<close> show ?thesis
      by (cases "du_enabled target \<and> enabled_count s \<le> 1")
         (auto intro: same deleted [of name target] simp: deleteDashboardUser_def tx_def)
  qed
qed

lemma user_step_unique: "user_step s t \<Longrightarrow> users_unique s \<Longrightarrow> users_unique t"
proof (induction rule: user_step.induct)
  case (us_create s scrypt salt n pw)
  then show ?case
    by (cases rule: create_cases [of scrypt salt n pw s]) (auto simp: users_unique_def user_row_def find_None_iff2 new_user_def)
next
  case (us_change s scrypt salt n pw)
  then show ?case
    by (cases rule: change_cases [of scrypt salt n pw s]) (simp_all add: users_unique_def map_upd_where)
next
  case (us_delete s n)
  then show ?case
    by (cases rule: delete_cases [of n s]) (simp_all add: users_unique_def distinct_map_filter)
qed (simp add: users_unique_def)

lemma one_row: "users_unique s \<Longrightarrow> count_where (\<lambda>u. du_username u = n \<and> p u) (dashboard_users s) \<le> 1"
proof -
  assume "users_unique s"
  then have "distinct (map du_username (filter p (dashboard_users s)))"
    by (simp add: users_unique_def distinct_map_filter)
  then have "length (filter (\<lambda>u. n = du_username u) (filter p (dashboard_users s))) \<le> 1"
    by (rule filter_key_le_1)
  moreover have "filter (\<lambda>u. n = du_username u) (filter p (dashboard_users s))
      = filter (\<lambda>u. du_username u = n \<and> p u) (dashboard_users s)" by (auto intro: filter_cong)
  ultimately show ?thesis by (simp add: count_where_def)
qed

lemma count_where_split: "count_where p xs = count_where (\<lambda>x. q x \<and> p x) xs + count_where (\<lambda>x. \<not> q x \<and> p x) xs"
  by (induction xs) (auto simp: count_where_def)

lemma user_step_keeps_admin:
  "user_step s t \<Longrightarrow> users_unique s \<Longrightarrow> 0 < enabled_count s \<Longrightarrow> 0 < enabled_count t"
proof (induction rule: user_step.induct)
  case (us_create s scrypt salt n pw)
  then show ?case
    by (cases rule: create_cases [of scrypt salt n pw s]) (auto simp: enabled_count_def count_where_def new_user_def)
next
  case (us_change s scrypt salt n pw)
  then show ?case
  proof (cases rule: change_cases [of scrypt salt n pw s])
    case (changed name h)
    have "count_where du_enabled (upd_where p (repassworded h k) xs) = count_where du_enabled xs" for p k xs
      by (induction xs) (auto simp: count_where_def upd_where_def)
    with changed us_change show ?thesis by (simp add: enabled_count_def)
  qed simp
next
  case (us_delete s n)
  then show ?case
  proof (cases rule: delete_cases [of n s])
    case (deleted name target)
    have t: "target \<in> set (dashboard_users s)" "du_username target = name"
      using deleted(1) by (auto simp: user_row_def dest: find_Some_in)
    have kept: "enabled_count (snd (deleteDashboardUser n s)) = count_where (\<lambda>u. \<not> du_username u = name \<and> du_enabled u) (dashboard_users s)"
      using deleted(3) by (simp add: enabled_count_def count_where_def)
    have split: "enabled_count s = count_where (\<lambda>u. du_username u = name \<and> du_enabled u) (dashboard_users s)
        + count_where (\<lambda>u. \<not> du_username u = name \<and> du_enabled u) (dashboard_users s)"
      unfolding enabled_count_def by (rule count_where_split)
    show ?thesis
    proof (cases "du_enabled target")
      case True
      with deleted(2) kept split one_row [OF us_delete(1), of name du_enabled] show ?thesis by linarith
    next
      case False
      have "\<not> (du_username u = name \<and> du_enabled u)" if "u \<in> set (dashboard_users s)" for u
        using that t False distinct_map_unique [of du_username "dashboard_users s" u target] us_delete(1)
        by (auto simp: users_unique_def)
      then have "count_where (\<lambda>u. du_username u = name \<and> du_enabled u) (dashboard_users s) = 0"
        by (simp add: count_where_def filter_empty_conv)
      with kept split us_delete(2) show ?thesis by linarith
    qed
  qed simp
qed (simp add: enabled_count_def)

text \<open>C36: there is always an administrator. Once an enabled account exists, any sequence of account
  creations, password changes and deletions, with any arguments, leaves user names unique and at
  least one enabled account.\<close>

theorem administrator_remains:
  assumes "user_step\<^sup>*\<^sup>* s t" and "users_unique s" and "0 < enabled_count s"
  shows "users_unique t \<and> (\<exists>u \<in> set (dashboard_users t). du_enabled u)"
proof -
  have "users_unique t \<and> 0 < enabled_count t"
    using assms by (induction rule: rtranclp_induct) (auto intro: user_step_unique user_step_keeps_admin)
  then show ?thesis by (auto simp: enabled_count_def count_where_def filter_empty_conv)
qed

text \<open>A session is only ever active with the account's current version.\<close>

lemma session_active_iff:
  "isDashboardSessionActive p s \<longleftrightarrow> tp_kind p = OperatorToken
     \<and> (\<exists>v n u. tp_auth_version p = Some v \<and> is_safe_integer v \<and> normalizeUsername (tp_sub p) = Some n
          \<and> user_row n s = Some u \<and> du_enabled u \<and> int (du_auth_version u) = v)"
  by (auto simp: isDashboardSessionActive_def getDashboardUser_def rowToUser_def split: option.splits)

lemma user_row_upd:
  "(\<And>u. du_username (f u) = du_username u) \<Longrightarrow>
   List.find (\<lambda>u. du_username u = m) (upd_where (\<lambda>u. du_username u = n) f xs)
     = map_option (\<lambda>u. if m = n then f u else u) (List.find (\<lambda>u. du_username u = m) xs)"
  by (induction xs) (auto simp: upd_where_def)

lemma session_ends:
  assumes p: "isDashboardSessionActive p s" and same: "normalizeUsername n = normalizeUsername (tp_sub p)"
    and run: "(\<exists>u. changeDashboardUserPassword scrypt salt n pw s = (Inr (Some u), t))
      \<or> deleteDashboardUser n s = (Inr True, t)"
  shows "\<not> isDashboardSessionActive p t"
proof -
  obtain v name u where a: "tp_auth_version p = Some v" "normalizeUsername (tp_sub p) = Some name"
    "user_row name s = Some u" "int (du_auth_version u) = v"
    using p unfolding session_active_iff by blast
  have "user_row name t = None \<or> (\<exists>u'. user_row name t = Some u' \<and> du_auth_version u' = du_auth_version u + 1)"
    using run
  proof
    assume "\<exists>w. changeDashboardUserPassword scrypt salt n pw s = (Inr (Some w), t)"
    then obtain h where h: "dashboard_users t = upd_where (\<lambda>u. du_username u = name)
        (repassworded h (now_us s)) (dashboard_users s)"
      using same a(2) by (auto simp: changeDashboardUserPassword_def bnd_eq_Inr lift_sum_def split: sum.splits)
    have "user_row name t = map_option (repassworded h (now_us s)) (user_row name s)"
      unfolding user_row_def h by (subst user_row_upd) auto
    then show ?thesis using a(3) by simp
  next
    assume "deleteDashboardUser n s = (Inr True, t)"
    then have "dashboard_users t = filter (\<lambda>u. du_username u \<noteq> name) (dashboard_users s)"
      using same a(2,3) by (auto simp: deleteDashboardUser_def tx_eq_Inr split: if_splits)
    then show ?thesis by (simp add: user_row_def find_None_iff2)
  qed
  with a show ?thesis by (auto simp: session_active_iff)
qed

text \<open>Sessions are revoked. After a successful password change or deletion of an account, however its
  name is spelled, no token that was active for the account before is active any more.\<close>

theorem sessions_revoked:
  assumes p: "isDashboardSessionActive p s" and same: "normalizeUsername n = normalizeUsername (tp_sub p)"
    and run: "(\<exists>u. changeDashboardUserPassword scrypt salt n pw s = (Inr (Some u), t))
      \<or> deleteDashboardUser n s = (Inr True, t)"
  shows "\<not> isDashboardSessionActive p t"
  by (rule session_ends [OF p same run])

text \<open>Who can log in. Credentials are accepted for an account iff the normalized name is that of an
  enabled account and its stored hash verifies the password; an unknown name is never accepted,
  although it is checked against a hash as well.\<close>

theorem login_needs_account:
  "verifyDashboardCredentials scrypt username password s = Some u \<longleftrightarrow>
     (\<exists>n row. normalizeUsername username = Some n \<and> user_row n s = Some row \<and> u = rowToUser row
        \<and> du_enabled row \<and> verifyPassword scrypt password (du_password_hash row))"
  by (auto simp: verifyDashboardCredentials_def getDashboardUser_def Let_def rowToUser_def split: option.splits)

section \<open>Witnesses\<close>

definition alice :: dashboard_user where
  "alice = new_user ''alice'' ''h'' 0"

definition alice_db :: db where
  "alice_db = (demo_db [])\<lparr>dashboard_users := [alice, new_user ''bob'' ''h'' 0]\<rparr>"

definition alice_token :: payload where
  "alice_token = \<lparr>tp_sub = ''alice'', tp_role = StorageAdmin, tp_scopes = operatorScopes StorageAdmin,
     tp_kind = OperatorToken, tp_auth_version = Some 1\<rparr>"

lemma alice_name: "normalizeUsername ''alice'' = Some ''alice''"
  by (simp add: normalizeUsername_def username_format_def trim_def is_space_def to_lower_def to_lower_char_def
      is_name_start_def is_name_char_def is_digit_def)

theorem administrator_remains_witness:
  "\<exists>u \<in> set (dashboard_users (snd (deleteDashboardUser ''alice'' alice_db))). du_enabled u"
proof -
  have "user_step\<^sup>*\<^sup>* alice_db (snd (deleteDashboardUser ''alice'' alice_db))" using us_delete by blast
  moreover have "users_unique alice_db" by (simp add: users_unique_def alice_db_def alice_def new_user_def)
  moreover have "0 < enabled_count alice_db"
    by (simp add: enabled_count_def count_where_def alice_db_def alice_def new_user_def)
  ultimately show ?thesis using administrator_remains by blast
qed

theorem sessions_revoked_witness:
  "isDashboardSessionActive alice_token alice_db
   \<and> \<not> isDashboardSessionActive alice_token (snd (deleteDashboardUser ''alice'' alice_db))"
proof -
  have active: "isDashboardSessionActive alice_token alice_db"
    by (simp add: session_active_iff alice_token_def alice_name alice_db_def user_row_def alice_def new_user_def
        is_safe_integer_def max_safe_integer_def)
  have same: "normalizeUsername ''alice'' = normalizeUsername (tp_sub alice_token)" by (simp add: alice_token_def)
  obtain t where t: "deleteDashboardUser ''alice'' alice_db = (Inr True, t)"
    by (simp add: deleteDashboardUser_def alice_name tx_def user_row_def alice_db_def alice_def new_user_def
        enabled_count_def count_where_def)
  then show ?thesis using sessions_revoked [OF active same] active by auto
qed

end
