(* ===== verification/Environment.thy ===== *)
theory Environment
  imports Password
begin

text \<open>
  The process environment: \<open>control-plane/src/env.ts\<close>. \<open>process_env\<close> maps a variable to its text.
\<close>

section \<open>Numbers\<close>

text \<open>
  \<open>Number.parseInt(text, 10)\<close>: white space and a sign are skipped and the longest run of digits
  is read; no digit gives \<open>NaN\<close>, \<open>None\<close> here.
\<close>

definition parseInt :: "string \<Rightarrow> int option" where
  "parseInt text =
     (let t = dropWhile is_space text;
          neg = (case t of c # _ \<Rightarrow> c = CHR ''-'' | [] \<Rightarrow> False);
          body = (case t of c # cs \<Rightarrow> if c = CHR ''-'' \<or> c = CHR ''+'' then cs else t | [] \<Rightarrow> []);
          ds = takeWhile is_digit body
      in if ds = [] then None
         else Some (if neg then - int (digits_value ds) else int (digits_value ds)))"

definition parsePositiveInt :: "string option \<Rightarrow> nat \<Rightarrow> nat" where
  "parsePositiveInt v fallback =
     (case parseInt (coalesce v (nat_text fallback)) of
        None \<Rightarrow> fallback
      | Some n \<Rightarrow> if 0 < n then nat n else fallback)"

definition parseReservedRestore :: "string option \<Rightarrow> nat \<Rightarrow> nat" where
  "parseReservedRestore v fallback =
     (case v of
        None \<Rightarrow> fallback
      | Some t \<Rightarrow>
          if trim t = [] then fallback
          else (case parseInt t of
                  None \<Rightarrow> fallback
                | Some n \<Rightarrow> if n < 0 then fallback else nat n))"

section \<open>The settings\<close>

record env =
  e_databaseUrl :: string
  e_rustBaseUrl :: string
  e_rustInternalToken :: string
  e_dashboardJwtSecret :: string
  e_dashboardJwtAudience :: string
  e_clueojServiceAudience :: string
  e_clueojServiceSecret :: string
  e_corsAllowedOrigins :: "string list"
  e_trustProxy :: bool
  e_workerEnabled :: bool
  e_workerConcurrency :: nat
  e_restoreReservedConcurrency :: nat
  e_workerLeaseSeconds :: nat
  e_presignTtlSeconds :: nat
  e_port :: nat
  e_logLevel :: string
  e_dashboardDir :: string
  e_problemRootContainer :: string

definition required :: "process_env \<Rightarrow> string \<Rightarrow> err + string" where
  "required penv key =
     (if truthy (penv key) then Inr (coalesce (penv key) []) else Inl (PlainError (''Missing env '' @ key)))"

text \<open>\<open>process.env.X || fallback\<close>.\<close>

definition or_default :: "process_env \<Rightarrow> string \<Rightarrow> string \<Rightarrow> string" where
  "or_default penv key fallback = (if truthy (penv key) then coalesce (penv key) [] else fallback)"

definition bind_sum :: "err + 'a \<Rightarrow> ('a \<Rightarrow> err + 'b) \<Rightarrow> err + 'b" where
  "bind_sum r f = (case r of Inl e \<Rightarrow> Inl e | Inr x \<Rightarrow> f x)"

definition origins :: "string \<Rightarrow> string list" where
  "origins text = filter (\<lambda>t. t \<noteq> []) (map trim (split_on (CHR '','') text))"

definition worker_concurrency :: "process_env \<Rightarrow> nat" where
  "worker_concurrency penv = max 1 (parsePositiveInt (penv ''STORAGE_WORKER_CONCURRENCY'') 1)"

definition env_of :: "process_env \<Rightarrow> string \<Rightarrow> string \<Rightarrow> string \<Rightarrow> string \<Rightarrow> env" where
  "env_of penv databaseUrl rustInternalToken dashboardJwtSecret clueojServiceSecret =
     \<lparr>e_databaseUrl = databaseUrl,
      e_rustBaseUrl = or_default penv ''STORAGE_RUST_BASE_URL'' ''http://storage-rust:8081'',
      e_rustInternalToken = rustInternalToken,
      e_dashboardJwtSecret = dashboardJwtSecret,
      e_dashboardJwtAudience = or_default penv ''STORAGE_DASHBOARD_JWT_AUDIENCE'' ''clueoj-storage-dashboard'',
      e_clueojServiceAudience = or_default penv ''STORAGE_CLUEOJ_SERVICE_AUDIENCE'' ''clueoj-storage'',
      e_clueojServiceSecret = clueojServiceSecret,
      e_corsAllowedOrigins = origins (or_default penv ''STORAGE_CORS_ALLOWED_ORIGINS''
        ''http://localhost:2907,http://127.0.0.1:2907''),
      e_trustProxy = (penv ''STORAGE_TRUST_PROXY'' = Some ''true''),
      e_workerEnabled = (penv ''STORAGE_WORKER_ENABLED'' \<noteq> Some ''false''),
      e_workerConcurrency = worker_concurrency penv,
      e_restoreReservedConcurrency =
        min (worker_concurrency penv) (parseReservedRestore (penv ''STORAGE_RESTORE_RESERVED_CONCURRENCY'') 2),
      e_workerLeaseSeconds = parsePositiveInt (penv ''STORAGE_WORKER_LEASE_SECONDS'') 60,
      e_presignTtlSeconds = parsePositiveInt (penv ''R2_PRESIGN_TTL_SECONDS'') 180,
      e_port = parsePositiveInt (penv ''STORAGE_PORT'') 2907,
      e_logLevel = or_default penv ''STORAGE_LOG_LEVEL'' ''info'',
      e_dashboardDir = or_default penv ''STORAGE_DASHBOARD_DIR'' ''../dashboard/dist'',
      e_problemRootContainer = or_default penv ''STORAGE_PROBLEM_ROOT_CONTAINER'' ''/problems''\<rparr>"

definition jwt_secret :: "process_env \<Rightarrow> err + string" where
  "jwt_secret penv =
     (if truthy (penv ''STORAGE_DASHBOARD_JWT_SECRET'')
      then Inr (coalesce (penv ''STORAGE_DASHBOARD_JWT_SECRET'') [])
      else required penv ''STORAGE_JWT_SECRET'')"

definition loadEnv :: "process_env \<Rightarrow> err + env" where
  "loadEnv penv =
     bind_sum (required penv ''STORAGE_DATABASE_URL'') (\<lambda>databaseUrl.
     bind_sum (required penv ''STORAGE_RUST_INTERNAL_TOKEN'') (\<lambda>rustInternalToken.
     bind_sum (jwt_secret penv) (\<lambda>dashboardJwtSecret.
     bind_sum (required penv ''STORAGE_CLUEOJ_SERVICE_SECRET'') (\<lambda>clueojServiceSecret.
       Inr (env_of penv databaseUrl rustInternalToken dashboardJwtSecret clueojServiceSecret)))))"

definition pool_max :: "process_env \<Rightarrow> nat" where
  "pool_max penv = max 20 (parsePositiveInt (penv ''STORAGE_PG_POOL_MAX'') 20)"

lemma parsePositiveInt_pos: "0 < d \<Longrightarrow> 0 < parsePositiveInt v d"
  by (auto simp: parsePositiveInt_def split: option.splits)

lemma bind_sum_Inr: "bind_sum r f = Inr y \<longleftrightarrow> (\<exists>x. r = Inr x \<and> f x = Inr y)"
  by (cases r) (simp_all add: bind_sum_def)

lemma required_Inr: "required penv key = Inr v \<Longrightarrow> v \<noteq> []"
  by (auto simp: required_def truthy_def split: if_splits)

lemma jwt_secret_Inr: "jwt_secret penv = Inr v \<Longrightarrow> v \<noteq> []"
  by (auto simp: jwt_secret_def truthy_def dest: required_Inr split: if_splits)

lemma loadEnv_Inr:
  assumes "loadEnv penv = Inr e"
  shows "\<exists>a b c d. a \<noteq> [] \<and> b \<noteq> [] \<and> c \<noteq> [] \<and> d \<noteq> [] \<and> e = env_of penv a b c d"
  using assms unfolding loadEnv_def bind_sum_Inr by (blast dest: required_Inr jwt_secret_Inr)

lemma no_empty_origin: "[] \<notin> set (origins text)"
  by (simp add: origins_def)

text \<open>A configuration that loads is usable. If \<open>loadEnv\<close> returns, there is at least one worker, no more
  workers are reserved for restores than there are, the lease, the presign lifetime and the port are
  positive, and no secret, database address or allowed origin is empty; whatever else the variables
  contain.\<close>

theorem loadEnv_bounds:
  assumes "loadEnv penv = Inr e"
  shows "1 \<le> e_workerConcurrency e \<and> e_restoreReservedConcurrency e \<le> e_workerConcurrency e
    \<and> 0 < e_workerLeaseSeconds e \<and> 0 < e_presignTtlSeconds e \<and> 0 < e_port e
    \<and> [] \<notin> set [e_databaseUrl e, e_rustInternalToken e, e_dashboardJwtSecret e, e_clueojServiceSecret e]
    \<and> [] \<notin> set (e_corsAllowedOrigins e)"
proof -
  obtain a b c d where "a \<noteq> []" "b \<noteq> []" "c \<noteq> []" "d \<noteq> []" "e = env_of penv a b c d"
    using loadEnv_Inr [OF assms] by blast
  then show ?thesis
    by (simp add: env_of_def worker_concurrency_def parsePositiveInt_pos no_empty_origin)
qed

text \<open>An environment with the four required variables and nothing else.\<close>

definition minimal_env :: process_env where
  "minimal_env = map_of [(''STORAGE_DATABASE_URL'', ''d''), (''STORAGE_RUST_INTERNAL_TOKEN'', ''t''),
     (''STORAGE_JWT_SECRET'', ''j''), (''STORAGE_CLUEOJ_SERVICE_SECRET'', ''s'')]"

lemma minimal_env_loads: "\<exists>e. loadEnv minimal_env = Inr e"
  by (simp add: loadEnv_def bind_sum_Inr jwt_secret_def required_def truthy_def minimal_env_def)

theorem loadEnv_bounds_witness:
  "\<exists>e. loadEnv minimal_env = Inr e \<and> 1 \<le> e_workerConcurrency e \<and> 0 < e_port e"
  using minimal_env_loads loadEnv_bounds by blast

end
