(* ===== verification/Service.thy ===== *)
theory Service
  imports Worker Users Environment
begin

text \<open>
  What the process of the control plane runs beside the routes: the lanes of its worker loops
  (\<open>worker.ts\<close>, \<open>start\<close>), the maintenance timers and runs (\<open>maintenance.ts\<close>) and the limit on
  login attempts (\<open>index.ts\<close>).
\<close>

section \<open>Worker lanes\<close>

definition worker_lanes :: "env \<Rightarrow> lane list" where
  "worker_lanes e =
     map (lane_of (e_workerConcurrency e) (e_restoreReservedConcurrency e)) [0..<e_workerConcurrency e]"

text \<open>
  With only the required variables set there is one loop and it is reserved: the defaults are one
  worker and two reserved ones, cut down to one. Scans, snapshots, evictions, collections and
  backfills are then queued and never run.
\<close>

lemma default_lanes:
  assumes "loadEnv minimal_env = Inr e"
  shows "worker_lanes e = [LaneRestore]"
proof -
  obtain a b c d where e: "e = env_of minimal_env a b c d" using loadEnv_Inr [OF assms] by blast
  have v: "minimal_env ''STORAGE_WORKER_CONCURRENCY'' = None"
    "minimal_env ''STORAGE_RESTORE_RESERVED_CONCURRENCY'' = None" by (simp_all add: minimal_env_def)
  have "parseInt ''1'' = Some 1"
    by (simp add: parseInt_def is_space_def is_digit_def digits_value_def)
  then have "worker_concurrency minimal_env = 1"
    by (simp add: worker_concurrency_def parsePositiveInt_def v)
  then show ?thesis
    by (simp add: e env_of_def worker_lanes_def parseReservedRestore_def v lane_of_def)
qed

lemma bulk_lane_exists:
  "LaneBulk \<in> set (worker_lanes e) \<longleftrightarrow> e_restoreReservedConcurrency e < e_workerConcurrency e"
  by (auto simp: worker_lanes_def lane_of_def min_def split: if_splits)

section \<open>Maintenance runs\<close>

definition MAINTENANCE_INTERVAL_MS :: nat where "MAINTENANCE_INTERVAL_MS = 3600000"
definition GC_BATCH_SIZE :: nat where "GC_BATCH_SIZE = 500"
definition RESCHEDULE_BATCH_SIZE :: nat where "RESCHEDULE_BATCH_SIZE = 200"

definition scheduled_gc_opts :: "nat \<Rightarrow> create_opts" where
  "scheduled_gc_opts bucket =
     \<lparr>co_idempotencyKey = ''maintenance-gc-'' @ nat_text bucket, co_jobType = GcCollect, co_problemId = None,
      co_targetGeneration = None, co_leaseOwner = ''system'',
      co_requestFingerprint = Some (stableFingerprint (JObj
        [(''action'', JStr ''scheduled-gc''), (''batch_size'', JNum (int GC_BATCH_SIZE))]))\<rparr>"

text \<open>The default batch of \<open>purgeTerminalJobs\<close> is 1000; \<open>Date.now()\<close> is the clock in milliseconds.\<close>

definition runOnce :: "process_env \<Rightarrow> (db, unit) act" where
  "runOnce penv =
     try_catch
       (bnd (purgeTerminalJobs penv 1000) (\<lambda>purged.
        bnd applyRetention (\<lambda>retention. reading (\<lambda>s.
          if listGcEligible 1 s \<noteq> []
          then bnd (createJob (scheduled_gc_opts (toRfc3339 (now_us s) div MAINTENANCE_INTERVAL_MS))) (\<lambda>job.
               bnd (setJobPayload (jt_id job) (JObj [(''limit'', JNum (int GC_BATCH_SIZE))])) (\<lambda>_. ret ()))
          else ret ()))))
       (\<lambda>_. ret ())"

definition runRescheduleOnce :: "process_env \<Rightarrow> (db, unit) act" where
  "runRescheduleOnce penv =
     try_catch
       (bnd (scheduleDirtySnapshotBatch penv ''maintenance-reschedule'' RESCHEDULE_BATCH_SIZE) (\<lambda>_. ret ()))
       (\<lambda>_. ret ())"

lemma runs_never_raise: "fst (runOnce penv s) = Inr ()" "fst (runRescheduleOnce penv s) = Inr ()"
  by (simp_all add: runOnce_def runRescheduleOnce_def try_catch_def split: prod.splits sum.splits)

text \<open>What keeps a snapshot safe: its row, its objects' rows, the windows and the clock.\<close>

definition snapshot_frame :: "db \<Rightarrow> db \<Rightarrow> bool" where
  "snapshot_frame s t \<longleftrightarrow>
     snapshots t = snapshots s \<and> snapshot_objects t = snapshot_objects s
     \<and> retention_config t = retention_config s \<and> now_us t = now_us s"

interpretation snapf: preorder_rel snapshot_frame
  by unfold_locales (auto simp: snapshot_frame_def)

lemma track_snapshot_frame: "snapshot_frame s (track_snapshot_job_outcome old new s)"
  by (auto simp: snapshot_frame_def track_snapshot_job_outcome_def Let_def split: option.splits)

lemma fold_track_snapshot_frame: "snapshot_frame s (fold (\<lambda>j. track_snapshot_job_outcome j (g j)) js s)"
proof (induction js arbitrary: s)
  case Nil
  then show ?case by (simp add: snapf.R_refl)
next
  case (Cons j js)
  then show ?case using track_snapshot_frame snapf.R_trans by fastforce
qed

lemma update_jobs_snapshot_frame: "pres snapshot_frame (update_jobs st p f)"
proof (rule presI)
  fix s :: db
  define js where "js = map (updated_job p f (now_us s)) (jobs s)"
  have "snapshot_frame s (s\<lparr>jobs := js\<rparr>)" by (simp add: snapshot_frame_def)
  then have "snapshot_frame s (fold (\<lambda>j. track_snapshot_job_outcome j (updated_job p f (now_us s) j)) l (s\<lparr>jobs := js\<rparr>))" for l
    using fold_track_snapshot_frame snapf.R_trans by blast
  then show "snapshot_frame s (snd (update_jobs st p f s))"
    by (auto simp: update_jobs_def Let_def js_def [symmetric] snapf.R_refl snapshot_frame_def split: option.splits)
qed

lemma insert_job_snapshot_frame: "snapshot_frame s (snd (insert_job j (s\<lparr>uuid_pos := n\<rparr>)))"
  by (auto simp: insert_job_def Let_def snapshot_frame_def split: option.splits)

lemma createJob_snapshot_frame: "pres snapshot_frame (createJob opts)"
proof (rule presI)
  fix s
  show "snapshot_frame s (snd (createJob opts s))"
    unfolding snd_createJob createJob_stmt_def
    using presD [OF update_jobs_snapshot_frame] insert_job_snapshot_frame
    by (auto simp: Let_def fresh_uuid_def snapf.R_refl split: list.splits option.splits prod.splits sum.splits)
      (metis snd_conv)+
qed

lemma setJobPayload_snapshot_frame: "pres snapshot_frame (setJobPayload i v)"
  unfolding setJobPayload_def by (intro pres_intros update_jobs_snapshot_frame)

lemma purge_loop_jobs_only: "\<exists>js. snd (purge_loop d n acc s) = s\<lparr>jobs := js\<rparr>"
proof (induction d n acc s rule: purge_loop.induct)
  case (1 d n acc s)
  obtain deleted t where b: "purge_batch d n s = (deleted, t)" by fastforce
  then have t: "\<exists>js. t = s\<lparr>jobs := js\<rparr>" by (auto simp: purge_batch_def Let_def)
  show ?case
  proof (cases "deleted < n \<or> n = 0")
    case True
    with b t show ?thesis by (subst purge_loop.simps) auto
  next
    case False
    obtain js where "snd (purge_loop d n (acc + deleted) t) = t\<lparr>jobs := js\<rparr>"
      using 1 [OF b [symmetric] False] by blast
    with b t False show ?thesis by (subst purge_loop.simps) auto
  qed
qed

lemma purge_snapshot_frame: "pres snapshot_frame (purgeTerminalJobs penv n)"
proof (rule presI)
  fix s
  have "snapshot_frame s (snd (purge_loop d m acc s))" for d m acc
    using purge_loop_jobs_only [of d m acc s] by (auto simp: snapshot_frame_def)
  then show "snapshot_frame s (snd (purgeTerminalJobs penv n s))"
    by (auto simp: purgeTerminalJobs_def bnd_def lift_sum_def snapf.R_refl split: sum.splits prod.splits)
      (metis snd_conv)
qed

text \<open>A retention run keeps what is protected, whether it commits or rolls back.\<close>

definition keeps_snapshot :: "snapshot \<Rightarrow> db \<Rightarrow> db \<Rightarrow> bool" where
  "keeps_snapshot n s t \<longleftrightarrow>
     n \<in> set (snapshots t)
     \<and> (\<forall>ob \<in> set (snapshot_objects s). o_snapshot_id ob = s_id n \<longrightarrow> ob \<in> set (snapshot_objects t))"

lemma keeps_frame: "keeps_snapshot n s t \<Longrightarrow> snapshot_frame t u \<Longrightarrow> keeps_snapshot n s u"
  by (simp add: keeps_snapshot_def snapshot_frame_def)

lemma retention_keeps_snapshot:
  assumes "distinct (map s_id (snapshots s))" and "n \<in> set (snapshots s)" and "snapshot_is_gc_protected s n"
  shows "keeps_snapshot n s (snd (applyRetention s))"
proof (cases "applyRetention s")
  case (Pair r t)
  show ?thesis
  proof (cases r)
    case (Inl e)
    with Pair have "t = s" using tx_Inl_state unfolding applyRetention_def by (metis fst_conv snd_conv)
    with Pair assms(2) show ?thesis by (simp add: keeps_snapshot_def)
  next
    case (Inr v)
    note run = Pair [unfolded Inr]
    have np: "\<not> prunable s n" using assms(3) expired_not_protected by (auto simp: prunable_def)
    then have "s_id n \<notin> set (map s_id (filter (prunable s) (snapshots s)))"
      using assms(1,2) by (auto dest: distinct_map_unique)
    with np assms(2) run show ?thesis by (auto simp: keeps_snapshot_def applyRetention_Inr [OF run])
  qed
qed

text \<open>Maintenance never loses a protected snapshot. Whatever a maintenance run does (purge jobs, apply
  retention, queue a collection) and wherever it fails, a snapshot that is protected when it starts
  is still there afterwards with all the objects it lists.\<close>

theorem maintenance_keeps_protected:
  assumes "distinct (map s_id (snapshots s))" and "n \<in> set (snapshots s)" and "snapshot_is_gc_protected s n"
  shows "n \<in> set (snapshots (snd (runOnce penv s)))
    \<and> (\<forall>ob \<in> set (snapshot_objects s). o_snapshot_id ob = s_id n \<longrightarrow> ob \<in> set (snapshot_objects (snd (runOnce penv s))))"
proof -
  obtain r s1 where p: "purgeTerminalJobs penv 1000 s = (r, s1)" by fastforce
  have f1: "snapshot_frame s s1" using presD [OF purge_snapshot_frame] p by (metis snd_conv)
  then have pr: "distinct (map s_id (snapshots s1))" "n \<in> set (snapshots s1)" "snapshot_is_gc_protected s1 n"
    using assms
    by (auto simp: snapshot_frame_def snapshot_is_gc_protected_def retention_cutoff_def retention_days_def)
  have k1: "keeps_snapshot n s s1" using assms(2) f1 by (simp add: keeps_snapshot_def snapshot_frame_def)
  obtain q s2 where a: "applyRetention s1 = (q, s2)" by fastforce
  have k2: "keeps_snapshot n s s2"
    using retention_keeps_snapshot [OF pr] a f1 by (simp add: keeps_snapshot_def snapshot_frame_def)
  define rest where "rest = (reading (\<lambda>s.
          if listGcEligible 1 s \<noteq> []
          then bnd (createJob (scheduled_gc_opts (toRfc3339 (now_us s) div MAINTENANCE_INTERVAL_MS))) (\<lambda>job.
               bnd (setJobPayload (jt_id job) (JObj [(''limit'', JNum (int GC_BATCH_SIZE))])) (\<lambda>_. ret ()))
          else ret ()))"
  have "pres snapshot_frame rest"
    unfolding rest_def by (intro pres_intros createJob_snapshot_frame setJobPayload_snapshot_frame)
  then have k3: "keeps_snapshot n s (snd (rest s2))" using keeps_frame [OF k2] by (simp add: pres_def)
  have "snd (runOnce penv s) \<in> {s1, s2, snd (rest s2)}"
    unfolding runOnce_def rest_def [symmetric] try_catch_def
    using p a by (cases r; cases q) (auto split: prod.splits sum.splits)
  with k1 k2 k3 show ?thesis by (auto simp: keeps_snapshot_def)
qed

section \<open>The maintenance timers\<close>

text \<open>
  \<open>sc_running\<close> and \<open>sc_rescheduling\<close> count runs under way; \<open>sc_timer\<close> and \<open>sc_rescheduleTimer\<close> tell
  whether a timer is set. A step is a call of \<open>start\<close> or \<open>stop\<close>, a timer going off, or a run
  ending (its \<open>finally\<close>).
\<close>

record scheduler =
  sc_stopped :: bool
  sc_timer :: bool
  sc_rescheduleTimer :: bool
  sc_running :: nat
  sc_rescheduling :: nat

definition new_scheduler :: scheduler where
  "new_scheduler = \<lparr>sc_stopped = False, sc_timer = False, sc_rescheduleTimer = False,
     sc_running = 0, sc_rescheduling = 0\<rparr>"

definition schedule :: "scheduler \<Rightarrow> scheduler" where
  "schedule c = (if sc_stopped c then c else c\<lparr>sc_timer := True\<rparr>)"

definition scheduleReschedule :: "scheduler \<Rightarrow> scheduler" where
  "scheduleReschedule c = (if sc_stopped c then c else c\<lparr>sc_rescheduleTimer := True\<rparr>)"

definition start :: "scheduler \<Rightarrow> scheduler" where
  "start c = (if 0 < sc_running c \<or> sc_timer c then c else scheduleReschedule (schedule c))"

definition stop :: "scheduler \<Rightarrow> scheduler" where
  "stop c = c\<lparr>sc_stopped := True, sc_timer := False, sc_rescheduleTimer := False\<rparr>"

inductive scheduler_step :: "scheduler \<Rightarrow> scheduler \<Rightarrow> bool" where
  ss_start: "scheduler_step c (start c)"
| ss_stop: "scheduler_step c (stop c)"
| ss_fire: "sc_timer c \<Longrightarrow> scheduler_step c (c\<lparr>sc_timer := False, sc_running := sc_running c + 1\<rparr>)"
| ss_end: "0 < sc_running c \<Longrightarrow> scheduler_step c (schedule (c\<lparr>sc_running := sc_running c - 1\<rparr>))"
| ss_refire: "sc_rescheduleTimer c \<Longrightarrow>
    scheduler_step c (c\<lparr>sc_rescheduleTimer := False, sc_rescheduling := sc_rescheduling c + 1\<rparr>)"
| ss_reend: "0 < sc_rescheduling c \<Longrightarrow>
    scheduler_step c (if sc_stopped c then c\<lparr>sc_rescheduling := sc_rescheduling c - 1\<rparr>
                      else scheduleReschedule (c\<lparr>sc_rescheduling := sc_rescheduling c - 1\<rparr>))"

inductive_cases scheduler_stepE: "scheduler_step c d"

definition scheduler_ok :: "scheduler \<Rightarrow> bool" where
  "scheduler_ok c \<longleftrightarrow>
     sc_running c + (if sc_timer c then 1 else 0) \<le> 1
     \<and> sc_rescheduling c + (if sc_rescheduleTimer c then 1 else 0) \<le> 1
     \<and> (sc_stopped c \<longrightarrow> \<not> sc_timer c \<and> \<not> sc_rescheduleTimer c)
     \<and> (\<not> sc_stopped c \<and> (sc_rescheduleTimer c \<or> 0 < sc_rescheduling c) \<longrightarrow> sc_timer c \<or> 0 < sc_running c)"

lemmas scheduler_simps = start_def stop_def schedule_def scheduleReschedule_def scheduler_ok_def

lemma scheduler_step_ok: "scheduler_step c d \<Longrightarrow> scheduler_ok c \<Longrightarrow> scheduler_ok d"
  by (induction rule: scheduler_step.induct) (auto simp: scheduler_simps split: if_splits)

lemma stopped_step:
  "scheduler_step c d \<Longrightarrow> sc_stopped c \<Longrightarrow> scheduler_ok c
   \<Longrightarrow> sc_stopped d \<and> sc_running d \<le> sc_running c \<and> sc_rescheduling d \<le> sc_rescheduling c"
  by (induction rule: scheduler_step.induct) (auto simp: scheduler_simps split: if_splits)

text \<open>One maintenance run at a time, and none after stopping. In every state the timers reach, at most
  one maintenance run and one reschedule run are under way, however often \<open>start\<close> is called; after
  \<open>stop\<close> no timer is ever set again and no run begins.\<close>

theorem maintenance_exclusive:
  assumes "scheduler_step\<^sup>*\<^sup>* new_scheduler c"
  shows "sc_running c \<le> 1 \<and> sc_rescheduling c \<le> 1
    \<and> (scheduler_step\<^sup>*\<^sup>* (stop c) d \<longrightarrow> sc_stopped d \<and> sc_running d \<le> sc_running c
        \<and> sc_rescheduling d \<le> sc_rescheduling c \<and> \<not> sc_timer d \<and> \<not> sc_rescheduleTimer d)"
proof -
  have ok: "scheduler_ok c"
    using assms
  proof (induction rule: rtranclp_induct)
    case base
    show ?case by (simp add: new_scheduler_def scheduler_ok_def)
  next
    case (step y z)
    then show ?case by (blast intro: scheduler_step_ok)
  qed
  have after: "sc_stopped d \<and> scheduler_ok d \<and> sc_running d \<le> sc_running c \<and> sc_rescheduling d \<le> sc_rescheduling c"
    if "scheduler_step\<^sup>*\<^sup>* (stop c) d"
    using that
  proof (induction rule: rtranclp_induct)
    case base
    show ?case using ok by (auto simp: stop_def scheduler_ok_def split: if_splits)
  next
    case (step x y)
    then show ?case using stopped_step [of x y] scheduler_step_ok [of x y] by auto
  qed
  show ?thesis using ok after by (auto simp: scheduler_ok_def split: if_splits)
qed

section \<open>Login attempts\<close>

record bucket =
  bk_count :: nat
  bk_resetAt :: nat

text \<open>One request to the login path from \<open>ip\<close>: whether it may go on, and the table afterwards.\<close>

definition login_attempt :: "string \<Rightarrow> nat \<Rightarrow> (string \<rightharpoonup> bucket) \<Rightarrow> bool \<times> (string \<rightharpoonup> bucket)" where
  "login_attempt ip now m =
     (let old = coalesce (m ip) \<lparr>bk_count = 0, bk_resetAt = now + 60000\<rparr>;
          cur = (if bk_resetAt old < now then \<lparr>bk_count = 0, bk_resetAt = now + 60000\<rparr> else old);
          new = cur\<lparr>bk_count := bk_count cur + 1\<rparr>
      in (\<not> 10 < bk_count new, m(ip \<mapsto> new)))"

fun login_attempts :: "(string \<times> nat) list \<Rightarrow> (string \<rightharpoonup> bucket) \<Rightarrow> (string \<times> bool) list \<times> (string \<rightharpoonup> bucket)" where
  "login_attempts [] m = ([], m)"
| "login_attempts ((ip, now) # rest) m =
     (let (ok, m') = login_attempt ip now m; (oks, m'') = login_attempts rest m' in ((ip, ok) # oks, m''))"

definition passed :: "string \<Rightarrow> (string \<times> bool) list \<Rightarrow> nat" where
  "passed ip oks = count_where (\<lambda>r. fst r = ip \<and> snd r) oks"

lemma window_passed:
  assumes "m ip = Some b" and "\<forall>r \<in> set evs. fst r = ip \<longrightarrow> snd r \<le> bk_resetAt b"
  shows "passed ip (fst (login_attempts evs m)) \<le> 10 - bk_count b"
  using assms
proof (induction evs arbitrary: m b)
  case (Cons ev evs)
  obtain i now where ev: "ev = (i, now)" by fastforce
  obtain ok m' where a: "login_attempt i now m = (ok, m')" by fastforce
  obtain oks m'' where l: "login_attempts evs m' = (oks, m'')" by fastforce
  have run: "fst (login_attempts (ev # evs) m) = (i, ok) # oks" by (simp add: ev a l)
  show ?case
  proof (cases "i = ip")
    case False
    then have "m' ip = Some b" using a Cons.prems(1) by (auto simp: login_attempt_def Let_def)
    then have "passed ip oks \<le> 10 - bk_count b" using Cons.IH [of m' b] Cons.prems(2) l by simp
    with run False show ?thesis by (simp add: passed_def count_where_def)
  next
    case True
    then have "\<not> bk_resetAt b < now" using Cons.prems(2) ev by auto
    then have m': "m' ip = Some (b\<lparr>bk_count := bk_count b + 1\<rparr>)" and ok: "ok = (bk_count b + 1 \<le> 10)"
      using a True Cons.prems(1) by (auto simp: login_attempt_def Let_def)
    have "passed ip oks \<le> 10 - (bk_count b + 1)" using Cons.IH [of m' "b\<lparr>bk_count := bk_count b + 1\<rparr>"] m' Cons.prems(2) l by simp
    with run True ok show ?thesis by (auto simp: passed_def count_where_def)
  qed
qed (simp add: passed_def count_where_def)

text \<open>At most ten logins per window. From an address without a current bucket, of the first attempt and
  all attempts in the minute after it at most ten get through to the password check, whatever other
  addresses do in between.\<close>

theorem login_rate_limited:
  assumes "m ip = None \<or> (\<exists>b. m ip = Some b \<and> bk_resetAt b < t0)"
    and "\<forall>r \<in> set evs. fst r = ip \<longrightarrow> snd r \<le> t0 + 60000"
  shows "passed ip (fst (login_attempts ((ip, t0) # evs) m)) \<le> 10"
proof -
  obtain ok m' where a: "login_attempt ip t0 m = (ok, m')" by fastforce
  then have m': "m' ip = Some \<lparr>bk_count = 1, bk_resetAt = t0 + 60000\<rparr>"
    using assms(1) by (auto simp: login_attempt_def Let_def)
  have "passed ip (fst (login_attempts evs m')) \<le> 9"
    using window_passed [of m' ip "\<lparr>bk_count = 1, bk_resetAt = t0 + 60000\<rparr>" evs] m' assms(2) by simp
  then show ?thesis by (auto simp: a passed_def count_where_def split: prod.splits)
qed

section \<open>Witnesses\<close>

theorem maintenance_keeps_protected_witness:
  "demo_snapshot ''r'' ''1'' 2 Ready \<in> set (snapshots (snd (runOnce no_env demo_snapshots_db)))"
proof -
  have "distinct (map s_id (snapshots demo_snapshots_db))"
    and "demo_snapshot ''r'' ''1'' 2 Ready \<in> set (snapshots demo_snapshots_db)"
    and "snapshot_is_gc_protected demo_snapshots_db (demo_snapshot ''r'' ''1'' 2 Ready)"
    by (simp_all add: demo_snapshots_db_def demo_simps snapshot_is_gc_protected_def)
  then show ?thesis using maintenance_keeps_protected by blast
qed

theorem maintenance_exclusive_witness: "sc_running (start new_scheduler) \<le> 1"
proof -
  have "scheduler_step\<^sup>*\<^sup>* new_scheduler (start new_scheduler)" by (blast intro: ss_start)
  then show ?thesis using maintenance_exclusive by blast
qed

theorem login_rate_limited_witness:
  "passed ''a'' (fst (login_attempts ((''a'', 5) # replicate 20 (''a'', 60005)) Map.empty)) \<le> 10"
  by (rule login_rate_limited) simp_all

end
