(* ===== verification/Http.thy ===== *)
theory Http
  imports Service
begin

text \<open>
  The frame of the routes, \<open>control-plane/src/routes.ts\<close>: replies, authentication, scopes and the
  idempotency header, the reading of request bodies, the translation of errors, and the order in
  which a reconcile request is written. A route is a computation that ends in a reply; an exception
  it does not catch is answered by the error hook, \<open>on_error\<close>.
\<close>

section \<open>Replies\<close>

text \<open>
  \<open>Send status body\<close>, or the error body \<open>{code, message, retryable, request_id}\<close> with its status.
\<close>

datatype 'b reply =
    Send nat 'b
  | Fail nat string string bool string

record caller =
  cl_auth :: payload
  cl_request_id :: string
  cl_idempotency_key :: "string option"

text \<open>
  What the application is built with: settings, libraries and the data plane's other calls.
  \<open>ap_iso\<close> is \<open>new Date(ms).toISOString()\<close>.
\<close>

record ready_result =
  rd_ready :: bool
  rd_local_status :: local_status
  rd_observed_at :: time

record rust_volume =
  rv_total_bytes :: int
  rv_free_bytes :: int
  rv_available_bytes :: int
  rv_observed_at :: string
  rv_stale :: bool

record app =
  ap_env :: env
  ap_process_env :: process_env
  ap_jwt :: jwt_lib
  ap_scrypt :: scrypt
  ap_pg :: "err \<Rightarrow> string"
  ap_ready :: "string \<Rightarrow> string \<Rightarrow> (db, ready_result) act"
  ap_volumes :: "(db, rust_volume) act"
  ap_presign :: "string \<Rightarrow> int \<Rightarrow> string option \<Rightarrow> (db, string \<times> string) act"
  ap_iso :: "int \<Rightarrow> string"

definition reject :: "caller \<Rightarrow> nat \<Rightarrow> string \<Rightarrow> string \<Rightarrow> bool \<Rightarrow> (db, 'b reply) act" where
  "reject cl status code message retryable = ret (Fail status code message retryable (cl_request_id cl))"

text \<open>
  The hook for exceptions. Fastify's documentation has a reply sent from it throw; then the body is
  Fastify's own, under the status 500 the hook has set, and only the status here is what a client sees.
\<close>

definition on_error :: "string \<Rightarrow> (db, 'b reply) act \<Rightarrow> (db, 'b reply) act" where
  "on_error rid h = try_catch h (\<lambda>_. ret (Fail 500 ''internal'' ''Internal server error'' True rid))"

section \<open>Authentication\<close>

definition public_api :: "string set" where
  "public_api = {''/api/v1/system/health'', ''/api/v1/auth/login'', ''/api/v1/openapi.json'', ''/api/v1/openapi.yaml''}"

definition needs_auth :: "string \<Rightarrow> bool" where
  "needs_auth path \<longleftrightarrow> starts_with ''/api/v1/'' path \<and> path \<notin> public_api"

text \<open>
  A bearer token is tried as an operator's token first, which needs a session that is still active,
  then as a service's token. \<open>rid\<close> is the request id the hook generates for its own replies.
\<close>

definition authenticate :: "app \<Rightarrow> string \<Rightarrow> string option \<Rightarrow> db \<Rightarrow> payload reply" where
  "authenticate a rid authorization s =
     (case extractBearerToken authorization of
        None \<Rightarrow> Fail 401 ''unauthorized'' ''Missing bearer token'' False rid
      | Some token \<Rightarrow>
          let e = ap_env a;
              now = now_us s;
              operator = (case verifyToken (ap_jwt a) token (e_dashboardJwtSecret e)
                                 (Some (e_dashboardJwtAudience e)) (Some OperatorToken) now of
                            Inl x \<Rightarrow> None
                          | Inr p \<Rightarrow> if isDashboardSessionActive p s then Some p else None);
              service = (case verifyToken (ap_jwt a) token (e_clueojServiceSecret e)
                                (Some (e_clueojServiceAudience e)) (Some ServiceToken) now of
                           Inl x \<Rightarrow> None | Inr p \<Rightarrow> Some p)
          in (case or_else operator service of
                None \<Rightarrow> Fail 401 ''invalid_token'' ''Invalid or expired token'' False rid
              | Some p \<Rightarrow> Send 200 p))"

definition requireScopes :: "caller \<Rightarrow> string list \<Rightarrow> (db, 'b reply) act \<Rightarrow> (db, 'b reply) act" where
  "requireScopes cl scopes h =
     (if list_ex (hasScope (cl_auth cl)) scopes then h
      else reject cl 403 ''forbidden'' (''Missing required scope: '' @ join_text '' or '' scopes) False)"

definition getIdempotencyKey :: "caller \<Rightarrow> (string \<Rightarrow> (db, 'b reply) act) \<Rightarrow> (db, 'b reply) act" where
  "getIdempotencyKey cl h =
     (if truthy (cl_idempotency_key cl) then h (coalesce (cl_idempotency_key cl) [])
      else reject cl 400 ''bad_request'' ''Idempotency-Key header required'' False)"

definition not_found :: "caller \<Rightarrow> string \<Rightarrow> (db, 'b reply) act" where
  "not_found cl message = reject cl 404 ''not_found'' message False"

section \<open>Accepted jobs and audit events\<close>

record accepted_job =
  aj_job_id :: string
  aj_state :: job_state
  aj_poll_url :: string
  aj_events_url :: string

definition accepted :: "jobT \<Rightarrow> accepted_job" where
  "accepted j =
     \<lparr>aj_job_id = jt_id j, aj_state = jt_state j, aj_poll_url = ''/api/v1/jobs/'' @ jt_id j,
      aj_events_url = ''/api/v1/jobs/'' @ jt_id j @ ''/events''\<rparr>"

text \<open>The optional fields of an audit event; \<open>no_target\<close> leaves all of them out.\<close>

record audit_target =
  tg_targetType :: "string option"
  tg_targetId :: "string option"
  tg_problemId :: "string option"
  tg_generation :: "nat option"
  tg_jobId :: "string option"
  tg_metadata :: "json option"

definition no_target :: audit_target where
  "no_target = \<lparr>tg_targetType = None, tg_targetId = None, tg_problemId = None, tg_generation = None,
     tg_jobId = None, tg_metadata = None\<rparr>"

definition audit :: "caller \<Rightarrow> string \<Rightarrow> audit_target \<Rightarrow> (db, unit) act" where
  "audit cl action t =
     insertAuditEvent
       \<lparr>ao_actor = tp_sub (cl_auth cl), ao_actorRole = Some (role_text (tp_role (cl_auth cl))),
        ao_action = action, ao_targetType = tg_targetType t, ao_targetId = tg_targetId t,
        ao_problemId = tg_problemId t, ao_generation = tg_generation t, ao_jobId = tg_jobId t,
        ao_metadata = tg_metadata t, ao_requestId = Some (cl_request_id cl)\<rparr>"

section \<open>Reading requests\<close>

definition parseLimit :: "string option \<Rightarrow> nat \<Rightarrow> nat \<Rightarrow> nat" where
  "parseLimit v fallback most =
     (case parseInt (coalesce v (nat_text fallback)) of
        None \<Rightarrow> fallback
      | Some n \<Rightarrow> if n < 1 then fallback else min (nat n) most)"

text \<open>\<open>String(value)\<close>, for the values JSON can hold.\<close>

fun js_string :: "json \<Rightarrow> string" where
  "js_string JNull = ''null''"
| "js_string (JBool b) = (if b then ''true'' else ''false'')"
| "js_string (JNum i) = int_text i"
| "js_string (JStr t) = t"
| "js_string (JArr vs) = join_text '','' (map (\<lambda>v. if v = JNull then [] else js_string v) vs)"
| "js_string (JObj kvs) = ''[object Object]''"

definition js_boolean :: "json \<Rightarrow> bool" where
  "js_boolean v = (case v of JNull \<Rightarrow> False | JBool b \<Rightarrow> b | JNum n \<Rightarrow> n \<noteq> 0 | JStr t \<Rightarrow> t \<noteq> [] | _ \<Rightarrow> True)"

text \<open>\<open>raw.a ?? raw.b ?? \<dots>\<close>: the first field that is neither missing nor null.\<close>

fun first_field :: "json \<Rightarrow> string list \<Rightarrow> json option" where
  "first_field raw [] = None"
| "first_field raw (k # ks) =
     (case json_field raw k of
        None \<Rightarrow> first_field raw ks
      | Some v \<Rightarrow> if v = JNull then first_field raw ks else Some v)"

definition normalizeNullable :: "json option \<Rightarrow> string option" where
  "normalizeNullable v =
     (case v of None \<Rightarrow> None
      | Some x \<Rightarrow> if x = JNull \<or> x = JStr [] then None else Some (js_string x))"

text \<open>
  A quota is null, an integer or a text of digits and the version an integer: the schemas of both
  routes that read them (\<open>ReconcileRequest\<close>, \<open>DirtyProblemRequest\<close>) admit nothing else. The text is
  taken as the number PostgreSQL reads from it.
\<close>

definition quota_of :: "json option \<Rightarrow> int option" where
  "quota_of v =
     (case v of Some (JNum n) \<Rightarrow> Some n | Some (JStr t) \<Rightarrow> Some (int (digits_value t)) | _ \<Rightarrow> None)"

definition version_of :: "json option \<Rightarrow> int" where
  "version_of v = (case v of Some (JNum n) \<Rightarrow> n | _ \<Rightarrow> 1)"

definition catalogProblemFrom :: "json \<Rightarrow> string option \<Rightarrow> err + dirty_request" where
  "catalogProblemFrom raw pathExternalId =
     (let externalId = (case first_field raw [''external_id'', ''problem_pk''] of
                          Some v \<Rightarrow> js_string v | None \<Rightarrow> coalesce pathExternalId []);
          code = (case first_field raw [''code''] of Some v \<Rightarrow> js_string v | None \<Rightarrow> [])
      in if externalId = [] \<or> code = []
         then Inl (PlainError ''external_id/problem_pk and code are required'')
         else
           (let ownerRaw = normalizeNullable
                  (first_field raw [''owner_organization'', ''owner_external_id'', ''owner_organization_id'']);
                mirrorOf = normalizeNullable (first_field raw [''mirror_of'', ''mirror_of_external_id'']);
                mirrorRoot = normalizeNullable
                  (or_else (first_field raw [''mirror_root'', ''mirror_root_external_id''])
                           (map_option JStr mirrorOf));
                lower = (\<lambda>k. to_lower (case first_field raw [k] of Some v \<Rightarrow> js_string v | None \<Rightarrow> []))
            in Inr \<lparr>dr_entry =
                 \<lparr>ce_externalId = externalId, ce_code = code, ce_ownerOrganization = ownerRaw,
                  ce_isManuallyManaged =
                    js_boolean (coalesce (first_field raw [''is_manually_managed'']) (JBool False)),
                  ce_mirrorOf = mirrorOf, ce_mirrorRoot = mirrorRoot,
                  ce_quotaBytes = quota_of (json_field raw ''quota_bytes''),
                  ce_schemaVersion = version_of (first_field raw [''schema_version''])\<rparr>,
               dr_deleted = (lower ''event_kind'' = ''delete'' \<or> lower ''catalog_state'' = ''deleted'')\<rparr>))"

section \<open>Errors\<close>

definition sendJobError :: "app \<Rightarrow> caller \<Rightarrow> err \<Rightarrow> (db, 'b reply) act" where
  "sendJobError a cl e =
     (let message = err_message (ap_pg a) e in
      case e of
        IdempotencyConflictError \<Rightarrow> reject cl 409 ''idempotency_conflict'' message False
      | ProblemOperationConflictError _ \<Rightarrow> reject cl 409 ''problem_operation_conflict'' message True
      | CatalogCodeConflictError _ _ \<Rightarrow> reject cl 409 ''catalog_code_conflict'' message False
      | OrphanHistoryConflictError _ \<Rightarrow> reject cl 409 ''orphan_history_conflict'' message False
      | _ \<Rightarrow> reject cl 502 ''rust_error'' message True)"

section \<open>The order of a reconcile\<close>

definition entry_id :: "dirty_request \<Rightarrow> string" where
  "entry_id r = ce_externalId (dr_entry r)"

text \<open>\<open>new Map(\<dots>)\<close>: the last entry with an id wins.\<close>

definition by_id :: "dirty_request list \<Rightarrow> string \<Rightarrow> dirty_request option" where
  "by_id cs i = List.find (\<lambda>r. entry_id r = i) (rev cs)"

definition parent_of :: "dirty_request list \<Rightarrow> dirty_request \<Rightarrow> dirty_request option" where
  "parent_of cs r =
     (if truthy (ce_mirrorOf (dr_entry r)) then by_id cs (coalesce (ce_mirrorOf (dr_entry r)) []) else None)"

text \<open>Entries not yet in the guard, and one step more for an entry outside the list.\<close>

definition emit_measure :: "dirty_request list \<Rightarrow> dirty_request \<Rightarrow> string list \<Rightarrow> nat" where
  "emit_measure cs r guard =
     2 * card (entry_id ` set cs - set guard) + (if r \<in> set cs then 0 else 1)"

lemma by_id_Some: "by_id cs i = Some r \<Longrightarrow> r \<in> set cs \<and> entry_id r = i"
  by (auto simp: by_id_def dest: find_Some_in)

lemma parent_of_Some: "parent_of cs r = Some q \<Longrightarrow> q \<in> set cs \<and> ce_mirrorOf (dr_entry r) = Some (entry_id q)"
  by (auto simp: parent_of_def truthy_def dest: by_id_Some split: if_splits)

lemma emit_measure_less:
  assumes "parent_of cs r = Some q" and "entry_id r \<notin> set guard"
  shows "emit_measure cs q (entry_id r # guard) < emit_measure cs r guard"
proof (cases "r \<in> set cs")
  case True
  have "entry_id ` set cs - set (entry_id r # guard) \<subset> entry_id ` set cs - set guard"
    using True assms(2) by auto
  then have "card (entry_id ` set cs - set (entry_id r # guard)) < card (entry_id ` set cs - set guard)"
    by (intro psubset_card_mono) auto
  with True show ?thesis using parent_of_Some [OF assms(1)] by (simp add: emit_measure_def)
next
  case False
  have "card (entry_id ` set cs - set (entry_id r # guard)) \<le> card (entry_id ` set cs - set guard)"
    by (intro card_mono) auto
  with False show ?thesis using parent_of_Some [OF assms(1)] by (simp add: emit_measure_def)
qed

text \<open>\<open>emit\<close> appends to \<open>ordered\<close>; \<open>emitted\<close> is the set of the ids in it.\<close>

function emit :: "dirty_request list \<Rightarrow> dirty_request \<Rightarrow> string list \<Rightarrow> dirty_request list \<Rightarrow> dirty_request list" where
  "emit cs r guard ordered =
     (if entry_id r \<in> entry_id ` set ordered \<or> entry_id r \<in> set guard then ordered
      else (let ordered' =
                  (case parent_of cs r of
                     None \<Rightarrow> ordered
                   | Some q \<Rightarrow> if entry_id q \<in> entry_id ` set ordered then ordered
                               else emit cs q (entry_id r # guard) ordered)
            in if entry_id r \<in> entry_id ` set ordered' then ordered' else ordered' @ [r]))"
  by pat_completeness auto

termination
  by (relation "measure (\<lambda>(cs, r, guard, ordered). emit_measure cs r guard)") (simp_all add: emit_measure_less)

declare emit.simps [simp del]

definition emit_all :: "dirty_request list \<Rightarrow> dirty_request list" where
  "emit_all cs = fold (\<lambda>r. emit cs r []) cs []"

subsection \<open>Parents come first\<close>

definition parents_first :: "dirty_request list \<Rightarrow> dirty_request list \<Rightarrow> bool" where
  "parents_first cs ordered \<longleftrightarrow>
     (\<forall>pre r post. ordered = pre @ r # post \<longrightarrow>
        (\<forall>q. parent_of cs r = Some q \<longrightarrow> entry_id q \<in> entry_id ` set pre))"

lemma parents_first_snoc:
  assumes "parents_first cs xs" and "\<And>q. parent_of cs r = Some q \<Longrightarrow> entry_id q \<in> entry_id ` set xs"
  shows "parents_first cs (xs @ [r])"
  unfolding parents_first_def
proof (intro allI impI)
  fix pre x post q
  assume "xs @ [r] = pre @ x # post" and q: "parent_of cs x = Some q"
  then consider "post = []" "x = r" "pre = xs" | post' where "xs = pre @ x # post'"
    by (cases post rule: rev_cases) auto
  then show "entry_id q \<in> entry_id ` set pre"
    using assms q by cases (auto simp: parents_first_def)
qed

text \<open>The mirror relation of the request has no cycle: \<open>rank\<close> goes down towards the roots.\<close>

definition ranked :: "(string \<Rightarrow> nat) \<Rightarrow> dirty_request list \<Rightarrow> bool" where
  "ranked rank cs \<longleftrightarrow>
     (\<forall>r \<in> set cs. \<forall>q. parent_of cs r = Some q \<longrightarrow> rank (entry_id q) < rank (entry_id r))"

definition order_ok :: "dirty_request list \<Rightarrow> dirty_request list \<Rightarrow> bool" where
  "order_ok cs ordered \<longleftrightarrow>
     set ordered \<subseteq> set cs \<and> distinct (map entry_id ordered) \<and> parents_first cs ordered"

lemma emit_ok:
  assumes "ranked rank cs" and "r \<in> set cs" and "\<forall>g \<in> set guard. rank (entry_id r) < rank g" and "order_ok cs ordered"
  shows "order_ok cs (emit cs r guard ordered)
    \<and> entry_id ` set ordered \<subseteq> entry_id ` set (emit cs r guard ordered)
    \<and> entry_id r \<in> entry_id ` set (emit cs r guard ordered)"
  using assms
proof (induction cs r guard ordered rule: emit.induct)
  case (1 cs r guard ordered)
  show ?case
  proof (cases "entry_id r \<in> entry_id ` set ordered")
    case True
    with 1 show ?thesis by (simp add: emit.simps)
  next
    case False
    have ng: "entry_id r \<notin> set guard" using 1(4) by auto
    define ordered' where "ordered' = (case parent_of cs r of
                     None \<Rightarrow> ordered
                   | Some q \<Rightarrow> if entry_id q \<in> entry_id ` set ordered then ordered
                               else emit cs q (entry_id r # guard) ordered)"
    have *: "order_ok cs ordered' \<and> entry_id ` set ordered \<subseteq> entry_id ` set ordered'
        \<and> (\<forall>q. parent_of cs r = Some q \<longrightarrow> entry_id q \<in> entry_id ` set ordered')"
    proof (cases "parent_of cs r")
      case None
      with 1(5) show ?thesis by (simp add: ordered'_def)
    next
      case (Some q)
      have q: "q \<in> set cs" "rank (entry_id q) < rank (entry_id r)"
        using parent_of_Some [OF Some] 1(2,3) Some by (auto simp: ranked_def)
      have g: "\<forall>g \<in> set (entry_id r # guard). rank (entry_id q) < rank g" using q(2) 1(4) by auto
      show ?thesis
      proof (cases "entry_id q \<in> entry_id ` set ordered")
        case True
        with Some 1(5) show ?thesis by (simp add: ordered'_def)
      next
        case nq: False
        have "order_ok cs (emit cs q (entry_id r # guard) ordered)
            \<and> entry_id ` set ordered \<subseteq> entry_id ` set (emit cs q (entry_id r # guard) ordered)
            \<and> entry_id q \<in> entry_id ` set (emit cs q (entry_id r # guard) ordered)"
          using 1(1) False ng Some nq 1(2) q(1) g 1(5) by blast
        with Some nq show ?thesis by (simp add: ordered'_def)
      qed
    qed
    have eq: "emit cs r guard ordered = (if entry_id r \<in> entry_id ` set ordered' then ordered' else ordered' @ [r])"
      using False ng by (subst emit.simps) (simp add: ordered'_def Let_def)
    show ?thesis
    proof (cases "entry_id r \<in> entry_id ` set ordered'")
      case True
      with * eq show ?thesis by simp
    next
      case nr: False
      then have "order_ok cs (ordered' @ [r])"
        using * 1(3) by (auto simp: order_ok_def intro!: parents_first_snoc)
      with * eq nr show ?thesis by auto
    qed
  qed
qed

lemma emit_fold:
  assumes "ranked rank cs" and "set rs \<subseteq> set cs" and "order_ok cs ordered"
  shows "order_ok cs (fold (\<lambda>r. emit cs r []) rs ordered)
    \<and> entry_id ` (set ordered \<union> set rs) \<subseteq> entry_id ` set (fold (\<lambda>r. emit cs r []) rs ordered)"
  using assms(2,3)
proof (induction rs arbitrary: ordered)
  case (Cons r rs)
  have e: "order_ok cs (emit cs r [] ordered)
    \<and> entry_id ` set ordered \<subseteq> entry_id ` set (emit cs r [] ordered)
    \<and> entry_id r \<in> entry_id ` set (emit cs r [] ordered)"
    by (rule emit_ok [OF assms(1)]) (use Cons.prems in auto)
  have sub: "set rs \<subseteq> set cs" using Cons.prems(1) by simp
  have IH: "order_ok cs (fold (\<lambda>r. emit cs r []) (r # rs) ordered)
    \<and> entry_id ` (set (emit cs r [] ordered) \<union> set rs) \<subseteq> entry_id ` set (fold (\<lambda>r. emit cs r []) (r # rs) ordered)"
    using Cons.IH [OF sub conjunct1 [OF e]] by simp
  have "entry_id ` (set ordered \<union> set (r # rs)) \<subseteq> entry_id ` (set (emit cs r [] ordered) \<union> set rs)"
    using e by (simp add: image_Un le_supI1)
  with IH show ?case by (meson order_trans)
qed simp


section \<open>Numerals read back\<close>

lemma digit_char_value: "d < 10 \<Longrightarrow> (of_char (digit_char d) :: nat) = 48 + d"
  by (simp add: digit_char_def)

lemma nat_text_digits: "list_all is_digit (nat_text n) \<and> nat_text n \<noteq> []"
proof (induction n rule: nat_text.induct)
  case (1 n)
  have "is_digit (digit_char d)" if "d < 10" for d
    using that by (simp add: is_digit_def digit_char_value)
  with 1 show ?case by (subst (1 2) nat_text.simps) auto
qed

lemma digits_value_nat_text: "digits_value (nat_text n) = n"
proof (induction n rule: nat_text.induct)
  case (1 n)
  show ?case
  proof (cases "n < 10")
    case True
    then show ?thesis by (subst nat_text.simps) (simp add: digits_value_def digit_char_value)
  next
    case False
    then have "digits_value (nat_text n) = 10 * digits_value (nat_text (n div 10)) + n mod 10"
      by (subst nat_text.simps) (simp add: digits_value_def digit_char_value)
    with 1 [OF False] show ?thesis by simp
  qed
qed

lemma parseInt_nat_text: "parseInt (nat_text n) = Some (int n)"
proof -
  obtain c cs where c: "nat_text n = c # cs" using nat_text_digits [of n] by (cases "nat_text n") auto
  then have d: "is_digit c" "list_all is_digit (c # cs)" using nat_text_digits [of n] by auto
  then have "\<not> is_space c" "c \<noteq> CHR ''-''" "c \<noteq> CHR ''+''" by (auto simp: is_digit_def is_space_def Let_def)
  moreover have "takeWhile is_digit (c # cs) = c # cs" using d(2) by (simp add: takeWhile_eq_all_conv list_all_iff)
  ultimately show ?thesis using digits_value_nat_text [of n] by (simp add: parseInt_def c)
qed

text \<open>Page sizes are bounded. Whatever text a client sends, the limit is between one and the route's
  maximum, and a numeral in that range means itself.\<close>

theorem parseLimit_bounds:
  assumes "1 \<le> fallback" and "fallback \<le> most"
  shows "1 \<le> parseLimit v fallback most \<and> parseLimit v fallback most \<le> most
    \<and> (\<forall>n. v = Some (nat_text n) \<and> 1 \<le> n \<and> n \<le> most \<longrightarrow> parseLimit v fallback most = n)"
  using assms by (auto simp: parseLimit_def parseInt_nat_text split: option.splits)

section \<open>Who gets in\<close>

lemma verifyToken_kind:
  "verifyToken lib token secret aud (Some k) now = Inr p \<longleftrightarrow> jl_verify lib token secret aud now = Inr p \<and> tp_kind p = k"
  by (auto simp: verifyToken_def split: sum.splits if_splits)

lemma authenticate_Send:
  assumes "authenticate a rid authorization s = Send st p"
  shows "\<exists>token. extractBearerToken authorization = Some token \<and>
    (verifyToken (ap_jwt a) token (e_dashboardJwtSecret (ap_env a)) (Some (e_dashboardJwtAudience (ap_env a)))
         (Some OperatorToken) (now_us s) = Inr p \<and> isDashboardSessionActive p s
     \<or> verifyToken (ap_jwt a) token (e_clueojServiceSecret (ap_env a)) (Some (e_clueojServiceAudience (ap_env a)))
         (Some ServiceToken) (now_us s) = Inr p)"
proof -
  obtain token where t: "extractBearerToken authorization = Some token"
    using assms by (cases "extractBearerToken authorization") (simp_all add: authenticate_def)
  define op where "op = (case verifyToken (ap_jwt a) token (e_dashboardJwtSecret (ap_env a))
      (Some (e_dashboardJwtAudience (ap_env a))) (Some OperatorToken) (now_us s) of
        Inl x \<Rightarrow> None | Inr p \<Rightarrow> if isDashboardSessionActive p s then Some p else None)"
  define sv where "sv = (case verifyToken (ap_jwt a) token (e_clueojServiceSecret (ap_env a))
      (Some (e_clueojServiceAudience (ap_env a))) (Some ServiceToken) (now_us s) of
        Inl x \<Rightarrow> None | Inr p \<Rightarrow> Some p)"
  have "or_else op sv = Some p"
    using assms by (simp add: authenticate_def t Let_def op_def [symmetric] sv_def [symmetric] split: option.splits)
  then have "op = Some p \<or> sv = Some p" by (cases op) auto
  then show ?thesis
  proof
    assume "op = Some p"
    then show ?thesis using t by (auto simp: op_def split: sum.splits if_splits)
  next
    assume "sv = Some p"
    then show ?thesis using t by (auto simp: sv_def split: sum.splits)
  qed
qed

text \<open>Who gets in. If the hook lets a request through, its bearer token was verified either with the
  dashboard's secret and audience as an operator's token whose session is still active, or with the
  service's secret and audience as a service's token; neither kind passes for the other.\<close>

theorem authenticate_sound:
  assumes "authenticate a rid authorization s = Send st p"
  shows "\<exists>token. extractBearerToken authorization = Some token \<and>
    (tp_kind p = OperatorToken \<and> isDashboardSessionActive p s
       \<and> jl_verify (ap_jwt a) token (e_dashboardJwtSecret (ap_env a)) (Some (e_dashboardJwtAudience (ap_env a))) (now_us s) = Inr p
     \<or> tp_kind p = ServiceToken
       \<and> jl_verify (ap_jwt a) token (e_clueojServiceSecret (ap_env a)) (Some (e_clueojServiceAudience (ap_env a))) (now_us s) = Inr p)"
  using authenticate_Send [OF assms] unfolding verifyToken_kind by blast

section \<open>Witnesses\<close>

definition demo_entry :: "string \<Rightarrow> string option \<Rightarrow> dirty_request" where
  "demo_entry i m = \<lparr>dr_entry =
     \<lparr>ce_externalId = i, ce_code = i, ce_ownerOrganization = None, ce_isManuallyManaged = False,
      ce_mirrorOf = m, ce_mirrorRoot = m, ce_quotaBytes = None, ce_schemaVersion = 1\<rparr>, dr_deleted = False\<rparr>"

definition mirror_request :: "dirty_request list" where
  "mirror_request = [demo_entry ''b'' (Some ''a''), demo_entry ''a'' None]"


theorem parseLimit_bounds_witness: "1 \<le> parseLimit (Some ''9999'') 50 200 \<and> parseLimit (Some ''9999'') 50 200 \<le> 200"
proof -
  have "(1 :: nat) \<le> 50" "(50 :: nat) \<le> 200" by simp_all
  from parseLimit_bounds [OF this] show ?thesis by blast
qed

definition service_payload :: payload where
  "service_payload = \<lparr>tp_sub = ''judge'', tp_role = StorageAdmin, tp_scopes = [''read''], tp_kind = ServiceToken,
     tp_auth_version = None\<rparr>"

text \<open>A token library that accepts one token under one secret.\<close>

definition demo_jwt :: jwt_lib where
  "demo_jwt = \<lparr>jl_sign = (\<lambda>secret aud ttl p now. ''t''),
     jl_verify = (\<lambda>token secret aud now. if token = ''t'' \<and> secret = ''s'' then Inr service_payload
                                         else Inl (PlainError ''signature''))\<rparr>"

definition demo_app :: app where
  "demo_app =
     \<lparr>ap_env = env_of minimal_env ''d'' ''t'' ''j'' ''s'', ap_process_env = no_env, ap_jwt = demo_jwt,
      ap_scrypt = demo_scrypt, ap_pg = (\<lambda>e. []),
      ap_ready = (\<lambda>i code. ret \<lparr>rd_ready = False, rd_local_status = LPartial, rd_observed_at = 0\<rparr>),
      ap_volumes = throw (PlainError ''down''), ap_presign = (\<lambda>i ttl path. ret (''url'', ''later'')),
      ap_iso = (\<lambda>t. [])\<rparr>"

lemma demo_secrets:
  "e_dashboardJwtSecret (ap_env demo_app) = ''j''" "e_clueojServiceSecret (ap_env demo_app) = ''s''"
  "ap_jwt demo_app = demo_jwt"
  by (simp_all add: demo_app_def env_of_def)

theorem authenticate_sound_witness:
  "authenticate demo_app ''r'' (Some ''Bearer t'') (demo_db []) = Send 200 service_payload
   \<and> tp_kind service_payload = ServiceToken"
proof -
  have tok: "extractBearerToken (Some ''Bearer t'') = Some ''t''"
    by (simp add: extractBearerToken_def is_space_def to_lower_def to_lower_char_def char_of_def bit_0)
  have run: "authenticate demo_app ''r'' (Some ''Bearer t'') (demo_db []) = Send 200 service_payload"
    by (simp add: authenticate_def tok demo_secrets verifyToken_def demo_jwt_def service_payload_def)
  from authenticate_sound [OF run] run show ?thesis by (auto simp: demo_secrets demo_jwt_def)
qed

end
