(* ===== verification/Routes.thy ===== *)
theory Routes
  imports Http
begin

text \<open>
  The routes of \<open>control-plane/src/routes.ts\<close> on the catalog, on one problem and on its jobs. Each
  definition is one handler after authentication: the caller, the path's parameters and the parsed
  body or query in, a reply out.
\<close>

section \<open>Sessions and tokens\<close>

record login_response =
  lr_token :: string
  lr_expires_in :: nat
  lr_role :: string

text \<open>The login is not authenticated; its audit events carry no caller. \<open>role\<close> is what the row says.\<close>

definition role_of_text :: "string \<Rightarrow> role" where
  "role_of_text t =
     (if t = ''viewer'' then Viewer else if t = ''operator'' then Operator
      else if t = ''auditor'' then Auditor else StorageAdmin)"

definition login_audit :: "string \<Rightarrow> string \<Rightarrow> string option \<Rightarrow> string \<Rightarrow> json \<Rightarrow> (db, unit) act" where
  "login_audit rid actor role action metadata =
     insertAuditEvent \<lparr>ao_actor = actor, ao_actorRole = role, ao_action = action, ao_targetType = None,
       ao_targetId = None, ao_problemId = None, ao_generation = None, ao_jobId = None,
       ao_metadata = Some metadata, ao_requestId = Some rid\<rparr>"

definition post_login :: "app \<Rightarrow> string \<Rightarrow> string \<Rightarrow> string \<Rightarrow> (db, login_response reply) act" where
  "post_login a rid username password = reading (\<lambda>s.
     case verifyDashboardCredentials (ap_scrypt a) username password s of
       None \<Rightarrow>
         bnd (try_catch (login_audit rid (if username = [] then ''unknown'' else username) None ''auth.denied''
                (JObj [(''reason'', JStr ''invalid_credentials'')])) (\<lambda>_. ret ()))
             (\<lambda>_. ret (Fail 401 ''invalid_credentials'' ''Invalid username or password'' False rid))
     | Some user \<Rightarrow>
         let token = signOperatorToken (ap_jwt a) (e_dashboardJwtSecret (ap_env a)) (dua_username user)
               (role_of_text (dua_role user)) 3600 (e_dashboardJwtAudience (ap_env a))
               (int (dua_authVersion user)) (now_us s)
         in bnd (login_audit rid (dua_username user) (Some (dua_role user)) ''auth.login''
                   (JObj [(''method'', JStr ''local_admin'')]))
                (\<lambda>_. ret (Send 200 \<lparr>lr_token = token, lr_expires_in = 3600, lr_role = dua_role user\<rparr>)))"

record service_token_request =
  sq_subject :: "string option"
  sq_scopes :: "string list option"
  sq_ttl_seconds :: "int option"

record service_token_response =
  sp_token :: string
  sp_expires_in :: nat
  sp_audience :: string
  sp_scopes :: "string list"

definition service_scopes :: "string list" where
  "service_scopes = [''read'', ''mutate'', ''downloads:issue'']"

definition post_service_token :: "app \<Rightarrow> caller \<Rightarrow> service_token_request \<Rightarrow> (db, service_token_response reply) act" where
  "post_service_token a cl body =
     requireScopes cl [''admin''] (getIdempotencyKey cl (\<lambda>key. reading (\<lambda>s.
       let scopes = (case sq_scopes body of
                       None \<Rightarrow> service_scopes | Some [] \<Rightarrow> service_scopes | Some xs \<Rightarrow> xs);
           unknown = filter (\<lambda>x. x \<notin> set service_scopes) scopes;
           ttl = nat (min (max (coalesce (sq_ttl_seconds body) 86400) 60) 2592000);
           subject = coalesce (sq_subject body) ''clueoj-service'';
           audience = e_clueojServiceAudience (ap_env a)
       in if unknown \<noteq> [] then reject cl 400 ''invalid_scope'' (''Unsupported service scopes: '' @ join_text '', '' unknown) False
          else
            bnd (audit cl ''auth.service_token_issued'' (no_target\<lparr>tg_metadata := Some (JObj
                   [(''subject'', JStr subject), (''scopes'', JArr (map JStr scopes)), (''ttl_seconds'', JNum (int ttl))])\<rparr>))
              (\<lambda>_. ret (Send 200
                 \<lparr>sp_token = signServiceToken (ap_jwt a) (e_clueojServiceSecret (ap_env a)) subject audience scopes ttl (now_us s),
                  sp_expires_in = ttl, sp_audience = audience, sp_scopes = scopes\<rparr>)))))"

section \<open>Reconcile\<close>

record reconcile_result =
  rc_discovered :: nat
  rc_present :: nat
  rc_missing :: nat
  rc_orphan :: nat
  rc_mirror :: nat
  rc_scheduled_backups :: nat

fun map_sum :: "('a \<Rightarrow> err + 'b) \<Rightarrow> 'a list \<Rightarrow> err + 'b list" where
  "map_sum f [] = Inr []"
| "map_sum f (x # xs) = bind_sum (f x) (\<lambda>y. bind_sum (map_sum f xs) (\<lambda>ys. Inr (y # ys)))"

text \<open>One turn of the last loop: whether backups were scheduled.\<close>

definition reconcile_backup :: "app \<Rightarrow> dirty_request \<Rightarrow> (db, bool) act" where
  "reconcile_backup a c = reading (\<lambda>s.
     if dr_deleted c then ret False
     else (case getProblemUsage (entry_id c) s of
             None \<Rightarrow> ret False
           | Some u \<Rightarrow>
               if ut_local_status u \<noteq> LPresent then ret False
               else (case getProblem (entry_id c) s of
                       None \<Rightarrow> ret False
                     | Some p \<Rightarrow>
                         bnd (if pt_dirty p then ret p
                              else bnd (markDirtyIfNoReady (pt_external_id p)) (\<lambda>m. ret (coalesce m p))) (\<lambda>dirty.
                         bnd (scheduleAutoSnapshotJobs (ap_process_env a) dirty ''catalog-reconcile'')
                           (\<lambda>jobs. ret (jobs \<noteq> None))))))"

definition post_reconcile :: "app \<Rightarrow> caller \<Rightarrow> json list option \<Rightarrow> (db, reconcile_result reply) act" where
  "post_reconcile a cl problems_body =
     requireScopes cl [''mutate'']
       (case problems_body of
          None \<Rightarrow> reject cl 400 ''bad_request'' ''problems array required'' False
        | Some raws \<Rightarrow>
            try_catch
              (bnd (lift_sum (map_sum (\<lambda>raw. catalogProblemFrom raw None) raws)) (\<lambda>cs.
               bnd (each (\<lambda>c. upsertProblem (dr_entry c)) (emit_all cs)) (\<lambda>_.
               bnd (markMissingOutsideCatalog (map entry_id cs)) (\<lambda>missing.
               bnd clearDirtyForMissingLocal (\<lambda>_.
               bnd (each (reconcile_backup a) cs) (\<lambda>backups.
               let result = \<lparr>rc_discovered = length cs, rc_present = length raws, rc_missing = missing,
                             rc_orphan = 0, rc_mirror = 0, rc_scheduled_backups = count_list backups True\<rparr> in
               bnd (audit cl ''catalog.reconcile'' (no_target\<lparr>tg_metadata := Some (JObj
                      [(''discovered'', JNum (int (rc_discovered result))), (''present'', JNum (int (rc_present result))),
                       (''missing'', JNum (int missing)), (''orphan'', JNum 0), (''mirror'', JNum 0),
                       (''scheduled_backups'', JNum (int (rc_scheduled_backups result))),
                       (''count'', JNum (int (length raws)))])\<rparr>))
                 (\<lambda>_. ret (Send 200 result))))))))
              (\<lambda>e. reject cl 502 ''rust_error'' (err_message (ap_pg a) e) True))"

definition post_schedule_snapshots :: "app \<Rightarrow> caller \<Rightarrow> int option \<Rightarrow> (db, scheduled list reply) act" where
  "post_schedule_snapshots a cl lim =
     requireScopes cl [''mutate''] (getIdempotencyKey cl (\<lambda>key.
       try_catch
         (bnd (scheduleDirtySnapshotBatch (ap_process_env a) (tp_sub (cl_auth cl))
                 (nat (min (max (coalesce lim 100) 1) 500))) (\<lambda>items.
          bnd (audit cl ''catalog.snapshots_schedule'' (no_target\<lparr>tg_metadata :=
                 Some (JObj [(''scheduled'', JNum (int (length items)))])\<rparr>)) (\<lambda>_. ret (Send 200 items))))
         (\<lambda>e. case e of
            ProblemOperationConflictError _ \<Rightarrow>
              reject cl 409 ''problem_operation_conflict'' (err_message (ap_pg a) e) True
          | _ \<Rightarrow> throw e)))"

section \<open>Actions on a problem\<close>

definition with_problem :: "caller \<Rightarrow> string \<Rightarrow> (problemT \<Rightarrow> (db, 'b reply) act) \<Rightarrow> (db, 'b reply) act" where
  "with_problem cl externalId h = reading (\<lambda>s.
     case getProblem externalId s of None \<Rightarrow> not_found cl ''Problem not found'' | Some p \<Rightarrow> h p)"

definition job_catch :: "app \<Rightarrow> caller \<Rightarrow> (db, 'b reply) act \<Rightarrow> (db, 'b reply) act" where
  "job_catch a cl h = try_catch h (sendJobError a cl)"

definition jobs_json :: "(string \<times> string) option \<Rightarrow> json" where
  "jobs_json v = (case v of None \<Rightarrow> JNull
     | Some (scan, snap) \<Rightarrow> JObj [(''scan_job_id'', JStr scan), (''snapshot_job_id'', JStr snap)])"

definition post_dirty :: "app \<Rightarrow> caller \<Rightarrow> string \<Rightarrow> json \<Rightarrow> (db, problemT reply) act" where
  "post_dirty a cl externalId body =
     requireScopes cl [''mutate''] (getIdempotencyKey cl (\<lambda>key.
       bnd (lift_sum (catalogProblemFrom body (Some externalId))) (\<lambda>catalog.
         if entry_id catalog \<noteq> externalId
         then reject cl 400 ''bad_request'' ''Path externalId must match body external_id/problem_pk'' False
         else job_catch a cl
           (bnd (markProblemDirtyIdempotent key (tp_sub (cl_auth cl)) catalog) (\<lambda>result.
              case result of (problem, mutated) \<Rightarrow>
            bnd (if pt_dirty problem
                 then scheduleAutoSnapshotJobs (ap_process_env a) problem (tp_sub (cl_auth cl))
                 else ret None) (\<lambda>jobs.
            bnd (audit cl (if pt_catalog_state problem = CDeleted then ''problem.deleted'' else ''problem.dirty'')
                   (no_target\<lparr>tg_problemId := Some externalId, tg_metadata := Some (JObj
                      [(''idempotency_key'', JStr key), (''mutated'', JBool mutated), (''scheduled_jobs'', jobs_json jobs)])\<rparr>))
              (\<lambda>_. ret (Send 200 problem))))))))"

text \<open>The reply of ensure-ready: ready at once, or the job that restores the folder.\<close>

datatype ensured = EnsuredReady | Restoring accepted_job

definition rejectTerminalEnsureJob :: "caller \<Rightarrow> jobT \<Rightarrow> (db, 'b reply) act \<Rightarrow> (db, 'b reply) act" where
  "rejectTerminalEnsureJob cl j h =
     (if jt_state j \<in> {Completed, Failed, Cancelled}
      then reject cl 409 ''ensure_ready_job_terminal''
             (''Previous ensure-ready job '' @ jt_id j @ '' is '' @ job_state_text (jt_state j)
              @ ''; retry with a new Idempotency-Key'') True
      else h)"

definition ensure_opts :: "caller \<Rightarrow> string \<Rightarrow> string \<Rightarrow> nat \<Rightarrow> time \<Rightarrow> restore_opts" where
  "ensure_opts cl key externalId generation observed =
     \<lparr>ro_idempotencyKey = key, ro_problemId = externalId, ro_targetGeneration = generation,
      ro_leaseOwner = tp_sub (cl_auth cl),
      ro_requestFingerprint = stableFingerprint (JObj
        [(''action'', JStr ''ensure-ready-restore''), (''external_id'', JStr externalId),
         (''generation'', JNum (int generation))]),
      ro_missingObservedAt = observed\<rparr>"

text \<open>What happens once the data plane has been asked.\<close>

definition ensure_from :: "app \<Rightarrow> caller \<Rightarrow> string \<Rightarrow> string \<Rightarrow> ready_result \<Rightarrow> (db, ensured reply) act" where
  "ensure_from a cl key externalId actual =
     (if rd_ready actual \<and> rd_local_status actual = LPresent then ret (Send 200 EnsuredReady)
      else if rd_local_status actual \<noteq> LMissing
      then reject cl 409 ''local_integrity_mismatch''
             ''Local problem data does not match a verified READY snapshot; refusing destructive restore'' True
      else reading (\<lambda>s.
        case getLatestReadySnapshot externalId s of
          None \<Rightarrow> reject cl 409 ''not_ready'' ''No local folder and no READY snapshot available'' True
        | Some snap \<Rightarrow> job_catch a cl
            (bnd (createRestoreJobIfMissing (ensure_opts cl key externalId (st_generation snap) (rd_observed_at actual))) (\<lambda>claim.
               case claim of
                 ClaimReady \<Rightarrow> ret (Send 200 EnsuredReady)
               | ClaimJob job \<Rightarrow> rejectTerminalEnsureJob cl job
                   (bnd (audit cl ''problem.ensure_ready'' (no_target\<lparr>tg_problemId := Some externalId,
                           tg_generation := Some (st_generation snap), tg_jobId := Some (jt_id job)\<rparr>))
                      (\<lambda>_. ret (Send 202 (Restoring (accepted job)))))))))"

definition post_ensure_ready :: "app \<Rightarrow> caller \<Rightarrow> string \<Rightarrow> (db, ensured reply) act" where
  "post_ensure_ready a cl externalId =
     requireScopes cl [''mutate''] (getIdempotencyKey cl (\<lambda>key. with_problem cl externalId (\<lambda>problem.
       bnd (try_catch (bnd (touchProblemAccess externalId) (\<lambda>_. ret None)) (\<lambda>e. ret (Some e))) (\<lambda>fence.
         case fence of
           Some e \<Rightarrow> reject cl 503 ''access_fence_failed'' (err_message (ap_pg a) e) True
         | None \<Rightarrow>
             bnd (try_catch (bnd (ap_ready a externalId (pt_code problem)) (\<lambda>r. ret (Inr r))) (\<lambda>e. ret (Inl e))) (\<lambda>answer.
               case answer of
                 Inl e \<Rightarrow> reject cl 502 ''ready_check_failed'' (err_message (ap_pg a) e) True
               | Inr actual \<Rightarrow> ensure_from a cl key externalId actual)))))"

definition action_fingerprint :: "string \<Rightarrow> string \<Rightarrow> (string \<times> json) list \<Rightarrow> string option" where
  "action_fingerprint action externalId extra =
     Some (stableFingerprint (JObj ([(''action'', JStr action), (''external_id'', JStr externalId)] @ extra)))"

definition action_opts :: "caller \<Rightarrow> string \<Rightarrow> job_type \<Rightarrow> string \<Rightarrow> nat option \<Rightarrow> string option \<Rightarrow> create_opts" where
  "action_opts cl key ty externalId generation fp =
     \<lparr>co_idempotencyKey = key, co_jobType = ty, co_problemId = Some externalId,
      co_targetGeneration = generation, co_leaseOwner = tp_sub (cl_auth cl), co_requestFingerprint = fp\<rparr>"

definition post_scan :: "app \<Rightarrow> caller \<Rightarrow> string \<Rightarrow> (db, accepted_job reply) act" where
  "post_scan a cl externalId =
     requireScopes cl [''mutate''] (with_problem cl externalId (\<lambda>problem. job_catch a cl
       (getIdempotencyKey cl (\<lambda>key.
         bnd (createJob (action_opts cl key Scan externalId None (action_fingerprint ''scan'' externalId []))) (\<lambda>job.
         bnd (audit cl ''problem.scan'' (no_target\<lparr>tg_problemId := Some externalId, tg_jobId := Some (jt_id job)\<rparr>))
           (\<lambda>_. ret (Send 202 (accepted job))))))))"

definition post_snapshot :: "app \<Rightarrow> caller \<Rightarrow> string \<Rightarrow> nat option \<Rightarrow> (db, accepted_job reply) act" where
  "post_snapshot a cl externalId body_generation =
     requireScopes cl [''mutate''] (with_problem cl externalId (\<lambda>problem. job_catch a cl
       (getIdempotencyKey cl (\<lambda>key.
         bnd (case or_else body_generation (pt_dirty_generation problem) of
                Some g \<Rightarrow> ret g | None \<Rightarrow> allocateGeneration externalId) (\<lambda>generation.
         bnd (createJob (action_opts cl key Snapshot externalId (Some generation)
                (action_fingerprint ''snapshot'' externalId
                  [(''generation'', JNum (int generation)), (''dirty_version'', pt_dirty_version problem)]))) (\<lambda>job.
         bnd (setJobPayload (jt_id job) (JObj [(''dirty_version'', pt_dirty_version problem)])) (\<lambda>_.
         bnd (audit cl ''problem.snapshot'' (no_target\<lparr>tg_problemId := Some externalId,
                tg_generation := Some generation, tg_jobId := Some (jt_id job)\<rparr>))
           (\<lambda>_. ret (Send 202 (accepted job))))))))))"

datatype restored = DryRun | Accepted accepted_job

definition post_restore :: "app \<Rightarrow> caller \<Rightarrow> string \<Rightarrow> nat option \<Rightarrow> bool \<Rightarrow> (db, restored reply) act" where
  "post_restore a cl externalId body_generation dry_run =
     requireScopes cl [''mutate''] (with_problem cl externalId (\<lambda>problem.
       if dry_run
       then bnd (audit cl ''problem.restore'' (no_target\<lparr>tg_problemId := Some externalId,
                   tg_generation := body_generation, tg_metadata := Some (JObj [(''dry_run'', JBool True)])\<rparr>))
                (\<lambda>_. ret (Send 200 DryRun))
       else job_catch a cl (getIdempotencyKey cl (\<lambda>key. reading (\<lambda>s.
         case or_else body_generation (map_option st_generation (getLatestReadySnapshot externalId s)) of
           None \<Rightarrow> reject cl 409 ''not_ready'' ''No READY snapshot is available to restore'' True
         | Some generation \<Rightarrow>
             bnd (cancelPendingLocalJobsForRestore externalId) (\<lambda>_.
             bnd (createJob (action_opts cl key Restore externalId (Some generation)
                    (action_fingerprint ''restore'' externalId [(''generation'', JNum (int generation))]))) (\<lambda>job.
             bnd (audit cl ''problem.restore'' (no_target\<lparr>tg_problemId := Some externalId,
                    tg_generation := Some generation, tg_jobId := Some (jt_id job)\<rparr>))
               (\<lambda>_. ret (Send 202 (Accepted (accepted job)))))))))))"

text \<open>
  The body of an eviction. \<open>ev_idle_before\<close> is the parsed time in milliseconds, \<open>Some None\<close> a text
  that is no date.
\<close>

record evict_request =
  ev_dry_run :: "bool option"
  ev_force :: "bool option"
  ev_idle_before :: "int option option"
  ev_reason :: "string option"

definition optional :: "string \<Rightarrow> ('a \<Rightarrow> json) \<Rightarrow> 'a option \<Rightarrow> (string \<times> json) list" where
  "optional k f v = (case v of None \<Rightarrow> [] | Some x \<Rightarrow> [(k, f x)])"

definition enqueue_evict :: "app \<Rightarrow> caller \<Rightarrow> string \<Rightarrow> evict_request \<Rightarrow> int option \<Rightarrow> (db, accepted_job reply) act" where
  "enqueue_evict a cl externalId body idle =
     (let dry = coalesce (ev_dry_run body) True;
          force = coalesce (ev_force body) False;
          idle_text = (\<lambda>t. JStr (ap_iso a t)) in
      with_problem cl externalId (\<lambda>problem. job_catch a cl (getIdempotencyKey cl (\<lambda>key.
        bnd (createJob (action_opts cl key Evict externalId None (action_fingerprint ''evict'' externalId
               [(''dry_run'', JBool dry), (''force'', JBool force),
                (''idle_before'', json_of_option idle_text idle)]))) (\<lambda>job.
        bnd (setJobPayload (jt_id job) (JObj ([(''dry_run'', JBool dry), (''force'', JBool force)]
               @ optional ''idle_before'' idle_text idle @ optional ''reason'' JStr (ev_reason body)))) (\<lambda>_.
        bnd (audit cl ''problem.evict'' (no_target\<lparr>tg_problemId := Some externalId, tg_jobId := Some (jt_id job),
               tg_metadata := Some (JObj ([(''dry_run'', JBool dry)]
                 @ optional ''idle_before'' idle_text idle @ optional ''reason'' JStr (ev_reason body)))\<rparr>))
          (\<lambda>_. ret (Send 202 (accepted job)))))))))"

definition post_evict :: "app \<Rightarrow> caller \<Rightarrow> string \<Rightarrow> evict_request \<Rightarrow> (db, accepted_job reply) act" where
  "post_evict a cl externalId body =
     requireScopes cl [''mutate''] (reading (\<lambda>s.
       case ev_idle_before body of
         None \<Rightarrow> enqueue_evict a cl externalId body None
       | Some None \<Rightarrow> reject cl 400 ''bad_request'' ''idle_before must be an RFC3339 timestamp'' False
       | Some (Some t) \<Rightarrow>
           if int (toRfc3339 (now_us s)) < t
           then reject cl 400 ''bad_request'' ''idle_before cannot be in the future'' False
           else enqueue_evict a cl externalId body (Some t)))"

section \<open>Actions on a job\<close>

definition post_retry :: "caller \<Rightarrow> string \<Rightarrow> (db, jobT reply) act" where
  "post_retry cl i =
     requireScopes cl [''mutate''] (bnd (retryJob i) (\<lambda>job.
       case job of
         None \<Rightarrow> reject cl 409 ''not_retryable''
           ''Job cannot be retried (max attempts reached or not in failed/cancelled state)'' False
       | Some j \<Rightarrow>
           bnd (audit cl ''job.retry'' (no_target\<lparr>tg_jobId := Some i,
                  tg_metadata := Some (JObj [(''attempt'', JNum (int (jt_attempt j)))])\<rparr>)) (\<lambda>_. ret (Send 200 j))))"

definition post_cancel :: "caller \<Rightarrow> string \<Rightarrow> string option \<Rightarrow> (db, jobT reply) act" where
  "post_cancel cl i reason =
     requireScopes cl [''mutate''] (bnd (cancelJob i reason) (\<lambda>job.
       case job of
         None \<Rightarrow> reject cl 409 ''not_cancellable'' ''Job is not in a cancellable state'' False
       | Some j \<Rightarrow>
           bnd (audit cl ''job.cancel'' (no_target\<lparr>tg_jobId := Some i,
                  tg_metadata := Some (JObj (optional ''reason'' JStr reason))\<rparr>)) (\<lambda>_. ret (Send 200 j))))"

section \<open>Downloads\<close>

record download_response =
  dl_url :: string
  dl_expires_at :: string

definition post_download :: "app \<Rightarrow> caller \<Rightarrow> string \<Rightarrow> int option \<Rightarrow> string option \<Rightarrow> (db, download_response reply) act" where
  "post_download a cl externalId ttl_seconds path =
     requireScopes cl [''downloads:issue'']
       (if externalId = [] then reject cl 400 ''bad_request'' ''problem_external_id required'' False
        else
          (let ttl = min (coalesce ttl_seconds (int (e_presignTtlSeconds (ap_env a)))) 300;
               path_json = json_of_option JStr path in
           try_catch
             (bnd (ap_presign a externalId ttl path) (\<lambda>r. case r of (url, expires_at) \<Rightarrow>
              bnd (audit cl ''download.url_issued'' (no_target\<lparr>tg_problemId := Some externalId,
                     tg_metadata := Some (JObj [(''ttl_seconds'', JNum ttl), (''expires_at'', JStr expires_at),
                       (''path'', path_json)])\<rparr>))
                (\<lambda>_. ret (Send 200 \<lparr>dl_url = url, dl_expires_at = expires_at\<rparr>))))
             (\<lambda>e. bnd (try_catch (audit cl ''download.url_failed'' (no_target\<lparr>tg_problemId := Some externalId,
                     tg_metadata := Some (JObj [(''error'', JStr (err_message (ap_pg a) e)), (''path'', path_json)])\<rparr>))
                   (\<lambda>_. ret ()))
                 (\<lambda>_. reject cl 502 ''presign_failed'' (err_message (ap_pg a) e) True))))"

end
