(* ===== verification/Admin.thy ===== *)
theory Admin
  imports Routes
begin

text \<open>
  The remaining routes of \<open>control-plane/src/routes.ts\<close>: health and volumes, the lists and single
  rows, and the operator's commands: organization settings, backfills, incident commands, retention.
  A cursor is its decoded value and a date of a query its milliseconds, \<open>Some None\<close> for a text
  that is no date.
\<close>

section \<open>Health and volumes\<close>

record health_response =
  hr_status :: string
  hr_database :: bool
  hr_rust_data_plane :: bool

text \<open>The two probes are parameters: \<open>SELECT 1\<close> and \<open>ctx.rust.health()\<close>.\<close>

definition get_health :: "bool \<Rightarrow> bool \<Rightarrow> health_response reply" where
  "get_health dbOk rustOk =
     Send (if dbOk \<and> rustOk then 200 else 503)
       \<lparr>hr_status = (if dbOk \<and> rustOk then ''ok'' else ''degraded''), hr_database = dbOk, hr_rust_data_plane = rustOk\<rparr>"

datatype volume_reply = LiveVolume string string rust_volume | CachedVolume volumeT

definition get_volumes :: "app \<Rightarrow> caller \<Rightarrow> (db, volume_reply reply) act" where
  "get_volumes a cl =
     requireScopes cl [''read'']
       (try_catch
         (bnd (ap_volumes a) (\<lambda>vol.
          let mountPath = (if e_problemRootContainer (ap_env a) = [] then ''/problems''
                           else e_problemRootContainer (ap_env a)) in
          bnd (upsertVolume ''problem-root'' mountPath (rv_total_bytes vol) (rv_free_bytes vol) (rv_available_bytes vol))
            (\<lambda>_. ret (Send 200 (LiveVolume ''problem-root'' mountPath vol)))))
         (\<lambda>_. reading (\<lambda>s. case getVolume s of
            Some v \<Rightarrow> ret (Send 200 (CachedVolume v))
          | None \<Rightarrow> reject cl 503 ''rust_unavailable'' ''Rust data plane unavailable and no cached volume data'' True)))"

section \<open>Lists and single rows\<close>

definition get_rows :: "caller \<Rightarrow> (db \<Rightarrow> 'b) \<Rightarrow> (db, 'b reply) act" where
  "get_rows cl f = requireScopes cl [''read''] (reading (\<lambda>s. ret (Send 200 (f s))))"

definition get_row :: "caller \<Rightarrow> string \<Rightarrow> (db \<Rightarrow> 'b option) \<Rightarrow> (db, 'b reply) act" where
  "get_row cl message f = requireScopes cl [''read''] (reading (\<lambda>s.
     case f s of None \<Rightarrow> not_found cl message | Some r \<Rightarrow> ret (Send 200 r)))"

definition get_sync_changes where
  "get_sync_changes cl c lim = get_rows cl (getSyncChanges c (parseLimit lim 100 500))"

definition get_problems where
  "get_problems cl opts lim = get_rows cl (listProblems (opts\<lparr>lp_limit := parseLimit lim 50 200\<rparr>))"

definition get_problem where
  "get_problem cl externalId = get_row cl ''Problem not found'' (getProblem externalId)"

definition get_problem_usage where
  "get_problem_usage cl externalId = get_row cl ''Usage not found'' (getProblemUsage externalId)"

definition get_problem_files where
  "get_problem_files cl externalId c lim = get_row cl ''Problem not found'' (\<lambda>s.
     case getProblem externalId s of None \<Rightarrow> None
     | Some p \<Rightarrow> Some (listProblemFiles externalId c (parseLimit lim 200 500) s))"

definition get_organizations where
  "get_organizations cl c lim = get_rows cl (listOrganizationUsage c (parseLimit lim 50 200))"

definition get_organization_usage where
  "get_organization_usage cl externalId = get_row cl ''Organization not found'' (getOrganizationUsage externalId)"

definition get_summary where "get_summary cl = get_rows cl getDashboardSummary"

definition get_status_distribution where "get_status_distribution cl = get_rows cl getStatusDistributions"

definition get_largest_problems where
  "get_largest_problems cl lim = get_rows cl (listLargestProblems (parseLimit lim 20 100))"

definition get_largest_organizations where
  "get_largest_organizations cl lim = get_rows cl (listLargestOrganizations (parseLimit lim 20 100))"

definition get_volume_timeseries where
  "get_volume_timeseries cl name lim = get_rows cl (listVolumeTimeseries name (parseLimit lim 100 1000))"

definition get_snapshots where
  "get_snapshots cl problemId c lim = get_rows cl (listSnapshots problemId c (parseLimit lim 50 200))"

definition get_snapshot where
  "get_snapshot cl i = get_row cl ''Snapshot not found'' (getSnapshot i)"

definition get_jobs where
  "get_jobs cl state problemId c lim = get_rows cl (listJobs state problemId c (parseLimit lim 50 200))"

definition get_job where
  "get_job cl i = get_row cl ''Job not found'' (getJob i)"

definition get_orphans where
  "get_orphans cl c lim = get_rows cl (listOrphans c (parseLimit lim 50 200))"

definition get_gc_eligible where
  "get_gc_eligible cl lim =
     get_rows cl (\<lambda>s. map (\<lambda>g. (g_id g, g_sha256 g, g_object_key g)) (listGcEligible (parseLimit lim 100 500) s))"

definition get_backfill where "get_backfill cl = get_rows cl backfill_state"

definition find_backfill :: "string \<Rightarrow> db \<Rightarrow> backfill_row option" where
  "find_backfill capability s = List.find (\<lambda>b. b_capability b = capability) (backfill_state s)"

definition get_backfill_progress where
  "get_backfill_progress cl capability = get_row cl ''Backfill not found'' (find_backfill capability)"

definition get_retention where "get_retention cl = get_rows cl retention_config"

definition get_audit_events ::
  "caller \<Rightarrow> nat option option \<Rightarrow> nat option option \<Rightarrow> list_audit_opts \<Rightarrow> string option
     \<Rightarrow> (db, (auditT, time \<times> string) page reply) act" where
  "get_audit_events cl from_date to_date opts lim =
     requireScopes cl [''read'', ''audit'']
       (if from_date = Some None
        then reject cl 400 ''invalid_query'' ''from must be a valid RFC3339 timestamp'' False
        else if to_date = Some None
        then reject cl 400 ''invalid_query'' ''to must be a valid RFC3339 timestamp'' False
        else reading (\<lambda>s. ret (Send 200 (listAuditEvents
               (opts\<lparr>la_from := map_option millis (coalesce from_date None),
                     la_to := map_option millis (coalesce to_date None), la_limit := parseLimit lim 50 200\<rparr>) s))))"

section \<open>Organizations and retention windows\<close>

definition settings_json :: "app \<Rightarrow> organization_settings \<Rightarrow> json" where
  "settings_json a r = JObj
     [(''organization_id'', JStr (os_organization_id r)),
      (''storage_quota_bytes'', json_of_option (\<lambda>n. JStr (int_text n)) (os_storage_quota_bytes r)),
      (''problem_count_quota'', json_of_option JNum (os_problem_count_quota r)),
      (''updated_at'', JStr (ap_iso a (int (toRfc3339 (os_updated_at r)))))]"

definition put_settings ::
  "app \<Rightarrow> caller \<Rightarrow> string \<Rightarrow> int option \<Rightarrow> int option \<Rightarrow> (db, organization_settings reply) act" where
  "put_settings a cl externalId storage_quota_bytes problem_count_quota =
     requireScopes cl [''admin''] (getIdempotencyKey cl (\<lambda>key.
       bnd (upsertOrganizationSettings externalId storage_quota_bytes problem_count_quota) (\<lambda>result.
       bnd (audit cl ''organization.settings.update'' (no_target\<lparr>tg_targetType := Some ''organization'',
              tg_targetId := Some externalId, tg_metadata := Some (settings_json a result)\<rparr>))
         (\<lambda>_. ret (Send 200 result)))))"

definition set_retention :: "string \<Rightarrow> nat \<Rightarrow> (db, (string \<times> nat) list) act" where
  "set_retention entityType n s =
     (Inr (filter (\<lambda>r. fst r = entityType) (map (\<lambda>r. if fst r = entityType then (fst r, n) else r) (retention_config s))),
      s\<lparr>retention_config := map (\<lambda>r. if fst r = entityType then (fst r, n) else r) (retention_config s)\<rparr>)"

definition put_retention :: "caller \<Rightarrow> string \<Rightarrow> int option \<Rightarrow> (db, (string \<times> nat) reply) act" where
  "put_retention cl entityType body_days =
     requireScopes cl [''admin''] (getIdempotencyKey cl (\<lambda>key.
       case body_days of
         None \<Rightarrow> reject cl 400 ''bad_request'' ''retention_days must be >= 1'' False
       | Some n \<Rightarrow>
           if n < 1 then reject cl 400 ''bad_request'' ''retention_days must be >= 1'' False
           else bnd (set_retention entityType (nat n)) (\<lambda>rows.
             case rows of
               [] \<Rightarrow> not_found cl ''Retention config not found''
             | r # _ \<Rightarrow>
                 bnd (audit cl ''settings.update'' (no_target\<lparr>tg_metadata := Some (JObj
                        [(''entity_type'', JStr entityType), (''retention_days'', JNum n)])\<rparr>))
                   (\<lambda>_. ret (Send 200 r)))))"

definition retention_json :: "retention_result \<Rightarrow> json" where
  "retention_json r = JObj
     [(''jobs'', JNum (int (rr_jobs r))), (''audit_events'', JNum (int (rr_audit_events r))),
      (''gc_marks'', JNum (int (rr_gc_marks r))), (''snapshots_pruned'', JNum (int (rr_snapshots_pruned r)))]"

definition post_retention_apply :: "caller \<Rightarrow> (db, retention_result reply) act" where
  "post_retention_apply cl =
     requireScopes cl [''admin''] (getIdempotencyKey cl (\<lambda>key.
       bnd applyRetention (\<lambda>result.
       bnd (audit cl ''retention.apply'' (no_target\<lparr>tg_metadata := Some (retention_json result)\<rparr>))
         (\<lambda>_. ret (Send 200 result)))))"

section \<open>Backfills\<close>

definition backfill_capabilities :: "string set" where
  "backfill_capabilities =
     {''accounting'', ''atomic_writes'', ''r2_snapshot'', ''direct_download'', ''ensure_ready'', ''eviction''}"

definition backfill_limit :: "json option \<Rightarrow> nat" where
  "backfill_limit v =
     (case parseInt (if v = None \<or> v = Some JNull then [] else js_string (coalesce v JNull)) of
        None \<Rightarrow> 25
      | Some n \<Rightarrow> if 0 < n then min (nat n) 500 else 25)"

definition startable :: "backfill_row \<Rightarrow> bool" where
  "startable b \<longleftrightarrow> b_status b \<in> {''pending'', ''paused'', ''completed'', ''failed''}"

definition begin_backfill :: "string \<Rightarrow> (db, bool) act" where
  "begin_backfill capability s =
     (case find_backfill capability s of
        None \<Rightarrow>
          (Inr True, s\<lparr>backfill_state := backfill_state s @
             [\<lparr>b_capability = capability, b_cursor_value = None, b_status = ''running'', b_total_processed = 0,
               b_total_ready = 0, b_total_error = 0, b_total_skipped = 0, b_bytes_hashed = 0,
               b_started_at = Some (now_us s)\<rparr>]\<rparr>)
      | Some b \<Rightarrow>
          if startable b
          then (Inr True, s\<lparr>backfill_state := upd_where (\<lambda>b. b_capability b = capability)
                  (\<lambda>b. b\<lparr>b_status := ''running'', b_started_at := or_else (b_started_at b) (Some (now_us s))\<rparr>)
                  (backfill_state s)\<rparr>)
          else (Inr False, s))"

definition backfill_opts :: "caller \<Rightarrow> string \<Rightarrow> string \<Rightarrow> create_opts" where
  "backfill_opts cl key capability =
     \<lparr>co_idempotencyKey = key, co_jobType = Backfill, co_problemId = None, co_targetGeneration = None,
      co_leaseOwner = tp_sub (cl_auth cl),
      co_requestFingerprint = Some (stableFingerprint (JObj
        [(''action'', JStr ''backfill''), (''capability'', JStr capability)]))\<rparr>"

definition post_backfill_start :: "caller \<Rightarrow> string \<Rightarrow> json option \<Rightarrow> (db, accepted_job reply) act" where
  "post_backfill_start cl capability body_limit =
     requireScopes cl [''admin''] (getIdempotencyKey cl (\<lambda>key.
       if capability \<notin> backfill_capabilities
       then reject cl 400 ''bad_request'' (''Invalid capability: '' @ capability) False
       else bnd (begin_backfill capability) (\<lambda>started.
         if \<not> started then reject cl 409 ''already_running'' ''Backfill is already running'' False
         else bnd (createJob (backfill_opts cl key capability)) (\<lambda>job.
              bnd (setJobPayload (jt_id job) (JObj [(''capability'', JStr capability),
                     (''limit'', JNum (int (backfill_limit body_limit)))])) (\<lambda>_.
              bnd (audit cl ''backfill.start'' (no_target\<lparr>tg_metadata := Some (JObj [(''capability'', JStr capability)])\<rparr>))
                (\<lambda>_. ret (Send 202 (accepted job))))))))"

definition post_backfill_pause :: "caller \<Rightarrow> string \<Rightarrow> (db, string reply) act" where
  "post_backfill_pause cl capability =
     requireScopes cl [''admin''] (getIdempotencyKey cl (\<lambda>key. reading (\<lambda>s.
       if find_backfill capability s = None then not_found cl ''Backfill not found''
       else bnd (modify (\<lambda>s. s\<lparr>backfill_state := upd_where (\<lambda>b. b_capability b = capability)
                                  (\<lambda>b. b\<lparr>b_status := ''paused''\<rparr>) (backfill_state s)\<rparr>)) (\<lambda>_.
            bnd (audit cl ''backfill.pause'' (no_target\<lparr>tg_metadata := Some (JObj [(''capability'', JStr capability)])\<rparr>))
              (\<lambda>_. ret (Send 200 capability))))))"

section \<open>Incident commands\<close>

definition get_incident_commands ::
  "caller \<Rightarrow> string option \<Rightarrow> string option \<Rightarrow> time option \<Rightarrow> (db, (incident_row, time) page reply) act" where
  "get_incident_commands cl command lim c =
     requireScopes cl [''admin''] (reading (\<lambda>s.
       let lim = parseLimit lim 50 200;
           rows = order_limit (\<lambda>r. - int (i_created_at r)) lim
             (filter (\<lambda>r. (truthy command \<longrightarrow> Some (i_command r) = command)
                          \<and> (case c of None \<Rightarrow> True | Some t \<Rightarrow> i_created_at r < t)) (incident_commands s));
           hasMore = (length rows = lim)
       in ret (Send 200 \<lparr>pg_items = rows,
            pg_next_cursor = (if hasMore \<and> rows \<noteq> [] then Some (cursor_time (i_created_at (last rows))) else None),
            pg_has_more = hasMore\<rparr>)))"

definition valid_commands :: "string set" where
  "valid_commands =
     {''list_stuck_jobs'', ''pause_queue'', ''resume_queue'', ''pin_generation'', ''verify_generation'',
      ''restore_problem'', ''force_reconcile'', ''rotate_credentials'', ''export_audit'', ''gc_collect''}"

definition stuck_jobs :: "db \<Rightarrow> job list" where
  "stuck_jobs s = sort_key (\<lambda>j. - int (j_updated_at j)) (filter (expired s) (jobs s))"

text \<open>A row of the table \<open>jobs\<close> as \<open>JSON.stringify\<close> prints it; the driver returns a \<open>BIGINT\<close> as text.\<close>

definition job_row_json :: "app \<Rightarrow> job \<Rightarrow> json" where
  "job_row_json a j =
     (let text = json_of_option JStr; date = (\<lambda>t. JStr (ap_iso a (int (toRfc3339 t)))) in JObj
     [(''id'', JStr (j_id j)), (''idempotency_key'', JStr (j_idempotency_key j)),
      (''job_type'', JStr (job_type_text (j_job_type j))), (''problem_id'', text (j_problem_id j)),
      (''target_generation'', json_of_option (\<lambda>n. JNum (int n)) (j_target_generation j)),
      (''state'', JStr (job_state_text (j_state j))), (''lease_owner'', text (j_lease_owner j)),
      (''lease_expires_at'', json_of_option date (j_lease_expires_at j)),
      (''fencing_token'', JStr (nat_text (j_fencing_token j))), (''attempt'', JNum (int (j_attempt j))),
      (''max_attempts'', JNum (int (j_max_attempts j))), (''result'', coalesce (j_result j) JNull),
      (''error_code'', text (j_error_code j)), (''error_message'', text (j_error_message j)),
      (''created_at'', date (j_created_at j)), (''updated_at'', date (j_updated_at j)),
      (''completed_at'', json_of_option date (j_completed_at j)),
      (''requested_cancel_at'', json_of_option date (j_requested_cancel_at j)),
      (''requested_cancel_reason'', text (j_requested_cancel_reason j)),
      (''request_fingerprint'', JStr (j_request_fingerprint j))])"

definition accepted_json :: "accepted_job \<Rightarrow> json" where
  "accepted_json r = JObj
     [(''job_id'', JStr (aj_job_id r)), (''state'', JStr (job_state_text (aj_state r))),
      (''poll_url'', JStr (aj_poll_url r)), (''events_url'', JStr (aj_events_url r))]"

text \<open>\<open>Number(value)\<close> as it is stored: \<open>NaN\<close> prints as null.\<close>

definition js_number :: "json \<Rightarrow> json" where
  "js_number v =
     (case v of
        JNum n \<Rightarrow> JNum n | JBool b \<Rightarrow> JNum (if b then 1 else 0) | JNull \<Rightarrow> JNum 0
      | _ \<Rightarrow> json_of_option JNum (js_integer (js_string v)))"

definition set_queue :: "bool \<Rightarrow> string option \<Rightarrow> (db, unit) act" where
  "set_queue paused reason = reading (\<lambda>s.
     modify (\<lambda>s. s\<lparr>queue_state := upd_where (\<lambda>q. q_name q = ''default'')
       (\<lambda>q. q\<lparr>q_paused := paused, q_reason := reason, q_updated_at := now_us s\<rparr>) (queue_state s)\<rparr>))"

definition collect_opts :: "caller \<Rightarrow> string \<Rightarrow> json \<Rightarrow> create_opts" where
  "collect_opts cl key lim =
     \<lparr>co_idempotencyKey = key, co_jobType = GcCollect, co_problemId = None, co_targetGeneration = None,
      co_leaseOwner = tp_sub (cl_auth cl),
      co_requestFingerprint = Some (stableFingerprint (JObj [(''action'', JStr ''gc_collect''), (''limit'', lim)]))\<rparr>"

text \<open>
  The effect of a command that is not a dry run, with what goes on once it is known;
  \<open>args\<close> is \<open>body.args\<close>, \<open>JNull\<close> when it is left out.
\<close>

definition run_command ::
  "app \<Rightarrow> caller \<Rightarrow> string \<Rightarrow> string \<Rightarrow> json \<Rightarrow> (json \<Rightarrow> (db, 'b reply) act) \<Rightarrow> (db, 'b reply) act" where
  "run_command a cl key command args next =
     (let arg = (\<lambda>k d. case first_field args [k] of None \<Rightarrow> d | Some v \<Rightarrow> v) in
      if command = ''list_stuck_jobs''
      then reading (\<lambda>s. next (JObj [(''stuck_jobs'', JArr (map (job_row_json a) (stuck_jobs s)))]))
      else if command = ''pause_queue''
      then bnd (set_queue True (Some (js_string (arg ''reason'' (JStr ''incident command'')))))
             (\<lambda>_. next (JObj [(''action'', JStr ''paused'')]))
      else if command = ''resume_queue''
      then bnd (set_queue False None) (\<lambda>_. next (JObj [(''action'', JStr ''resumed'')]))
      else if command = ''gc_collect''
      then (let lim = js_number (arg ''limit'' (JNum 100)) in
            bnd (createJob (collect_opts cl key lim)) (\<lambda>job.
            bnd (setJobPayload (jt_id job) (JObj [(''limit'', lim)])) (\<lambda>_. next (accepted_json (accepted job)))))
      else reject cl 501 ''not_implemented''
             (''Incident command '' @ command
              @ '' requires explicit data-plane or infrastructure support and was not executed'') False)"

definition record_command :: "caller \<Rightarrow> string \<Rightarrow> json \<Rightarrow> bool \<Rightarrow> json \<Rightarrow> (db, unit) act" where
  "record_command cl command args dry_run result =
     modify (\<lambda>s. s\<lparr>incident_commands := incident_commands s @
       [\<lparr>i_command = command, i_actor = tp_sub (cl_auth cl),
         i_args = (if args = JNull then JObj [] else args), i_dry_run = dry_run, i_result = result,
         i_created_at = now_us s\<rparr>]\<rparr>)"

definition post_incident_command ::
  "app \<Rightarrow> caller \<Rightarrow> string \<Rightarrow> json \<Rightarrow> bool option \<Rightarrow> (db, json reply) act" where
  "post_incident_command a cl command args body_dry_run =
     requireScopes cl [''admin''] (getIdempotencyKey cl (\<lambda>key.
       if command \<notin> valid_commands
       then reject cl 400 ''bad_request'' (''Invalid command: '' @ command) False
       else
         (let dryRun = coalesce body_dry_run False;
              finish = (\<lambda>result. bnd (record_command cl command args dryRun result) (\<lambda>_.
                bnd (audit cl ''incident.command'' (no_target\<lparr>tg_metadata := Some (JObj
                       [(''command'', JStr command), (''dry_run'', JBool dryRun)])\<rparr>))
                  (\<lambda>_. ret (Send 200 result))))
          in if \<not> dryRun then run_command a cl key command args finish
             else reading (\<lambda>s. finish (JObj ([(''dry_run'', JBool True)] @
                    (if command = ''list_stuck_jobs''
                     then [(''stuck_jobs'', JArr (map (job_row_json a) (stuck_jobs s)))] else [])))))))"

end
