(* ===== verification/Server.thy ===== *)
theory Server
  imports Admin
begin

text \<open>
  The HTTP server as a whole: the table of routes of \<open>control-plane/src/routes.ts\<close>, the hooks that
  run before a handler (\<open>index.ts\<close>: the origin check and the limit on login attempts; \<open>routes.ts\<close>:
  the request id and the authentication), and what holds of every route.
\<close>

section \<open>Requests\<close>

text \<open>One constructor per route, with the values its handler reads from the path, the query and the body.\<close>

datatype read_request =
    GetVolumes
  | GetSyncChanges "(time \<times> string) option" "string option"
  | GetProblems list_problems_opts "string option"
  | GetProblem string
  | GetProblemUsage string
  | GetProblemFiles string "string option" "string option"
  | GetOrganizations "string option" "string option"
  | GetOrganizationUsage string
  | GetSummary
  | GetStatusDistribution
  | GetLargestProblems "string option"
  | GetLargestOrganizations "string option"
  | GetVolumeTimeseries "string option" "string option"
  | GetSnapshots "string option" "(time \<times> string) option" "string option"
  | GetSnapshot string
  | GetJobs "string option" "string option" "(time \<times> string) option" "string option"
  | GetJob string
  | GetOrphans "string option" "string option"
  | GetAuditEvents "nat option option" "nat option option" list_audit_opts "string option"
  | GetBackfill
  | GetBackfillProgress string
  | GetIncidentCommands "string option" "string option" "time option"
  | GetRetention
  | GetGcEligible "string option"

datatype write_request =
    PostServiceToken service_token_request
  | PostReconcile "json list option"
  | PostScheduleSnapshots "int option"
  | PostDirty string json
  | PostEnsureReady string
  | PostScan string
  | PostSnapshot string "nat option"
  | PostRestore string "nat option" bool
  | PostEvict string evict_request
  | PutSettings string "int option" "int option"
  | PostRetry string
  | PostCancel string "string option"
  | PostDownload string "int option" "string option"
  | PostBackfillStart string "json option"
  | PostBackfillPause string
  | PostIncidentCommand string json "bool option"
  | PutRetention string "int option"
  | PostRetentionApply

datatype request =
    PostLogin string string
  | GetHealth bool bool
  | Read read_request
  | Write write_request

text \<open>What a client can tell of every reply: its status, and the code of an error.\<close>

datatype outcome = Answered nat | Refused nat string

fun outcome_of :: "'b reply \<Rightarrow> outcome" where
  "outcome_of (Send st b) = Answered st"
| "outcome_of (Fail st code message retryable rid) = Refused st code"

definition shown :: "(db, 'b reply) act \<Rightarrow> (db, outcome) act" where
  "shown m = bnd m (\<lambda>r. ret (outcome_of r))"

fun view :: "app \<Rightarrow> caller \<Rightarrow> read_request \<Rightarrow> (db, outcome) act" where
  "view a cl GetVolumes = shown (get_volumes a cl)"
| "view a cl (GetSyncChanges c lim) = shown (get_sync_changes cl c lim)"
| "view a cl (GetProblems opts lim) = shown (get_problems cl opts lim)"
| "view a cl (GetProblem i) = shown (get_problem cl i)"
| "view a cl (GetProblemUsage i) = shown (get_problem_usage cl i)"
| "view a cl (GetProblemFiles i c lim) = shown (get_problem_files cl i c lim)"
| "view a cl (GetOrganizations c lim) = shown (get_organizations cl c lim)"
| "view a cl (GetOrganizationUsage i) = shown (get_organization_usage cl i)"
| "view a cl GetSummary = shown (get_summary cl)"
| "view a cl GetStatusDistribution = shown (get_status_distribution cl)"
| "view a cl (GetLargestProblems lim) = shown (get_largest_problems cl lim)"
| "view a cl (GetLargestOrganizations lim) = shown (get_largest_organizations cl lim)"
| "view a cl (GetVolumeTimeseries name lim) = shown (get_volume_timeseries cl name lim)"
| "view a cl (GetSnapshots pid c lim) = shown (get_snapshots cl pid c lim)"
| "view a cl (GetSnapshot i) = shown (get_snapshot cl i)"
| "view a cl (GetJobs st pid c lim) = shown (get_jobs cl st pid c lim)"
| "view a cl (GetJob i) = shown (get_job cl i)"
| "view a cl (GetOrphans c lim) = shown (get_orphans cl c lim)"
| "view a cl (GetAuditEvents from to opts lim) = shown (get_audit_events cl from to opts lim)"
| "view a cl GetBackfill = shown (get_backfill cl)"
| "view a cl (GetBackfillProgress i) = shown (get_backfill_progress cl i)"
| "view a cl (GetIncidentCommands cmd lim c) = shown (get_incident_commands cl cmd lim c)"
| "view a cl GetRetention = shown (get_retention cl)"
| "view a cl (GetGcEligible lim) = shown (get_gc_eligible cl lim)"

fun perform :: "app \<Rightarrow> caller \<Rightarrow> write_request \<Rightarrow> (db, outcome) act" where
  "perform a cl (PostServiceToken body) = shown (post_service_token a cl body)"
| "perform a cl (PostReconcile ps) = shown (post_reconcile a cl ps)"
| "perform a cl (PostScheduleSnapshots lim) = shown (post_schedule_snapshots a cl lim)"
| "perform a cl (PostDirty i body) = shown (post_dirty a cl i body)"
| "perform a cl (PostEnsureReady i) = shown (post_ensure_ready a cl i)"
| "perform a cl (PostScan i) = shown (post_scan a cl i)"
| "perform a cl (PostSnapshot i gen) = shown (post_snapshot a cl i gen)"
| "perform a cl (PostRestore i gen dry) = shown (post_restore a cl i gen dry)"
| "perform a cl (PostEvict i body) = shown (post_evict a cl i body)"
| "perform a cl (PutSettings i bytes n) = shown (put_settings a cl i bytes n)"
| "perform a cl (PostRetry i) = shown (post_retry cl i)"
| "perform a cl (PostCancel i reason) = shown (post_cancel cl i reason)"
| "perform a cl (PostDownload i ttl path) = shown (post_download a cl i ttl path)"
| "perform a cl (PostBackfillStart cap lim) = shown (post_backfill_start cl cap lim)"
| "perform a cl (PostBackfillPause cap) = shown (post_backfill_pause cl cap)"
| "perform a cl (PostIncidentCommand cmd args dry) = shown (post_incident_command a cl cmd args dry)"
| "perform a cl (PutRetention ty n) = shown (put_retention cl ty n)"
| "perform a cl PostRetentionApply = shown (post_retention_apply cl)"

section \<open>Serving a request\<close>

text \<open>
  What a request carries besides its route. \<open>rq_id\<close> is the request's id, \<open>rq_hook_id\<close> the fresh one
  the authentication hook puts into its own replies.
\<close>

record envelope =
  rq_id :: string
  rq_hook_id :: string
  rq_ip :: string
  rq_origin :: "string option"
  rq_authorization :: "string option"
  rq_idempotency_key :: "string option"

definition caller_of :: "envelope \<Rightarrow> payload \<Rightarrow> caller" where
  "caller_of v p = \<lparr>cl_auth = p, cl_request_id = rq_id v, cl_idempotency_key = rq_idempotency_key v\<rparr>"

definition guarded :: "app \<Rightarrow> envelope \<Rightarrow> (caller \<Rightarrow> (db, outcome) act) \<Rightarrow> (db, outcome) act" where
  "guarded a v h = reading (\<lambda>s.
     case authenticate a (rq_hook_id v) (rq_authorization v) s of
       Send st p \<Rightarrow> try_catch (h (caller_of v p)) (\<lambda>_. ret (Refused 500 ''internal''))
     | Fail st code message retryable rid \<Rightarrow> ret (Refused st code))"

fun serve :: "app \<Rightarrow> envelope \<Rightarrow> request \<Rightarrow> (db, outcome) act" where
  "serve a v (PostLogin username password) = shown (on_error (rq_id v) (post_login a (rq_id v) username password))"
| "serve a v (GetHealth dbOk rustOk) = ret (outcome_of (get_health dbOk rustOk))"
| "serve a v (Read r) = guarded a v (\<lambda>cl. view a cl r)"
| "serve a v (Write r) = guarded a v (\<lambda>cl. perform a cl r)"

text \<open>The hooks of \<open>index.ts\<close> run first. The server's state is the table of login attempts and the database.\<close>

record server =
  sv_logins :: "string \<rightharpoonup> bucket"
  sv_db :: db

definition origin_denied :: "env \<Rightarrow> string option \<Rightarrow> bool" where
  "origin_denied e origin \<longleftrightarrow> truthy origin \<and> coalesce origin [] \<notin> set (e_corsAllowedOrigins e)"

definition is_login :: "request \<Rightarrow> bool" where
  "is_login r = (case r of PostLogin username password \<Rightarrow> True | _ \<Rightarrow> False)"

definition on_db :: "(db, outcome) act \<Rightarrow> server \<Rightarrow> outcome \<times> server" where
  "on_db m sv = (case m (sv_db sv) of
       (Inr r, s) \<Rightarrow> (r, sv\<lparr>sv_db := s\<rparr>)
     | (Inl e, s) \<Rightarrow> (Refused 500 ''internal'', sv\<lparr>sv_db := s\<rparr>))"

definition receive :: "app \<Rightarrow> envelope \<Rightarrow> request \<Rightarrow> server \<Rightarrow> outcome \<times> server" where
  "receive a v r sv =
     (if origin_denied (ap_env a) (rq_origin v) then (Refused 403 ''cors_origin_denied'', sv)
      else if is_login r
      then (case login_attempt (rq_ip v) (toRfc3339 (now_us (sv_db sv))) (sv_logins sv) of
              (ok, m) \<Rightarrow> if ok then on_db (serve a v r) (sv\<lparr>sv_logins := m\<rparr>)
                         else (Refused 429 ''rate_limited'', sv\<lparr>sv_logins := m\<rparr>))
      else on_db (serve a v r) sv)"

text \<open>The handler of unknown paths: the API answers 404, any other path gets the dashboard's page if it is there.\<close>

datatype not_found_reply = ApiNotFound | IndexPage | PlainNotFound

definition not_found_handler :: "string \<Rightarrow> bool \<Rightarrow> not_found_reply" where
  "not_found_handler path index_readable =
     (if starts_with ''/api/'' path then ApiNotFound else if index_readable then IndexPage else PlainNotFound)"

section \<open>Scopes\<close>

text \<open>The scopes of which a caller needs one, route by route.\<close>

fun read_scopes :: "read_request \<Rightarrow> string list" where
  "read_scopes (GetAuditEvents from to opts lim) = [''read'', ''audit'']"
| "read_scopes (GetIncidentCommands cmd lim c) = [''admin'']"
| "read_scopes _ = [''read'']"

fun write_scopes :: "write_request \<Rightarrow> string list" where
  "write_scopes (PostServiceToken body) = [''admin'']"
| "write_scopes (PutSettings i bytes n) = [''admin'']"
| "write_scopes (PostBackfillStart cap lim) = [''admin'']"
| "write_scopes (PostBackfillPause cap) = [''admin'']"
| "write_scopes (PostIncidentCommand cmd args dry) = [''admin'']"
| "write_scopes (PutRetention ty n) = [''admin'']"
| "write_scopes PostRetentionApply = [''admin'']"
| "write_scopes (PostDownload i ttl path) = [''downloads:issue'']"
| "write_scopes _ = [''mutate'']"

definition may :: "payload \<Rightarrow> string list \<Rightarrow> bool" where
  "may p scopes \<longleftrightarrow> list_ex (hasScope p) scopes"

lemma requireScopes_denied:
  "\<not> may (cl_auth cl) scopes \<Longrightarrow> shown (requireScopes cl scopes h) s = (Inr (Refused 403 ''forbidden''), s)"
  by (simp add: may_def requireScopes_def shown_def reject_def bnd_def)

lemmas list_route_defs = get_sync_changes_def get_problems_def get_problem_def
  get_problem_usage_def get_problem_files_def get_organizations_def get_organization_usage_def
  get_summary_def get_status_distribution_def get_largest_problems_def get_largest_organizations_def
  get_volume_timeseries_def get_snapshots_def get_snapshot_def get_jobs_def get_job_def get_orphans_def
  get_backfill_def get_backfill_progress_def get_retention_def get_gc_eligible_def

lemmas read_route_defs = list_route_defs get_rows_def get_row_def get_volumes_def get_audit_events_def
  get_incident_commands_def

lemmas write_route_defs = post_service_token_def post_reconcile_def post_schedule_snapshots_def
  post_dirty_def post_ensure_ready_def post_scan_def post_snapshot_def post_restore_def post_evict_def
  put_settings_def post_retry_def post_cancel_def post_download_def post_backfill_start_def
  post_backfill_pause_def post_incident_command_def put_retention_def post_retention_apply_def

lemma view_denied: "\<not> may (cl_auth cl) (read_scopes r) \<Longrightarrow> view a cl r s = (Inr (Refused 403 ''forbidden''), s)"
  by (cases r) (simp_all add: read_route_defs requireScopes_denied)

lemma perform_denied: "\<not> may (cl_auth cl) (write_scopes r) \<Longrightarrow> perform a cl r s = (Inr (Refused 403 ''forbidden''), s)"
  by (cases r) (simp_all add: write_route_defs requireScopes_denied)



section \<open>Refusals change nothing\<close>

text \<open>
  \<open>quiet m\<close>: if \<open>m\<close> ends in a reply 400, 403 or 404, the database is as before. \<open>loud m\<close>: \<open>m\<close> never
  ends in such a reply; so what comes before it does not matter.
\<close>

named_theorems quiet_intros "rules that show that a refusal changes nothing"

fun refusal :: "'b reply \<Rightarrow> bool" where
  "refusal (Send st b) = False"
| "refusal (Fail st code message retryable rid) = (st \<in> {400, 403, 404})"

definition quiet :: "(db, 'b reply) act \<Rightarrow> bool" where
  "quiet m \<longleftrightarrow> (\<forall>s r t. m s = (Inr r, t) \<and> refusal r \<longrightarrow> t = s)"

definition loud :: "(db, 'b reply) act \<Rightarrow> bool" where
  "loud m \<longleftrightarrow> (\<forall>s r t. m s = (Inr r, t) \<longrightarrow> \<not> refusal r)"

lemma loud_quiet: "loud m \<Longrightarrow> quiet m"
  by (auto simp: loud_def quiet_def)

lemma quiet_ret [quiet_intros]: "quiet (ret r)"
  by (simp add: quiet_def)

lemma quiet_reject [quiet_intros]: "quiet (reject cl st code msg rt)"
  by (simp add: quiet_def reject_def)

lemma quiet_not_found [quiet_intros]: "quiet (not_found cl msg)"
  unfolding not_found_def by (rule quiet_reject)

lemma quiet_throw [quiet_intros]: "quiet (throw e)"
  by (simp add: quiet_def)

lemma quiet_reading [quiet_intros]: "(\<And>s. quiet (f s)) \<Longrightarrow> quiet (reading f)"
  by (auto simp: quiet_def)

lemma quiet_if [quiet_intros]: "quiet m \<Longrightarrow> quiet m' \<Longrightarrow> quiet (if b then m else m')"
  by simp

lemma quiet_case_option [quiet_intros]:
  "quiet m \<Longrightarrow> (\<And>x. quiet (f x)) \<Longrightarrow> quiet (case v of None \<Rightarrow> m | Some x \<Rightarrow> f x)"
  by (cases v) auto

lemma quiet_requireScopes [quiet_intros]: "quiet h \<Longrightarrow> quiet (requireScopes cl scopes h)"
  unfolding requireScopes_def by (intro quiet_intros)

lemma quiet_key [quiet_intros]: "(\<And>k. quiet (h k)) \<Longrightarrow> quiet (getIdempotencyKey cl h)"
  unfolding getIdempotencyKey_def by (intro quiet_intros)

lemma quiet_with_problem [quiet_intros]: "(\<And>p. quiet (h p)) \<Longrightarrow> quiet (with_problem cl i h)"
  unfolding with_problem_def by (intro quiet_intros)

lemma quiet_lift_sum [quiet_intros]: "(\<And>x. quiet (f x)) \<Longrightarrow> quiet (bnd (lift_sum v) f)"
  by (cases v) (auto simp: quiet_def lift_sum_def bnd_def)

lemma quiet_bnd_loud [quiet_intros]: "(\<And>x. loud (f x)) \<Longrightarrow> quiet (bnd m f)"
  by (auto simp: quiet_def loud_def bnd_eq_Inr)

lemma quiet_try_catch [quiet_intros]: "quiet m \<Longrightarrow> (\<And>e. loud (h e)) \<Longrightarrow> quiet (try_catch m h)"
  by (fastforce simp: quiet_def loud_def try_catch_eq_Inr)

lemma loud_send [quiet_intros]: "loud (ret (Send st b))"
  by (simp add: loud_def)

lemma loud_reject [quiet_intros]: "st \<notin> {400, 403, 404} \<Longrightarrow> loud (reject cl st code msg rt)"
  by (auto simp: loud_def reject_def)

lemma loud_fail [quiet_intros]: "st \<notin> {400, 403, 404} \<Longrightarrow> loud (ret (Fail st code msg rt rid))"
  by (auto simp: loud_def)

lemma loud_throw [quiet_intros]: "loud (throw e)"
  by (simp add: loud_def)

lemma loud_bnd [quiet_intros]: "(\<And>x. loud (f x)) \<Longrightarrow> loud (bnd m f)"
  by (auto simp: loud_def bnd_eq_Inr)

lemma loud_reading [quiet_intros]: "(\<And>s. loud (f s)) \<Longrightarrow> loud (reading f)"
  by (auto simp: loud_def)

lemma loud_if [quiet_intros]: "loud m \<Longrightarrow> loud m' \<Longrightarrow> loud (if b then m else m')"
  by simp

lemma loud_case_option [quiet_intros]:
  "loud m \<Longrightarrow> (\<And>x. loud (f x)) \<Longrightarrow> loud (case v of None \<Rightarrow> m | Some x \<Rightarrow> f x)"
  by (cases v) auto

lemma loud_case_sum [quiet_intros]:
  "(\<And>x. loud (f x)) \<Longrightarrow> (\<And>x. loud (g x)) \<Longrightarrow> loud (case v of Inl x \<Rightarrow> f x | Inr x \<Rightarrow> g x)"
  by (cases v) auto

lemma loud_case_prod [quiet_intros]: "(\<And>x y. loud (f x y)) \<Longrightarrow> loud (case v of (x, y) \<Rightarrow> f x y)"
  by (cases v) auto

lemma loud_try_catch [quiet_intros]: "loud m \<Longrightarrow> (\<And>e. loud (h e)) \<Longrightarrow> loud (try_catch m h)"
  by (fastforce simp: loud_def try_catch_eq_Inr)

lemma loud_jobError [quiet_intros]: "loud (sendJobError a cl e)"
  unfolding sendJobError_def Let_def by (cases e) (simp_all add: loud_reject)

lemma quiet_job_catch [quiet_intros]: "quiet h \<Longrightarrow> quiet (job_catch a cl h)"
  unfolding job_catch_def by (intro quiet_intros)

lemma loud_job_catch [quiet_intros]: "loud h \<Longrightarrow> loud (job_catch a cl h)"
  unfolding job_catch_def by (intro quiet_intros)


lemma quiet_reads:
  "quiet (get_rows cl f)" "quiet (get_row cl msg g)" "quiet (get_audit_events cl from to opts lim)"
  "quiet (get_incident_commands cl cmd lim c)" "quiet (get_volumes a cl)"
  unfolding get_rows_def get_row_def get_audit_events_def get_incident_commands_def get_volumes_def Let_def
  by (intro quiet_intros; simp)+

lemma quiet_post_service_token: "quiet (post_service_token a cl body)"
  unfolding post_service_token_def Let_def by (intro quiet_intros)

lemma quiet_post_reconcile: "quiet (post_reconcile a cl ps)"
  unfolding post_reconcile_def Let_def by (intro quiet_intros; simp)

lemma quiet_post_schedule: "quiet (post_schedule_snapshots a cl lim)"
  unfolding post_schedule_snapshots_def
  by (intro quiet_intros; simp add: loud_reject loud_throw split: err.split)

lemma quiet_post_dirty: "quiet (post_dirty a cl i body)"
  unfolding post_dirty_def
  by (intro quiet_requireScopes quiet_key quiet_lift_sum quiet_if quiet_reject quiet_job_catch quiet_bnd_loud) (intro quiet_intros)

lemma loud_ensure: "loud (ensure_from a cl key i r)"
  unfolding ensure_from_def rejectTerminalEnsureJob_def
  by (intro quiet_intros; simp add: quiet_intros split: restore_claim.split)

lemma quiet_post_ensure_ready: "quiet (post_ensure_ready a cl i)"
  unfolding post_ensure_ready_def by (intro quiet_intros loud_ensure; simp)

lemma quiet_post_scan: "quiet (post_scan a cl i)"
  unfolding post_scan_def by (intro quiet_intros)

lemma quiet_post_snapshot: "quiet (post_snapshot a cl i gen)"
  unfolding post_snapshot_def by (intro quiet_intros)

lemma quiet_post_restore: "quiet (post_restore a cl i gen dry)"
  unfolding post_restore_def by (intro quiet_intros)

lemma quiet_post_evict: "quiet (post_evict a cl i body)"
  unfolding post_evict_def enqueue_evict_def Let_def
  by (intro quiet_intros)

lemma quiet_put_settings: "quiet (put_settings a cl i bytes n)"
  unfolding put_settings_def by (intro quiet_intros)

lemma quiet_post_retry: "quiet (post_retry cl i)"
  unfolding post_retry_def by (intro quiet_intros; simp)

lemma quiet_post_cancel: "quiet (post_cancel cl i reason)"
  unfolding post_cancel_def by (intro quiet_intros; simp)

lemma quiet_post_download: "quiet (post_download a cl i ttl path)"
  unfolding post_download_def Let_def by (intro quiet_intros; simp)

lemma quiet_backfill_start: "quiet (post_backfill_start cl cap lim)"
  unfolding post_backfill_start_def by (intro quiet_intros; simp)

lemma quiet_backfill_pause: "quiet (post_backfill_pause cl cap)"
  unfolding post_backfill_pause_def by (intro quiet_intros; simp)

lemma quiet_retention_apply: "quiet (post_retention_apply cl)"
  unfolding post_retention_apply_def by (intro quiet_intros)


lemma quiet_run_command:
  assumes "\<And>r. loud (next r)"
  shows "loud (run_command a cl key cmd args next)"
  unfolding run_command_def Let_def
  by (rule loud_if, intro loud_reading assms, (rule loud_if, intro loud_bnd assms)+, rule loud_reject, simp)

lemma quiet_incident: "quiet (post_incident_command a cl cmd args dry)"
proof -
  have fin: "loud (bnd m (\<lambda>_. bnd (audit cl act tg) (\<lambda>_. ret (Send 200 r))))" for m :: "(db, unit) act" and act tg and r :: json
    by (intro loud_bnd loud_send)
  show ?thesis
    unfolding post_incident_command_def Let_def
    by (intro quiet_requireScopes quiet_key quiet_if quiet_reject quiet_reading)
      ((rule loud_quiet, rule quiet_run_command, rule fin), (rule loud_quiet, rule fin))
qed

lemma set_retention_none: "set_retention ty n s = (Inr [], t) \<Longrightarrow> t = s"
proof -
  assume run: "set_retention ty n s = (Inr [], t)"
  define g :: "string \<times> nat \<Rightarrow> string \<times> nat" where "g = (\<lambda>r. if fst r = ty then (fst r, n) else r)"
  have "filter (\<lambda>r. fst r = ty) (map g (retention_config s)) = []" and t: "t = s\<lparr>retention_config := map g (retention_config s)\<rparr>"
    using run by (simp_all add: set_retention_def g_def)
  then have no: "\<forall>r \<in> set (retention_config s). fst (g r) \<noteq> ty"
    by (simp add: filter_empty_conv)
  have "g r = r" if "r \<in> set (retention_config s)" for r
    using no that by (cases "fst r = ty") (auto simp: g_def)
  then have "map g (retention_config s) = retention_config s" by (simp add: map_idI)
  then show "t = s" by (simp add: t)
qed

lemma quiet_put_retention: "quiet (put_retention cl ty n)"
proof -
  have "quiet (bnd (set_retention ty d) (\<lambda>rows.
             case rows of
               [] \<Rightarrow> not_found cl msg
             | r # rs \<Rightarrow> bnd (audit cl act tg) (\<lambda>_. ret (Send 200 r))))" for d msg act tg
    unfolding quiet_def
  proof (intro allI impI)
    fix s r t
    assume run: "bnd (set_retention ty d) (\<lambda>rows. case rows of [] \<Rightarrow> not_found cl msg
             | r # rs \<Rightarrow> bnd (audit cl act tg) (\<lambda>_. ret (Send 200 r))) s = (Inr r, t) \<and> refusal r"
    obtain rows s1 where s1: "set_retention ty d s = (Inr rows, s1)" by (simp add: set_retention_def)
    with run show "t = s"
      by (cases rows) (auto simp: bnd_eq_Inr not_found_def reject_def dest: set_retention_none)
  qed
  then show ?thesis
    unfolding put_retention_def by (intro quiet_requireScopes quiet_key quiet_case_option quiet_if quiet_reject)
qed

lemma shown_quiet:
  assumes "quiet m" and "shown m s = (Inr (Refused st code), t)" and "st \<in> {400, 403, 404}"
  shows "t = s"
proof -
  obtain r where r: "m s = (Inr r, t)" "outcome_of r = Refused st code" using assms(2) by (auto simp: shown_def bnd_eq_Inr)
  then have "refusal r" using assms(3) by (cases r) simp_all
  with assms(1) r(1) show ?thesis by (auto simp: quiet_def)
qed

lemmas quiet_routes = quiet_reads quiet_post_service_token quiet_post_reconcile quiet_post_schedule
  quiet_post_dirty quiet_post_ensure_ready quiet_post_scan quiet_post_snapshot quiet_post_restore
  quiet_post_evict quiet_put_settings quiet_post_retry quiet_post_cancel quiet_post_download
  quiet_backfill_start quiet_backfill_pause quiet_incident quiet_put_retention quiet_retention_apply

definition still :: "(db, outcome) act \<Rightarrow> bool" where
  "still m \<longleftrightarrow> (\<forall>s st code t. m s = (Inr (Refused st code), t) \<and> st \<in> {400, 403, 404} \<longrightarrow> t = s)"

lemma still_shown: "quiet m \<Longrightarrow> still (shown m)"
  by (auto simp: still_def dest: shown_quiet)

lemma still_view: "still (view a cl r)"
  by (cases r; simp only: view.simps; rule still_shown;
      (simp only: list_route_defs)?; rule quiet_routes)

lemma still_perform: "still (perform a cl r)"
  by (cases r; simp only: perform.simps; rule still_shown; rule quiet_routes)

lemma quiet_login: "quiet (on_error rid (post_login a rid u p))"
  unfolding on_error_def post_login_def Let_def by (intro quiet_intros loud_quiet [OF loud_reading]; simp)

lemma still_guarded: "(\<And>cl. still (h cl)) \<Longrightarrow> still (guarded a v h)"
  unfolding still_def guarded_def by (auto simp: try_catch_eq_Inr split: reply.splits) blast+

text \<open>C21: a refused request changes nothing. Whatever the route, the caller, the body and the moment, a
  request that is answered 400, 403 or 404 has left the database exactly as it was.\<close>

theorem refusals_change_nothing:
  assumes "serve a v r s = (Inr (Refused st code), t)" and "st = 400 \<or> st = 403 \<or> st = 404"
  shows "t = s"
proof -
  have "still (serve a v r)"
    by (cases r) (simp_all add: still_guarded still_view still_perform still_shown quiet_login, simp add: still_def)
  with assms show ?thesis by (auto simp: still_def)
qed

section \<open>Witnesses\<close>

definition demo_envelope :: envelope where
  "demo_envelope = \<lparr>rq_id = ''r'', rq_hook_id = ''h'', rq_ip = ''::1'', rq_origin = None,
     rq_authorization = Some ''Bearer t'', rq_idempotency_key = Some ''k''\<rparr>"

definition admin_payload :: payload where
  "admin_payload = \<lparr>tp_sub = ''root'', tp_role = StorageAdmin, tp_scopes = [''admin''], tp_kind = ServiceToken,
     tp_auth_version = None\<rparr>"

definition admin_app :: app where
  "admin_app = demo_app\<lparr>ap_jwt := \<lparr>jl_sign = (\<lambda>secret aud ttl p now. ''t''),
     jl_verify = (\<lambda>token secret aud now. if token = ''t'' \<and> secret = ''s'' then Inr admin_payload
                                         else Inl (PlainError ''signature''))\<rparr>\<rparr>"

lemma demo_bearer: "extractBearerToken (Some ''Bearer t'') = Some ''t''"
  by (simp add: extractBearerToken_def is_space_def to_lower_def to_lower_char_def char_of_def bit_0)

lemma admin_authenticate: "authenticate admin_app rid (Some ''Bearer t'') s = Send 200 admin_payload"
proof -
  have "e_dashboardJwtSecret (ap_env admin_app) = ''j''" "e_clueojServiceSecret (ap_env admin_app) = ''s''"
    by (simp_all add: admin_app_def demo_secrets)
  then show ?thesis
    by (simp add: authenticate_def demo_bearer verifyToken_def) (simp add: admin_app_def admin_payload_def)
qed

lemma demo_authenticate: "authenticate demo_app rid (Some ''Bearer t'') s = Send 200 service_payload"
  by (simp add: authenticate_def demo_bearer demo_secrets verifyToken_def demo_jwt_def service_payload_def)


theorem refusals_change_nothing_witness:
  "\<exists>t. serve admin_app demo_envelope (Write (PostScan ''9'')) (demo_db []) = (Inr (Refused 404 ''not_found''), t) \<and> t = demo_db []"
proof -
  have "\<exists>t. serve admin_app demo_envelope (Write (PostScan ''9'')) (demo_db []) = (Inr (Refused 404 ''not_found''), t)"
    by (simp add: demo_envelope_def guarded_def admin_authenticate caller_of_def admin_payload_def post_scan_def
        requireScopes_def hasScope_def with_problem_def getProblem_def not_found_def reject_def shown_def try_catch_def
        bnd_def demo_simps)
  then obtain t where run: "serve admin_app demo_envelope (Write (PostScan ''9'')) (demo_db []) = (Inr (Refused 404 ''not_found''), t)"
    by blast
  then have "t = demo_db []" using refusals_change_nothing by blast
  with run show ?thesis by blast
qed

end
