(* ===== verification/Locks.thy ===== *)
theory Locks
  imports Queue
begin

text \<open>
  The contract of the job queue, stated without rows: to the outside each job is a lock with fencing
  tokens. \<open>lock_step\<close> is the abstract machine of one lock; \<open>lock_of\<close> reads it off the database. The
  queue refines it: whatever an operation does to the rows, each job's lock goes along a path of the
  abstract machine, and asserting, renewing and completing answer as the lock says.
\<close>

section \<open>The abstract machine\<close>

text \<open>A free lock remembers the last token; a held one its owner, its token and when it runs out.\<close>

datatype lock = Free nat | Held string nat time

fun lock_token :: "lock \<Rightarrow> nat" where
  "lock_token (Free k) = k"
| "lock_token (Held w k e) = k"

text \<open>
  A lock moves at a moment \<open>n\<close>. A valid lease ends only by its owner's token, by a revocation that
  raises the token, or with the job's row; nobody else gets the lock before it runs out.
\<close>

inductive lock_step :: "time \<Rightarrow> lock option \<Rightarrow> lock option \<Rightarrow> bool" for n :: time where
  lock_new: "lock_step n None (Some (Free 0))"
| lock_grant: "k < k' \<Longrightarrow> n \<le> e \<Longrightarrow> lock_step n (Some (Free k)) (Some (Held w k' e))"
| lock_takeover: "e < n \<Longrightarrow> k < k' \<Longrightarrow> n \<le> e' \<Longrightarrow> lock_step n (Some (Held w k e)) (Some (Held w' k' e'))"
| lock_extend: "n \<le> e \<Longrightarrow> n \<le> e' \<Longrightarrow> lock_step n (Some (Held w k e)) (Some (Held w k e'))"
| lock_release: "n \<le> e \<Longrightarrow> lock_step n (Some (Held w k e)) (Some (Free k))"
| lock_revoke: "lock_token l < k' \<Longrightarrow> lock_step n (Some l) (Some (Free k'))"
| lock_forget: "lock_step n (Some l) None"

inductive_cases lock_stepE: "lock_step n a b"

definition lock_path :: "time \<Rightarrow> time \<Rightarrow> lock option \<Rightarrow> lock option \<Rightarrow> bool" where
  "lock_path lo hi = (\<lambda>a b. \<exists>n. lo \<le> n \<and> n \<le> hi \<and> lock_step n a b)\<^sup>*\<^sup>*"

lemma lock_path_refl: "lock_path lo hi a a"
  by (simp add: lock_path_def)

lemma lock_path_step: "lock_step n a b \<Longrightarrow> lo \<le> n \<Longrightarrow> n \<le> hi \<Longrightarrow> lock_path lo hi a b"
  unfolding lock_path_def by (rule r_into_rtranclp) blast

lemma lock_path_widen: "lock_path lo hi a b \<Longrightarrow> lo' \<le> lo \<Longrightarrow> hi \<le> hi' \<Longrightarrow> lock_path lo' hi' a b"
  unfolding lock_path_def by (erule rtranclp_mono [THEN predicate2D, rotated]) (auto intro: order_trans)

lemma lock_path_trans: "lock_path lo hi a b \<Longrightarrow> lock_path lo hi b c \<Longrightarrow> lock_path lo hi a c"
  unfolding lock_path_def by (rule rtranclp_trans)

section \<open>Reading the locks off the database\<close>

definition lock_view :: "job \<Rightarrow> lock" where
  "lock_view j =
     (if j_state j = Running
      then Held (coalesce (j_lease_owner j) []) (j_fencing_token j) (coalesce (j_lease_expires_at j) 0)
      else Free (j_fencing_token j))"

definition lock_of :: "db \<Rightarrow> string \<Rightarrow> lock option" where
  "lock_of s i = map_option lock_view (List.find (\<lambda>j. j_id j = i) (jobs s))"

lemma lock_view_updated_at [simp]: "lock_view (j\<lparr>j_updated_at := n\<rparr>) = lock_view j"
  by (simp add: lock_view_def)

lemma lock_token_view [simp]: "lock_token (lock_view j) = j_fencing_token j"
  by (simp add: lock_view_def)

definition locks_move :: "db \<Rightarrow> db \<Rightarrow> bool" where
  "locks_move s t \<longleftrightarrow>
     (queue_ok s \<longrightarrow> queue_ok t \<and> now_us s \<le> now_us t
        \<and> (\<forall>i. lock_path (now_us s) (now_us t) (lock_of s i) (lock_of t i)))"

lemma locks_move_trans:
  assumes "locks_move s t" and "locks_move t u"
  shows "locks_move s u"
  unfolding locks_move_def
proof (intro impI conjI allI)
  assume ok: "queue_ok s"
  then have st: "queue_ok t" "now_us s \<le> now_us t" "\<And>i. lock_path (now_us s) (now_us t) (lock_of s i) (lock_of t i)"
    using assms(1) by (simp_all add: locks_move_def)
  then have tu: "now_us t \<le> now_us u" "\<And>i. lock_path (now_us t) (now_us u) (lock_of t i) (lock_of u i)" and "queue_ok u"
    using assms(2) by (simp_all add: locks_move_def)
  then show "queue_ok u" "now_us s \<le> now_us u" using st(2) by simp_all
  show "lock_path (now_us s) (now_us u) (lock_of s i) (lock_of u i)" for i
    by (rule lock_path_trans [OF lock_path_widen [OF st(3)] lock_path_widen [OF tu(2)]]) (use st(2) tu(1) in simp_all)
qed

interpretation moves: preorder_rel locks_move
  by unfold_locales (simp add: locks_move_def lock_path_refl, rule locks_move_trans)

section \<open>Every operation is a path of the locks\<close>

lemma find_map_id:
  "(\<And>j. j_id (g j) = j_id j) \<Longrightarrow> List.find (\<lambda>j. j_id j = i) (map g js) = map_option g (List.find (\<lambda>j. j_id j = i) js)"
  by (induction js) auto

lemma find_filter_id:
  "distinct (map j_id js) \<Longrightarrow> List.find (\<lambda>j. j_id j = i) (filter q js)
     = (case List.find (\<lambda>j. j_id j = i) js of None \<Rightarrow> None | Some j \<Rightarrow> if q j then Some j else None)"
  by (induction js) (auto simp: find_None_iff2 image_iff split: option.splits dest!: find_Some_in)

text \<open>The step one row takes when it is updated by \<open>f\<close>: none, or one of the abstract machine.\<close>

definition row_moves :: "time \<Rightarrow> (job \<Rightarrow> job) \<Rightarrow> job \<Rightarrow> bool" where
  "row_moves n f j \<longleftrightarrow> j_id (f j) = j_id j
     \<and> (lock_view (f j) = lock_view j \<or> lock_step n (Some (lock_view j)) (Some (lock_view (f j))))"

lemma move_update:
  assumes u: "update_jobs st p f s0 = (r, t)" and s0: "jobs s0 = jobs s" "now_us s0 = now_us s"
    and ok: "queue_ok t"
    and f: "\<And>j. p j \<Longrightarrow> j_id (f j) = j_id j"
    and m: "\<And>j. queue_ok s \<Longrightarrow> j \<in> set (jobs s) \<Longrightarrow> p j \<Longrightarrow> row_moves (now_us s) f j"
  shows "locks_move s t"
  unfolding locks_move_def
proof (intro impI conjI allI)
  assume "queue_ok s"
  show "queue_ok t" by (rule ok)
  have now: "now_us t = now_us s" using update_jobs_frame(1) [OF u] s0 by simp
  then show "now_us s \<le> now_us t" by simp
  fix i
  from u show "lock_path (now_us s) (now_us t) (lock_of s i) (lock_of t i)"
  proof (cases rule: update_jobs_cases)
    case (failed c)
    then show ?thesis using s0 by (simp add: lock_of_def lock_path_refl)
  next
    case ok
    let ?g = "updated_job p f (now_us s)"
    have "j_id (?g j) = j_id j" for j using f by (simp add: updated_job_def)
    then have t: "lock_of t i = map_option (lock_view \<circ> ?g) (List.find (\<lambda>j. j_id j = i) (jobs s))"
      using ok s0 by (simp add: lock_of_def find_map_id option.map_comp)
    show ?thesis
    proof (cases "List.find (\<lambda>j. j_id j = i) (jobs s)")
      case None
      with t show ?thesis by (simp add: lock_of_def lock_path_refl)
    next
      case (Some j)
      then have j: "j \<in> set (jobs s)" by (auto dest: find_Some_in)
      show ?thesis
      proof (cases "p j")
        case True
        then have "row_moves (now_us s) f j" using m j \<open>queue_ok s\<close> by blast
        with True Some t now show ?thesis
          by (auto simp: row_moves_def lock_of_def lock_path_refl intro: lock_path_step)
      next
        case False
        with Some show ?thesis by (subst t) (simp add: lock_of_def lock_path_refl)
      qed
    qed
  qed
qed

lemma ok_after: "pres fence_step m \<Longrightarrow> pres keeps_rows m \<Longrightarrow> queue_ok s \<Longrightarrow> queue_ok (snd (m s))"
  by (simp add: pres_def queue_ok_def fence_step_def keeps_rows_def)

lemma moves_update_jobs:
  assumes "pres fence_step (update_jobs st p f)" "pres keeps_rows (update_jobs st p f)"
    and "\<And>j. p j \<Longrightarrow> j_id (f j) = j_id j"
    and "\<And>s j. queue_ok s \<Longrightarrow> j \<in> set (jobs s) \<Longrightarrow> p j \<Longrightarrow> row_moves (now_us s) f j"
  shows "pres locks_move (update_jobs st p f)"
proof (rule presI)
  fix s
  obtain r t where u: "update_jobs st p f s = (r, t)" by fastforce
  show "locks_move s (snd (update_jobs st p f s))"
  proof (cases "queue_ok s")
    case True
    then have "queue_ok t" using ok_after [OF assms(1,2), of s] u by simp
    from move_update [OF u refl refl this assms(3,4)] u show ?thesis by simp
  qed (simp add: locks_move_def)
qed

lemma move_fewer:
  assumes "jobs t = filter q (jobs s)" "now_us s \<le> now_us t" and "queue_ok s \<Longrightarrow> queue_ok t"
  shows "locks_move s t"
  unfolding locks_move_def
proof (intro impI conjI allI)
  assume ok: "queue_ok s"
  then show "queue_ok t" "now_us s \<le> now_us t" using assms by simp_all
  fix i
  have "distinct (map j_id (jobs s))" using ok by (simp add: queue_ok_def rows_ok_def jobs_violation_None)
  then show "lock_path (now_us s) (now_us t) (lock_of s i) (lock_of t i)"
    using assms(1,2) by (auto simp: lock_of_def find_filter_id lock_path_refl
        split: option.splits intro: lock_path_step lock_forget)
qed

lemma move_same:
  assumes "jobs t = jobs s" "job_fencing_counters t = job_fencing_counters s" "now_us s \<le> now_us t"
  shows "locks_move s t"
  using move_fewer [of t "\<lambda>_. True" s] assms by (simp add: queue_ok_def fence_ok_def rows_ok_def)

lemma moves_modify:
  "(\<And>s. jobs (h s) = jobs s) \<Longrightarrow> (\<And>s. job_fencing_counters (h s) = job_fencing_counters s)
   \<Longrightarrow> (\<And>s. now_us s \<le> now_us (h s)) \<Longrightarrow> pres locks_move (modify h)"
  by (rule presI) (simp add: move_same)

lemma moves_upsert_usage: "pres locks_move (upsert_usage ins upd)"
  by (rule presI) (simp add: upsert_usage_def Let_def move_same)

lemma moves_createJob: "pres locks_move (createJob opts)"
proof (rule presI)
  fix s
  obtain r t where eq: "createJob_stmt opts (create_fingerprint opts) s = (r, t)" by fastforce
  have ok: "queue_ok s \<Longrightarrow> queue_ok t"
    using ok_after [OF fence_createJob rows_createJob, of s opts] eq by (simp add: snd_createJob)
  from eq consider i where "update_jobs False (\<lambda>j. j_id j = i) id s = (r, t)"
    | "t = s"
    | i fp n where "jobs t = jobs s @ [new_job opts fp i n]" "now_us t = now_us s" and "jobs_violation (jobs t) = None"
    by (auto simp: createJob_stmt_def Let_def fresh_uuid_def
        split: list.splits option.splits if_splits prod.splits sum.splits elim!: insert_job_cases)
  then have "locks_move s t"
  proof cases
    case 1
    show ?thesis
    proof (cases "queue_ok s")
      case True
      then show ?thesis using move_update [OF 1 refl refl ok [OF True]] by (simp add: row_moves_def)
    qed (simp add: locks_move_def)
  next
    case 2
    then show ?thesis by (simp add: moves.R_refl)
  next
    case 3
    have "i \<notin> j_id ` set (jobs s)" using 3(1,3) by (auto simp: jobs_violation_None new_job_def)
    then have "List.find (\<lambda>j. j_id j = i) (jobs s) = None" by (auto simp: find_None_iff2)
    then have "lock_of s i = None" "lock_of t i = Some (Free 0)"
      using 3(1) by (simp_all add: lock_of_def find_append_None new_job_def lock_view_def)
    moreover have "lock_of t k = lock_of s k" if "k \<noteq> i" for k
    proof -
      have "List.find (\<lambda>j. j_id j = k) (js @ [new_job opts fp i n]) = List.find (\<lambda>j. j_id j = k) js" for js
        using that by (induction js) (simp_all add: new_job_def)
      with 3(1) show ?thesis by (simp add: lock_of_def)
    qed
    ultimately have "lock_path (now_us s) (now_us t) (lock_of s k) (lock_of t k)" for k
      using 3(2) by (cases "k = i") (auto simp: lock_path_refl intro: lock_path_step lock_new)
    with ok 3(2) show ?thesis by (simp add: locks_move_def)
  qed
  with eq show "locks_move s (snd (createJob opts s))" by (simp add: snd_createJob)
qed

lemma running_row:
  "queue_ok s \<Longrightarrow> j \<in> set (jobs s) \<Longrightarrow> j_state j = Running \<Longrightarrow>
     \<exists>w e. j_lease_owner j = Some w \<and> j_lease_expires_at j = Some e \<and> lock_view j = Held w (j_fencing_token j) e"
  by (auto simp: queue_ok_def rows_ok_def job_row_ok_def lock_view_def)

lemma moves_cancelPending: "pres locks_move (cancelPendingLocalJobsForRestore pid)"
  unfolding cancelPendingLocalJobsForRestore_def
  by (intro pres_intros moves_update_jobs rows_update_jobs pres_fence_update_jobs)
    (auto simp: job_row_ok_def job_active_def row_moves_def lock_view_def)

lemma moves_createRestore: "pres locks_move (createRestoreJobIfMissing opts)"
  unfolding createRestoreJobIfMissing_def
  by (intro pres_intros moves_cancelPending moves_upsert_usage moves_createJob)

lemma moves_touchProblemAccess: "pres locks_move (touchProblemAccess pid)"
  unfolding touchProblemAccess_def
  by (intro pres_intros moves_modify moves_update_jobs rows_update_jobs pres_fence_update_jobs)
    (auto simp: job_row_ok_def job_active_def row_moves_def lock_view_def)

lemma moves_updateJobState: "final_state st \<Longrightarrow> pres locks_move (updateJobState i st res ec em)"
  unfolding updateJobState_def
  by (intro pres_intros moves_update_jobs rows_update_jobs pres_fence_update_jobs)
    (auto simp: job_row_ok_def job_active_def row_moves_def lock_view_def final_state_def)

lemma moves_setJobPayload: "pres locks_move (setJobPayload i v)"
  unfolding setJobPayload_def
  by (intro pres_intros moves_update_jobs rows_update_jobs pres_fence_update_jobs)
    (auto simp: job_row_ok_def job_active_def row_moves_def lock_view_def)

lemma moves_retryJob: "pres locks_move (retryJob i)"
  unfolding retryJob_def
  by (intro pres_intros moves_update_jobs rows_update_jobs pres_fence_update_jobs)
    (auto simp: job_row_ok_def job_active_def row_moves_def lock_view_def)

text \<open>The two operations of a holder: the guard says that the lease has not run out.\<close>

lemma held_row:
  assumes "queue_ok s" "j \<in> set (jobs s)" "lease_held s i owner token j"
  obtains w e where "j_state j = Running" "j_lease_owner j = Some w" "owner = Some w"
    "j_lease_expires_at j = Some e" "now_us s \<le> e" "lock_view j = Held w token e"
  using running_row [OF assms(1,2)] assms(3) by (auto simp: lease_held_def eq_null_iff ge_null_def)

lemma moves_renew: "pres locks_move (renewJobLease i w k n)"
proof (rule presI)
  fix s :: db
  let ?f = "\<lambda>j. j\<lparr>j_lease_expires_at := Some (now_us s + seconds n)\<rparr>"
  obtain r t where u: "update_jobs False (lease_held s i (Some w) k) ?f s = (r, t)" by fastforce
  then have t: "snd (renewJobLease i w k n s) = t" by (simp add: renewJobLease_def bnd_def split: sum.splits)
  have "row_moves (now_us s) ?f j" if "queue_ok s" "j \<in> set (jobs s)" "lease_held s i (Some w) k j" for j
    using that by (elim held_row) (auto simp: row_moves_def lock_view_def intro!: lock_extend)
  moreover have "queue_ok t" if "queue_ok s" using ok_after [OF fence_renew rows_renew that] t by metis
  ultimately have "locks_move s t" if "queue_ok s" using move_update [OF u refl refl] that by simp
  with t show "locks_move s (snd (renewJobLease i w k n s))" by (auto simp: locks_move_def)
qed

lemma moves_complete:
  assumes "final_state st"
  shows "pres locks_move (completeJobWithLease w st res ec em)"
proof (rule presI)
  fix s :: db
  let ?p = "lease_held s (jt_id w) (jt_lease_owner w) (jt_fencing_token w)"
  let ?f = "\<lambda>j. j\<lparr>j_state := st, j_result := Some res, j_error_code := ec, j_error_message := em,
    j_completed_at := Some (now_us s)\<rparr>"
  obtain r t where u: "update_jobs True ?p ?f s = (r, t)" by fastforce
  then have t: "snd (completeJobWithLease w st res ec em s) = t"
    by (simp add: completeJobWithLease_def bnd_def split: sum.splits)
  have "row_moves (now_us s) ?f j" if "queue_ok s" "j \<in> set (jobs s)" "?p j" for j
    using that assms
    by (elim held_row) (auto simp: row_moves_def lock_view_def final_state_def lease_held_def intro!: lock_release)
  moreover have "queue_ok t" if "queue_ok s"
    using ok_after [OF fence_complete rows_complete [OF assms] that] t by metis
  ultimately have "locks_move s t" if "queue_ok s" using move_update [OF u refl refl] that by simp
  with t show "locks_move s (snd (completeJobWithLease w st res ec em s))" by (auto simp: locks_move_def)
qed

subsection \<open>Operations that draw a token\<close>

lemma drawn_token: "queue_ok s \<Longrightarrow> j \<in> set (jobs s) \<Longrightarrow> j_fencing_token j < next_of (job_fencing_counters s) (key_of j)"
  by (simp add: queue_ok_def fence_ok_def)

text \<open>A statement that first raises counters and then updates rows, or fails and is rolled back.\<close>

lemma moves_counted:
  assumes "pres fence_step m" "pres keeps_rows m"
    and u: "\<And>s. snd (m s) = s \<or> (\<exists>p f c r. update_jobs True p f (s\<lparr>job_fencing_counters := c\<rparr>) = (r, snd (m s))
      \<and> (\<forall>j. p j \<longrightarrow> j_id (f j) = j_id j)
      \<and> (queue_ok s \<longrightarrow> (\<forall>j \<in> set (jobs s). p j \<longrightarrow> row_moves (now_us s) f j)))"
  shows "pres locks_move m"
proof (rule presI)
  fix s
  show "locks_move s (snd (m s))"
  proof (cases "snd (m s) = s \<or> \<not> queue_ok s")
    case True
    then show ?thesis using moves.R_refl [of s] by (auto simp: locks_move_def [of s])
  next
    case False
    then obtain p f c r where *: "update_jobs True p f (s\<lparr>job_fencing_counters := c\<rparr>) = (r, snd (m s))"
      "\<forall>j. p j \<longrightarrow> j_id (f j) = j_id j" "\<forall>j \<in> set (jobs s). p j \<longrightarrow> row_moves (now_us s) f j"
      using u [of s] by blast
    show ?thesis
      by (rule move_update [OF *(1)]) (use * False ok_after [OF assms(1,2)] in auto)
  qed
qed

lemma moves_cancelJob: "pres locks_move (cancelJob i reason)"
proof (rule moves_counted [OF fence_cancelJob rows_cancelJob], goal_cases)
  case (1 s)
  show ?case
  proof (cases "List.find (\<lambda>j. j_id j = i \<and> job_active j) (jobs s)")
    case None
    then show ?thesis by (simp add: cancelJob_def)
  next
    case (Some l)
    then have l: "l \<in> set (jobs s)" by (auto dest: find_Some_in)
    let ?c = "bump (counter_key (j_problem_id l)) 1 (job_fencing_counters s)"
    let ?f = "\<lambda>j. j\<lparr>j_state := Cancelled,
        j_fencing_token := next_of (job_fencing_counters s) (counter_key (j_problem_id l)),
        j_requested_cancel_at := Some (now_us s), j_requested_cancel_reason := reason, j_error_message := reason,
        j_completed_at := Some (now_us s)\<rparr>"
    obtain r t where u: "update_jobs True (\<lambda>j. j_id j = j_id l) ?f (s\<lparr>job_fencing_counters := ?c\<rparr>) = (r, t)" by fastforce
    have "row_moves (now_us s) ?f j" if "queue_ok s" "j \<in> set (jobs s)" "j_id j = j_id l" for j
    proof -
      have "j = l" using that l id_unique by (metis fence_ok_def queue_ok_def)
      then show ?thesis using drawn_token [OF that(1,2)]
        by (auto simp: row_moves_def key_of_def lock_view_def intro!: lock_revoke)
    qed
    moreover have "snd (cancelJob i reason s) = (case r of Inl e \<Rightarrow> s | Inr rows \<Rightarrow> t)"
      using Some u by (simp add: cancelJob_def Let_def split: sum.splits)
    ultimately show ?thesis using u by (cases r) force+
  qed
qed

lemma moves_acquire_stmt: "pres locks_move (acquire_stmt w n ln)"
proof (rule moves_counted [OF fence_acquire_stmt rows_acquire_stmt], goal_cases)
  case (1 s)
  show ?case
  proof (cases "candidate ln s")
    case None
    then show ?thesis by (simp add: acquire_stmt_def)
  next
    case (Some l)
    then have l: "l \<in> set (jobs s)" "acquirable ln s l" by (auto dest: candidate_Some)
    let ?c = "bump (counter_key (j_problem_id l)) 1 (job_fencing_counters s)"
    let ?p = "\<lambda>j. j_id j = j_id l \<and> j_attempt j < j_max_attempts j"
    let ?f = "\<lambda>j. j\<lparr>j_state := Running, j_lease_owner := Some w,
        j_lease_expires_at := Some (now_us s + seconds n),
        j_fencing_token := next_of (job_fencing_counters s) (counter_key (j_problem_id l)),
        j_attempt := (if j_state j = Pending then j_attempt j else j_attempt j + 1),
        j_error_code := None, j_error_message := None\<rparr>"
    obtain r t where u: "update_jobs True ?p ?f (s\<lparr>job_fencing_counters := ?c\<rparr>) = (r, t)" by fastforce
    have "row_moves (now_us s) ?f j" if "queue_ok s" "j \<in> set (jobs s)" "j_id j = j_id l" for j
    proof -
      have j: "j = l" using that l id_unique by (metis fence_ok_def queue_ok_def)
      have tok: "j_fencing_token l < next_of (job_fencing_counters s) (counter_key (j_problem_id l))"
        using drawn_token [OF that(1) l(1)] by (simp add: key_of_def)
      show ?thesis
      proof (cases "expired s l")
        case True
        then obtain e where "j_lease_expires_at l = Some e" "e < now_us s" "j_state l = Running"
          by (auto simp: expired_def lt_null_def split: option.splits)
        with j tok show ?thesis by (auto simp: row_moves_def lock_view_def intro!: lock_takeover)
      next
        case False
        then have "j_state l = Pending" using l(2) by (simp add: acquirable_def)
        with j tok show ?thesis by (auto simp: row_moves_def lock_view_def intro!: lock_grant)
      qed
    qed
    moreover have "snd (acquire_stmt w n ln s) = (case r of Inl e \<Rightarrow> s | Inr rows \<Rightarrow> t)"
      using Some u by (simp add: acquire_stmt_def Let_def split: sum.splits)
    ultimately show ?thesis using u by (cases r) force+
  qed
qed

lemma moves_failExpired: "pres locks_move failExpiredRunningJobs"
proof (rule moves_counted [OF fence_failExpired rows_failExpired], goal_cases)
  case (1 s)
  define locked where "locked = filter (exhausted s) (jobs s)"
  define c where "c = bump_groups locked (job_fencing_counters s)"
  let ?f = "\<lambda>j. j\<lparr>j_state := Failed, j_fencing_token := revoked_token locked c j,
      j_error_code := Some ''lease_expired'', j_error_message := Some ''Worker lease expired before completion'',
      j_completed_at := Some (now_us s)\<rparr>"
  obtain r t where u: "update_jobs True (exhausted s) ?f (s\<lparr>job_fencing_counters := c\<rparr>) = (r, t)" by fastforce
  have "row_moves (now_us s) ?f j" if "queue_ok s" "j \<in> set (jobs s)" "exhausted s j" for j
  proof -
    have l: "j \<in> set locked" using that by (simp add: locked_def)
    have "j_fencing_token j < revoked_token locked c j"
      using drawn_token [OF that(1,2)] row_number_bounds [OF l] revoked_token_eq [OF l] by (simp add: c_def)
    then show ?thesis by (auto simp: row_moves_def lock_view_def intro!: lock_revoke)
  qed
  moreover have "snd (failExpiredRunningJobs s) = (case r of Inl e \<Rightarrow> s | Inr rows \<Rightarrow> t)"
    using u by (simp add: failExpiredRunningJobs_def Let_def locked_def c_def split: sum.splits)
  ultimately show ?case using u by (cases r) force+
qed

lemma moves_acquireJob: "pres locks_move (acquireJob w n ln)"
  unfolding acquireJob_def by (intro pres_intros moves_failExpired moves_acquire_stmt)

lemmas moves_ops = moves_createJob moves_cancelPending moves_createRestore moves_touchProblemAccess
  moves_failExpired moves_acquireJob moves_renew moves_complete moves_updateJobState
  moves_setJobPayload moves_cancelJob moves_retryJob

section \<open>The calls of a worker\<close>

text \<open>Whether a lock, at a moment, obeys the caller \<open>w\<close> with token \<open>k\<close>.\<close>

definition obeys :: "time \<Rightarrow> lock option \<Rightarrow> string option \<Rightarrow> nat \<Rightarrow> bool" where
  "obeys n l w k \<longleftrightarrow> (\<exists>v e. l = Some (Held v k e) \<and> w = Some v \<and> n \<le> e)"

lemma obeys_iff:
  assumes "queue_ok s"
  shows "obeys (now_us s) (lock_of s i) w k \<longleftrightarrow> (\<exists>j \<in> set (jobs s). lease_held s i w k j)"
proof
  assume "obeys (now_us s) (lock_of s i) w k"
  then obtain v e j where o: "w = Some v" "now_us s \<le> e" "lock_view j = Held v k e"
    "List.find (\<lambda>j. j_id j = i) (jobs s) = Some j"
    by (auto simp: obeys_def lock_of_def)
  then have j: "j \<in> set (jobs s)" "j_id j = i" by (auto dest: find_Some_in)
  then have "job_row_ok j" using assms by (simp add: queue_ok_def rows_ok_def)
  with o j have "lease_held s i w k j"
    by (auto simp: lease_held_def lock_view_def job_row_ok_def job_active_def eq_null_def ge_null_def split: if_splits)
  with j show "\<exists>j \<in> set (jobs s). lease_held s i w k j" by blast
next
  assume "\<exists>j \<in> set (jobs s). lease_held s i w k j"
  then obtain j where j: "j \<in> set (jobs s)" "lease_held s i w k j" by blast
  then obtain v e where v: "w = Some v" "now_us s \<le> e" "lock_view j = Held v k e" by (metis held_row [OF assms])
  have "distinct (map j_id (jobs s))" using assms by (simp add: queue_ok_def rows_ok_def jobs_violation_None)
  then have "List.find (\<lambda>x. j_id x = j_id j) (jobs s) = Some j" using j(1) by (rule find_unique)
  with v j(2) show "obeys (now_us s) (lock_of s i) w k" by (simp add: obeys_def lock_of_def lease_held_def)
qed

text \<open>An update under the lease, in terms of the lock: it happens when the lock obeys, and moves that lock only.\<close>

lemma leased_update:
  assumes ok: "queue_ok s" and u: "update_jobs st (lease_held s i w k) f s = (r, t)"
    and f: "\<And>j. lease_held s i w k j \<Longrightarrow> j_id (f j) = j_id j \<and> j_idempotency_key (f j) = j_idempotency_key j
        \<and> j_job_type (f j) = j_job_type j \<and> j_problem_id (f j) = j_problem_id j
        \<and> (job_active (f j) \<longrightarrow> job_active j) \<and> (j_state (f j) = Running \<longrightarrow> j_state j = Running)"
    and l: "\<And>j. j \<in> set (jobs s) \<Longrightarrow> lease_held s i w k j \<Longrightarrow> lock_view (f j) = l"
  shows "(\<exists>rows. r = Inr rows \<and> (rows \<noteq> []) = obeys (now_us s) (lock_of s i) w k)
    \<and> lock_of t x = (if x = i \<and> obeys (now_us s) (lock_of s i) w k then Some l else lock_of s x)"
proof -
  let ?g = "updated_job (lease_held s i w k) f (now_us s)"
  have viol: "jobs_violation (jobs s) = None" using ok by (simp add: queue_ok_def rows_ok_def)
  have "no_activation ?g" using f by (auto simp: no_activation_updated)
  then have r: "r = Inr (map ?g (filter (lease_held s i w k) (jobs s)))" and t: "jobs t = map ?g (jobs s)"
    using update_jobs_ok [OF viol, of "lease_held s i w k" f st] u by (metis prod.inject)+
  have ob: "obeys (now_us s) (lock_of s i) w k \<longleftrightarrow> filter (lease_held s i w k) (jobs s) \<noteq> []"
    by (simp add: obeys_iff [OF ok] filter_empty_conv)
  have "j_id (?g j) = j_id j" for j using f by (simp add: updated_job_def)
  then have "lock_of t x = map_option (\<lambda>j. lock_view (?g j)) (List.find (\<lambda>j. j_id j = x) (jobs s))"
    using t by (simp add: lock_of_def find_map_id option.map_comp comp_def)
  also have "\<dots> = (if x = i \<and> obeys (now_us s) (lock_of s i) w k then Some l else lock_of s x)"
  proof (cases "List.find (\<lambda>j. j_id j = x) (jobs s)")
    case None
    then show ?thesis
      by (auto simp: lock_of_def obeys_def)
  next
    case (Some j)
    then have j: "j \<in> set (jobs s)" "j_id j = x" by (auto dest: find_Some_in)
    have "lease_held s i w k j \<longleftrightarrow> x = i \<and> obeys (now_us s) (lock_of s i) w k"
    proof
      assume "x = i \<and> obeys (now_us s) (lock_of s i) w k"
      then obtain j' where "j' \<in> set (jobs s)" "lease_held s i w k j'" "j_id j' = j_id j"
        using obeys_iff [OF ok] j by (auto simp: lease_held_def)
      then show "lease_held s i w k j" using id_unique [OF viol] j(1) by blast
    qed (use j obeys_iff [OF ok] in \<open>auto simp: lease_held_def\<close>)
    with Some l [OF j(1)] show ?thesis by (auto simp: updated_job_def lock_of_def)
  qed
  finally show ?thesis using r ob by simp
qed

lemma assert_refines:
  "queue_ok s \<Longrightarrow> assertJobLease t s = (if obeys (now_us s) (lock_of s (jt_id t)) (jt_lease_owner t) (jt_fencing_token t)
     then Inr () else Inl (JobLeaseLostError (jt_id t)), s)"
  by (simp add: assertJobLease_def holds_lease_def obeys_iff)

lemma renew_refines:
  assumes "queue_ok s"
  shows "fst (renewJobLease i w k n s) = Inr (obeys (now_us s) (lock_of s i) (Some w) k)
    \<and> lock_of (snd (renewJobLease i w k n s)) x
      = (if x = i \<and> obeys (now_us s) (lock_of s i) (Some w) k then Some (Held w k (now_us s + seconds n)) else lock_of s x)"
proof -
  let ?f = "\<lambda>j. j\<lparr>j_lease_expires_at := Some (now_us s + seconds n)\<rparr>"
  obtain r t where u: "update_jobs False (lease_held s i (Some w) k) ?f s = (r, t)" by fastforce
  have "(\<exists>rows. r = Inr rows \<and> (rows \<noteq> []) = obeys (now_us s) (lock_of s i) (Some w) k)
    \<and> lock_of t x = (if x = i \<and> obeys (now_us s) (lock_of s i) (Some w) k then Some (Held w k (now_us s + seconds n)) else lock_of s x)"
    by (rule leased_update [OF assms u]) (auto simp: job_active_def lock_view_def lease_held_def eq_null_iff)
  with u show ?thesis by (auto simp: renewJobLease_def bnd_def)
qed

lemma complete_refines:
  assumes "queue_ok s" and "final_state st"
  shows "(\<exists>row. fst (completeJobWithLease t st res ec em s) = Inr row
      \<and> (row \<noteq> None) = obeys (now_us s) (lock_of s (jt_id t)) (jt_lease_owner t) (jt_fencing_token t))
    \<and> lock_of (snd (completeJobWithLease t st res ec em s)) x
      = (if x = jt_id t \<and> obeys (now_us s) (lock_of s (jt_id t)) (jt_lease_owner t) (jt_fencing_token t)
         then Some (Free (jt_fencing_token t)) else lock_of s x)"
proof -
  let ?p = "lease_held s (jt_id t) (jt_lease_owner t) (jt_fencing_token t)"
  let ?f = "\<lambda>j. j\<lparr>j_state := st, j_result := Some res, j_error_code := ec, j_error_message := em,
    j_completed_at := Some (now_us s)\<rparr>"
  obtain r u where u: "update_jobs True ?p ?f s = (r, u)" by fastforce
  have "(\<exists>rows. r = Inr rows \<and> (rows \<noteq> []) = obeys (now_us s) (lock_of s (jt_id t)) (jt_lease_owner t) (jt_fencing_token t))
    \<and> lock_of u x = (if x = jt_id t \<and> obeys (now_us s) (lock_of s (jt_id t)) (jt_lease_owner t) (jt_fencing_token t)
         then Some (Free (jt_fencing_token t)) else lock_of s x)"
    by (rule leased_update [OF assms(1) u])
      (use assms(2) in \<open>auto simp: job_active_def lock_view_def lease_held_def final_state_def\<close>)
  with u show ?thesis by (auto simp: completeJobWithLease_def bnd_def first_row_def split: list.splits)
qed

end
