(* ===== verification/System.thy ===== *)
theory System
  imports Server Locks
begin

text \<open>
  The control plane as one system: what every route, worker step and maintenance run does to the job
  queue. \<open>Queue\<close> shows the queue's invariants for the operations on jobs; here they are carried to
  everything the process does, so they hold of the running system and not only of its queue.
\<close>

section \<open>What is safe for the queue\<close>

definition queue_safe :: "db \<Rightarrow> db \<Rightarrow> bool" where
  "queue_safe s t \<longleftrightarrow> fence_step s t \<and> keeps_rows s t \<and> locks_move s t"

interpretation safe: preorder_rel queue_safe
proof
  show "queue_safe s s" for s by (simp add: queue_safe_def fence_step_refl rows.R_refl moves.R_refl)
  show "queue_safe s u" if "queue_safe s t" "queue_safe t u" for s t u
    using that fence_step_trans rows.R_trans moves.R_trans unfolding queue_safe_def by blast
qed

text \<open>Steps that leave the jobs alone; the counters may grow (the data plane raises them for the tokens it sees).\<close>

definition queue_idle :: "db \<Rightarrow> db \<Rightarrow> bool" where
  "queue_idle s t \<longleftrightarrow>
     jobs t = jobs s \<and> (\<forall>k. next_of (job_fencing_counters s) k \<le> next_of (job_fencing_counters t) k)
     \<and> uuid_src t = uuid_src s \<and> uuid_pos s \<le> uuid_pos t \<and> now_us s \<le> now_us t"

interpretation idle: preorder_rel queue_idle
  by unfold_locales (auto simp: queue_idle_def intro: order_trans)

lemma idle_safe:
  assumes i: "queue_idle s t"
  shows "queue_safe s t"
proof -
  have "j_fencing_token j < next_of (job_fencing_counters t) (key_of j)"
    if "fence_ok s" and "j \<in> set (jobs s)" for j
    using that i by (auto simp: fence_ok_def queue_idle_def intro: less_le_trans)
  moreover have "0 < next_of (job_fencing_counters t) k" if "fence_ok s" for k
    using that i by (auto simp: fence_ok_def queue_idle_def intro: less_le_trans)
  ultimately have f: "fence_step s t"
    using i by (auto simp: fence_step_def fence_ok_def queue_idle_def token_of_def)
  have r: "keeps_rows s t" using i by (simp add: keeps_rows_same queue_idle_def)
  have "queue_ok s \<Longrightarrow> queue_ok t" using f r by (simp add: queue_ok_def fence_step_def keeps_rows_def)
  then have "locks_move s t" using i by (intro move_fewer [where q = "\<lambda>_. True"]) (simp_all add: queue_idle_def)
  with f r show ?thesis by (simp add: queue_safe_def)
qed

lemma pres_idle_safe: "pres queue_idle m \<Longrightarrow> pres queue_safe m"
  by (simp add: pres_def idle_safe)

lemma pres_fence_rows: "pres fence_step m \<Longrightarrow> pres keeps_rows m \<Longrightarrow> pres locks_move m \<Longrightarrow> pres queue_safe m"
  by (simp add: pres_def queue_safe_def)

lemma fewer_safe:
  assumes "jobs t = filter q (jobs s)" "job_fencing_counters t = job_fencing_counters s"
    "uuid_src t = uuid_src s" "uuid_pos s \<le> uuid_pos t" "now_us s \<le> now_us t"
  shows "queue_safe s t"
proof -
  have r: "keeps_rows s t" using assms(1) by (auto simp: keeps_rows_def rows_ok_def jobs_violation_filter)
  have f: "fence_step s t" by (rule fence_step_fewer_jobs [OF assms])
  have "queue_ok s \<Longrightarrow> queue_ok t" using f r by (simp add: queue_ok_def fence_step_def keeps_rows_def)
  then have "locks_move s t" by (rule move_fewer [OF assms(1,5)])
  with f r show ?thesis by (simp add: queue_safe_def)
qed

subsection \<open>Operations on jobs\<close>

lemma safe_createJob [pres_intros]: "pres queue_safe (createJob opts)"
  by (intro pres_fence_rows fence_ops rows_ops moves_ops)

lemma safe_setJobPayload [pres_intros]: "pres queue_safe (setJobPayload i v)"
  by (intro pres_fence_rows fence_ops rows_ops moves_ops)

lemma safe_jobs [pres_intros]:
  "pres queue_safe (cancelPendingLocalJobsForRestore pid)" "pres queue_safe (createRestoreJobIfMissing ropts)"
  "pres queue_safe (touchProblemAccess pid)" "pres queue_safe failExpiredRunningJobs"
  "pres queue_safe (acquireJob w n ln)" "pres queue_safe (renewJobLease i w k n)"
  "pres queue_safe (cancelJob i reason)" "pres queue_safe (retryJob i)"
  by (intro pres_fence_rows fence_ops rows_ops moves_ops)+

lemma safe_complete: "final_state st \<Longrightarrow> pres queue_safe (completeJobWithLease t st res ec em)"
  by (intro pres_fence_rows fence_ops rows_ops moves_ops)

subsection \<open>Statements on other tables\<close>

lemma idle_reading_modify:
  "(\<And>s. jobs (h s) = jobs s) \<Longrightarrow> (\<And>s. job_fencing_counters (h s) = job_fencing_counters s)
   \<Longrightarrow> (\<And>s. uuid_src (h s) = uuid_src s) \<Longrightarrow> (\<And>s. uuid_pos s \<le> uuid_pos (h s))
   \<Longrightarrow> (\<And>s. now_us s \<le> now_us (h s)) \<Longrightarrow> pres queue_idle (modify h)"
  by (simp add: pres_def queue_idle_def)

lemma idle_insertAuditEvent: "pres queue_idle (insertAuditEvent opts)"
  by (simp add: pres_def queue_idle_def insertAuditEvent_def fresh_uuid_def)

lemma idle_upsert_usage: "pres queue_idle (upsert_usage ins upd)"
  by (simp add: pres_def queue_idle_def upsert_usage_def Let_def)

lemma reset_idle: "queue_idle s (reset_snapshot_backoff_on_dirty old new s)"
  by (simp add: queue_idle_def reset_snapshot_backoff_on_dirty_def)

lemma fold_reset_idle: "queue_idle s (fold (\<lambda>r. reset_snapshot_backoff_on_dirty r (g r)) rs s)"
proof (induction rs arbitrary: s)
  case Nil
  then show ?case by (simp add: idle.R_refl)
next
  case (Cons r rs)
  then show ?case using reset_idle idle.R_trans by fastforce
qed

lemma idle_update_problems: "pres queue_idle (update_problems st p f)"
proof (rule presI)
  fix s :: db
  have "queue_idle s (s\<lparr>problems := ps\<rparr>)" for ps by (simp add: queue_idle_def)
  then have "queue_idle s (fold (\<lambda>r. reset_snapshot_backoff_on_dirty r (g r)) rs (s\<lparr>problems := ps\<rparr>))" for g rs ps
    using fold_reset_idle idle.R_trans by blast
  then show "queue_idle s (snd (update_problems st p f s))"
    by (auto simp: update_problems_def Let_def idle.R_refl queue_idle_def split: option.splits)
qed

lemma idle_allocate: "pres queue_idle (allocateGeneration pid)"
  by (simp add: pres_def queue_idle_def allocateGeneration_def)

lemma idle_tables:
  "pres queue_idle (upsertVolume n m x y z)" "pres queue_idle (upsertOrganizationSettings i b c)"
  "pres queue_idle (set_retention ty d)" "pres queue_idle (set_queue paused reason)"
  "pres queue_idle (record_command cl cmd args dry res)" "pres queue_idle (begin_backfill cap)"
  "pres queue_idle failStalledSnapshots" "pres queue_idle delete_old_audit_events" "pres queue_idle prune_snapshots"
  "pres queue_idle (markGcCollected ids)" "pres queue_idle (deferGcMark i e)" "pres queue_idle (recordGcFailure i e)"
  by (simp_all add: pres_def queue_idle_def upsertVolume_def upsertOrganizationSettings_def set_retention_def
      set_queue_def record_command_def begin_backfill_def failStalledSnapshots_def delete_old_audit_events_def
      prune_snapshots_def markGcCollected_def deferGcMark_def recordGcFailure_def Let_def split: option.splits)

lemma idle_mark_candidate: "pres queue_idle (mark_candidate c)"
  by (auto simp: pres_def queue_idle_def mark_candidate_def fresh_uuid_def Let_def split: option.splits)

lemma idle_audit: "pres queue_idle (audit cl act tg)"
  unfolding audit_def by (rule idle_insertAuditEvent)

lemma idle_set_dirty_generation: "pres queue_idle (set_dirty_generation i g)"
  unfolding set_dirty_generation_def by (rule idle_update_problems)

lemma idle_markDirtyIfNoReady: "pres queue_idle (markDirtyIfNoReady i)"
  unfolding markDirtyIfNoReady_def by (intro pres_intros idle_update_problems idle_allocate idle_set_dirty_generation)

lemma safe_lift_sum [pres_intros]: "pres queue_safe (lift_sum v)"
  by (cases v) (simp_all add: lift_sum_def safe.pres_throw safe.pres_ret)

lemmas idle_ops [THEN pres_idle_safe, pres_intros] = idle_insertAuditEvent idle_upsert_usage idle_update_problems
  idle_allocate idle_tables idle_mark_candidate idle_audit idle_markDirtyIfNoReady


subsection \<open>The frame of the routes\<close>

lemma safe_reject [pres_intros]: "pres queue_safe (reject cl st code msg rt)"
  unfolding reject_def by (intro pres_intros)

lemma safe_not_found [pres_intros]: "pres queue_safe (not_found cl msg)"
  unfolding not_found_def by (intro pres_intros)

lemma safe_requireScopes [pres_intros]: "pres queue_safe h \<Longrightarrow> pres queue_safe (requireScopes cl scopes h)"
  unfolding requireScopes_def by (intro pres_intros)

lemma safe_key [pres_intros]: "(\<And>k. pres queue_safe (h k)) \<Longrightarrow> pres queue_safe (getIdempotencyKey cl h)"
  unfolding getIdempotencyKey_def by (intro pres_intros)

lemma safe_with_problem [pres_intros]: "(\<And>p. pres queue_safe (h p)) \<Longrightarrow> pres queue_safe (with_problem cl i h)"
  unfolding with_problem_def by (intro pres_intros)

lemma safe_sendJobError [pres_intros]: "pres queue_safe (sendJobError a cl e)"
  unfolding sendJobError_def Let_def by (cases e) (simp_all add: safe_reject)

lemma safe_job_catch [pres_intros]: "pres queue_safe h \<Longrightarrow> pres queue_safe (job_catch a cl h)"
  unfolding job_catch_def by (intro pres_intros)

lemma safe_case_prod [pres_intros]: "(\<And>x y. pres queue_safe (f x y)) \<Longrightarrow> pres queue_safe (case v of (x, y) \<Rightarrow> f x y)"
  by (cases v) auto

lemma safe_case_sum [pres_intros]:
  "(\<And>x. pres queue_safe (f x)) \<Longrightarrow> (\<And>x. pres queue_safe (g x)) \<Longrightarrow> pres queue_safe (case v of Inl x \<Rightarrow> f x | Inr x \<Rightarrow> g x)"
  by (cases v) auto

lemma safe_case_claim [pres_intros]:
  "pres queue_safe m \<Longrightarrow> (\<And>j. pres queue_safe (f j)) \<Longrightarrow> pres queue_safe (case c of ClaimReady \<Rightarrow> m | ClaimJob j \<Rightarrow> f j)"
  by (cases c) auto

lemma safe_shown [pres_intros]: "pres queue_safe m \<Longrightarrow> pres queue_safe (shown m)"
  unfolding shown_def by (intro pres_intros)

subsection \<open>Scheduling and retention\<close>

lemma safe_scheduleAuto [pres_intros]: "pres queue_safe (scheduleAutoSnapshotJobs env p actor)"
  unfolding scheduleAutoSnapshotJobs_def Let_def by (intro pres_intros)

lemma safe_skip [pres_intros]: "pres queue_safe (skip_conflict e)"
  unfolding skip_conflict_def by (cases e) (simp_all add: safe.pres_throw safe.pres_ret)

lemma safe_schedule_row [pres_intros]: "pres queue_safe (schedule_row env actor r)"
  unfolding schedule_row_def Let_def by (intro pres_intros)

lemma safe_scheduleBatch [pres_intros]: "pres queue_safe (scheduleDirtySnapshotBatch env actor lim)"
  unfolding scheduleDirtySnapshotBatch_def by (intro pres_intros)

lemma safe_delete_jobs [pres_intros]: "pres queue_safe (delete_jobs p)"
  by (rule presI) (auto simp: delete_jobs_def intro!: fewer_safe)

lemma safe_applyRetention [pres_intros]: "pres queue_safe applyRetention"
  unfolding applyRetention_def delete_old_jobs_def mark_objects_def by (intro pres_intros)

lemma safe_purge_loop: "queue_safe s (snd (purge_loop d n acc s))"
proof (induction d n acc s rule: purge_loop.induct)
  case (1 d n acc s)
  obtain deleted t where b: "purge_batch d n s = (deleted, t)" by fastforce
  then have t: "queue_safe s t" by (auto simp: purge_batch_def Let_def intro!: fewer_safe)
  show ?case
  proof (cases "deleted < n \<or> n = 0")
    case True
    with b t show ?thesis by (subst purge_loop.simps) auto
  next
    case False
    with 1 [OF b [symmetric] False] b t show ?thesis
      by (subst purge_loop.simps) (auto intro: safe.R_trans)
  qed
qed

lemma safe_purge [pres_intros]: "pres queue_safe (purgeTerminalJobs env n)"
proof -
  have "pres queue_safe (\<lambda>s. case purge_loop d m acc s of (acc, t) \<Rightarrow> (Inr acc, t))" for d m acc
    by (rule presI) (use safe_purge_loop in \<open>auto split: prod.splits, metis snd_conv\<close>)
  then show ?thesis unfolding purgeTerminalJobs_def by (intro pres_intros)
qed

lemma safe_runOnce: "pres queue_safe (runOnce penv)"
  unfolding runOnce_def by (intro pres_intros)

lemma safe_runReschedule: "pres queue_safe (runRescheduleOnce penv)"
  unfolding runRescheduleOnce_def by (intro pres_intros)

section \<open>The routes\<close>

text \<open>What is asked of the data plane: its calls leave the rows of the queue alone and only raise counters.\<close>

definition plain_app :: "app \<Rightarrow> bool" where
  "plain_app a \<longleftrightarrow>
     (\<forall>i code. pres queue_safe (ap_ready a i code)) \<and> pres queue_safe (ap_volumes a)
     \<and> (\<forall>i ttl path. pres queue_safe (ap_presign a i ttl path))"

lemma safe_reads:
  "pres queue_safe (get_rows cl f)" "pres queue_safe (get_row cl msg g)"
  "pres queue_safe (get_audit_events cl from to opts lim)" "pres queue_safe (get_incident_commands cl cmd lim c)"
  unfolding get_rows_def get_row_def get_audit_events_def get_incident_commands_def Let_def by (intro pres_intros)+

lemma safe_get_volumes: "plain_app a \<Longrightarrow> pres queue_safe (get_volumes a cl)"
  unfolding get_volumes_def Let_def plain_app_def by (intro pres_intros) simp

lemma safe_view: "plain_app a \<Longrightarrow> pres queue_safe (view a cl r)"
  by (cases r; simp only: view.simps list_route_defs; intro safe_shown safe_reads safe_get_volumes)

lemma safe_ensure [pres_intros]: "pres queue_safe (ensure_from a cl key i r)"
  unfolding ensure_from_def rejectTerminalEnsureJob_def by (intro pres_intros)

lemma safe_run_command [pres_intros]:
  "(\<And>r. pres queue_safe (next r)) \<Longrightarrow> pres queue_safe (run_command a cl key cmd args next)"
  unfolding run_command_def Let_def by (intro pres_intros)

definition catalog_write :: "write_request \<Rightarrow> bool" where
  "catalog_write r = (case r of PostReconcile ps \<Rightarrow> True | PostDirty i body \<Rightarrow> True | _ \<Rightarrow> False)"


lemma safe_incident: "pres queue_safe (post_incident_command a cl cmd args dry)"
  unfolding post_incident_command_def Let_def by (intro safe_requireScopes safe_key safe.pres_if safe_reject
      safe_run_command safe.pres_reading safe.pres_bnd safe.pres_ret idle_ops)

lemma safe_perform:
  assumes "plain_app a" and "\<not> catalog_write r"
  shows "pres queue_safe (perform a cl r)"
proof -
  have app: "pres queue_safe (ap_ready a i code)" "pres queue_safe (ap_presign a i ttl path)" for i code ttl path
    using assms(1) by (simp_all add: plain_app_def)
  have "pres queue_safe (post_ensure_ready a cl i)" for i
    unfolding post_ensure_ready_def by (intro pres_intros app)
  moreover have "pres queue_safe (post_download a cl i ttl path)" for i ttl path
    unfolding post_download_def Let_def by (intro pres_intros app)
  moreover have "pres queue_safe (post_schedule_snapshots a cl lim)" for lim
    unfolding post_schedule_snapshots_def
    by (intro pres_intros, simp add: safe_reject safe.pres_throw split: err.split)
  moreover have "pres queue_safe (post_service_token a cl body)" for body
    unfolding post_service_token_def Let_def by (intro pres_intros)
  moreover have "pres queue_safe (post_scan a cl i)" "pres queue_safe (post_snapshot a cl i gen)"
    "pres queue_safe (post_restore a cl i gen dry)" for i gen dry
    unfolding post_scan_def post_snapshot_def post_restore_def by (intro pres_intros)+
  moreover have "pres queue_safe (post_evict a cl i body)" for i body
    unfolding post_evict_def enqueue_evict_def Let_def by (intro pres_intros)
  moreover have "pres queue_safe (put_settings a cl i b n)" "pres queue_safe (post_retry cl i)"
    "pres queue_safe (post_cancel cl i reason)" "pres queue_safe (post_retention_apply cl)"
    "pres queue_safe (put_retention cl i d)" for i b n reason d
    unfolding put_settings_def post_retry_def post_cancel_def post_retention_apply_def put_retention_def
    by (intro pres_intros)+
  moreover have "pres queue_safe (post_backfill_start cl cap l)" for cap l
    unfolding post_backfill_start_def by (intro pres_intros)
  moreover have "pres queue_safe (modify (\<lambda>s. s\<lparr>backfill_state := upd_where p f (backfill_state s)\<rparr>))" for p f
    by (intro pres_idle_safe idle_reading_modify) simp_all
  then have "pres queue_safe (post_backfill_pause cl cap)" for cap
    unfolding post_backfill_pause_def by (intro pres_intros)
  ultimately show ?thesis using assms(2)
    by (cases r) (simp_all add: catalog_write_def safe_shown safe_incident)
qed

definition catalog_request :: "request \<Rightarrow> bool" where
  "catalog_request r = (case r of Write w \<Rightarrow> catalog_write w | _ \<Rightarrow> False)"

lemma safe_serve:
  assumes "plain_app a" and "\<not> catalog_request r"
  shows "pres queue_safe (serve a v r)"
proof -
  have g: "pres queue_safe (guarded a v h)" if "\<And>cl. pres queue_safe (h cl)" for h
  proof -
    have "pres queue_safe (case x of Send st p \<Rightarrow> try_catch (h (caller_of v p)) (\<lambda>_. ret (Refused 500 ''internal''))
        | Fail st code message retryable rid \<Rightarrow> ret (Refused st code))" for x :: "payload reply"
      using that by (cases x) (auto intro: pres_intros)
    then show ?thesis unfolding guarded_def by (intro pres_intros)
  qed
  have "pres queue_safe (on_error rid (post_login a rid u p))" for rid u p
    unfolding on_error_def post_login_def login_audit_def Let_def by (intro pres_intros)
  with assms show ?thesis
    by (cases r) (simp_all add: catalog_request_def g safe_view safe_perform safe_shown safe.pres_ret)
qed

section \<open>The worker\<close>

definition plain_ctx :: "worker_ctx \<Rightarrow> bool" where
  "plain_ctx ctx \<longleftrightarrow>
     (let r = wc_rust ctx in
      (\<forall>c i. pres queue_safe (rc_scan r c i)) \<and> (\<forall>i g c k d. pres queue_safe (rc_createSnapshot r i g c k d))
      \<and> (\<forall>i g d k. pres queue_safe (rc_restore r i g d k)) \<and> (\<forall>i c b f k m. pres queue_safe (rc_evict r i c b f k m))
      \<and> (\<forall>o' k. pres queue_safe (rc_deleteObject r o' k)))
     \<and> pres queue_safe (wc_sleep ctx) \<and> (\<forall>n s. queue_safe s (wc_other ctx n s))"

lemma plain_ctx_calls [pres_intros]:
  assumes "plain_ctx ctx"
  shows "pres queue_safe (rc_scan (wc_rust ctx) c i)" "pres queue_safe (rc_createSnapshot (wc_rust ctx) i g c k d)"
    "pres queue_safe (rc_restore (wc_rust ctx) i g c k)" "pres queue_safe (rc_evict (wc_rust ctx) i c b f k m)"
    "pres queue_safe (rc_deleteObject (wc_rust ctx) c k)" "pres queue_safe (wc_sleep ctx)"
    "pres queue_safe (modify (wc_other ctx n))"
  using assms by (simp_all add: plain_ctx_def Let_def pres_def)

lemma safe_assert [pres_intros]: "pres queue_safe (assertJobLease t)"
  unfolding assertJobLease_def by (intro pres_intros)

lemma safe_guard [pres_intros]: "pres queue_safe (guard_lease ctx t)"
  unfolding guard_lease_def by (intro pres_intros)

lemma safe_requires [pres_intros]: "pres queue_safe (require_problem_id m t)" "pres queue_safe (require_problem pid)"
  unfolding require_problem_id_def require_problem_def by (intro pres_intros)+

lemma safe_usage_writes [pres_intros]:
  assumes "plain_ctx ctx"
  shows "pres queue_safe (upsertProblemUsageForJob (wc_other ctx) t i u)"
    "pres queue_safe (markLocalPresentForJob (wc_other ctx) t i g)"
    "pres queue_safe (clearDirtyAfterSnapshotForJob (wc_other ctx) t i n dv)"
  using assms
  unfolding upsertProblemUsageForJob_def markLocalPresentForJob_def clearDirtyAfterSnapshotForJob_def upsertProblemUsage_def
  by - (intro pres_intros; assumption)+

lemma safe_poll: "plain_ctx ctx \<Longrightarrow> pres queue_safe (poll_snapshot ctx t pid g d fuel st)"
proof (induction fuel arbitrary: st)
  case 0
  then show ?case by (simp add: safe.pres_ret safe.pres_throw)
next
  case (Suc fuel)
  show ?case
    unfolding poll_snapshot.simps by (intro pres_intros Suc.IH Suc.prems)
qed

lemma safe_backfill_items: "plain_ctx ctx \<Longrightarrow> pres queue_safe (backfill_items ctx t cap ps c)"
proof (induction ps arbitrary: c)
  case Nil
  show ?case by (simp only: backfill_items.simps gc_items.simps safe.pres_ret)
next
  case (Cons p ps)
  have "pres queue_safe (backfill_item ctx t cap p c)"
    unfolding backfill_item_def using Cons.prems by (intro pres_intros)
  with Cons show ?case unfolding backfill_items.simps by (intro safe.pres_bnd)
qed

lemma safe_gc_items: "plain_ctx ctx \<Longrightarrow> pres queue_safe (gc_items ctx t gs c)"
proof (induction gs arbitrary: c)
  case Nil
  show ?case by (simp only: backfill_items.simps gc_items.simps safe.pres_ret)
next
  case (Cons g gs)
  have "pres queue_safe (gc_item ctx t g c)"
    unfolding gc_item_def using Cons.prems by (intro pres_intros)
  with Cons show ?case unfolding gc_items.simps by (intro safe.pres_bnd)
qed

lemma safe_dispatch:
  assumes "plain_ctx ctx"
  shows "pres queue_safe (dispatch ctx t)"
proof -
  have "pres queue_safe (scan_handler ctx t)"
    unfolding scan_handler_def using assms by (intro pres_intros)
  moreover have "pres queue_safe (snapshot_handler ctx t)"
    unfolding snapshot_handler_def Let_def using assms by (intro pres_intros safe_poll)
  moreover have "pres queue_safe (restore_handler ctx t)" "pres queue_safe (evict_handler ctx t)"
    unfolding restore_handler_def evict_handler_def using assms by - (intro pres_intros; assumption)+
  moreover have "pres queue_safe (modify (backfill_advance cap nc hm n c))" for cap nc hm n c
    by (intro pres_idle_safe idle_reading_modify) (simp_all add: backfill_advance_def)
  then have "pres queue_safe (backfill_handler ctx t)"
    unfolding backfill_handler_def Let_def using assms by (intro pres_intros safe_backfill_items)
  moreover have "pres queue_safe (gcCollect_handler ctx t)"
    unfolding gcCollect_handler_def Let_def using assms by (intro pres_intros safe_gc_items)
  moreover have "pres queue_safe reconcile_handler" "pres queue_safe (incident_handler t)"
    unfolding reconcile_handler_def incident_handler_def by (intro pres_intros)+
  ultimately show ?thesis
    unfolding dispatch_def by (simp add: safe.pres_throw split: job_type.split)
qed

lemma safe_runJob: "plain_ctx ctx \<Longrightarrow> pres queue_safe (runJob ctx t)"
  unfolding runJob_def by (intro pres_intros safe_dispatch safe_complete) (simp_all add: final_state_def)

lemma safe_loop_turn: "plain_ctx ctx \<Longrightarrow> pres queue_safe (loop_turn ctx n ln)"
  unfolding loop_turn_def by (intro pres_intros safe_runJob)


section \<open>The system\<close>

text \<open>
  A step of the running system: a request is served, a worker loop makes a turn, a renewal timer goes
  off, a maintenance run or a reschedule happens, or something that does not touch the queue (time,
  the data plane, the command line). Between the statements of a turn of a worker, other steps may
  happen: \<open>wc_other\<close> and \<open>wc_sleep\<close> are arbitrary queue-safe computations. The two routes that
  rewrite the catalog are not steps: taking over an orphan row moves jobs to a counter that does not
  know their tokens (\<open>orphan_claim_restarts_tokens\<close>).
\<close>

inductive system_step :: "db \<Rightarrow> db \<Rightarrow> bool" where
  sys_serve: "plain_app a \<Longrightarrow> \<not> catalog_request r \<Longrightarrow> system_step s (snd (serve a v r s))"
| sys_worker: "plain_ctx ctx \<Longrightarrow> system_step s (snd (loop_turn ctx n ln s))"
| sys_renew: "system_step s (snd (renewJobLease i w k n s))"
| sys_maintain: "system_step s (snd (runOnce penv s))"
| sys_reschedule: "system_step s (snd (runRescheduleOnce penv s))"
| sys_idle: "queue_idle s t \<Longrightarrow> system_step s t"

inductive_cases system_stepE: "system_step s t"

lemma system_step_safe: "system_step s t \<Longrightarrow> queue_safe s t"
  by (induction rule: system_step.induct)
    (auto intro: presD safe_serve safe_loop_turn safe_jobs safe_runOnce safe_runReschedule idle_safe)

lemma system_steps_safe: "system_step\<^sup>*\<^sup>* s t \<Longrightarrow> queue_safe s t"
  by (induction rule: rtranclp_induct) (auto intro: safe.R_refl safe.R_trans system_step_safe)

lemma safe_ok: "queue_safe s t \<Longrightarrow> queue_ok s \<Longrightarrow> queue_ok t"
  by (auto simp: queue_safe_def queue_ok_def fence_step_def keeps_rows_def)



section \<open>Witnesses\<close>

lemma admin_app_plain: "plain_app admin_app"
  by (simp add: plain_app_def admin_app_def demo_app_def safe.pres_ret safe.pres_throw del: ret_simp throw_simp)

lemma demo_ctx_plain: "plain_ctx demo_ctx"
proof -
  have "pres queue_safe (modify (\<lambda>s. s\<lparr>now_us := now_us s + 5000000\<rparr>))"
    by (intro pres_idle_safe idle_reading_modify) simp_all
  then show ?thesis
    by (simp add: plain_ctx_def demo_ctx_def demo_rust_def safe.pres_ret safe.pres_throw safe.R_refl del: ret_simp throw_simp)
qed

definition collect_request :: request where
  "collect_request = Write (PostIncidentCommand ''gc_collect'' JNull None)"

lemma collect_runs:
  "map (\<lambda>j. (j_state j, j_fencing_token j)) (jobs (snd (serve admin_app demo_envelope collect_request (initial_db demo_uuid))))
   = [(Pending, 0)]"
proof -
  have "js_number (JNum 100) = JNum 100" by (simp add: js_number_def)
  then show ?thesis
    by (simp add: collect_request_def demo_envelope_def guarded_def admin_authenticate caller_of_def admin_payload_def
        post_incident_command_def requireScopes_def hasScope_def getIdempotencyKey_def valid_commands_def
        run_command_def shown_def collect_opts_def setJobPayload_def record_command_def audit_def
        insertAuditEvent_def no_target_def accepted_def demo_uuid_def initial_db_def queue_eval)
qed



end
