(* ===== verification/Leases.thy ===== *)
theory Leases
  imports Scheduling
begin

text \<open>
  What acquiring, cancelling and expiring do to the leases of the job queue
  (\<open>acquireJob\<close>, \<open>cancelJob\<close>, \<open>failExpiredRunningJobs\<close> of \<open>control-plane/src/db.ts\<close>): who holds the
  lease afterwards, which job is served next, and whose lease is gone.
\<close>

section \<open>Acquisition\<close>

text \<open>The order in which waiting jobs are served: restores first, then the oldest.\<close>

definition serving_order :: "job \<Rightarrow> bool \<times> time \<times> string" where
  "serving_order j = (j_job_type j \<noteq> Restore, j_created_at j, j_id j)"

lemma candidate_first:
  assumes "candidate ln s = Some c" and "j \<in> set (jobs s)" and "acquirable ln s j"
  shows "serving_order c \<le> serving_order j"
proof (cases ln)
  case LaneRestore
  have "(j_created_at c, j_id c) \<le> (j_created_at j, j_id j)"
    using first_by_least [of "\<lambda>j. (j_created_at j, j_id j)" "acquirable ln s" "jobs s" c j] assms LaneRestore
    by (simp add: candidate_def)
  moreover have "j_job_type c = Restore" "j_job_type j = Restore"
    using candidate_Some [OF assms(1)] assms(3) LaneRestore by (auto simp: acquirable_def)
  ultimately show ?thesis by (simp add: serving_order_def)
next
  case LaneBulk
  then show ?thesis
    using first_by_least [of serving_order "acquirable ln s" "jobs s" c j] assms
    by (simp add: candidate_def serving_order_def [abs_def])
qed

definition granted_row :: "string \<Rightarrow> nat \<Rightarrow> nat \<Rightarrow> time \<Rightarrow> job \<Rightarrow> job" where
  "granted_row w n token now j =
     j\<lparr>j_state := Running, j_lease_owner := Some w, j_lease_expires_at := Some (now + seconds n),
       j_fencing_token := token, j_attempt := (if j_state j = Pending then j_attempt j else j_attempt j + 1),
       j_error_code := None, j_error_message := None, j_updated_at := now\<rparr>"

lemma acquire_stmt_Inr:
  assumes ok: "jobs_violation (jobs s) = None" and run: "acquire_stmt w n ln s = (Inr (r # rs), s')"
  shows "\<exists>c. candidate ln s = Some c \<and> r = granted_row w n (next_of (job_fencing_counters s) (key_of c)) (now_us s) c
    \<and> r \<in> set (jobs s') \<and> now_us s' = now_us s"
proof -
  obtain c where c: "candidate ln s = Some c"
    using run by (cases "candidate ln s") (auto simp: acquire_stmt_def)
  then have inc: "c \<in> set (jobs s)" "j_attempt c < j_max_attempts c"
    using candidate_Some [OF c] by (auto simp: acquirable_def)
  define p :: "job \<Rightarrow> bool" where "p = (\<lambda>j. j_id j = j_id c \<and> j_attempt j < j_max_attempts j)"
  define f :: "job \<Rightarrow> job" where "f = (\<lambda>j. j\<lparr>j_state := Running, j_lease_owner := Some w,
      j_lease_expires_at := Some (now_us s + seconds n), j_fencing_token := next_of (job_fencing_counters s) (key_of c),
      j_attempt := (if j_state j = Pending then j_attempt j else j_attempt j + 1),
      j_error_code := None, j_error_message := None\<rparr>)"
  define s0 where "s0 = s\<lparr>job_fencing_counters := bump (key_of c) 1 (job_fencing_counters s)\<rparr>"
  obtain q t where u: "update_jobs True p f s0 = (q, t)" by fastforce
  have qt: "q = Inr (r # rs) \<and> t = s'"
    using run u by (auto simp: acquire_stmt_def c Let_def p_def f_def s0_def key_of_def split: sum.splits)
  have "filter (\<lambda>j. j_id j = j_id c) (jobs s) = [c]"
    using filter_unique_key [of j_id "jobs s" c] ok inc by (simp add: jobs_violation_None)
  then have "filter p (filter (\<lambda>j. j_id j = j_id c) (jobs s)) = [c]"
    using inc(2) by (simp add: p_def del: filter_filter)
  moreover have "filter p (filter (\<lambda>j. j_id j = j_id c) (jobs s)) = filter p (jobs s)"
    by (auto simp: p_def intro!: filter_cong)
  ultimately have "filter p (jobs s) = [c]" by simp
  moreover have "p c" using inc(2) by (simp add: p_def)
  moreover have "jobs s0 = jobs s" "now_us s0 = now_us s" by (simp_all add: s0_def)
  ultimately have "r = (f c)\<lparr>j_updated_at := now_us s\<rparr>" "r \<in> set (jobs s')"
    using u qt inc(1) by (auto elim!: update_jobs_cases intro!: image_eqI [where x = c])
  moreover have "now_us s' = now_us s" using update_jobs_frame(1) [OF u] qt by (simp add: s0_def)
  ultimately show ?thesis using c by (auto simp: granted_row_def f_def)
qed

lemma failExpired_frame:
  assumes "failExpiredRunningJobs s = (r, s')"
  shows "now_us s' = now_us s" "queue_state s' = queue_state s"
    "\<And>j. acquirable ln s' j \<Longrightarrow> j \<in> set (jobs s') \<longleftrightarrow> j \<in> set (jobs s)"
proof -
  define locked where "locked = filter (exhausted s) (jobs s)"
  define s0 where "s0 = s\<lparr>job_fencing_counters := bump_groups locked (job_fencing_counters s)\<rparr>"
  define f :: "job \<Rightarrow> job" where "f = (\<lambda>j. j\<lparr>j_state := Failed,
      j_fencing_token := revoked_token locked (bump_groups locked (job_fencing_counters s)) j,
      j_error_code := Some ''lease_expired'', j_error_message := Some ''Worker lease expired before completion'',
      j_completed_at := Some (now_us s)\<rparr>)"
  obtain q t where u: "update_jobs True (exhausted s) f s0 = (q, t)" by fastforce
  then have s': "s' = (case q of Inl e \<Rightarrow> s | Inr rows \<Rightarrow> t)"
    using assms by (auto simp: failExpiredRunningJobs_def Let_def locked_def f_def s0_def split: sum.splits)
  show now: "now_us s' = now_us s" and "queue_state s' = queue_state s"
    using update_jobs_frame(1,8) [OF u] s' by (auto simp: s0_def split: sum.splits)
  show "j \<in> set (jobs s') \<longleftrightarrow> j \<in> set (jobs s)" if a: "acquirable ln s' j" for j
  proof -
    have ne: "\<not> exhausted s j" using a now by (auto simp: acquirable_def exhausted_def)
    have nf: "j \<noteq> updated_job (exhausted s) f (now_us s0) l" if "exhausted s l" for l
      using a that by (auto simp: acquirable_def expired_def f_def)
    show ?thesis
      using u ne nf s' by (cases q) (auto simp: s0_def updated_job_def image_iff elim!: update_jobs_cases)
  qed
qed

lemma acquirable_cong:
  "now_us t = now_us s \<Longrightarrow> queue_state t = queue_state s \<Longrightarrow> acquirable ln t = acquirable ln s"
  by (auto simp: acquirable_def expired_def queue_paused_def fun_eq_iff)

lemma acquireJob_Some:
  assumes ok: "queue_ok s" and run: "acquireJob w n ln s = (Inr (Some t), s')"
  shows "\<exists>c token. c \<in> set (jobs s) \<and> acquirable ln s c \<and> j_fencing_token c < token
    \<and> t = rowToJob (granted_row w n token (now_us s) c)
    \<and> granted_row w n token (now_us s) c \<in> set (jobs s') \<and> now_us s' = now_us s
    \<and> (\<forall>j \<in> set (jobs s). acquirable ln s j \<longrightarrow> serving_order c \<le> serving_order j)"
proof -
  obtain k s1 where ex: "failExpiredRunningJobs s = (Inr k, s1)" and st: "\<exists>rows. acquire_stmt w n ln s1 = (Inr rows, s')
      \<and> (case rows of [] \<Rightarrow> None | r # _ \<Rightarrow> Some (rowToJob r)) = Some t"
    using run unfolding acquireJob_def
    by (auto simp: bnd_eq_Inr bnd_eq_Inl try_catch_eq_Inr split: if_splits)
  then obtain r rs where r: "acquire_stmt w n ln s1 = (Inr (r # rs), s')" "t = rowToJob r"
    by (metis (no_types, lifting) list.case(1) list.case(2) list.exhaust option.distinct(1) option.inject)
  have ok1: "fence_ok s1"
    using presD [OF fence_failExpired, of s] ex ok by (simp add: fence_step_def queue_ok_def)
  obtain c where c: "candidate ln s1 = Some c"
    "r = granted_row w n (next_of (job_fencing_counters s1) (key_of c)) (now_us s1) c" "r \<in> set (jobs s')"
    "now_us s' = now_us s1"
    using acquire_stmt_Inr [OF _ r(1)] ok1 by (auto simp: fence_ok_def)
  note fr = failExpired_frame [OF ex]
  have acq: "acquirable ln s1 = acquirable ln s" by (rule acquirable_cong [OF fr(1,2)])
  note cs = candidate_Some [OF c(1)]
  have same: "j \<in> set (jobs s1) \<longleftrightarrow> j \<in> set (jobs s)" if "acquirable ln s j" for j
    using fr(3) [of ln j] that acq by simp
  have "c \<in> set (jobs s)" "acquirable ln s c" using cs same acq by auto
  moreover have "j_fencing_token c < next_of (job_fencing_counters s1) (key_of c)"
    using ok1 cs by (simp add: fence_ok_def)
  moreover have "\<forall>j \<in> set (jobs s). acquirable ln s j \<longrightarrow> serving_order c \<le> serving_order j"
    using candidate_first [OF c(1)] same acq by simp
  ultimately show ?thesis using c r(2) fr(1) by auto
qed

lemma granted_holds:
  assumes "queue_ok s" and "c \<in> set (jobs s)" and "acquirable ln s c" and "now_us s' = now_us s"
    and "granted_row w n token (now_us s) c \<in> set (jobs s')"
  shows "holds_lease s' (rowToJob (granted_row w n token (now_us s) c))"
proof -
  let ?g = "granted_row w n token (now_us s) c"
  have "job_row_ok c" using assms(1,2) by (simp add: queue_ok_def rows_ok_def)
  moreover have "job_active c" using assms(3) by (auto simp: acquirable_def expired_def job_active_def)
  ultimately have "j_requested_cancel_at c = None" by (simp add: job_row_ok_def)
  then have "lease_held s' (j_id ?g) (j_lease_owner ?g) (j_fencing_token ?g) ?g"
    using assms(4) by (simp add: lease_held_def granted_row_def eq_null_def ge_null_def)
  then show ?thesis using assms(5) by (auto simp: holds_lease_def rowToJob_def)
qed

text \<open>C25: acquisition grants a lease, and the right one. If \<open>acquireJob\<close> returns a job, its caller
  holds the job's lease afterwards under its own name; the row was waiting (or running with an
  expired lease) with an attempt left, in the caller's lane; its token is above every token the
  row had before; and no other job that could have been served comes before it in the order
  restores first, then oldest first.\<close>

theorem acquire_grants_lease:
  assumes "queue_ok s" and "acquireJob w n ln s = (Inr (Some t), s')"
  shows "holds_lease s' t \<and> jt_lease_owner t = Some w
    \<and> (\<exists>c \<in> set (jobs s). j_id c = jt_id t \<and> acquirable ln s c \<and> j_fencing_token c < jt_fencing_token t
        \<and> (\<forall>j \<in> set (jobs s). acquirable ln s j \<longrightarrow> serving_order c \<le> serving_order j))"
proof -
  obtain c token where c: "c \<in> set (jobs s)" "acquirable ln s c" "j_fencing_token c < token"
    "t = rowToJob (granted_row w n token (now_us s) c)" "granted_row w n token (now_us s) c \<in> set (jobs s')"
    "now_us s' = now_us s" "\<forall>j \<in> set (jobs s). acquirable ln s j \<longrightarrow> serving_order c \<le> serving_order j"
    using acquireJob_Some [OF assms] by blast
  then have "holds_lease s' t" using granted_holds [OF assms(1)] by blast
  with c show ?thesis by (auto simp: rowToJob_def granted_row_def)
qed

section \<open>Revocation\<close>

text \<open>Cancelling revokes the lease. Cancelling a job somebody holds the lease of succeeds, returns
  the cancelled row, and leaves the holder superseded: by \<open>stale_worker_never_commits\<close> it can
  never assert, renew or complete again.\<close>

theorem cancel_revokes_lease:
  assumes ok: "queue_ok s" and l: "holds_lease s t" and fresh: "\<not> future_uuid s (jt_id t)"
  shows "\<exists>r s'. cancelJob (jt_id t) reason s = (Inr (Some r), s') \<and> jt_id r = jt_id t
    \<and> jt_state r = Cancelled \<and> superseded s' t"
proof -
  obtain j where j: "j \<in> set (jobs s)" "lease_held s (jt_id t) (jt_lease_owner t) (jt_fencing_token t) j"
    using l by (auto simp: holds_lease_def)
  then have jj: "j_id j = jt_id t" "job_active j" "j_fencing_token j = jt_fencing_token t"
    by (auto simp: lease_held_def job_active_def)
  have viol: "jobs_violation (jobs s) = None" using ok by (simp add: queue_ok_def rows_ok_def)
  obtain l where f: "List.find (\<lambda>x. j_id x = jt_id t \<and> job_active x) (jobs s) = Some l"
    using j(1) jj by (cases "List.find (\<lambda>x. j_id x = jt_id t \<and> job_active x) (jobs s)") (auto simp: find_None_iff2)
  then have "l \<in> set (jobs s)" "j_id l = j_id j" using jj(1) by (auto dest: find_Some_in)
  then have "l = j" using id_unique [OF viol] j(1) by blast
  define token where "token = next_of (job_fencing_counters s) (key_of j)"
  have tok: "jt_fencing_token t < token" using ok j(1) jj(3) by (auto simp: token_def queue_ok_def fence_ok_def)
  define p :: "job \<Rightarrow> bool" where "p = (\<lambda>x. j_id x = j_id j)"
  define g :: "job \<Rightarrow> job" where "g = (\<lambda>x. x\<lparr>j_state := Cancelled, j_fencing_token := token,
      j_requested_cancel_at := Some (now_us s), j_requested_cancel_reason := reason, j_error_message := reason,
      j_completed_at := Some (now_us s)\<rparr>)"
  define s0 where "s0 = s\<lparr>job_fencing_counters := bump (key_of j) 1 (job_fencing_counters s)\<rparr>"
  obtain q s' where u: "update_jobs True p g s0 = (q, s')" by fastforce
  have "no_activation (updated_job p g (now_us s0))"
    by (auto simp: no_activation_updated job_active_def g_def)
  then have nv: "jobs_violation (map (updated_job p g (now_us s0)) (jobs s)) = None"
    by (rule jobs_violation_no_activation [OF viol])
  have hit: "filter p (jobs s) = [j]"
    unfolding p_def using filter_unique_key [of j_id "jobs s" j] viol j(1) by (simp add: jobs_violation_None)
  have q: "q = Inr [updated_job p g (now_us s0) j]" "jobs s' = map (updated_job p g (now_us s0)) (jobs s)"
    using u nv hit by (auto simp: s0_def elim!: update_jobs_cases)
  have run: "cancelJob (jt_id t) reason s = (Inr (Some (rowToJob (updated_job p g (now_us s0) j))), s')"
    using f \<open>l = j\<close> u q(1)
    by (simp add: cancelJob_def Let_def p_def g_def s0_def token_def key_of_def first_row_def)
  have "\<not> future_uuid s' (jt_id t)"
    using fresh update_jobs_frame(2,3) [OF u] by (simp add: future_uuid_def s0_def)
  moreover have "jt_fencing_token t < j_fencing_token x" if "x \<in> set (jobs s')" "j_id x = jt_id t" for x
    using that q(2) tok jj(1) by (auto simp: updated_job_def p_def g_def split: if_splits)
  ultimately have "superseded s' t" by (simp add: superseded_def)
  moreover have "p j" by (simp add: p_def)
  ultimately show ?thesis using run jj(1) by (simp add: rowToJob_def g_def)
qed

section \<open>Head-of-line blocking\<close>

text \<open>
  \<open>acquireJob\<close> looks at one candidate only. While a scan of problem 1 runs, its snapshot (a pair
  that \<open>createJob\<close> allows to wait side by side) is the oldest waiting job but cannot start; the
  unique index refuses it, the function answers null, and the younger job of problem 2 waits as
  long as the scan runs, whatever the number of idle workers.
\<close>

definition blocked_queue :: db where
  "blocked_queue = demo_db [demo_running ''a'' Scan (Some ''1''),
     (demo_job ''b'' Snapshot (Some ''1'') Pending)\<lparr>j_created_at := 1\<rparr>,
     (demo_job ''c'' Scan (Some ''2'') Pending)\<lparr>j_created_at := 2\<rparr>]"

lemma acquire_head_of_line:
  "acquirable LaneBulk blocked_queue ((demo_job ''c'' Scan (Some ''2'') Pending)\<lparr>j_created_at := 2\<rparr>)"
  "fst (acquireJob ''w'' 60 LaneBulk blocked_queue) = Inr None"
  by (simp_all add: blocked_queue_def demo_simps queue_eval)

section \<open>Witnesses\<close>

definition waiting_queue :: db where
  "waiting_queue = demo_db [(demo_job ''b'' Scan (Some ''1'') Pending)\<lparr>j_fencing_token := 1\<rparr>]"

lemma waiting_queue_ok: "queue_ok waiting_queue"
  by (simp add: waiting_queue_def queue_ok_def fence_ok_def rows_ok_def job_row_ok_def key_of_def demo_simps queue_eval)

theorem acquire_grants_lease_witness:
  "\<exists>t s'. acquireJob ''w'' 60 LaneBulk waiting_queue = (Inr (Some t), s') \<and> holds_lease s' t \<and> 1 < jt_fencing_token t"
proof -
  obtain t s' where run: "acquireJob ''w'' 60 LaneBulk waiting_queue = (Inr (Some t), s')"
    by (simp add: waiting_queue_def demo_simps queue_eval)
  from acquire_grants_lease [OF waiting_queue_ok run] run show ?thesis
    by (auto simp: waiting_queue_def demo_simps)
qed

definition leased_queue :: db where
  "leased_queue = demo_db [demo_running ''a'' Scan (Some ''1'')]"

theorem cancel_revokes_lease_witness:
  "\<exists>r s'. cancelJob ''a'' None leased_queue = (Inr (Some r), s') \<and> jt_state r = Cancelled
     \<and> superseded s' (rowToJob (demo_running ''a'' Scan (Some ''1'')))"
proof -
  let ?t = "rowToJob (demo_running ''a'' Scan (Some ''1''))"
  have ok: "queue_ok leased_queue"
    by (simp add: leased_queue_def queue_ok_def fence_ok_def rows_ok_def job_row_ok_def key_of_def demo_simps queue_eval)
  have l: "holds_lease leased_queue ?t" by (simp add: leased_queue_def demo_simps queue_eval)
  have "\<not> future_uuid leased_queue (jt_id ?t)"
    by (simp add: future_uuid_def leased_queue_def demo_simps rowToJob_def)
  from cancel_revokes_lease [OF ok l this, of None] show ?thesis by (auto simp: rowToJob_def demo_simps)
qed

end
