(* ===== verification/Progress.thy ===== *)
theory Progress
  imports System Leases
begin

text \<open>
  What the queue promises: that it refines the fenced locks of \<open>Locks\<close>, in whatever way the parts of
  the system interleave, and that the work gets done: a worker loop that is not disturbed serves
  every waiting job and then finds nothing to do.
\<close>

section \<open>The locks of the running system\<close>


section \<open>Acquisition without competition\<close>

definition no_running :: "db \<Rightarrow> bool" where
  "no_running s \<longleftrightarrow> (\<forall>j \<in> set (jobs s). j_state j \<noteq> Running)"

lemma failExpired_none:
  assumes "no_running s" and "jobs_violation (jobs s) = None"
  shows "failExpiredRunningJobs s = (Inr 0, s)"
proof -
  have ex: "\<not> exhausted s j" if "j \<in> set (jobs s)" for j
    using assms(1) that by (auto simp: exhausted_def expired_def no_running_def)
  then have e: "filter (exhausted s) (jobs s) = []" by (simp add: filter_empty_conv)
  have "update_jobs True (exhausted s) f (s\<lparr>job_fencing_counters := job_fencing_counters s\<rparr>) = (Inr [], s)" for f
    using update_jobs_no_hit [of s "exhausted s" True f] assms(2) ex by simp
  then show ?thesis by (simp add: failExpiredRunningJobs_def e bump_groups_def)
qed

lemma unique_on_single: "(\<And>x. x \<in> set xs \<Longrightarrow> p x \<Longrightarrow> x = y) \<Longrightarrow> distinct xs \<Longrightarrow> unique_on p k xs"
proof -
  assume "\<And>x. x \<in> set xs \<Longrightarrow> p x \<Longrightarrow> x = y" and "distinct xs"
  then have "filter p xs = [] \<or> filter p xs = [y]"
    by (induction xs) (auto simp: filter_empty_conv)
  then show ?thesis by (auto simp: unique_on_def)
qed

text \<open>Starting one waiting job while nothing runs breaks no index.\<close>

definition started :: "string \<Rightarrow> nat \<Rightarrow> job \<Rightarrow> db \<Rightarrow> job list" where
  "started w n c s = map (\<lambda>x. if j_id x = j_id c
     then granted_row w n (next_of (job_fencing_counters s) (key_of c)) (now_us s) x else x) (jobs s)"

lemma started_ok:
  assumes ok: "jobs_violation (jobs s) = None" and idle: "no_running s"
    and c: "c \<in> set (jobs s)" "j_state c = Pending"
  shows "jobs_violation (started w n c s) = None"
proof -
  define g where "g = (\<lambda>x. if j_id x = j_id c
     then granted_row w n (next_of (job_fencing_counters s) (key_of c)) (now_us s) x else x)"
  have js: "started w n c s = map g (jobs s)" by (simp add: started_def g_def)
  have same: "j_id (g x) = j_id x" "j_idempotency_key (g x) = j_idempotency_key x" "j_job_type (g x) = j_job_type x"
    "j_problem_id (g x) = j_problem_id x" for x
    by (simp_all add: g_def granted_row_def)
  have only: "x = c" if "x \<in> set (jobs s)" "j_id x = j_id c" for x
    using id_unique [OF ok that(1) c(1) that(2)] .
  have act: "job_active (g x) = job_active x" if "x \<in> set (jobs s)" for x
    using only [OF that] c(2) by (auto simp: g_def granted_row_def job_active_def)
  have run: "x = c" if "x \<in> set (jobs s)" "j_state (g x) = Running" for x
    using only [OF that(1)] idle that by (auto simp: g_def no_running_def split: if_splits)
  have keep: "unique_on p k (map g (jobs s))"
    if "unique_on p k (jobs s)" "\<And>x. x \<in> set (jobs s) \<Longrightarrow> p (g x) = p x" "\<And>x. k (g x) = k x" for p and k :: "job \<Rightarrow> 'k"
  proof -
    have "filter (p \<circ> g) (jobs s) = filter p (jobs s)" using that(2) by (intro filter_cong) simp_all
    then have "map k (filter p (map g (jobs s))) = map (k \<circ> g) (filter p (jobs s))" by (simp add: filter_map)
    also have "\<dots> = map k (filter p (jobs s))" using that(3) by simp
    finally show ?thesis using that(1) by (simp add: unique_on_def)
  qed
  have d: "distinct (map g (jobs s))"
    using ok same(1) by (simp add: jobs_violation_None distinct_map inj_on_def) metis
  have "unique_on idx_running j_problem_id (map g (jobs s))"
    by (rule unique_on_single [where y = "g c", OF _ d]) (use run in \<open>auto simp: idx_running_def\<close>)
  moreover have "unique_on idx_active (\<lambda>j. (j_problem_id j, j_job_type j)) (map g (jobs s))"
    by (rule keep) (use ok act same in \<open>auto simp: jobs_violation_None idx_active_def local_operation_def\<close>)
  moreover have "unique_on idx_gc j_job_type (map g (jobs s))"
    by (rule keep) (use ok act same in \<open>auto simp: jobs_violation_None idx_gc_def\<close>)
  ultimately show ?thesis
    using ok same by (simp add: js jobs_violation_None comp_def)
qed

text \<open>If nothing runs, nothing is paused and something waits, a bulk worker gets a job.\<close>

lemma acquire_idle:
  assumes ok: "queue_ok s" and idle: "no_running s" "\<not> queue_paused s"
    and j: "j \<in> set (jobs s)" "j_state j = Pending"
  shows "\<exists>c s'. c \<in> set (jobs s) \<and> j_state c = Pending
    \<and> acquireJob w n LaneBulk s = (Inr (Some (rowToJob (granted_row w n (next_of (job_fencing_counters s) (key_of c)) (now_us s) c))), s')
    \<and> jobs s' = started w n c s \<and> now_us s' = now_us s \<and> queue_state s' = queue_state s"
proof -
  have viol: "jobs_violation (jobs s) = None" using ok by (simp add: queue_ok_def rows_ok_def)
  have row: "job_row_ok x" if "x \<in> set (jobs s)" for x using ok that by (simp add: queue_ok_def rows_ok_def)
  have "acquirable LaneBulk s j" using row [OF j(1)] j(2) idle(2) by (simp add: acquirable_def job_row_ok_def)
  then obtain c where c: "candidate LaneBulk s = Some c"
    using j(1) by (cases "candidate LaneBulk s") (auto simp: candidate_def first_by_None)
  then have cs: "c \<in> set (jobs s)" "j_state c = Pending" "j_attempt c < j_max_attempts c"
    using candidate_Some [OF c] idle(1) by (auto simp: acquirable_def expired_def no_running_def)
  define k where "k = next_of (job_fencing_counters s) (key_of c)"
  define s0 where "s0 = s\<lparr>job_fencing_counters := bump (key_of c) 1 (job_fencing_counters s)\<rparr>"
  define p :: "job \<Rightarrow> bool" where "p = (\<lambda>x. j_id x = j_id c \<and> j_attempt x < j_max_attempts x)"
  define f :: "job \<Rightarrow> job" where "f = (\<lambda>x. x\<lparr>j_state := Running, j_lease_owner := Some w,
      j_lease_expires_at := Some (now_us s + seconds n), j_fencing_token := k,
      j_attempt := (if j_state x = Pending then j_attempt x else j_attempt x + 1),
      j_error_code := None, j_error_message := None\<rparr>)"
  have only: "x = c" if "x \<in> set (jobs s)" "j_id x = j_id c" for x
    using id_unique [OF viol that(1) cs(1) that(2)] .
  have "updated_job p f (now_us s) x = (if j_id x = j_id c then granted_row w n k (now_us s) x else x)"
    if "x \<in> set (jobs s)" for x
    using only [OF that] cs(3) by (auto simp: updated_job_def p_def f_def granted_row_def)
  then have m: "map (updated_job p f (now_us s)) (jobs s) = started w n c s" by (simp add: started_def k_def)
  have hit: "map (updated_job p f (now_us s)) (filter p (jobs s)) = [granted_row w n k (now_us s) c]"
  proof -
    have "filter p (jobs s) = filter (\<lambda>x. j_id x = j_id c) (jobs s)"
      using only cs(3) by (intro filter_cong) (auto simp: p_def)
    also have "\<dots> = [c]" using filter_unique_key [of j_id "jobs s" c] viol cs(1) by (simp add: jobs_violation_None)
    finally show ?thesis using cs(3) by (simp add: updated_job_def p_def f_def granted_row_def)
  qed
  obtain r t where u: "update_jobs True p f s0 = (r, t)" by fastforce
  from u have rt: "r = Inr [granted_row w n k (now_us s) c] \<and> jobs t = started w n c s"
  proof (cases rule: update_jobs_cases)
    case (failed e)
    with m started_ok [OF viol idle(1) cs(1,2)] show ?thesis by (simp add: s0_def)
  next
    case ok
    with m hit show ?thesis by (simp add: s0_def)
  qed
  have "acquire_stmt w n LaneBulk s = (r, t)"
    using c u rt by (simp add: acquire_stmt_def Let_def s0_def p_def f_def k_def key_of_def)
  then have "acquireJob w n LaneBulk s = (Inr (Some (rowToJob (granted_row w n k (now_us s) c))), t)"
    using rt by (simp add: acquireJob_def bnd_def failExpired_none [OF idle(1) viol] try_catch_def)
  moreover have "now_us t = now_us s" "queue_state t = queue_state s"
    using update_jobs_frame(1,8) [OF u] by (simp_all add: s0_def)
  ultimately show ?thesis using rt cs(1,2) unfolding k_def by blast
qed

section \<open>A worker loop drains the queue\<close>

text \<open>
  What is asked of the handlers: started with a fresh lease of \<open>n\<close> seconds they return before it runs
  out, with a result or an error of their own, and leave the queue alone. Backfill jobs enqueue more
  work and are left out.
\<close>

definition prompt :: "worker_ctx \<Rightarrow> nat \<Rightarrow> bool" where
  "prompt ctx n \<longleftrightarrow> (\<forall>s. wc_leaseValid ctx s)
     \<and> (\<forall>t s j. j \<in> set (jobs s) \<and> lease_held s (jt_id t) (jt_lease_owner t) (jt_fencing_token t) j
          \<and> j_lease_expires_at j = Some (now_us s + seconds n) \<and> jt_job_type t \<noteq> Backfill
        \<longrightarrow> (\<exists>r s'. dispatch ctx t s = (r, s') \<and> (\<forall>i. r \<noteq> Inl (JobLeaseLostError i))
              \<and> queue_idle s s' \<and> queue_state s' = queue_state s \<and> now_us s' \<le> now_us s + seconds n))"

definition calm :: "db \<Rightarrow> bool" where
  "calm s \<longleftrightarrow> queue_ok s \<and> no_running s \<and> \<not> queue_paused s
     \<and> (\<forall>j \<in> set (jobs s). j_state j = Pending \<longrightarrow> j_job_type j \<noteq> Backfill)"

definition waiting :: "db \<Rightarrow> nat" where
  "waiting s = count_where (\<lambda>j. j_state j = Pending) (jobs s)"

text \<open>So many turns of a loop; the result is the number of jobs that were run.\<close>

fun turns :: "worker_ctx \<Rightarrow> nat \<Rightarrow> lane \<Rightarrow> nat \<Rightarrow> (db, nat) act" where
  "turns ctx n ln 0 = ret 0"
| "turns ctx n ln (Suc k) =
     bnd (loop_turn ctx n ln) (\<lambda>b. bnd (turns ctx n ln k) (\<lambda>m. ret (of_bool b + m)))"

lemma runJob_ends:
  assumes "holds_lease s t" "wc_leaseValid ctx s" and run: "dispatch ctx t s = (r, s')"
    and "\<And>i. r \<noteq> Inl (JobLeaseLostError i)" and ok: "jobs_violation (jobs s') = None" "wc_leaseValid ctx s'"
    and j: "j \<in> set (jobs s')" "lease_held s' (jt_id t) (jt_lease_owner t) (jt_fencing_token t) j"
  shows "\<exists>st res ec em. final_state st \<and> runJob ctx t s = (Inr (), snd (completeJobWithLease t st res ec em s'))"
proof -
  have l: "holds_lease s' t" using j by (auto simp: holds_lease_def)
  show ?thesis
  proof (cases r)
    case (Inr v)
    obtain u row where "completeJobWithLease t Completed v None None s' = (Inr (Some row), u)"
      using complete_with_lease [OF ok(1) j, of Completed v None None] by (auto simp: final_state_def)
    with Inr run assms(1,2) l ok(2)
    have "runJob ctx t s = (Inr (), snd (completeJobWithLease t Completed v None None s'))"
      by (simp add: runJob_def try_catch_def bnd_def guard_ok)
    moreover have "final_state Completed" by (simp add: final_state_def)
    ultimately show ?thesis by blast
  next
    case (Inl e)
    let ?c = "Some (errorCode (wc_pg ctx) e)" and ?m = "Some (err_message (wc_pg ctx) e)"
    obtain u row where "completeJobWithLease t Failed JNull ?c ?m s' = (Inr (Some row), u)"
      using complete_with_lease [OF ok(1) j, of Failed JNull ?c ?m] by (auto simp: final_state_def)
    moreover have "\<not> is_lease_lost e" using assms(4) Inl by (auto simp: is_lease_lost_def split: err.splits)
    ultimately have "runJob ctx t s = (Inr (), snd (completeJobWithLease t Failed JNull ?c ?m s'))"
      using Inl run assms(1,2) by (simp add: runJob_def try_catch_def bnd_def guard_ok)
    moreover have "final_state Failed" by (simp add: final_state_def)
    ultimately show ?thesis by blast
  qed
qed

lemma complete_queue_state: "queue_state (snd (completeJobWithLease t st res ec em s)) = queue_state s"
proof -
  obtain r u where "update_jobs True (lease_held s (jt_id t) (jt_lease_owner t) (jt_fencing_token t))
    (\<lambda>j. j\<lparr>j_state := st, j_result := Some res, j_error_code := ec, j_error_message := em,
       j_completed_at := Some (now_us s)\<rparr>) s = (r, u)" by fastforce
  with update_jobs_frame(8) [OF this] show ?thesis
    by (simp add: completeJobWithLease_def bnd_def split: sum.splits)
qed

lemma count_replaced:
  assumes "distinct (map j_id js)" "c \<in> set js" "p c" "\<not> p d"
  shows "Suc (count_where p (map (\<lambda>x. if j_id x = j_id c then d else x) js)) = count_where p js"
  using assms(1,2)
proof (induction js)
  case (Cons x js)
  show ?case
  proof (cases "x = c")
    case True
    then have "map (\<lambda>x. if j_id x = j_id c then d else x) js = js"
      using Cons.prems by (intro map_idI) (auto simp: image_iff)
    with True assms(3,4) show ?thesis by (simp add: count_where_def)
  next
    case False
    then have "c \<in> set js" "j_id x \<noteq> j_id c" using Cons.prems by auto
    with Cons show ?thesis by (simp add: count_where_def)
  qed
qed simp

lemma calm_frame:
  "calm s \<Longrightarrow> jobs t = jobs s \<Longrightarrow> job_fencing_counters t = job_fencing_counters s \<Longrightarrow> queue_state t = queue_state s \<Longrightarrow> calm t"
  by (simp add: calm_def queue_ok_def fence_ok_def rows_ok_def no_running_def queue_paused_def)

lemma replaced_calm:
  assumes "calm s" and js: "jobs t = map (\<lambda>x. if j_id x = i then d else x) (jobs s)"
    and "queue_ok t" "queue_state t = queue_state s" "final_state (j_state d)"
  shows "calm t"
  using assms by (auto simp: calm_def no_running_def queue_paused_def final_state_def)

lemma granted_lease:
  assumes ok: "queue_ok s" and c: "c \<in> set (jobs s)" "j_state c = Pending"
    and t: "jobs t = started w n c s" "now_us t = now_us s"
  defines "g \<equiv> granted_row w n (next_of (job_fencing_counters s) (key_of c)) (now_us s) c"
  shows "g \<in> set (jobs t)" "lease_held t (jt_id (rowToJob g)) (jt_lease_owner (rowToJob g)) (jt_fencing_token (rowToJob g)) g"
    "j_lease_expires_at g = Some (now_us t + seconds n)"
proof -
  have "job_row_ok c" using ok c(1) by (simp add: queue_ok_def rows_ok_def)
  then have "j_requested_cancel_at c = None" using c(2) by (simp add: job_row_ok_def job_active_def)
  then show "lease_held t (jt_id (rowToJob g)) (jt_lease_owner (rowToJob g)) (jt_fencing_token (rowToJob g)) g"
    using t(2) by (simp add: lease_held_def g_def granted_row_def rowToJob_def eq_null_def ge_null_def)
  show "g \<in> set (jobs t)" using t(1) c(1) by (auto simp: started_def g_def intro!: image_eqI [where x = c])
  show "j_lease_expires_at g = Some (now_us t + seconds n)" using t(2) by (simp add: g_def granted_row_def)
qed

text \<open>One turn serves exactly one job and leaves the queue calm.\<close>

lemma turn_progress:
  assumes calm: "calm s" and pr: "prompt ctx n" and w: "waiting s = Suc k"
  shows "\<exists>s'. loop_turn ctx n LaneBulk s = (Inr True, s') \<and> calm s' \<and> waiting s' = k"
proof -
  obtain m s1 where sn: "failStalledSnapshots s = (Inr m, s1)" and s1: "jobs s1 = jobs s"
    "job_fencing_counters s1 = job_fencing_counters s" "queue_state s1 = queue_state s"
    by (simp add: failStalledSnapshots_def)
  have c1: "calm s1" by (rule calm_frame [OF calm s1])
  then have ok1: "queue_ok s1" and idle: "no_running s1" "\<not> queue_paused s1" by (simp_all add: calm_def)
  have viol: "jobs_violation (jobs s) = None" using calm by (simp add: calm_def queue_ok_def rows_ok_def)
  have "filter (\<lambda>j. j_state j = Pending) (jobs s) \<noteq> []" using w by (auto simp: waiting_def count_where_def)
  then obtain j where "j \<in> set (jobs s1)" "j_state j = Pending" using s1(1) by (auto simp: filter_empty_conv)
  then obtain c s2 where c: "c \<in> set (jobs s1)" "j_state c = Pending"
    and acq: "acquireJob (wc_workerId ctx) n LaneBulk s1 = (Inr (Some (rowToJob (granted_row (wc_workerId ctx) n
      (next_of (job_fencing_counters s1) (key_of c)) (now_us s1) c))), s2)"
    and s2: "jobs s2 = started (wc_workerId ctx) n c s1" "now_us s2 = now_us s1" "queue_state s2 = queue_state s1"
    using acquire_idle [OF ok1 idle, of j "wc_workerId ctx" n] by blast
  define g where "g = granted_row (wc_workerId ctx) n (next_of (job_fencing_counters s1) (key_of c)) (now_us s1) c"
  define t where "t = rowToJob g"
  note g = granted_lease [OF ok1 c s2(1,2), folded g_def, folded t_def]
  have gid: "j_id g = j_id c" by (simp add: g_def granted_row_def)
  have ty: "jt_job_type t \<noteq> Backfill" using c1 c by (simp add: t_def g_def granted_row_def rowToJob_def calm_def)
  have ok2: "queue_ok s2" using ok_after [OF fence_acquireJob rows_acquireJob ok1, of "wc_workerId ctx" n LaneBulk] acq by simp
  obtain r s3 where run: "dispatch ctx t s2 = (r, s3)" "\<forall>i. r \<noteq> Inl (JobLeaseLostError i)" "queue_idle s2 s3"
    and s3: "queue_state s3 = queue_state s2" "now_us s3 \<le> now_us s2 + seconds n"
    using pr g ty unfolding prompt_def by blast
  have js3: "jobs s3 = jobs s2" using run(3) by (simp add: queue_idle_def)
  have ok3: "queue_ok s3" by (rule safe_ok [OF idle_safe [OF run(3)] ok2])
  then have viol3: "jobs_violation (jobs s3) = None" by (simp add: queue_ok_def rows_ok_def)
  have g3: "g \<in> set (jobs s3)" "lease_held s3 (jt_id t) (jt_lease_owner t) (jt_fencing_token t) g"
    using g js3 s3(2) by (auto simp: lease_held_def ge_null_def)
  have valid: "wc_leaseValid ctx x" for x using pr by (simp add: prompt_def)
  have "holds_lease s2 t" using g by (auto simp: holds_lease_def)
  then obtain st res ec em where fin: "final_state st"
    and rj: "runJob ctx t s2 = (Inr (), snd (completeJobWithLease t st res ec em s3))"
    using runJob_ends [OF _ valid run(1) _ viol3 valid g3] run(2) by blast
  obtain s4 where s4: "snd (completeJobWithLease t st res ec em s3) = s4"
    "jobs s4 = map (\<lambda>x. if j_id x = j_id g then completed_row st res ec em (now_us s3) g else x) (jobs s3)"
    using complete_with_lease [OF viol3 g3 fin, of res ec em] by (metis snd_conv)
  let ?d = "completed_row st res ec em (now_us s3) g"
  have js4: "jobs s4 = map (\<lambda>x. if j_id x = j_id c then ?d else x) (jobs s1)"
    using s4(2) js3 s2(1) gid by (simp add: started_def granted_row_def)
  have turn: "loop_turn ctx n LaneBulk s = (Inr True, s4)"
    using calm sn acq rj s4(1) failExpired_none [OF _ viol]
    by (simp add: loop_turn_def bnd_def calm_def t_def g_def)
  have "queue_ok s4" using ok_after [OF fence_complete rows_complete [OF fin] ok3] s4(1) by metis
  moreover have "queue_state s4 = queue_state s1" using complete_queue_state s4(1) s3(1) s2(3) by metis
  ultimately have "calm s4"
    using replaced_calm [OF c1 js4] fin by (simp add: completed_row_def)
  moreover have "Suc (waiting s4) = waiting s1"
    unfolding waiting_def js4
    by (rule count_replaced) (use viol s1(1) c fin in \<open>auto simp: jobs_violation_None completed_row_def final_state_def\<close>)
  ultimately show ?thesis using turn w s1(1) by (simp add: waiting_def)
qed

lemma drain:
  "calm s \<Longrightarrow> prompt ctx n \<Longrightarrow> waiting s = k \<Longrightarrow> \<exists>s'. turns ctx n LaneBulk k s = (Inr k, s') \<and> calm s' \<and> waiting s' = 0"
proof (induction k arbitrary: s)
  case (Suc k)
  obtain s1 where "loop_turn ctx n LaneBulk s = (Inr True, s1)" "calm s1" "waiting s1 = k"
    using turn_progress [OF Suc.prems] by blast
  with Suc.IH [of s1] Suc.prems(2) show ?case by (auto simp: bnd_def)
qed simp


section \<open>Witnesses\<close>


text \<open>A data plane that is down: every call fails. Its workers are prompt all the same.\<close>

definition down_ctx :: worker_ctx where
  "down_ctx = demo_ctx\<lparr>wc_rust :=
     \<lparr>rc_scan = (\<lambda>code i. throw (RustError 503 None [])),
      rc_createSnapshot = (\<lambda>i gen code token v. throw (RustError 503 None [])),
      rc_restore = (\<lambda>i gen dest token. throw (RustError 503 None [])),
      rc_evict = (\<lambda>i code dry force token idle. throw (RustError 503 None [])),
      rc_deleteObject = (\<lambda>key token. throw (RustError 503 None []))\<rparr>\<rparr>"

definition harmless :: "db \<Rightarrow> err + 'a \<Rightarrow> db \<Rightarrow> bool" where
  "harmless s r s' \<longleftrightarrow> (\<forall>i. r \<noteq> Inl (JobLeaseLostError i)) \<and> queue_idle s s'
     \<and> queue_state s' = queue_state s \<and> now_us s' = now_us s"

lemma harmless_same: "(\<And>i. r \<noteq> Inl (JobLeaseLostError i)) \<Longrightarrow> harmless s r s"
  by (simp add: harmless_def idle.R_refl)

lemma down_gc_items:
  assumes "holds_lease s t"
  shows "\<exists>r s'. gc_items down_ctx t gs counts s = (r, s') \<and> harmless s r s'"
proof (cases gs)
  case Nil
  then show ?thesis by (simp add: harmless_same)
next
  case (Cons g gs)
  have "guard_lease down_ctx t s = (Inr (), s)"
    by (rule guard_ok [OF assms]) (simp add: down_ctx_def demo_ctx_def)
  with Cons show ?thesis
    by (simp add: gc_item_def bnd_def try_catch_def down_ctx_def isLiveReferenceError_def recordGcFailure_def
        harmless_def queue_idle_def)
qed

lemma down_dispatch:
  assumes l: "holds_lease s t" and ty: "jt_job_type t \<noteq> Backfill"
  shows "\<exists>r s'. dispatch down_ctx t s = (r, s') \<and> harmless s r s'"
proof -
  have g: "guard_lease down_ctx t s = (Inr (), s)"
    by (rule guard_ok [OF l]) (simp add: down_ctx_def demo_ctx_def)
  have rust: "wc_rust down_ctx = \<lparr>rc_scan = (\<lambda>code i. throw (RustError 503 None [])),
      rc_createSnapshot = (\<lambda>i gen code token v. throw (RustError 503 None [])),
      rc_restore = (\<lambda>i gen dest token. throw (RustError 503 None [])),
      rc_evict = (\<lambda>i code dry force token idle. throw (RustError 503 None [])),
      rc_deleteObject = (\<lambda>key token. throw (RustError 503 None []))\<rparr>" by (simp add: down_ctx_def)
  note defs = bnd_def require_problem_id_def require_problem_def g rust
  show ?thesis
  proof (cases "jt_job_type t")
    case GcCollect
    obtain r s' where "gc_items down_ctx t (listGcEligible (gc_limit (jt_result t)) s) \<lparr>gct_collected = 0, gct_deferred = 0\<rparr> s
        = (r, s')" "harmless s r s'" using down_gc_items [OF l] by blast
    with GcCollect show ?thesis
      by (cases r) (auto simp: dispatch_def gcCollect_handler_def Let_def bnd_def harmless_def)
  next
    case Scan
    then show ?thesis by (auto simp: dispatch_def scan_handler_def defs harmless_same split: option.splits)
  next
    case Snapshot
    then show ?thesis by (auto simp: dispatch_def snapshot_handler_def Let_def defs harmless_same split: option.splits)
  next
    case Restore
    then show ?thesis by (auto simp: dispatch_def restore_handler_def defs harmless_same split: option.splits)
  next
    case Evict
    then show ?thesis by (auto simp: dispatch_def evict_handler_def defs harmless_same split: option.splits)
  qed (use ty in \<open>auto simp: dispatch_def reconcile_handler_def incident_handler_def harmless_same\<close>)
qed

lemma down_prompt: "prompt down_ctx n"
  unfolding prompt_def
proof (intro conjI allI impI)
  show "wc_leaseValid down_ctx s" for s by (simp add: down_ctx_def demo_ctx_def)
next
  fix t :: jobT and s :: db and j :: job
  assume "j \<in> set (jobs s) \<and> lease_held s (jt_id t) (jt_lease_owner t) (jt_fencing_token t) j
    \<and> j_lease_expires_at j = Some (now_us s + seconds n) \<and> jt_job_type t \<noteq> Backfill"
  then have "holds_lease s t" "jt_job_type t \<noteq> Backfill" by (auto simp: holds_lease_def)
  from down_dispatch [OF this] show "\<exists>r s'. dispatch down_ctx t s = (r, s') \<and> (\<forall>i. r \<noteq> Inl (JobLeaseLostError i))
      \<and> queue_idle s s' \<and> queue_state s' = queue_state s \<and> now_us s' \<le> now_us s + seconds n"
    by (auto simp: harmless_def)
qed

definition two_waiting :: db where
  "two_waiting = demo_db [demo_job ''a'' Scan (Some ''1'') Pending, demo_job ''b'' Restore (Some ''2'') Pending]"


end
