(* ===== verification/JsonText.thy ===== *)
theory JsonText
  imports Http "HOL-Library.AList"
begin

text \<open>
  Reading JSON text, \<open>JSON.parse\<close>, as the clients of the service use it on what \<open>JSON.stringify\<close> wrote:
  a tokeniser, and a reader of the tokens with a stack of the arrays and objects that are open. A
  number with a fraction or an exponent, which this program never writes, is refused here.
\<close>

section \<open>Tokens\<close>

datatype json_token =
    LBracket | RBracket | LBrace | RBrace | CommaToken | ColonToken | ScalarToken json

definition is_json_space :: "char \<Rightarrow> bool" where
  "is_json_space c \<longleftrightarrow> (let n = (of_char c :: nat) in n = 32 \<or> n = 9 \<or> n = 10 \<or> n = 13)"

definition hex_value :: "char \<Rightarrow> nat option" where
  "hex_value c = (let n = (of_char c :: nat) in
     if 48 \<le> n \<and> n \<le> 57 then Some (n - 48)
     else if 97 \<le> n \<and> n \<le> 102 then Some (n - 87)
     else if 65 \<le> n \<and> n \<le> 70 then Some (n - 55)
     else None)"

definition hex_code :: "char \<Rightarrow> char \<Rightarrow> char \<Rightarrow> char \<Rightarrow> nat option" where
  "hex_code a b c d =
     (case (hex_value a, hex_value b, hex_value c, hex_value d) of
        (Some p, Some q, Some r, Some t) \<Rightarrow> Some (4096 * p + 256 * q + 16 * r + t)
      | _ \<Rightarrow> None)"

text \<open>Strings are their UTF-8 bytes; each half of a surrogate pair is encoded on its own.\<close>

definition utf8 :: "nat \<Rightarrow> string" where
  "utf8 n =
     (if n < 128 then [char_of n]
      else if n < 2048 then [char_of (192 + n div 64), char_of (128 + n mod 64)]
      else [char_of (224 + n div 4096), char_of (128 + n div 64 mod 64), char_of (128 + n mod 64)])"

definition simple_escape :: "char \<Rightarrow> char option" where
  "simple_escape c =
     (if c = dquote \<or> c = bslash \<or> c = CHR ''/'' then Some c
      else if c = CHR ''b'' then Some (char_of (8 :: nat))
      else if c = CHR ''t'' then Some (char_of (9 :: nat))
      else if c = CHR ''n'' then Some (char_of (10 :: nat))
      else if c = CHR ''f'' then Some (char_of (12 :: nat))
      else if c = CHR ''r'' then Some (char_of (13 :: nat))
      else None)"

text \<open>The rest of a string after its opening quote, with what follows the closing one.\<close>

definition before :: "string \<Rightarrow> (string \<times> string) option \<Rightarrow> (string \<times> string) option" where
  "before p = map_option (\<lambda>sr. (p @ fst sr, snd sr))"

fun read_string :: "string \<Rightarrow> (string \<times> string) option" where
  "read_string [] = None"
| "read_string (c # cs) =
     (if c = dquote then Some ([], cs)
      else if (of_char c :: nat) < 32 then None
      else if c \<noteq> bslash then before [c] (read_string cs)
      else (case cs of
          [] \<Rightarrow> None
        | e # r \<Rightarrow>
            (case simple_escape e of
               Some d \<Rightarrow> before [d] (read_string r)
             | None \<Rightarrow>
                 if e \<noteq> CHR ''u'' then None
                 else (case r of
                     h # i # j # k # r' \<Rightarrow>
                       (case hex_code h i j k of
                          None \<Rightarrow> None
                        | Some n \<Rightarrow> before (utf8 n) (read_string r'))
                   | _ \<Rightarrow> None))))"

definition read_digits :: "string \<Rightarrow> (nat \<times> string) option" where
  "read_digits s =
     (let ds = takeWhile is_digit s; r = dropWhile is_digit s in
      if ds = [] \<or> (1 < length ds \<and> hd ds = CHR ''0'') then None
      else if r \<noteq> [] \<and> hd r \<in> set ''.eE'' then None
      else Some (digits_value ds, r))"

definition read_number :: "string \<Rightarrow> (int \<times> string) option" where
  "read_number s =
     (case s of
        [] \<Rightarrow> None
      | c # cs \<Rightarrow>
          if c = CHR ''-'' then map_option (\<lambda>nr. (- int (fst nr), snd nr)) (read_digits cs)
          else map_option (\<lambda>nr. (int (fst nr), snd nr)) (read_digits s))"

definition with_token :: "json_token \<Rightarrow> json_token list option \<Rightarrow> json_token list option" where
  "with_token t = map_option (\<lambda>ts. t # ts)"

lemma before_Some: "before p x = Some y \<longleftrightarrow> (\<exists>z. x = Some (z, snd y) \<and> fst y = p @ z)"
  by (cases y; cases x) (auto simp: before_def)

lemma read_string_shorter: "read_string s = Some y \<Longrightarrow> length (snd y) < length s"
proof (induction "length s" arbitrary: s y rule: less_induct)
  case less
  have shorter: "length (snd y) < length t + n" if "before p (read_string t) = Some y" "length t < length s" for p t n
    using less(1) [OF that(2)] that(1) by (fastforce simp: before_Some)
  obtain c cs where s: "s = c # cs" using less(2) by (cases s) auto
  consider "c = dquote" | "c \<noteq> dquote" "c \<noteq> bslash" | "c = bslash" "c \<noteq> dquote" by blast
  then show ?case
  proof cases
    case 1
    then show ?thesis using less(2) s by auto
  next
    case 2
    then have "before [c] (read_string cs) = Some y" using less(2) s by (simp split: if_splits)
    from shorter [OF this, of 1] show ?thesis using s by simp
  next
    case 3
    with less(2) s obtain e r where cs: "cs = e # r" by (cases cs) (auto split: if_splits)
    show ?thesis
    proof (cases "simple_escape e")
      case (Some d)
      then have "before [d] (read_string r) = Some y" using less(2) s 3 cs by (simp split: if_splits)
      from shorter [OF this, of 2] show ?thesis using s cs by simp
    next
      case None
      then obtain h i j k r' n where *: "r = h # i # j # k # r'" "before (utf8 n) (read_string r') = Some y"
        using less(2) s 3 cs by (simp split: if_splits list.splits option.splits)
      from shorter [OF *(2), of 6] show ?thesis using s cs * by simp
    qed
  qed
qed

lemma read_digits_shorter: "read_digits s = Some (n, r) \<Longrightarrow> length r < length s"
proof -
  assume "read_digits s = Some (n, r)"
  then have "takeWhile is_digit s \<noteq> []" "r = dropWhile is_digit s"
    by (auto simp: read_digits_def Let_def split: if_splits)
  moreover have "length s = length (takeWhile is_digit s) + length (dropWhile is_digit s)"
    by (metis length_append takeWhile_dropWhile_id)
  ultimately show ?thesis by (cases "takeWhile is_digit s") auto
qed

lemma read_number_shorter: "read_number s = Some (n, r) \<Longrightarrow> length r < length s"
  by (auto simp: read_number_def less_SucI split: list.splits if_splits dest: read_digits_shorter)

definition punctuation :: "char \<Rightarrow> json_token option" where
  "punctuation c =
     (if c = CHR ''['' then Some LBracket else if c = CHR '']'' then Some RBracket
      else if c = CHR ''{'' then Some LBrace else if c = CHR ''}'' then Some RBrace
      else if c = CHR '','' then Some CommaToken else if c = CHR '':'' then Some ColonToken
      else None)"

definition keyword :: "string \<Rightarrow> (json_token \<times> string) option" where
  "keyword s =
     (if take 4 s = ''null'' then Some (ScalarToken JNull, drop 4 s)
      else if take 4 s = ''true'' then Some (ScalarToken (JBool True), drop 4 s)
      else if take 5 s = ''false'' then Some (ScalarToken (JBool False), drop 5 s)
      else None)"

definition next_token :: "char \<Rightarrow> string \<Rightarrow> (json_token \<times> string) option" where
  "next_token c cs =
     (case punctuation c of
        Some t \<Rightarrow> Some (t, cs)
      | None \<Rightarrow>
          if c = dquote then map_option (\<lambda>(t, r). (ScalarToken (JStr t), r)) (read_string cs)
          else if c = CHR ''-'' \<or> is_digit c then map_option (\<lambda>(n, r). (ScalarToken (JNum n), r)) (read_number (c # cs))
          else keyword (c # cs))"

lemma next_token_shorter: "next_token c cs = Some (t, r) \<Longrightarrow> length r < Suc (length cs)"
  by (auto simp: next_token_def keyword_def split: option.splits if_splits
      dest!: read_string_shorter read_number_shorter)

function tokens :: "string \<Rightarrow> json_token list option" where
  "tokens [] = Some []"
| "tokens (c # cs) =
     (if is_json_space c then tokens cs
      else (case next_token c cs of
          None \<Rightarrow> None
        | Some (t, r) \<Rightarrow> with_token t (tokens r)))"
  by pat_completeness auto

termination
  by (relation "measure length") (auto dest: next_token_shorter)

section \<open>Values\<close>

text \<open>
  What is open around the value being read: an array with its elements so far, last first, or an
  object with its members so far and the key of this one. A key given twice keeps its place and takes
  the later value.
\<close>

datatype json_frame = OpenArray "json list" | OpenObject "(string \<times> json) list" string

datatype json_mode =
    WantValue
  | WantFirst
  | WantKey bool "(string \<times> json) list"
  | WantColon "(string \<times> json) list" string
  | HaveValue json

fun read_tokens :: "json_mode \<Rightarrow> json_frame list \<Rightarrow> json_token list \<Rightarrow> json option" where
  "read_tokens m fs [] =
     (case (m, fs) of (HaveValue v, []) \<Rightarrow> Some v | _ \<Rightarrow> None)"
| "read_tokens m fs (t # ts) =
     (case m of
        HaveValue v \<Rightarrow>
          (case fs of
             OpenArray vs # gs \<Rightarrow>
               (case t of
                  CommaToken \<Rightarrow> read_tokens WantValue (OpenArray (v # vs) # gs) ts
                | RBracket \<Rightarrow> read_tokens (HaveValue (JArr (rev (v # vs)))) gs ts
                | _ \<Rightarrow> None)
           | OpenObject kvs k # gs \<Rightarrow>
               (case t of
                  CommaToken \<Rightarrow> read_tokens (WantKey False (AList.update k v kvs)) gs ts
                | RBrace \<Rightarrow> read_tokens (HaveValue (JObj (AList.update k v kvs))) gs ts
                | _ \<Rightarrow> None)
           | [] \<Rightarrow> None)
      | WantKey first kvs \<Rightarrow>
          (case t of
             ScalarToken (JStr k) \<Rightarrow> read_tokens (WantColon kvs k) fs ts
           | RBrace \<Rightarrow> if first then read_tokens (HaveValue (JObj kvs)) fs ts else None
           | _ \<Rightarrow> None)
      | WantColon kvs k \<Rightarrow>
          (case t of ColonToken \<Rightarrow> read_tokens WantValue (OpenObject kvs k # fs) ts | _ \<Rightarrow> None)
      | _ \<Rightarrow>
          (case t of
             ScalarToken v \<Rightarrow> read_tokens (HaveValue v) fs ts
           | LBracket \<Rightarrow> read_tokens WantFirst (OpenArray [] # fs) ts
           | LBrace \<Rightarrow> read_tokens (WantKey True []) fs ts
           | RBracket \<Rightarrow>
               (case (m, fs) of
                  (WantFirst, OpenArray vs # gs) \<Rightarrow> read_tokens (HaveValue (JArr vs)) gs ts
                | _ \<Rightarrow> None)
           | _ \<Rightarrow> None))"

definition json_parse :: "string \<Rightarrow> json option" where
  "json_parse s = Option.bind (tokens s) (read_tokens WantValue [])"

section \<open>What is printed is read back\<close>

subsection \<open>Strings\<close>

lemma quote_chars: "dquote = CHR 0x22" "bslash = CHR 0x5C"
  by (simp_all add: dquote_def bslash_def char_of_def bit_0)

lemma quote_codes: "char_of (34 :: nat) = CHR 0x22" "char_of (92 :: nat) = CHR 0x5C"
  by (simp_all add: char_of_def bit_0)

lemma hex_value_digit: "d < 16 \<Longrightarrow> hex_value (hex_digit d) = Some d"
  by (auto simp: hex_value_def hex_digit_def)

lemma simple_escape_u: "simple_escape (CHR ''u'') = None"
  by (simp add: simple_escape_def quote_chars)

lemma before_append: "before p (before q x) = before (p @ q) x"
  by (cases x) (simp_all add: before_def)

lemma read_string_escape: "read_string (json_escape c @ s) = before [c] (read_string s)"
proof -
  let ?n = "of_char c :: nat"
  have c: "c = char_of ?n" by simp
  have small: "?n < 256" by simp
  consider "?n \<in> {34, 92, 8, 9, 10, 12, 13}" | "?n \<notin> {34, 92, 8, 9, 10, 12, 13}" "?n < 32"
    | "?n \<notin> {34, 92, 8, 9, 10, 12, 13}" "32 \<le> ?n" by fastforce
  then show ?thesis
  proof cases
    case 1
    then consider "c = char_of (34 :: nat)" | "c = char_of (92 :: nat)" | "c = char_of (8 :: nat)" | "c = char_of (9 :: nat)"
      | "c = char_of (10 :: nat)" | "c = char_of (12 :: nat)" | "c = char_of (13 :: nat)"
      by (elim insertE emptyE) (use c in metis)+
    then show ?thesis
      by cases (simp_all add: json_escape_def quote_chars quote_codes simple_escape_def)
  next
    case 2
    then have e: "json_escape c = [bslash, CHR ''u'', CHR ''0'', CHR ''0'', hex_digit (?n div 16), hex_digit (?n mod 16)]"
      by (simp add: json_escape_def Let_def)
    have "hex_value (CHR ''0'') = Some 0" by (simp add: hex_value_def)
    moreover have "?n div 16 < 16" using small by linarith
    ultimately have "hex_code (CHR ''0'') (CHR ''0'') (hex_digit (?n div 16)) (hex_digit (?n mod 16)) = Some ?n"
      by (simp add: hex_code_def hex_value_digit)
    moreover have "utf8 ?n = [c]" using 2 by (simp add: utf8_def)
    ultimately show ?thesis
      by (simp add: e simple_escape_u) (simp add: quote_chars)
  next
    case 3
    then have "c \<noteq> dquote" "c \<noteq> bslash" by (auto simp: dquote_def bslash_def)
    moreover have "json_escape c = [c]" using 3 by (simp add: json_escape_def Let_def)
    ultimately show ?thesis using 3 by simp
  qed
qed

lemma read_string_json: "read_string (concat (map json_escape t) @ dquote # s) = Some (t, s)"
proof (induction t)
  case (Cons c t)
  then show ?case by (simp add: read_string_escape) (simp add: before_def)
qed simp

subsection \<open>Numbers\<close>

lemma nat_text_leading: "1 < length (nat_text n) \<Longrightarrow> hd (nat_text n) \<noteq> CHR ''0''"
proof (induction n rule: nat_text.induct)
  case (1 n)
  show ?case
  proof (cases "n < 10")
    case True
    then show ?thesis using 1(2) by (simp add: nat_text.simps)
  next
    case False
    then have "hd (nat_text n) = hd (nat_text (n div 10))"
      using nat_text_digits [of "n div 10"] by (subst nat_text.simps) simp
    moreover have "hd (nat_text (n div 10)) \<noteq> CHR ''0''"
    proof (cases "n div 10 < 10")
      case True
      then have "nat_text (n div 10) = [digit_char (n div 10)]" by (subst nat_text.simps) simp
      moreover have "(of_char (digit_char (n div 10)) :: nat) = 48 + n div 10" using True by (rule digit_char_value)
      moreover have "(of_char (CHR ''0'') :: nat) = 48" by simp
      moreover have "0 < n div 10" using False by simp
      ultimately show ?thesis by (metis add_cancel_right_right list.sel(1) less_numeral_extra(3))
    next
      case big: False
      then have "1 < length (nat_text (n div 10))"
        using nat_text_digits [of "n div 10 div 10"] by (subst nat_text.simps) (cases "nat_text (n div 10 div 10)", auto)
      then show ?thesis using 1(1) False by blast
    qed
    ultimately show ?thesis by simp
  qed
qed

definition ends_number :: "string \<Rightarrow> bool" where
  "ends_number s \<longleftrightarrow> s = [] \<or> hd s \<in> set '',]}''"

lemma read_digits_nat_text: "ends_number s \<Longrightarrow> read_digits (nat_text n @ s) = Some (n, s)"
proof -
  assume e: "ends_number s"
  have d: "\<forall>c \<in> set (nat_text n). is_digit c" "nat_text n \<noteq> []"
    using nat_text_digits [of n] by (auto simp: list_all_iff)
  have "takeWhile is_digit s = []" "dropWhile is_digit s = s"
    using e by (cases s; auto simp: ends_number_def is_digit_def)+
  then have "takeWhile is_digit (nat_text n @ s) = nat_text n" "dropWhile is_digit (nat_text n @ s) = s"
    using d by (simp_all add: takeWhile_append2 dropWhile_append2)
  moreover have "s = [] \<or> hd s \<notin> set ''.eE''" using e by (auto simp: ends_number_def)
  ultimately show ?thesis
    using d(2) nat_text_leading [of n] by (auto simp: read_digits_def Let_def digits_value_nat_text)
qed

lemma int_text_token:
  assumes "ends_number s"
  shows "tokens (int_text i @ s) = with_token (ScalarToken (JNum i)) (tokens s)"
proof (cases "i < 0")
  case True
  have "punctuation (CHR ''-'') = None" "\<not> is_json_space (CHR ''-'')" "CHR ''-'' \<noteq> dquote"
    by (simp_all add: punctuation_def is_json_space_def quote_chars)
  then show ?thesis
    using True assms by (simp add: int_text_def next_token_def read_number_def read_digits_nat_text)
next
  case False
  obtain c cs where c: "nat_text (nat i) = c # cs" "is_digit c"
    using nat_text_digits [of "nat i"] by (cases "nat_text (nat i)") auto
  then have "punctuation c = None" "\<not> is_json_space c" "c \<noteq> dquote" "c \<noteq> CHR ''-''"
    by (auto simp: punctuation_def is_json_space_def quote_chars is_digit_def Let_def)
  then show ?thesis
    using False assms c read_digits_nat_text [OF assms, of "nat i"]
    by (simp add: int_text_def next_token_def read_number_def)
qed

subsection \<open>Values\<close>

fun join_tokens :: "json_token list list \<Rightarrow> json_token list" where
  "join_tokens [] = []"
| "join_tokens [x] = x"
| "join_tokens (x # y # ys) = x @ CommaToken # join_tokens (y # ys)"

fun json_tokens :: "json \<Rightarrow> json_token list" where
  "json_tokens (JArr vs) = LBracket # join_tokens (map json_tokens vs) @ [RBracket]"
| "json_tokens (JObj kvs) =
     LBrace # join_tokens (map (\<lambda>kv. ScalarToken (JStr (fst kv)) # ColonToken # json_tokens (snd kv)) kvs) @ [RBrace]"
| "json_tokens v = [ScalarToken v]"

lemma tokens_punctuation:
  "tokens (CHR ''['' # s) = with_token LBracket (tokens s)" "tokens (CHR '']'' # s) = with_token RBracket (tokens s)"
  "tokens (CHR ''{'' # s) = with_token LBrace (tokens s)" "tokens (CHR ''}'' # s) = with_token RBrace (tokens s)"
  "tokens (CHR '','' # s) = with_token CommaToken (tokens s)" "tokens (CHR '':'' # s) = with_token ColonToken (tokens s)"
  by (simp_all add: is_json_space_def next_token_def punctuation_def)

lemma tokens_keyword:
  "tokens (''null'' @ s) = with_token (ScalarToken JNull) (tokens s)"
  "tokens (''true'' @ s) = with_token (ScalarToken (JBool True)) (tokens s)"
  "tokens (''false'' @ s) = with_token (ScalarToken (JBool False)) (tokens s)"
  by (simp_all add: is_json_space_def next_token_def punctuation_def keyword_def quote_chars is_digit_def)

lemma tokens_string: "tokens (json_string t @ s) = with_token (ScalarToken (JStr t)) (tokens s)"
proof -
  have "\<not> is_json_space dquote" "punctuation dquote = None"
    by (simp_all add: is_json_space_def punctuation_def quote_chars)
  then show ?thesis by (simp add: json_string_def next_token_def read_string_json)
qed

declare tokens.simps(2) [simp del]

lemma with_token_map: "with_token t x = map_option (\<lambda>ts. [t] @ ts) x"
  by (simp add: with_token_def)

lemmas token_rules = tokens_punctuation tokens_keyword [simplified] tokens_string int_text_token with_token_map

lemma tokens_join:
  assumes "\<forall>x \<in> set xs. \<forall>s. ends_number s \<longrightarrow> tokens (f x @ s) = map_option (\<lambda>ts. g x @ ts) (tokens s)"
    and "ends_number s"
  shows "tokens (join_text '','' (map f xs) @ s) = map_option (\<lambda>ts. join_tokens (map g xs) @ ts) (tokens s)"
  using assms
proof (induction xs rule: induct_list012)
  case (3 x y zs)
  let ?rest = "join_text '','' (map f (y # zs)) @ s"
  have "ends_number (CHR '','' # ?rest)" by (simp add: ends_number_def)
  then have "tokens (f x @ CHR '','' # ?rest) = map_option (\<lambda>ts. g x @ ts) (tokens (CHR '','' # ?rest))"
    using 3(3) by simp
  then show ?case
    using 3(2, 3, 4) by (simp add: tokens_punctuation with_token_map option.map_comp o_def)
next
  case 1
  then show ?case by (cases "tokens s") simp_all
qed simp_all

lemma tokens_stringify:
  "ends_number s \<Longrightarrow> tokens (json_stringify v @ s) = map_option (\<lambda>ts. json_tokens v @ ts) (tokens s)"
proof (induction v arbitrary: s)
  case (JArr vs)
  have "ends_number (CHR '']'' # s)" by (simp add: ends_number_def)
  with JArr have "tokens (join_text '','' (map json_stringify vs) @ CHR '']'' # s)
      = map_option (\<lambda>ts. join_tokens (map json_tokens vs) @ ts) (tokens (CHR '']'' # s))"
    by (intro tokens_join) auto
  then show ?case by (simp add: tokens_punctuation with_token_map option.map_comp o_def)
next
  case (JObj kvs)
  let ?f = "\<lambda>kv. json_string (fst kv) @ '':'' @ json_stringify (snd kv)"
  let ?g = "\<lambda>kv. ScalarToken (JStr (fst kv)) # ColonToken # json_tokens (snd kv)"
  have "tokens (?f kv @ r) = map_option (\<lambda>ts. ?g kv @ ts) (tokens r)" if "kv \<in> set kvs" "ends_number r" for kv r
    using JObj(1) [of kv "snd kv" r] that
    by (cases kv) (simp add: token_rules option.map_comp o_def)
  moreover have "ends_number (CHR ''}'' # s)" by (simp add: ends_number_def)
  ultimately have "tokens (join_text '','' (map ?f kvs) @ CHR ''}'' # s)
      = map_option (\<lambda>ts. join_tokens (map ?g kvs) @ ts) (tokens (CHR ''}'' # s))"
    by (intro tokens_join) blast+
  then show ?case by (simp add: tokens_punctuation with_token_map option.map_comp o_def)
qed (auto simp: token_rules intro!: option.map_cong0)

fun distinct_keys :: "json \<Rightarrow> bool" where
  "distinct_keys (JArr vs) = list_all distinct_keys vs"
| "distinct_keys (JObj kvs) = (distinct (map fst kvs) \<and> list_all (\<lambda>kv. distinct_keys (snd kv)) kvs)"
| "distinct_keys v = True"

definition reads :: "json \<Rightarrow> bool" where
  "reads v \<longleftrightarrow> (\<forall>m \<in> {WantValue, WantFirst}. \<forall>fs ts.
     read_tokens m fs (json_tokens v @ ts) = read_tokens (HaveValue v) fs ts)"

lemma reads_first: "reads v \<Longrightarrow> read_tokens WantFirst fs (json_tokens v @ ts) = read_tokens (HaveValue v) fs ts"
  and reads_next: "reads v \<Longrightarrow> read_tokens WantValue fs (json_tokens v @ ts) = read_tokens (HaveValue v) fs ts"
  by (simp_all add: reads_def)

lemma read_elements:
  assumes "\<forall>v \<in> set vs. reads v" and "vs \<noteq> []" and "m = WantValue \<or> m = WantFirst"
  shows "read_tokens m (OpenArray acc # fs) (join_tokens (map json_tokens vs) @ RBracket # ts)
    = read_tokens (HaveValue (JArr (rev acc @ vs))) fs ts"
  using assms
proof (induction vs arbitrary: acc m rule: induct_list012)
  case (3 x y zs)
  from 3(2) [of WantValue "x # acc"] 3(3, 5) show ?case by (auto simp: reads_first reads_next)
qed (auto simp: reads_first reads_next)

lemma update_new: "k \<notin> fst ` set kvs \<Longrightarrow> AList.update k v kvs = kvs @ [(k, v)]"
  by (induction kvs) auto

lemma read_members:
  assumes "\<forall>kv \<in> set kvs. reads (snd kv)" and "kvs \<noteq> []" and "distinct (map fst (acc @ kvs))"
  shows "read_tokens (WantKey first acc) fs
      (join_tokens (map (\<lambda>kv. ScalarToken (JStr (fst kv)) # ColonToken # json_tokens (snd kv)) kvs) @ RBrace # ts)
    = read_tokens (HaveValue (JObj (acc @ kvs))) fs ts"
  using assms
proof (induction kvs arbitrary: acc first rule: induct_list012)
  case (2 x)
  then show ?case by (cases x) (simp add: update_new reads_next)
next
  case (3 x y zs)
  from 3(2) [of "acc @ [x]" False] 3(3, 5) show ?case
    by (cases x) (auto simp: update_new reads_next)
qed simp

lemma distinct_keys_reads: "distinct_keys v \<Longrightarrow> reads v"
proof (induction v)
  case (JArr vs)
  then have "\<forall>v \<in> set vs. reads v" by (auto simp: list_all_iff)
  then show ?case
    using read_elements [of vs WantFirst "[]"] by (cases "vs = []") (auto simp: reads_def)
next
  case (JObj kvs)
  then have "\<forall>kv \<in> set kvs. reads (snd kv)" by (fastforce simp: list_all_iff)
  then show ?case
    using JObj(2) read_members [of kvs "[]" True] by (cases "kvs = []") (auto simp: reads_def)
qed (auto simp: reads_def)

text \<open>
  What \<open>JSON.stringify\<close> prints of a value, \<open>JSON.parse\<close> reads back as that value: strings with quotes,
  backslashes and control characters, numbers of either sign, empty and nested arrays and objects.
\<close>

lemma parse_stringify:
  assumes "distinct_keys v"
  shows "json_parse (json_stringify v) = Some v"
proof -
  have "tokens (json_stringify v) = Some (json_tokens v)"
    using tokens_stringify [of "[]" v] by (simp add: ends_number_def)
  moreover have "read_tokens WantValue [] (json_tokens v) = Some v"
    using reads_next [OF distinct_keys_reads [OF assms], of "[]" "[]"] by simp
  ultimately show ?thesis by (simp add: json_parse_def)
qed

subsection \<open>Printed text has no line ends\<close>

lemma escape_printable: "list_all (\<lambda>c. 32 \<le> (of_char c :: nat)) (json_escape c)"
proof -
  have "32 \<le> (of_char (hex_digit d) :: nat)" if "d < 16" for d using that by (simp add: hex_digit_def)
  moreover have "(of_char c :: nat) div 16 < 16"
  proof -
    have "(of_char c :: nat) < 256" by simp
    then show ?thesis by linarith
  qed
  ultimately show ?thesis by (simp add: json_escape_def Let_def quote_chars)
qed

lemma nat_text_printable: "list_all (\<lambda>c. 32 \<le> (of_char c :: nat)) (nat_text n)"
  using nat_text_digits [of n] by (auto simp: list_all_iff is_digit_def Let_def)

lemma list_all_join: "list_all P sep \<Longrightarrow> list_all (list_all P) xs \<Longrightarrow> list_all P (join_text sep xs)"
  by (induction xs rule: induct_list012) auto

lemma string_printable: "list_all (\<lambda>c. 32 \<le> (of_char c :: nat)) (json_string t)"
  using escape_printable by (induction t) (auto simp: json_string_def quote_chars)

lemma stringify_printable: "list_all (\<lambda>c. 32 \<le> (of_char c :: nat)) (json_stringify v)"
proof (induction v)
  case (JNum i)
  then show ?case using nat_text_printable by (simp add: int_text_def)
next
  case (JArr vs)
  then have "list_all (list_all (\<lambda>c. 32 \<le> (of_char c :: nat))) (map json_stringify vs)" by (simp add: list_all_iff)
  then show ?case by (simp add: list_all_join)
next
  case (JObj kvs)
  then have "list_all (list_all (\<lambda>c. 32 \<le> (of_char c :: nat)))
      (map (\<lambda>kv. json_string (fst kv) @ '':'' @ json_stringify (snd kv)) kvs)"
    using string_printable by (fastforce simp: list_all_iff)
  then show ?case by (simp add: list_all_join)
qed (simp_all add: string_printable)

end
