(* ===== verification/Url.thy ===== *)
theory Url
  imports JsonText
begin

text \<open>
  Text in URLs: \<open>encodeURIComponent\<close>, what \<open>URLSearchParams\<close> writes, and that both can be read back.
\<close>

section \<open>Writing\<close>

definition is_alnum :: "char \<Rightarrow> bool" where
  "is_alnum c \<longleftrightarrow> (let n = (of_char c :: nat) in
     (48 \<le> n \<and> n \<le> 57) \<or> (65 \<le> n \<and> n \<le> 90) \<or> (97 \<le> n \<and> n \<le> 122))"

definition upper_hex :: "nat \<Rightarrow> char" where
  "upper_hex d = (if d < 10 then char_of (48 + d) else char_of (55 + d))"

definition percent :: "char \<Rightarrow> string" where
  "percent c = [CHR ''%'', upper_hex (of_char c div 16), upper_hex (of_char c mod 16)]"

definition encode_char :: "char \<Rightarrow> string" where
  "encode_char c = (if is_alnum c \<or> c \<in> set ''-_.!~*()'' \<or> c = CHR 0x27 then [c] else percent c)"

definition encodeURIComponent :: "string \<Rightarrow> string" where
  "encodeURIComponent s = concat (map encode_char s)"

text \<open>What \<open>URLSearchParams\<close> writes: a space is a plus sign, and fewer characters stand for themselves.\<close>

definition form_char :: "char \<Rightarrow> string" where
  "form_char c = (if is_alnum c \<or> c \<in> set ''-_.*'' then [c] else if c = CHR '' '' then ''+'' else percent c)"

definition form_encode :: "string \<Rightarrow> string" where
  "form_encode s = concat (map form_char s)"

type_synonym query = "(string \<times> string) list"

definition query_text :: "(string \<Rightarrow> string) \<Rightarrow> query \<Rightarrow> string" where
  "query_text encode q = join_text ''&'' (map (\<lambda>kv. encode (fst kv) @ ''='' @ encode (snd kv)) q)"

section \<open>Reading\<close>

definition hex_digit_value :: "char \<Rightarrow> nat" where
  "hex_digit_value c = (case hex_value c of Some n \<Rightarrow> n | None \<Rightarrow> 0)"

fun percent_decode :: "string \<Rightarrow> string" where
  "percent_decode (c # d # e # s) =
     (if c = CHR ''%'' then char_of (16 * hex_digit_value d + hex_digit_value e) # percent_decode s
      else c # percent_decode (d # e # s))"
| "percent_decode s = s"

definition unplus :: "char \<Rightarrow> char" where
  "unplus c = (if c = CHR ''+'' then CHR '' '' else c)"

definition form_decode :: "string \<Rightarrow> string" where
  "form_decode s = percent_decode (map unplus s)"

lemma percent_decode_percent: "percent_decode (percent c @ s) = c # percent_decode s"
proof -
  have small: "(of_char c :: nat) < 256" by simp
  then have "(of_char c :: nat) div 16 < 16" by linarith
  moreover have "hex_digit_value (upper_hex d) = d" if "d < 16" for d
    using that by (auto simp: hex_digit_value_def hex_value_def upper_hex_def)
  ultimately show ?thesis by (simp add: percent_def)
qed

lemma percent_decode_plain: "c \<noteq> CHR ''%'' \<Longrightarrow> percent_decode (c # s) = c # percent_decode s"
  by (cases s rule: percent_decode.cases) (auto split: list.splits)

lemma decode_component: "percent_decode (encodeURIComponent s) = s"
proof (induction s)
  case (Cons c s)
  have "encodeURIComponent (c # s) = encode_char c @ encodeURIComponent s" by (simp add: encodeURIComponent_def)
  moreover have "c \<noteq> CHR ''%''" if "encode_char c = [c]"
    using that by (auto simp: encode_char_def is_alnum_def percent_def)
  ultimately show ?case
    using Cons by (auto simp: encode_char_def percent_decode_percent percent_decode_plain is_alnum_def)
qed (simp add: encodeURIComponent_def)

lemma component_chars: "c \<in> set (encodeURIComponent s) \<Longrightarrow> c \<notin> {CHR ''/'', CHR ''&'', CHR ''='', CHR ''+''}"
proof -
  have hex: "upper_hex d \<notin> {CHR ''/'', CHR ''&'', CHR ''='', CHR ''+''}" if "d < 16" for d
  proof -
    have "(of_char (upper_hex d) :: nat) \<ge> 48 \<and> (of_char (upper_hex d) :: nat) \<noteq> 61" using that by (simp add: upper_hex_def)
    then show ?thesis by auto
  qed
  have small: "(of_char e :: nat) div 16 < 16" for e
  proof -
    have "(of_char e :: nat) < 256" by simp
    then show ?thesis by linarith
  qed
  assume "c \<in> set (encodeURIComponent s)"
  then obtain e where "c \<in> set (encode_char e)" by (auto simp: encodeURIComponent_def)
  then consider "c = e" "is_alnum e \<or> e \<in> set ''-_.!~*()'' \<or> e = CHR 0x27" | "c \<in> set (percent e)"
    by (auto simp: encode_char_def split: if_splits)
  then show ?thesis
    by cases (use hex [OF small] hex [of "of_char e mod 16"] in \<open>auto simp: is_alnum_def percent_def\<close>)
qed


lemma form_decode_component: "form_decode (encodeURIComponent s) = s"
proof -
  have "map unplus (encodeURIComponent s) = encodeURIComponent s"
    by (rule map_idI) (use component_chars in \<open>auto simp: unplus_def\<close>)
  then show ?thesis by (simp add: form_decode_def decode_component)
qed

lemma percent_char: "d < 16 \<Longrightarrow> unplus (upper_hex d) = upper_hex d \<and> upper_hex d \<notin> {CHR ''/'', CHR ''&'', CHR ''='', CHR ''+''}"
proof -
  assume "d < 16"
  then have "(of_char (upper_hex d) :: nat) \<ge> 48 \<and> (of_char (upper_hex d) :: nat) \<noteq> 61" by (simp add: upper_hex_def)
  then show ?thesis by (auto simp: unplus_def)
qed

lemma char_div: "(of_char (c :: char) :: nat) div 16 < 16"
proof -
  have "(of_char c :: nat) < 256" by simp
  then show ?thesis by linarith
qed

lemma unplus_percent: "map unplus (percent c) = percent c"
  using percent_char [OF char_div [of c]] percent_char [of "of_char c mod 16"] by (simp add: percent_def unplus_def)

lemma decode_form: "form_decode (form_encode s) = s"
proof (induction s)
  case (Cons c s)
  have e: "form_encode (c # s) = form_char c @ form_encode s" by (simp add: form_encode_def)
  note u = form_decode_def
  consider "is_alnum c \<or> c \<in> set ''-_.*''" | "c = CHR '' ''" | "form_char c = percent c"
    unfolding form_char_def by (metis (full_types))
  then show ?case
  proof cases
    case 1
    then have "c \<noteq> CHR ''%''" "c \<noteq> CHR ''+''" by (auto simp: is_alnum_def)
    moreover have "form_char c = [c]" using 1 by (simp add: form_char_def)
    ultimately show ?thesis using Cons by (simp add: e u percent_decode_plain unplus_def)
  next
    case 2
    then have "form_encode (c # s) = CHR ''+'' # form_encode s" by (simp add: form_encode_def form_char_def is_alnum_def)
    then show ?thesis using Cons 2 by (simp add: u percent_decode_plain unplus_def)
  next
    case 3
    then show ?thesis using Cons by (simp add: e u unplus_percent percent_decode_percent)
  qed
qed (simp add: form_encode_def form_decode_def)

lemma form_chars: "c \<in> set (form_encode s) \<Longrightarrow> c \<notin> {CHR ''&'', CHR ''=''}"
proof -
  assume "c \<in> set (form_encode s)"
  then obtain e where "c \<in> set (form_char e)" by (auto simp: form_encode_def)
  then consider "c = e" "is_alnum e \<or> e \<in> set ''-_.*''" | "c = CHR ''+''" | "c \<in> set (percent e)"
    by (auto simp: form_char_def split: if_splits)
  then show ?thesis
    by cases (use percent_char [OF char_div [of e]] percent_char [of "of_char e mod 16"] in \<open>auto simp: is_alnum_def percent_def\<close>)
qed

definition parse_pair :: "string \<Rightarrow> string \<times> string" where
  "parse_pair t = (case split_on (CHR ''='') t of k # v # _ \<Rightarrow> (form_decode k, form_decode v) | _ \<Rightarrow> (form_decode t, []))"

definition parse_query :: "string \<Rightarrow> query" where
  "parse_query t = (if t = [] then [] else map parse_pair (split_on (CHR ''&'') t))"

lemma parse_query_text:
  assumes "encode = encodeURIComponent \<or> encode = form_encode"
  shows "parse_query (query_text encode q) = q"
proof (cases "q = []")
  case False
  have d: "form_decode (encode s) = s" for s using assms form_decode_component decode_form by auto
  have c: "CHR ''&'' \<notin> set (encode s)" "CHR ''='' \<notin> set (encode s)" for s
    using assms component_chars form_chars by fastforce+
  let ?p = "\<lambda>kv. encode (fst kv) @ ''='' @ encode (snd kv)"
  have p: "parse_pair (?p kv) = kv" for kv
    using split_on_append [OF c(2) [of "fst kv"]] split_on_plain [OF c(2) [of "snd kv"]] by (simp add: parse_pair_def d)
  have "\<forall>t \<in> set (map ?p q). CHR ''&'' \<notin> set t" using c(1) by auto
  then have s: "split_on (CHR ''&'') (query_text encode q) = map ?p q"
    using split_join [of "map ?p q"] False by (simp add: query_text_def)
  moreover have "query_text encode q \<noteq> []"
  proof
    assume "query_text encode q = []"
    then have "map ?p q = [[]]" using s by simp
    then show False by auto
  qed
  ultimately show ?thesis using p by (simp add: parse_query_def o_def)
qed (simp add: query_text_def parse_query_def)

end
