(* ===== verification/Contract.thy ===== *)
theory Contract
  imports System
begin

text \<open>
  The response contract of \<open>control-plane/src/schemas.ts\<close>: the schemas as values, what it means for a
  JSON value to conform to one, the JSON objects the row functions of \<open>db.ts\<close> build, and that the
  two agree. Timestamps are printed by \<open>Date.toISOString\<close>, which is modelled.
\<close>

section \<open>Timestamps\<close>

text \<open>The proleptic Gregorian calendar, counted from 1970.\<close>

definition leap :: "nat \<Rightarrow> bool" where
  "leap y \<longleftrightarrow> 4 dvd y \<and> (\<not> 100 dvd y \<or> 400 dvd y)"

definition year_days :: "nat \<Rightarrow> nat" where
  "year_days y = (if leap y then 366 else 365)"

definition month_lengths :: "nat \<Rightarrow> nat list" where
  "month_lengths y = [31, if leap y then 29 else 28, 31, 30, 31, 30, 31, 31, 30, 31, 30, 31]"

text \<open>The year and the day in it, of the day \<open>d\<close> counted from the first of January of year \<open>y\<close>.\<close>

function year_day :: "nat \<Rightarrow> nat \<Rightarrow> nat \<times> nat" where
  "year_day y d = (if d < year_days y then (y, d) else year_day (Suc y) (d - year_days y))"
  by auto

termination
  by (relation "measure snd") (auto simp: year_days_def)

declare year_day.simps [simp del]

fun month_day :: "nat \<Rightarrow> nat list \<Rightarrow> nat \<Rightarrow> nat \<times> nat" where
  "month_day m [] d = (m, d)"
| "month_day m (l # ls) d = (if d < l then (m, d) else month_day (Suc m) ls (d - l))"

text \<open>A number with leading zeros.\<close>

fun pad :: "nat \<Rightarrow> nat \<Rightarrow> string" where
  "pad 0 n = []"
| "pad (Suc w) n = pad w (n div 10) @ [digit_char (n mod 10)]"

text \<open>\<open>new Date(ms).toISOString()\<close>.\<close>

definition toISOString :: "nat \<Rightarrow> string" where
  "toISOString ms =
     (let (y, yd) = year_day 1970 (ms div 86400000);
          (m, d) = month_day 1 (month_lengths y) yd;
          t = ms mod 86400000
      in (if y < 10000 then pad 4 y else CHR ''+'' # pad 6 y) @ ''-'' @ pad 2 m @ ''-'' @ pad 2 (Suc d) @ ''T''
         @ pad 2 (t div 3600000) @ '':'' @ pad 2 (t div 60000 mod 60) @ '':'' @ pad 2 (t div 1000 mod 60) @ ''.''
         @ pad 3 (t mod 1000) @ ''Z'')"

text \<open>
  The format \<open>date-time\<close> of RFC 3339, in the form with milliseconds and \<open>Z\<close>; it has four digits for
  the year.
\<close>

definition digits_at :: "string \<Rightarrow> nat \<Rightarrow> nat \<Rightarrow> bool" where
  "digits_at s i n \<longleftrightarrow> list_all is_digit (take n (drop i s))"

definition value_at :: "string \<Rightarrow> nat \<Rightarrow> nat \<Rightarrow> nat" where
  "value_at s i n = digits_value (take n (drop i s))"

definition is_date_time :: "string \<Rightarrow> bool" where
  "is_date_time s \<longleftrightarrow>
     length s = 24 \<and> digits_at s 0 4 \<and> s ! 4 = CHR ''-'' \<and> digits_at s 5 2 \<and> s ! 7 = CHR ''-'' \<and> digits_at s 8 2
     \<and> s ! 10 = CHR ''T'' \<and> digits_at s 11 2 \<and> s ! 13 = CHR '':'' \<and> digits_at s 14 2 \<and> s ! 16 = CHR '':''
     \<and> digits_at s 17 2 \<and> s ! 19 = CHR ''.'' \<and> digits_at s 20 3 \<and> s ! 23 = CHR ''Z''
     \<and> 1 \<le> value_at s 5 2 \<and> value_at s 5 2 \<le> 12
     \<and> 1 \<le> value_at s 8 2 \<and> value_at s 8 2 \<le> month_lengths (value_at s 0 4) ! (value_at s 5 2 - 1)
     \<and> value_at s 11 2 < 24 \<and> value_at s 14 2 < 60 \<and> value_at s 17 2 < 60"

definition four_digit_year :: "nat \<Rightarrow> bool" where
  "four_digit_year ms \<longleftrightarrow> fst (year_day 1970 (ms div 86400000)) < 10000"

lemma year_day_less: "year_day y0 d0 = (y, d) \<Longrightarrow> d < year_days y"
proof (induction y0 d0 rule: year_day.induct)
  case (1 y0 d0)
  then show ?case by (cases "d0 < year_days y0") (simp_all add: year_day.simps [of y0 d0])
qed

lemma month_day_bounds:
  "month_day m0 ls d0 = (m, d) \<Longrightarrow> d0 < sum_list ls \<Longrightarrow> m0 \<le> m \<and> m < m0 + length ls \<and> d < ls ! (m - m0)"
proof (induction m0 ls d0 rule: month_day.induct)
  case (2 m0 l ls d0)
  show ?case
  proof (cases "d0 < l")
    case False
    then have "Suc m0 \<le> m \<and> m < Suc m0 + length ls \<and> d < ls ! (m - Suc m0)" using 2 by auto
    then have "m = Suc m0 + (m - Suc m0)" "m < Suc m0 + length ls" "d < ls ! (m - Suc m0)" by simp_all
    then show ?thesis by (metis (no_types, lifting) add_Suc add_Suc_right diff_add_inverse le_add1 length_Cons nth_Cons_Suc)
  qed (use 2 in simp)
qed simp

lemma sum_month_lengths: "sum_list (month_lengths y) = year_days y" "length (month_lengths y) = 12"
  by (simp_all add: month_lengths_def year_days_def)

lemma digit_char_props: "d < 10 \<Longrightarrow> is_digit (digit_char d)" "d < 10 \<Longrightarrow> (of_char (digit_char d) :: nat) = 48 + d"
  by (simp_all add: digit_char_value is_digit_def)

lemma pad_simps: "pad 2 n = [digit_char (n div 10 mod 10), digit_char (n mod 10)]"
  "pad 3 n = [digit_char (n div 100 mod 10), digit_char (n div 10 mod 10), digit_char (n mod 10)]"
  "pad 4 n = [digit_char (n div 1000 mod 10), digit_char (n div 100 mod 10), digit_char (n div 10 mod 10), digit_char (n mod 10)]"
proof -
  have "4 = Suc (Suc (Suc (Suc 0)))" by simp
  moreover have "pad (Suc (Suc (Suc (Suc 0)))) n
      = [digit_char (n div 1000 mod 10), digit_char (n div 100 mod 10), digit_char (n div 10 mod 10), digit_char (n mod 10)]"
    by (simp add: div_mult2_eq [symmetric])
  ultimately show "pad 4 n = [digit_char (n div 1000 mod 10), digit_char (n div 100 mod 10), digit_char (n div 10 mod 10), digit_char (n mod 10)]"
    by metis
qed (simp_all add: numeral_2_eq_2 numeral_3_eq_3 div_mult2_eq [symmetric] del: One_nat_def)

lemma digits_value_digits:
  "a < 10 \<Longrightarrow> b < 10 \<Longrightarrow> digits_value [digit_char a, digit_char b] = 10 * a + b"
  "a < 10 \<Longrightarrow> b < 10 \<Longrightarrow> c < 10 \<Longrightarrow> d < 10 \<Longrightarrow>
     digits_value [digit_char a, digit_char b, digit_char c, digit_char d] = 1000 * a + 100 * b + 10 * c + d"
  by (simp_all add: digits_value_def digit_char_props(2))

lemma two_digits: "n < 100 \<Longrightarrow> 10 * (n div 10 mod 10) + n mod 10 = (n :: nat)"
  by simp

lemma four_digits: "n < 10000 \<Longrightarrow> 1000 * (n div 1000) + 100 * (n div 100 mod 10) + 10 * (n div 10 mod 10) + n mod 10 = (n :: nat)"
proof -
  have "n div 100 = 10 * (n div 1000) + n div 100 mod 10" "n div 10 = 10 * (n div 100) + n div 10 mod 10"
    using div_mult_mod_eq [of "n div 100" 10] div_mult_mod_eq [of "n div 10" 10] by (simp_all add: div_mult2_eq [symmetric])
  moreover have "n = 10 * (n div 10) + n mod 10" by simp
  ultimately show ?thesis by linarith
qed

lemma toISOString_date_time:
  assumes "four_digit_year ms"
  shows "is_date_time (toISOString ms)"
proof -
  obtain y yd where y: "year_day 1970 (ms div 86400000) = (y, yd)" by fastforce
  obtain m d where m: "month_day 1 (month_lengths y) yd = (m, d)" by fastforce
  have y4: "y < 10000" using assms y by (simp add: four_digit_year_def)
  have md: "1 \<le> m" "m \<le> 12" "d < month_lengths y ! (m - 1)"
    using month_day_bounds [OF m] year_day_less [OF y] by (simp_all add: sum_month_lengths)
  have "month_lengths y ! (m - 1) \<le> 31"
  proof -
    have "month_lengths y ! (m - 1) \<in> set (month_lengths y)" using md(1,2) by (intro nth_mem) (simp add: sum_month_lengths)
    then show ?thesis by (auto simp: month_lengths_def split: if_splits)
  qed
  then have d31: "Suc d \<le> 31" using md(3) by simp
  define t where "t = ms mod 86400000"
  have t: "t div 3600000 < 24" by (simp add: t_def less_mult_imp_div_less)
  have iso: "toISOString ms = pad 4 y @ ''-'' @ pad 2 m @ ''-'' @ pad 2 (Suc d) @ ''T''
      @ pad 2 (t div 3600000) @ '':'' @ pad 2 (t div 60000 mod 60) @ '':'' @ pad 2 (t div 1000 mod 60) @ ''.''
      @ pad 3 (t mod 1000) @ ''Z''"
    using y4 by (simp add: toISOString_def y m Let_def t_def del: One_nat_def)
  have v: "value_at (toISOString ms) 0 4 = y" "value_at (toISOString ms) 5 2 = m" "value_at (toISOString ms) 8 2 = Suc d"
    "value_at (toISOString ms) 11 2 = t div 3600000" "value_at (toISOString ms) 14 2 = t div 60000 mod 60"
    "value_at (toISOString ms) 17 2 = t div 1000 mod 60"
    using y4 md(2) d31 t by (simp_all add: iso value_at_def pad_simps digits_value_digits two_digits four_digits)
  have "digits_at (toISOString ms) 0 4" "digits_at (toISOString ms) 5 2" "digits_at (toISOString ms) 8 2"
    "digits_at (toISOString ms) 11 2" "digits_at (toISOString ms) 14 2" "digits_at (toISOString ms) 17 2"
    "digits_at (toISOString ms) 20 3"
    by (simp_all add: iso digits_at_def pad_simps digit_char_props)
  moreover have "length (toISOString ms) = 24" "toISOString ms ! 4 = CHR ''-''" "toISOString ms ! 7 = CHR ''-''"
    "toISOString ms ! 10 = CHR ''T''" "toISOString ms ! 13 = CHR '':''" "toISOString ms ! 16 = CHR '':''"
    "toISOString ms ! 19 = CHR ''.''" "toISOString ms ! 23 = CHR ''Z''"
    by (simp_all add: iso pad_simps)
  ultimately show ?thesis unfolding is_date_time_def v using md d31 t by simp
qed

section \<open>Schemas\<close>

text \<open>
  The part of TypeBox the responses use. A field of an object is its name, whether it may be left out,
  and its schema; an object may have fields the schema does not name. Numbers are integers, and the
  lengths of texts are counted in bytes, of which a character outside ASCII has several.
\<close>

datatype schema =
    TString
  | TDateTime
  | TDigits
  | TBoolean
  | TNull
  | TUnknown
  | TRecord
  | TInteger "int option"
  | TRange int int
  | TText nat nat
  | TEnum "string list"
  | TUnion "schema list"
  | TArray schema
  | TObject "(string \<times> bool \<times> schema) list"

lemma field_size:
  fixes f :: "string \<times> bool \<times> schema"
  assumes "f \<in> set fs"
  shows "size (snd (snd f)) < Suc (size_list (size_prod (\<lambda>x. 0) (size_prod (\<lambda>x. 0) size)) fs)"
proof -
  have "size (snd (snd f)) \<le> size_prod (\<lambda>x. 0) (size_prod (\<lambda>x. 0) size) f" by (cases f) (simp add: size_prod_simp)
  with assms show ?thesis by (intro le_imp_less_Suc size_list_estimation')
qed

function conforms :: "schema \<Rightarrow> json \<Rightarrow> bool" where
  "conforms TString v = (\<exists>t. v = JStr t)"
| "conforms TDateTime v = (case v of JStr t \<Rightarrow> is_date_time t | _ \<Rightarrow> False)"
| "conforms TDigits v = (case v of JStr t \<Rightarrow> t \<noteq> [] \<and> list_all is_digit t | _ \<Rightarrow> False)"
| "conforms TBoolean v = (\<exists>b. v = JBool b)"
| "conforms TNull v = (v = JNull)"
| "conforms TUnknown v = True"
| "conforms TRecord v = (\<exists>kvs. v = JObj kvs)"
| "conforms (TInteger least) v =
     (case v of JNum n \<Rightarrow> (case least of None \<Rightarrow> True | Some m \<Rightarrow> m \<le> n) | _ \<Rightarrow> False)"
| "conforms (TRange least greatest) v = (case v of JNum n \<Rightarrow> least \<le> n \<and> n \<le> greatest | _ \<Rightarrow> False)"
| "conforms (TText shortest longest) v =
     (case v of JStr t \<Rightarrow> shortest \<le> length t \<and> length t \<le> longest | _ \<Rightarrow> False)"
| "conforms (TEnum ts) v = (case v of JStr t \<Rightarrow> t \<in> set ts | _ \<Rightarrow> False)"
| "conforms (TUnion ts) v = (\<exists>t \<in> set ts. conforms t v)"
| "conforms (TArray t) v = (case v of JArr vs \<Rightarrow> (\<forall>x \<in> set vs. conforms t x) | _ \<Rightarrow> False)"
| "conforms (TObject fs) v =
     (case v of
        JObj kvs \<Rightarrow> (\<forall>f \<in> set fs. case map_of kvs (fst f) of None \<Rightarrow> fst (snd f) | Some x \<Rightarrow> conforms (snd (snd f)) x)
      | _ \<Rightarrow> False)"
  by pat_completeness auto

termination
  by (relation "measure (\<lambda>(t, v). size t)") (auto simp: less_Suc_eq_le field_size intro: size_list_estimation')

text \<open>An object that lists the fields in the schema's order.\<close>

definition field_ok :: "json \<Rightarrow> string \<times> bool \<times> schema \<Rightarrow> bool" where
  "field_ok v f = (case json_field v (fst f) of None \<Rightarrow> fst (snd f) | Some x \<Rightarrow> conforms (snd (snd f)) x)"

lemma conforms_TObject: "conforms (TObject fs) (JObj kvs) \<longleftrightarrow> (\<forall>f \<in> set fs. field_ok (JObj kvs) f)"
  by (simp add: field_ok_def json_field_def)

lemma conforms_fields:
  assumes "distinct (map fst fs)"
    and "list_all2 (\<lambda>f kv. fst kv = fst f \<and> conforms (snd (snd f)) (snd kv)) fs kvs"
  shows "conforms (TObject fs) (JObj kvs)"
proof -
  have keys: "map fst kvs = map fst fs"
    using assms(2) by (induction rule: list_all2_induct) auto
  have "field_ok (JObj kvs) f" if "f \<in> set fs" for f
  proof -
    obtain i where i: "i < length fs" "fs ! i = f" using \<open>f \<in> set fs\<close> by (metis in_set_conv_nth)
    then have kv: "fst (kvs ! i) = fst f" "conforms (snd (snd f)) (snd (kvs ! i))" "i < length kvs"
      using assms(2) by (auto simp: list_all2_conv_all_nth)
    then have "map_of kvs (fst f) = Some (snd (kvs ! i))"
      using assms(1) keys by (intro map_of_is_SomeI) (auto simp: in_set_conv_nth prod_eq_iff)
    with kv(2) show ?thesis by (simp add: field_ok_def json_field_def)
  qed
  then show ?thesis unfolding conforms_TObject by blast
qed

definition rfc3339 :: schema where "rfc3339 = TDateTime"
definition bytes :: schema where "bytes = TUnion [TInteger (Some 0), TDigits]"

definition errorResponse_schema :: schema where
  "errorResponse_schema = TObject
    [(''code'', False, TString), (''message'', False, TString), (''retryable'', False, TBoolean),
     (''request_id'', False, TString)]"

definition volume_schema :: schema where
  "volume_schema = TObject
    [(''name'', False, TString), (''mount_path'', False, TString), (''total_bytes'', False, bytes),
     (''free_bytes'', False, bytes), (''available_bytes'', False, bytes), (''observed_at'', False, rfc3339),
     (''stale'', False, TBoolean)]"

definition problem_schema :: schema where
  "problem_schema = TObject
    [(''external_id'', False, TString), (''code'', False, TString), (''logical_bytes'', True, bytes),
     (''owner_organization'', False, TUnion [TString, TNull]), (''is_manually_managed'', False, TBoolean),
     (''mirror_of'', False, TUnion [TString, TNull]), (''mirror_root'', False, TUnion [TString, TNull]),
     (''quota_bytes'', False, TUnion [bytes, TNull]),
     (''catalog_state'', False, TEnum [''present'', ''orphan'', ''missing'', ''mirror'', ''deleted'']),
     (''dirty'', False, TBoolean), (''dirty_generation'', False, TUnion [TInteger (Some 0), TNull]),
     (''dirty_version'', False, bytes), (''observed_at'', False, rfc3339), (''stale'', False, TBoolean)]"

definition problemUsage_schema :: schema where
  "problemUsage_schema = TObject
    [(''problem_id'', False, TString), (''logical_bytes'', False, bytes), (''allocated_bytes'', False, bytes),
     (''archive_bytes'', False, bytes), (''auxiliary_bytes'', False, bytes),
     (''file_count'', False, TInteger (Some 0)),
     (''local_status'', False, TEnum [''present'', ''missing'', ''partial'', ''orphan'']),
     (''r2_status'', False, TEnum [''none'', ''uploading'', ''ready'', ''error'', ''superseded'']),
     (''snapshot_generation'', False, TUnion [TInteger None, TNull]), (''orphan_bytes'', False, bytes),
     (''referenced_bytes'', False, bytes), (''quota_bytes'', False, TUnion [bytes, TNull]),
     (''last_accessed_at'', True, TUnion [rfc3339, TNull]), (''observed_at'', False, rfc3339),
     (''stale'', False, TBoolean)]"

definition organizationUsage_schema :: schema where
  "organizationUsage_schema = TObject
    [(''organization_id'', False, TString), (''problem_count'', False, TInteger (Some 0)),
     (''logical_bytes'', False, bytes), (''allocated_bytes'', False, bytes), (''archive_bytes'', False, bytes),
     (''auxiliary_bytes'', False, bytes), (''referenced_bytes'', False, bytes),
     (''quota_bytes'', False, TUnion [bytes, TNull]),
     (''problem_count_quota'', False, TUnion [TInteger (Some 0), TNull]), (''observed_at'', False, rfc3339),
     (''stale'', False, TBoolean)]"

definition snapshot_schema :: schema where
  "snapshot_schema = TObject
    [(''id'', False, TString), (''problem_id'', False, TString), (''generation'', False, TInteger (Some 0)),
     (''state'', False, TEnum [''discovered'', ''hashing'', ''uploading'', ''verifying'', ''ready'', ''error'', ''superseded'']),
     (''file_count'', False, TInteger (Some 0)), (''total_bytes'', False, bytes),
     (''manifest_key'', False, TUnion [TString, TNull]), (''error_code'', False, TUnion [TString, TNull]),
     (''error_message'', False, TUnion [TString, TNull]), (''created_at'', False, rfc3339),
     (''completed_at'', False, TUnion [rfc3339, TNull])]"

definition snapshotObject_schema :: schema where
  "snapshotObject_schema = TObject
    [(''snapshot_id'', False, TString), (''rel_path'', False, TString), (''sha256'', False, TString),
     (''size_bytes'', False, bytes), (''object_key'', False, TString), (''uploaded'', False, TBoolean),
     (''verified'', False, TBoolean)]"

definition problemFilesResponse_schema :: schema where
  "problemFilesResponse_schema = TObject
    [(''problem_id'', False, TString), (''generation'', False, TUnion [TInteger None, TNull]),
     (''snapshot_id'', False, TUnion [TString, TNull]), (''snapshot_state'', False, TUnion [TString, TNull]),
     (''snapshot_completed_at'', False, TUnion [rfc3339, TNull]),
     (''total_bytes'', False, TUnion [bytes, TNull]), (''file_count'', False, TUnion [TInteger (Some 0), TNull]),
     (''items'', False, TArray snapshotObject_schema), (''next_cursor'', False, TUnion [TString, TNull]),
     (''has_more'', False, TBoolean)]"

definition job_schema :: schema where
  "job_schema = TObject
    [(''id'', False, TString), (''idempotency_key'', False, TString),
     (''job_type'', False, TEnum [''scan'', ''snapshot'', ''restore'', ''evict'', ''reconcile'', ''backfill'', ''gc_collect'', ''incident_command'']),
     (''problem_id'', False, TUnion [TString, TNull]),
     (''target_generation'', False, TUnion [TInteger None, TNull]),
     (''state'', False, TEnum [''pending'', ''running'', ''completed'', ''failed'', ''cancelled'']),
     (''lease_owner'', False, TUnion [TString, TNull]), (''lease_expires_at'', False, TUnion [rfc3339, TNull]),
     (''fencing_token'', False, TInteger (Some 0)), (''attempt'', False, TInteger (Some 0)),
     (''max_attempts'', False, TInteger (Some 1)), (''result'', False, TUnion [TUnknown, TNull]),
     (''error_code'', False, TUnion [TString, TNull]), (''error_message'', False, TUnion [TString, TNull]),
     (''created_at'', False, rfc3339), (''updated_at'', False, rfc3339),
     (''completed_at'', False, TUnion [rfc3339, TNull])]"

definition auditEvent_schema :: schema where
  "auditEvent_schema = TObject
    [(''id'', False, TString), (''actor'', False, TString), (''actor_role'', False, TUnion [TString, TNull]),
     (''action'', False, TString), (''target_type'', False, TUnion [TString, TNull]),
     (''target_id'', False, TUnion [TString, TNull]), (''problem_id'', False, TUnion [TString, TNull]),
     (''generation'', False, TUnion [TInteger None, TNull]), (''job_id'', False, TUnion [TString, TNull]),
     (''metadata'', False, TRecord), (''request_id'', False, TUnion [TString, TNull]),
     (''created_at'', False, rfc3339)]"

definition orphan_schema :: schema where
  "orphan_schema = TObject
    [(''code'', False, TString), (''logical_bytes'', False, bytes), (''allocated_bytes'', False, bytes),
     (''file_count'', False, TInteger (Some 0)), (''observed_at'', False, rfc3339)]"

definition syncChange_schema :: schema where
  "syncChange_schema = TObject
    [(''external_id'', False, TString), (''code'', False, TString),
     (''owner_organization'', False, TUnion [TString, TNull]), (''is_manually_managed'', False, TBoolean),
     (''mirror_of'', False, TUnion [TString, TNull]), (''mirror_root'', False, TUnion [TString, TNull]),
     (''catalog_state'', False, TString), (''event_kind'', False, TEnum [''upsert'', ''delete'']),
     (''schema_version'', False, TInteger (Some 1)), (''downloadable'', False, TBoolean),
     (''quota_bytes'', False, TUnion [bytes, TNull]), (''logical_bytes'', False, bytes),
     (''allocated_bytes'', False, bytes), (''archive_bytes'', False, bytes), (''auxiliary_bytes'', False, bytes),
     (''file_count'', False, TInteger (Some 0)), (''local_status'', False, TString),
     (''r2_status'', False, TString), (''snapshot_generation'', False, TUnion [TInteger None, TNull]),
     (''orphan_bytes'', False, bytes), (''referenced_bytes'', False, bytes),
     (''last_accessed_at'', True, TUnion [rfc3339, TNull]), (''observed_at'', False, rfc3339),
     (''stale'', False, TBoolean), (''updated_at'', False, rfc3339)]"

definition syncChangesResponse_schema :: schema where
  "syncChangesResponse_schema = TObject
    [(''schema_version'', False, TInteger (Some 1)), (''changes'', False, TArray syncChange_schema),
     (''next_cursor'', False, TUnion [TString, TNull]), (''has_more'', False, TBoolean)]"


definition paginated :: "schema \<Rightarrow> schema" where
  "paginated item = TObject
    [(''items'', False, TArray item), (''next_cursor'', False, TUnion [TString, TNull]), (''has_more'', False, TBoolean)]"

declare conforms.simps [simp del]

section \<open>The objects the row functions build\<close>

definition date :: "nat \<Rightarrow> json" where "date ms = JStr (toISOString ms)"
definition text_or_null :: "string option \<Rightarrow> json" where "text_or_null = json_of_option JStr"
definition date_or_null :: "nat option \<Rightarrow> json" where "date_or_null = json_of_option date"
definition count :: "nat \<Rightarrow> json" where "count n = JNum (int n)"
definition count_or_null :: "nat option \<Rightarrow> json" where "count_or_null = json_of_option count"
definition value_or_null :: "json option \<Rightarrow> json" where "value_or_null = json_of_option (\<lambda>v. v)"

definition problem_json :: "problemT \<Rightarrow> json" where
  "problem_json p = JObj ([(''external_id'', JStr (pt_external_id p)), (''code'', JStr (pt_code p))]
     @ (case pt_logical_bytes p of None \<Rightarrow> [] | Some v \<Rightarrow> [(''logical_bytes'', v)])
     @ [(''owner_organization'', text_or_null (pt_owner_organization p)),
        (''is_manually_managed'', JBool (pt_is_manually_managed p)),
        (''mirror_of'', text_or_null (pt_mirror_of p)), (''mirror_root'', text_or_null (pt_mirror_root p)),
        (''quota_bytes'', value_or_null (pt_quota_bytes p)),
        (''catalog_state'', JStr (catalog_state_text (pt_catalog_state p))), (''dirty'', JBool (pt_dirty p)),
        (''dirty_generation'', count_or_null (pt_dirty_generation p)), (''dirty_version'', pt_dirty_version p),
        (''observed_at'', date (pt_observed_at p)), (''stale'', JBool (pt_stale p))])"

definition usage_json :: "usageT \<Rightarrow> json" where
  "usage_json u = JObj
     [(''problem_id'', JStr (ut_problem_id u)), (''logical_bytes'', ut_logical_bytes u),
      (''allocated_bytes'', ut_allocated_bytes u), (''archive_bytes'', ut_archive_bytes u),
      (''auxiliary_bytes'', ut_auxiliary_bytes u), (''file_count'', JNum (ut_file_count u)),
      (''local_status'', JStr (local_status_text (ut_local_status u))),
      (''r2_status'', JStr (r2_status_text (ut_r2_status u))),
      (''snapshot_generation'', count_or_null (ut_snapshot_generation u)), (''orphan_bytes'', ut_orphan_bytes u),
      (''referenced_bytes'', ut_referenced_bytes u), (''quota_bytes'', value_or_null (ut_quota_bytes u)),
      (''last_accessed_at'', date_or_null (ut_last_accessed_at u)), (''observed_at'', date (ut_observed_at u)),
      (''stale'', JBool (ut_stale u))]"

definition organization_json :: "organization_usageT \<Rightarrow> json" where
  "organization_json r = JObj
     [(''organization_id'', JStr (ou_organization_id r)), (''problem_count'', count (ou_problem_count r)),
      (''logical_bytes'', ou_logical_bytes r), (''allocated_bytes'', ou_allocated_bytes r),
      (''archive_bytes'', ou_archive_bytes r), (''auxiliary_bytes'', ou_auxiliary_bytes r),
      (''referenced_bytes'', ou_referenced_bytes r), (''quota_bytes'', value_or_null (ou_quota_bytes r)),
      (''problem_count_quota'', json_of_option JNum (ou_problem_count_quota r)),
      (''observed_at'', date (ou_observed_at r)), (''stale'', JBool (ou_stale r))]"

definition snapshot_json :: "snapshotT \<Rightarrow> json" where
  "snapshot_json r = JObj
     [(''id'', JStr (st_id r)), (''problem_id'', JStr (st_problem_id r)), (''generation'', count (st_generation r)),
      (''state'', JStr (snapshot_state_text (st_state r))), (''file_count'', JNum (st_file_count r)),
      (''total_bytes'', st_total_bytes r), (''manifest_key'', text_or_null (st_manifest_key r)),
      (''error_code'', text_or_null (st_error_code r)), (''error_message'', text_or_null (st_error_message r)),
      (''created_at'', date (st_created_at r)), (''completed_at'', date_or_null (st_completed_at r))]"

definition file_json :: "problem_file \<Rightarrow> json" where
  "file_json r = JObj
     [(''snapshot_id'', JStr (pf_snapshot_id r)), (''rel_path'', JStr (pf_rel_path r)), (''sha256'', JStr (pf_sha256 r)),
      (''size_bytes'', pf_size_bytes r), (''object_key'', JStr (pf_object_key r)), (''uploaded'', JBool (pf_uploaded r)),
      (''verified'', JBool (pf_verified r))]"

definition job_json :: "jobT \<Rightarrow> json" where
  "job_json r = JObj
     [(''id'', JStr (jt_id r)), (''idempotency_key'', JStr (jt_idempotency_key r)),
      (''job_type'', JStr (job_type_text (jt_job_type r))), (''problem_id'', text_or_null (jt_problem_id r)),
      (''target_generation'', count_or_null (jt_target_generation r)), (''state'', JStr (job_state_text (jt_state r))),
      (''lease_owner'', text_or_null (jt_lease_owner r)), (''lease_expires_at'', date_or_null (jt_lease_expires_at r)),
      (''fencing_token'', count (jt_fencing_token r)), (''attempt'', count (jt_attempt r)),
      (''max_attempts'', count (jt_max_attempts r)), (''result'', jt_result r),
      (''error_code'', text_or_null (jt_error_code r)), (''error_message'', text_or_null (jt_error_message r)),
      (''created_at'', date (jt_created_at r)), (''updated_at'', date (jt_updated_at r)),
      (''completed_at'', date_or_null (jt_completed_at r))]"

definition audit_json :: "auditT \<Rightarrow> json" where
  "audit_json r = JObj
     [(''id'', JStr (at_id r)), (''actor'', JStr (at_actor r)), (''actor_role'', text_or_null (at_actor_role r)),
      (''action'', JStr (at_action r)), (''target_type'', text_or_null (at_target_type r)),
      (''target_id'', text_or_null (at_target_id r)), (''problem_id'', text_or_null (at_problem_id r)),
      (''generation'', count_or_null (at_generation r)), (''job_id'', text_or_null (at_job_id r)),
      (''metadata'', at_metadata r), (''request_id'', text_or_null (at_request_id r)), (''created_at'', date (at_created_at r))]"

definition orphan_json :: "orphanT \<Rightarrow> json" where
  "orphan_json r = JObj
     [(''code'', JStr (ot_code r)), (''logical_bytes'', ot_logical_bytes r), (''allocated_bytes'', ot_allocated_bytes r),
      (''file_count'', JNum (ot_file_count r)), (''observed_at'', date (ot_observed_at r))]"

definition sync_json :: "sync_change \<Rightarrow> json" where
  "sync_json r = JObj
     [(''external_id'', JStr (sy_external_id r)), (''code'', JStr (sy_code r)),
      (''owner_organization'', text_or_null (sy_owner_organization r)),
      (''is_manually_managed'', JBool (sy_is_manually_managed r)), (''mirror_of'', text_or_null (sy_mirror_of r)),
      (''mirror_root'', text_or_null (sy_mirror_root r)), (''catalog_state'', JStr (sy_catalog_state r)),
      (''event_kind'', JStr (sy_event_kind r)), (''schema_version'', count (sy_schema_version r)),
      (''downloadable'', JBool (sy_downloadable r)), (''quota_bytes'', value_or_null (sy_quota_bytes r)),
      (''logical_bytes'', sy_logical_bytes r), (''allocated_bytes'', sy_allocated_bytes r),
      (''archive_bytes'', sy_archive_bytes r), (''auxiliary_bytes'', sy_auxiliary_bytes r),
      (''file_count'', JNum (sy_file_count r)), (''local_status'', JStr (sy_local_status r)),
      (''r2_status'', JStr (sy_r2_status r)), (''snapshot_generation'', count_or_null (sy_snapshot_generation r)),
      (''orphan_bytes'', sy_orphan_bytes r), (''referenced_bytes'', sy_referenced_bytes r),
      (''last_accessed_at'', date_or_null (sy_last_accessed_at r)), (''observed_at'', date (sy_observed_at r)),
      (''stale'', JBool (sy_stale r)), (''updated_at'', date (sy_updated_at r))]"

definition volume_json :: "volumeT \<Rightarrow> json" where
  "volume_json r = JObj
     [(''name'', JStr (vt_name r)), (''mount_path'', JStr (vt_mount_path r)), (''total_bytes'', vt_total_bytes r),
      (''free_bytes'', vt_free_bytes r), (''available_bytes'', vt_available_bytes r),
      (''observed_at'', date (vt_observed_at r)), (''stale'', JBool (vt_stale r))]"

text \<open>A page; \<open>enc\<close> is the text of a cursor.\<close>

definition page_json :: "('r \<Rightarrow> json) \<Rightarrow> ('c \<Rightarrow> string) \<Rightarrow> ('r, 'c) page \<Rightarrow> json" where
  "page_json item enc p = JObj
     [(''items'', JArr (map item (pg_items p))), (''next_cursor'', text_or_null (map_option enc (pg_next_cursor p))),
      (''has_more'', JBool (pg_has_more p))]"

definition files_json :: "(string \<Rightarrow> string) \<Rightarrow> problem_files \<Rightarrow> json" where
  "files_json enc r = JObj
     [(''problem_id'', JStr (pfs_problem_id r)), (''generation'', count_or_null (pfs_generation r)),
      (''snapshot_id'', text_or_null (pfs_snapshot_id r)),
      (''snapshot_state'', text_or_null (map_option snapshot_state_text (pfs_snapshot_state r))),
      (''snapshot_completed_at'', date_or_null (pfs_snapshot_completed_at r)),
      (''total_bytes'', value_or_null (pfs_total_bytes r)), (''file_count'', json_of_option JNum (pfs_file_count r)),
      (''items'', JArr (map file_json (pg_items (pfs_page r)))),
      (''next_cursor'', text_or_null (map_option enc (pg_next_cursor (pfs_page r)))),
      (''has_more'', JBool (pg_has_more (pfs_page r)))]"

definition sync_page_json :: "(time \<times> string \<Rightarrow> string) \<Rightarrow> (sync_change, time \<times> string) page \<Rightarrow> json" where
  "sync_page_json enc p = JObj
     [(''schema_version'', JNum 1), (''changes'', JArr (map sync_json (pg_items p))),
      (''next_cursor'', text_or_null (map_option enc (pg_next_cursor p))), (''has_more'', JBool (pg_has_more p))]"

section \<open>Scalars\<close>

named_theorems conforming "that the values the rows are built from conform"

lemma conforms_text [conforming]: "conforms TString (JStr t)" "conforms TBoolean (JBool b)"
  "conforms (TUnion [TString, TNull]) (text_or_null v)" "conforms (TUnion [TUnknown, TNull]) x"
  "conforms TRecord (JObj kvs)"
  by (cases v; simp add: conforms.simps text_or_null_def json_of_option_def)+

lemma conforms_count [conforming]: "conforms (TInteger (Some m)) (count n) = (m \<le> int n)"
  "conforms (TInteger (Some m)) (JNum i) = (m \<le> i)"
  "conforms (TUnion [TInteger None, TNull]) (count_or_null v)" "conforms (TUnion [TInteger (Some 0), TNull]) (count_or_null v)"
  by (cases v; simp add: conforms.simps count_def count_or_null_def json_of_option_def)+

lemma conforms_enum [conforming]: "conforms (TEnum ts) (JStr t) = (t \<in> set ts)"
  by (simp add: conforms.simps)

lemma conforms_bytes [conforming]: "0 \<le> n \<Longrightarrow> conforms bytes (int8 n)"
  using nat_text_digits [of "nat n"] by (simp add: bytes_def int8_def conforms.simps int_text_def)

lemma conforms_bytes_or_null [conforming]:
  "pred_option (\<lambda>n. 0 \<le> n) v \<Longrightarrow> conforms (TUnion [bytes, TNull]) (value_or_null (map_option int8 v))"
  using conforms_bytes by (cases v) (auto simp: conforms.simps(12) conforms.simps(5) value_or_null_def json_of_option_def)

lemma conforms_no_value [conforming]: "conforms (TUnion [t, TNull]) (value_or_null None)"
  by (simp add: conforms.simps value_or_null_def json_of_option_def)

lemma conforms_quota [conforming]:
  "pred_option (\<lambda>n. m \<le> n) v \<Longrightarrow> conforms (TUnion [TInteger (Some m), TNull]) (json_of_option JNum v)"
  by (cases v) (auto simp: conforms.simps json_of_option_def)

lemma conforms_date [conforming]: "four_digit_year ms \<Longrightarrow> conforms rfc3339 (date ms)"
  by (simp add: rfc3339_def date_def conforms.simps toISOString_date_time)

lemma conforms_date_or_null [conforming]:
  "pred_option four_digit_year v \<Longrightarrow> conforms (TUnion [rfc3339, TNull]) (date_or_null v)"
  using conforms_date by (cases v) (auto simp: conforms.simps(12) conforms.simps(5) date_or_null_def json_of_option_def)

lemma conforms_array: "conforms (TArray t) (JArr vs) = list_all (conforms t) vs"
  by (simp add: conforms.simps list_all_iff)

section \<open>Rows\<close>

text \<open>What is asked of the stored rows: sizes that are not negative, dates before the year 10000.\<close>

definition dated :: "time \<Rightarrow> bool" where
  "dated t \<longleftrightarrow> four_digit_year (toRfc3339 t)"

definition good_problem :: "problem \<Rightarrow> bool" where
  "good_problem p \<longleftrightarrow> pred_option (\<lambda>n. 0 \<le> n) (p_quota_bytes p) \<and> dated (p_observed_at p)"

definition good_usage :: "usage \<Rightarrow> bool" where
  "good_usage u \<longleftrightarrow> 0 \<le> u_logical_bytes u \<and> 0 \<le> u_allocated_bytes u \<and> 0 \<le> u_archive_bytes u
     \<and> 0 \<le> u_auxiliary_bytes u \<and> 0 \<le> u_file_count u \<and> 0 \<le> u_orphan_bytes u \<and> 0 \<le> u_referenced_bytes u
     \<and> dated (u_observed_at u) \<and> pred_option dated (u_last_accessed_at u)"

definition good_snapshot :: "snapshot \<Rightarrow> bool" where
  "good_snapshot n \<longleftrightarrow> 0 \<le> s_file_count n \<and> 0 \<le> s_total_bytes n \<and> dated (s_created_at n) \<and> pred_option dated (s_completed_at n)"

definition good_job :: "job \<Rightarrow> bool" where
  "good_job j \<longleftrightarrow> (\<forall>t. j_job_type j \<noteq> UnknownJob t) \<and> 1 \<le> j_max_attempts j \<and> dated (j_created_at j) \<and> dated (j_updated_at j)
     \<and> pred_option dated (j_lease_expires_at j) \<and> pred_option dated (j_completed_at j)"

definition good_audit :: "audit_event \<Rightarrow> bool" where
  "good_audit a \<longleftrightarrow> (\<exists>kvs. a_metadata a = JObj kvs) \<and> dated (a_created_at a)"

lemma pred_option_dated: "pred_option dated v \<Longrightarrow> pred_option four_digit_year (map_option toRfc3339 v)"
  by (cases v) (simp_all add: dated_def)

lemmas row_rules = conforming dated_def [symmetric] pred_option_dated

lemma text_enums:
  "local_status_text l \<in> {''present'', ''missing'', ''partial'', ''orphan''}"
  "r2_status_text r \<in> {''none'', ''uploading'', ''ready'', ''error'', ''superseded''}"
  "catalog_state_text c \<in> {''present'', ''orphan'', ''missing'', ''mirror'', ''deleted''}"
  "snapshot_state_text n \<in> {''discovered'', ''hashing'', ''uploading'', ''verifying'', ''ready'', ''error'', ''superseded''}"
  "job_state_text j \<in> {''pending'', ''running'', ''completed'', ''failed'', ''cancelled''}"
  "\<forall>u. t \<noteq> UnknownJob u \<Longrightarrow> job_type_text t \<in> {''scan'', ''snapshot'', ''restore'', ''evict'', ''reconcile'', ''backfill'', ''gc_collect'', ''incident_command''}"
  by (cases l, simp_all) (cases r, simp_all, cases c, simp_all, cases n, simp_all, cases j, simp_all, cases t, simp_all)

lemma usage_conforms:
  assumes "good_usage u"
  shows "conforms problemUsage_schema (usage_json (rowToProblemUsage u))"
  unfolding problemUsage_schema_def usage_json_def using text_enums(1,2)
  by (intro conforms_fields) (use assms in \<open>simp_all add: rowToProblemUsage_def good_usage_def row_rules\<close>)

lemma snapshot_conforms:
  assumes "good_snapshot n"
  shows "conforms snapshot_schema (snapshot_json (rowToSnapshot n))"
  unfolding snapshot_schema_def snapshot_json_def using text_enums(4)
  by (intro conforms_fields) (use assms in \<open>simp_all add: rowToSnapshot_def good_snapshot_def row_rules\<close>)

lemma file_conforms:
  assumes "0 \<le> o_size_bytes ob"
  shows "conforms snapshotObject_schema (file_json (file_item ob))"
  unfolding snapshotObject_schema_def file_json_def
  by (intro conforms_fields) (use assms in \<open>simp_all add: file_item_def row_rules\<close>)

lemma job_conforms:
  assumes "good_job j"
  shows "conforms job_schema (job_json (rowToJob j))"
proof -
  have ty: "job_type_text (j_job_type j) \<in> {''scan'', ''snapshot'', ''restore'', ''evict'', ''reconcile'', ''backfill'', ''gc_collect'', ''incident_command''}"
    using assms by (intro text_enums(6)) (simp add: good_job_def)
  show ?thesis
    unfolding job_schema_def job_json_def using ty text_enums(5)
    by (intro conforms_fields) (use assms in \<open>simp_all add: rowToJob_def good_job_def row_rules\<close>)
qed

lemma audit_conforms:
  assumes "good_audit a"
  shows "conforms auditEvent_schema (audit_json (rowToAudit a))"
proof -
  have "conforms TRecord (a_metadata a)" using assms by (auto simp: good_audit_def row_rules)
  then show ?thesis
    unfolding auditEvent_schema_def audit_json_def
    by (intro conforms_fields) (use assms in \<open>simp_all add: rowToAudit_def good_audit_def row_rules\<close>)
qed

lemma orphan_conforms:
  assumes "good_usage u"
  shows "conforms orphan_schema (orphan_json (orphan_item (p, u)))"
  unfolding orphan_schema_def orphan_json_def
  by (intro conforms_fields) (use assms in \<open>simp_all add: orphan_item_def good_usage_def row_rules\<close>)

lemma volume_conforms:
  assumes "0 \<le> v_total_bytes v" "0 \<le> v_free_bytes v" "0 \<le> v_available_bytes v" "dated (v_observed_at v)"
  shows "conforms volume_schema (volume_json (volume_item v))"
  unfolding volume_schema_def volume_json_def
  by (intro conforms_fields) (use assms in \<open>simp_all add: volume_item_def row_rules\<close>)

lemma sync_conforms:
  assumes "good_problem p" and "pred_option good_usage u"
  shows "conforms syncChange_schema (sync_json (rowToSyncChange (p, u)))"
proof -
  have u: "0 \<le> usage_field u_logical_bytes 0 u" "0 \<le> usage_field u_allocated_bytes 0 u" "0 \<le> usage_field u_archive_bytes 0 u"
    "0 \<le> usage_field u_auxiliary_bytes 0 u" "0 \<le> usage_field u_file_count 0 u" "0 \<le> usage_field u_orphan_bytes 0 u"
    "0 \<le> usage_field u_referenced_bytes 0 u" "dated (usage_field u_observed_at (p_observed_at p) u)"
    "pred_option dated (usage_field u_last_accessed_at None u)" "dated (sync_updated_at (p, u))"
    using assms by (cases u; simp add: usage_field_def good_usage_def good_problem_def sync_updated_at_def max_def)+
  show ?thesis
    unfolding syncChange_schema_def sync_json_def
    by (intro conforms_fields) (use u assms in \<open>simp_all add: rowToSyncChange_def good_problem_def row_rules\<close>)
qed

text \<open>The problem's \<open>logical_bytes\<close> is left out when the query does not join it.\<close>

lemma problem_conforms:
  assumes "good_problem p" and "pred_option (\<lambda>n. 0 \<le> n) l"
  shows "conforms problem_schema (problem_json (rowToProblem p l))"
proof (cases l)
  case (Some n)
  then show ?thesis
    unfolding problem_schema_def problem_json_def using text_enums(3)
    by (simp only: rowToProblem_def problemT.simps option.map option.case append.simps, intro conforms_fields)
      (use assms in \<open>simp_all add: good_problem_def row_rules\<close>)
next
  case None
  define fs where "fs = filter (\<lambda>f. fst f \<noteq> ''logical_bytes'') (case problem_schema of TObject fs \<Rightarrow> fs | _ \<Rightarrow> [])"
  have "conforms (TObject fs) (problem_json (rowToProblem p l))"
    unfolding problem_schema_def problem_json_def fs_def using text_enums(3) None
    by (simp, intro conforms_fields)
      (use assms in \<open>simp_all add: rowToProblem_def good_problem_def row_rules\<close>)
  moreover have "field_ok (problem_json (rowToProblem p l)) (''logical_bytes'', True, bytes)"
    using None by (simp add: field_ok_def problem_json_def rowToProblem_def json_field_def)
  ultimately show ?thesis
    by (auto simp: problem_schema_def fs_def problem_json_def conforms_TObject)
qed

section \<open>Responses\<close>

definition good_db :: "db \<Rightarrow> bool" where
  "good_db s \<longleftrightarrow> list_all good_problem (problems s) \<and> list_all good_usage (problem_usage s)
     \<and> list_all good_snapshot (snapshots s) \<and> list_all (\<lambda>ob. 0 \<le> o_size_bytes ob) (snapshot_objects s)
     \<and> list_all good_job (jobs s) \<and> list_all good_audit (audit_events s)
     \<and> list_all (\<lambda>v. 0 \<le> v_total_bytes v \<and> 0 \<le> v_free_bytes v \<and> 0 \<le> v_available_bytes v \<and> dated (v_observed_at v))
         (storage_volumes s)
     \<and> list_all (\<lambda>r. pred_option (\<lambda>n. 0 \<le> n) (os_storage_quota_bytes r) \<and> pred_option (\<lambda>n. 0 \<le> n) (os_problem_count_quota r))
         (organization_settings_rows s)
     \<and> dated (now_us s)"

lemma good_usage_of: "good_db s \<Longrightarrow> pred_option good_usage (usage_of i s)"
  by (auto simp: good_db_def usage_of_def pred_option_def list_all_iff dest: find_Some_in)

lemma page_items: "set (pg_items (page_asc key cur lim c rs)) \<subseteq> set rs" "set (pg_items (page_desc key cur lim c rs)) \<subseteq> set rs"
  by (auto simp: page_asc_def page_desc_def page_of_def Let_def dest!: in_set_takeD)

lemma conforms_items:
  "(\<And>x. x \<in> set xs \<Longrightarrow> conforms t (item x)) \<Longrightarrow> conforms (TArray t) (JArr (map item xs))"
  by (auto simp: conforms_array list_all_iff)

lemma conforms_page:
  "(\<And>x. x \<in> set (pg_items p) \<Longrightarrow> conforms t (item x)) \<Longrightarrow> conforms (paginated t) (page_json item enc p)"
  unfolding paginated_def page_json_def
  by (intro conforms_fields) (simp_all add: conforming conforms_items)

lemma organization_conforms:
  assumes "good_db s"
  shows "conforms organizationUsage_schema (organization_json (rowToOrgUsage org s))"
proof -
  let ?ps = "org_problems org s" and ?st = "settings_of org s"
  have us: "good_usage u" if "u \<in> set (usages_of ?ps s)" for u
    using that good_usage_of [OF assms] by (auto simp: usages_of_def List.map_filter_def pred_option_def)
  have sums: "0 \<le> sum_of f ?ps s" if "\<And>u. good_usage u \<Longrightarrow> 0 \<le> f u" for f :: "usage \<Rightarrow> int"
    unfolding sum_of_def using us that by (intro sum_list_nonneg) auto
  have five: "0 \<le> sum_of u_logical_bytes ?ps s" "0 \<le> sum_of u_allocated_bytes ?ps s" "0 \<le> sum_of u_archive_bytes ?ps s"
    "0 \<le> sum_of u_auxiliary_bytes ?ps s" "0 \<le> sum_of u_referenced_bytes ?ps s"
    by (rule sums, simp add: good_usage_def)+
  have st: "pred_option (\<lambda>n. 0 \<le> n) (Option.bind ?st os_storage_quota_bytes)" "pred_option (\<lambda>n. 0 \<le> n) (Option.bind ?st os_problem_count_quota)"
    using assms by (auto simp: good_db_def settings_of_def pred_option_def list_all_iff bind_eq_Some_conv dest: find_Some_in)
  have q: "0 \<le> q" if "q \<in> set (List.map_filter p_quota_bytes ?ps)" for q
    using that assms by (auto simp: List.map_filter_def org_problems_def good_db_def list_all_iff good_problem_def pred_option_def)
  then have m: "pred_option (\<lambda>n. 0 \<le> n) (max_option (List.map_filter p_quota_bytes ?ps))"
    unfolding max_option_def pred_option_def using Max_in by (auto split: if_splits)
  have quota: "pred_option (\<lambda>n. 0 \<le> n) (or_else (Option.bind ?st os_storage_quota_bytes) (max_option (List.map_filter p_quota_bytes ?ps)))"
    using st(1) m by (cases "Option.bind ?st os_storage_quota_bytes") simp_all
  have d: "dated (coalesce (max_option (map u_observed_at (usages_of ?ps s))) (now_us s))"
  proof (cases "usages_of ?ps s")
    case Nil
    then show ?thesis using assms by (simp add: max_option_def good_db_def)
  next
    case (Cons u us')
    then have "Max (u_observed_at ` set (usages_of ?ps s)) \<in> u_observed_at ` set (usages_of ?ps s)" by (intro Max_in) auto
    with us Cons show ?thesis by (auto simp: max_option_def good_usage_def)
  qed
  show ?thesis
    unfolding organizationUsage_schema_def organization_json_def
    by (intro conforms_fields)
      (use st(2) quota d five in \<open>simp_all add: rowToOrgUsage_def Let_def row_rules\<close>)
qed

lemma files_conforms:
  assumes "good_db s"
  shows "conforms problemFilesResponse_schema (files_json enc (listProblemFiles i c lim s))"
proof (cases "getLatestReadySnapshot i s")
  case None
  then show ?thesis
    unfolding problemFilesResponse_schema_def files_json_def
    by (intro conforms_fields)
      (simp_all add: listProblemFiles_def empty_page_def row_rules conforms_array)
next
  case (Some snap)
  then obtain n where n: "n \<in> set (snapshots s)" "snap = rowToSnapshot n"
    by (auto simp: getLatestReadySnapshot_def dest: first_by_Some)
  then have g: "good_snapshot n" using assms by (simp add: good_db_def list_all_iff)
  have items: "conforms (TArray snapshotObject_schema) (JArr (map file_json
      (map file_item (pg_items (page_asc o_rel_path o_rel_path k c' (filter q (snapshot_objects s)))))))" for k c' q
    unfolding map_map
  proof (rule conforms_items)
    fix ob
    assume "ob \<in> set (pg_items (page_asc o_rel_path o_rel_path k c' (filter q (snapshot_objects s))))"
    then have "ob \<in> set (snapshot_objects s)" using page_items(1) by fastforce
    then have "0 \<le> o_size_bytes ob" using assms by (simp add: good_db_def list_all_iff)
    then show "conforms snapshotObject_schema ((file_json \<circ> file_item) ob)" by (simp add: file_conforms)
  qed
  have "value_or_null (Some (int8 (s_total_bytes n))) = value_or_null (map_option int8 (Some (s_total_bytes n)))" by simp
  with Some n(2) g items show ?thesis
    unfolding problemFilesResponse_schema_def files_json_def
    by (intro conforms_fields)
      (simp_all add: listProblemFiles_def map_page_def row_rules conforms_bytes_or_null rowToSnapshot_def good_snapshot_def
        del: map_map option.map)
qed

lemma pages_conform:
  assumes "good_db s"
  shows "conforms (paginated problem_schema) (page_json problem_json penc (listProblems opts s))"
    and "conforms (paginated problemUsage_schema) (page_json usage_json enc (listProblemUsage c lim s))"
    and "conforms (paginated snapshot_schema) (page_json snapshot_json tenc (listSnapshots pid tc lim s))"
    and "conforms (paginated job_schema) (page_json job_json tenc (listJobs st pid tc lim s))"
    and "conforms (paginated auditEvent_schema) (page_json audit_json tenc (listAuditEvents aopts s))"
    and "conforms (paginated orphan_schema) (page_json orphan_json enc (listOrphans c lim s))"
    and "conforms (paginated organizationUsage_schema) (page_json organization_json enc (listOrganizationUsage c lim s))"
proof -
  have good: "\<And>p. p \<in> set (problems s) \<Longrightarrow> good_problem p" "\<And>u. u \<in> set (problem_usage s) \<Longrightarrow> good_usage u"
    "\<And>n. n \<in> set (snapshots s) \<Longrightarrow> good_snapshot n" "\<And>j. j \<in> set (jobs s) \<Longrightarrow> good_job j"
    "\<And>a. a \<in> set (audit_events s) \<Longrightarrow> good_audit a"
    using assms by (simp_all add: good_db_def list_all_iff)
  have logical: "pred_option (\<lambda>n. 0 \<le> n) (map_option u_logical_bytes (usage_of k s))" for k
    using good_usage_of [OF assms, of k] by (cases "usage_of k s") (simp_all add: good_usage_def)
  have problem: "conforms problem_schema (problem_json (problem_item s p))" if "p \<in> set (problems s)" for p
    unfolding problem_item_def by (rule problem_conforms [OF good(1) [OF that] logical])
  show "conforms (paginated problem_schema) (page_json problem_json penc (listProblems opts s))"
    by (rule conforms_page) (use page_items problem in \<open>fastforce simp: listProblems_def Let_def map_page_def split: if_splits\<close>)
  show "conforms (paginated problemUsage_schema) (page_json usage_json enc (listProblemUsage c lim s))"
    by (rule conforms_page) (use page_items(1) good(2) usage_conforms in \<open>fastforce simp: listProblemUsage_def map_page_def\<close>)
  show "conforms (paginated snapshot_schema) (page_json snapshot_json tenc (listSnapshots pid tc lim s))"
    by (rule conforms_page) (use page_items(2) good(3) snapshot_conforms in \<open>fastforce simp: listSnapshots_def map_page_def\<close>)
  show "conforms (paginated job_schema) (page_json job_json tenc (listJobs st pid tc lim s))"
    by (rule conforms_page) (use page_items(2) good(4) job_conforms in \<open>fastforce simp: listJobs_def map_page_def\<close>)
  show "conforms (paginated auditEvent_schema) (page_json audit_json tenc (listAuditEvents aopts s))"
    by (rule conforms_page) (use page_items(2) good(5) audit_conforms in \<open>fastforce simp: listAuditEvents_def map_page_def\<close>)
  have "good_usage u" if "(p, u) \<in> set (orphan_rows s)" for p u
    using that good_usage_of [OF assms] by (auto simp: orphan_rows_def pred_option_def split: option.splits)
  then show "conforms (paginated orphan_schema) (page_json orphan_json enc (listOrphans c lim s))"
    by (intro conforms_page) (use page_items(1) orphan_conforms in \<open>fastforce simp: listOrphans_def map_page_def\<close>)
  show "conforms (paginated organizationUsage_schema) (page_json organization_json enc (listOrganizationUsage c lim s))"
    by (rule conforms_page) (use organization_conforms [OF assms] in \<open>auto simp: listOrganizationUsage_def map_page_def\<close>)
qed

lemma feed_conforms:
  assumes "good_db s"
  shows "conforms syncChangesResponse_schema (sync_page_json tenc (getSyncChanges tc lim s))"
proof -
  have good: "good_problem p" if "p \<in> set (problems s)" for p using that assms by (simp add: good_db_def list_all_iff)
  have "conforms syncChange_schema (sync_json (rowToSyncChange r))" if "r \<in> set (sync_rows s)" for r
    using that good good_usage_of [OF assms] by (auto simp: sync_rows_def intro!: sync_conforms)
  then have "conforms (TArray syncChange_schema) (JArr (map sync_json (pg_items (getSyncChanges tc lim s))))"
    by (intro conforms_items) (auto simp: getSyncChanges_def Let_def dest!: in_set_takeD)
  then show ?thesis
    unfolding syncChangesResponse_schema_def sync_page_json_def
    by (intro conforms_fields) (simp_all add: conforming)
qed

lemma single_rows_conform:
  assumes "good_db s"
  shows "pred_option (\<lambda>p. conforms problem_schema (problem_json p)) (getProblem i s)"
    and "pred_option (\<lambda>v. conforms volume_schema (volume_json v)) (getVolume s)"
proof -
  show "pred_option (\<lambda>p. conforms problem_schema (problem_json p)) (getProblem i s)"
    using assms by (auto simp: good_db_def list_all_iff getProblem_def pred_option_def intro!: problem_conforms dest: find_Some_in)
  show "pred_option (\<lambda>v. conforms volume_schema (volume_json v)) (getVolume s)"
    using assms by (auto simp: getVolume_def pred_option_def good_db_def list_all_iff intro!: volume_conforms dest!: first_by_Some)
qed


section \<open>Witness\<close>

definition contract_db :: db where
  "contract_db = (demo_db [demo_running ''a'' Scan (Some ''1'')])\<lparr>problem_usage := [default_usage ''1'' 0]\<rparr>"

lemma first_day: "four_digit_year 0" "four_digit_year 1000" "four_digit_year 2000"
  by (simp_all add: four_digit_year_def year_day.simps year_days_def leap_def)

lemma contract_db_good: "good_db contract_db"
  by (simp add: good_db_def contract_db_def demo_simps good_problem_def good_job_def good_usage_def default_usage_def
      dated_def toRfc3339_def first_day)

lemma demo_digits: "digit_char 0 = CHR ''0''" "digit_char (Suc 0) = CHR ''1''" "digit_char 7 = CHR ''7''" "digit_char 9 = CHR ''9''"
  by (simp_all add: digit_char_def char_of_def bit_0)


end
