(* ===== verification/Events.thy ===== *)
theory Events
  imports JsonText Contract
begin

text \<open>
  The event stream of a job: what \<open>GET /jobs/:id/events\<close> of \<open>control-plane/src/routes.ts\<close> writes, and
  how \<open>parseSseChunk\<close> of \<open>dashboard/src/lib/api.ts\<close> takes it apart again. Text is its UTF-8 bytes;
  the line ends U+2028 and U+2029 of regular expressions do not occur in it.
\<close>

section \<open>Writing\<close>

abbreviation newline :: char where
  "newline \<equiv> CHR 0x0A"

definition sse_frame :: "string \<Rightarrow> json \<Rightarrow> string option \<Rightarrow> string" where
  "sse_frame event data i =
     (case i of Some t \<Rightarrow> if t \<noteq> [] then ''id: '' @ t @ [newline] else [] | None \<Rightarrow> [])
     @ ''event: '' @ event @ [newline] @ ''data: '' @ json_stringify data @ [newline, newline]"

text \<open>The response so far, whether the two intervals run, and the local variable \<open>closed\<close>.\<close>

record event_stream =
  es_out :: string
  es_timers :: bool
  es_closed :: bool

definition es_send :: "string \<Rightarrow> json \<Rightarrow> string option \<Rightarrow> event_stream \<Rightarrow> event_stream" where
  "es_send event data i s = s\<lparr>es_out := es_out s @ sse_frame event data i\<rparr>"

definition es_end :: "event_stream \<Rightarrow> event_stream" where
  "es_end s = s\<lparr>es_timers := False, es_closed := True\<rparr>"

definition terminal_state :: "job_state \<Rightarrow> bool" where
  "terminal_state st \<longleftrightarrow> st \<in> {Completed, Failed, Cancelled}"

text \<open>One \<open>tick\<close>; \<open>None\<close> when there is no such job or the database did not answer.\<close>

definition es_tick :: "jobT option \<Rightarrow> event_stream \<Rightarrow> event_stream" where
  "es_tick job s =
     (case job of
        None \<Rightarrow> es_end (es_send ''error'' (JObj [(''code'', JStr ''not_found'')]) None s)
      | Some j \<Rightarrow>
          (let s = es_send ''job'' (job_json j) (Some (toISOString (jt_updated_at j))) s in
           if terminal_state (jt_state j) then es_end s else s))"

definition open_events :: "jobT option \<Rightarrow> event_stream" where
  "open_events job =
     (let s = es_tick job \<lparr>es_out = [], es_timers = False, es_closed = False\<rparr> in
      if es_closed s then s else s\<lparr>es_timers := True\<rparr>)"

text \<open>
  What happens while the response is open: a tick of the first interval whose read answered, a tick
  of the second one, the client's disconnection. A tick answers before the next one is due.
\<close>

datatype stream_event = Tick "jobT option" | Heartbeat nat | ClientGone

fun es_step :: "event_stream \<Rightarrow> stream_event \<Rightarrow> event_stream" where
  "es_step s (Tick job) = (if es_timers s then es_tick job s else s)"
| "es_step s (Heartbeat now_ms) =
     (if es_timers s then es_send ''heartbeat'' (JObj [(''now'', date now_ms)]) None s else s)"
| "es_step s ClientGone = s\<lparr>es_timers := False\<rparr>"

definition job_events :: "jobT option \<Rightarrow> stream_event list \<Rightarrow> event_stream" where
  "job_events first es = foldl es_step (open_events first) es"

definition get_job_events :: "caller \<Rightarrow> string \<Rightarrow> (db, event_stream reply) act" where
  "get_job_events cl i = requireScopes cl [''read''] (reading (\<lambda>s. ret (Send 200 (open_events (getJob i s)))))"

section \<open>Reading\<close>

text \<open>\<open>text.split(/\n\n+/)\<close>: the separator is a run of two or more line ends.\<close>

function split_blank :: "string \<Rightarrow> string list" where
  "split_blank [] = [[]]"
| "split_blank (c # cs) =
     (if c = newline \<and> cs \<noteq> [] \<and> hd cs = newline
      then [] # split_blank (dropWhile (\<lambda>c. c = newline) cs)
      else (case split_blank cs of [] \<Rightarrow> [[c]] | p # ps \<Rightarrow> (c # p) # ps))"
  by pat_completeness auto

termination
  by (relation "measure length") (auto simp: length_dropWhile_le le_imp_less_Suc)

declare split_blank.simps(2) [simp del]

definition is_line_end :: "char \<Rightarrow> bool" where
  "is_line_end c \<longleftrightarrow> (of_char c :: nat) \<in> {10, 13}"

text \<open>
  The group of \<open>/^event:\s*(.+)$/m\<close>: what comes after the field's name and the white space that
  follows it, up to the end of the line. If only white space is left, the last of it that is not a
  line end is the group, and \<open>trim\<close> makes it empty.
\<close>

definition event_group :: "string \<Rightarrow> string option" where
  "event_group r =
     (let t = dropWhile is_space r in
      if t \<noteq> [] then Some (takeWhile (\<lambda>c. \<not> is_line_end c) t)
      else if list_ex (\<lambda>c. \<not> is_line_end c) r then Some []
      else None)"

lemma dropWhile_Cons_shorter: "dropWhile P s = c # r \<Longrightarrow> length r < length s"
  using length_dropWhile_le [of P s] by simp

function find_event :: "string \<Rightarrow> string option" where
  "find_event s =
     (case (if take 6 s = ''event:'' then event_group (drop 6 s) else None) of
        Some n \<Rightarrow> Some n
      | None \<Rightarrow>
          (case dropWhile (\<lambda>c. \<not> is_line_end c) s of
             [] \<Rightarrow> None
           | _ # r \<Rightarrow> find_event r))"
  by auto

termination
  by (relation "measure length") (auto dest: dropWhile_Cons_shorter)

declare find_event.simps [simp del]

definition event_name :: "string \<Rightarrow> string" where
  "event_name raw = (case find_event raw of Some n \<Rightarrow> trim n | None \<Rightarrow> ''message'')"

definition data_text :: "string \<Rightarrow> string" where
  "data_text raw = join_text [newline]
     (map (\<lambda>l. dropWhile is_space (drop 5 l)) (filter (\<lambda>l. take 5 l = ''data:'') (split_on newline raw)))"

datatype sse_data = ParsedData json | TextData string

definition parse_frame :: "string \<Rightarrow> (string \<times> sse_data) option" where
  "parse_frame raw =
     (let t = data_text raw in
      if t = [] then None
      else Some (event_name raw, case json_parse t of Some v \<Rightarrow> ParsedData v | None \<Rightarrow> TextData t))"

definition parseSseChunk :: "string \<Rightarrow> (string \<times> sse_data) list" where
  "parseSseChunk text = List.map_filter parse_frame (split_blank text)"

text \<open>One turn of the reading loop of \<open>watchJob\<close>: the events of a chunk, and the rest that is kept.\<close>

definition take_chunk :: "string \<Rightarrow> string \<Rightarrow> (string \<times> sse_data) list \<times> string" where
  "take_chunk buffer chunk =
     (let parts = split_blank (buffer @ chunk) in
      (parseSseChunk (join_text [newline, newline] (butlast parts)), last parts))"

fun take_chunks :: "string \<Rightarrow> string list \<Rightarrow> (string \<times> sse_data) list \<times> string" where
  "take_chunks buffer [] = ([], buffer)"
| "take_chunks buffer (c # cs) =
     (let (es, b) = take_chunk buffer c; (es', b') = take_chunks b cs in (es @ es', b'))"

section \<open>Frames in a text\<close>

fun no_blank :: "string \<Rightarrow> bool" where
  "no_blank (c # d # s) \<longleftrightarrow> (c \<noteq> newline \<or> d \<noteq> newline) \<and> no_blank (d # s)"
| "no_blank s \<longleftrightarrow> True"

definition frame_body :: "string \<Rightarrow> bool" where
  "frame_body b \<longleftrightarrow> b \<noteq> [] \<and> hd b \<noteq> newline \<and> no_blank (b @ [newline])"

definition frames_text :: "string list \<Rightarrow> string" where
  "frames_text bs = concat (map (\<lambda>b. b @ [newline, newline]) bs)"

lemma frames_text_simps [simp]:
  "frames_text [] = []" "frames_text (b # bs) = b @ newline # newline # frames_text bs"
  "frames_text (bs @ cs) = frames_text bs @ frames_text cs"
  by (simp_all add: frames_text_def)

lemma no_blank_Cons: "no_blank (c # s) \<longleftrightarrow> (c = newline \<longrightarrow> s = [] \<or> hd s \<noteq> newline) \<and> no_blank s"
  by (cases s) auto

lemma no_blank_append: "newline \<notin> set l \<Longrightarrow> no_blank (l @ s) \<longleftrightarrow> no_blank s"
  by (induction l) (auto simp: no_blank_Cons)

lemma no_blank_prefix: "no_blank (s @ t) \<Longrightarrow> no_blank s"
  by (induction s) (auto simp: no_blank_Cons hd_append split: if_splits)

lemma no_blank_blank: "\<not> no_blank (b @ newline # newline # s)"
  by (induction b) (auto simp: no_blank_Cons)

lemma split_blank_not_Nil [simp]: "split_blank s \<noteq> []"
  by (induction s rule: split_blank.induct) (auto simp: split_blank.simps split: list.splits)

lemma split_blank_none: "no_blank s \<Longrightarrow> split_blank s = [s]"
  by (induction s) (auto simp: split_blank.simps no_blank_Cons)

lemma split_blank_frame:
  assumes "no_blank (b @ [newline])" and "s = [] \<or> hd s \<noteq> newline"
  shows "split_blank (b @ newline # newline # s) = b # split_blank s"
  using assms(1)
proof (induction b)
  case Nil
  have "dropWhile (\<lambda>c. c = newline) s = s" using assms(2) by (cases s) auto
  then show ?case by (simp add: split_blank.simps)
next
  case (Cons c b)
  then have "c = newline \<longrightarrow> b \<noteq> [] \<and> hd b \<noteq> newline" by (auto simp: no_blank_Cons hd_append split: if_splits)
  moreover have "no_blank (b @ [newline])" using Cons(2) by (simp add: no_blank_Cons)
  ultimately show ?case using Cons(1) by (auto simp: split_blank.simps(2) hd_append)
qed

lemma frame_starts: "list_all frame_body bs \<Longrightarrow> frames_text bs @ r = [] \<or> hd (frames_text bs @ r) \<noteq> newline"
  if "r = [] \<or> hd r \<noteq> newline"
  using that by (cases bs) (auto simp: frame_body_def hd_append)

lemma split_blank_frames:
  "list_all frame_body bs \<Longrightarrow> no_blank r \<Longrightarrow> r = [] \<or> hd r \<noteq> newline
    \<Longrightarrow> split_blank (frames_text bs @ r) = bs @ [r]"
proof (induction bs)
  case (Cons b bs)
  then have "no_blank (b @ [newline])" by (simp add: frame_body_def)
  moreover have "frames_text bs @ r = [] \<or> hd (frames_text bs @ r) \<noteq> newline"
    using Cons by (intro frame_starts) simp_all
  ultimately have "split_blank (b @ newline # newline # frames_text bs @ r) = b # split_blank (frames_text bs @ r)"
    by (rule split_blank_frame)
  with Cons show ?case by simp
qed (simp add: split_blank_none)

lemma split_blank_join:
  "list_all frame_body bs \<Longrightarrow> bs \<noteq> [] \<Longrightarrow> split_blank (join_text [newline, newline] bs) = bs"
proof (induction bs rule: induct_list012)
  case (2 x)
  then show ?case by (auto simp: frame_body_def intro: split_blank_none no_blank_prefix)
next
  case (3 x y zs)
  have "join_text [newline, newline] (y # zs) \<noteq> [] \<and> hd (join_text [newline, newline] (y # zs)) \<noteq> newline"
    using 3(3) by (cases zs) (auto simp: frame_body_def hd_append)
  then show ?case using 3 split_blank_frame [of x] by (auto simp: frame_body_def)
qed simp

text \<open>A part of such a text is some whole frames and the beginning of the next one.\<close>

lemma frames_prefix:
  "list_all frame_body bs \<Longrightarrow> q @ t = frames_text bs
    \<Longrightarrow> \<exists>gs hs r. bs = gs @ hs \<and> q = frames_text gs @ r \<and> r @ t = frames_text hs \<and> no_blank r
      \<and> (r = [] \<or> hd r \<noteq> newline)"
proof (induction bs arbitrary: q)
  case (Cons b bs)
  let ?f = "b @ [newline, newline]"
  from Cons(3) have e: "q @ t = ?f @ frames_text bs" by simp
  obtain w where w: "q = ?f @ w \<and> w @ t = frames_text bs \<or> q @ w = ?f \<and> t = w @ frames_text bs"
    using iffD1 [OF append_eq_append_conv2 e] by blast
  then have "q = ?f @ [] \<and> [] @ t = frames_text bs" if "w = []" using that by auto
  with w consider u where "q = ?f @ u" "u @ t = frames_text bs" | u where "?f = q @ u" "u \<noteq> []" "t = u @ frames_text bs"
    by metis
  then show ?case
  proof cases
    case 1
    then obtain gs hs r where "bs = gs @ hs" "u = frames_text gs @ r" "r @ t = frames_text hs" "no_blank r"
        "r = [] \<or> hd r \<noteq> newline" using Cons(1) [of u] Cons(2) by auto
    with 1 show ?thesis by (intro exI [of _ "b # gs"] exI [of _ hs] exI [of _ r]) simp
  next
    case 2
    obtain v where v: "b @ [newline] = q @ v"
    proof -
      have "butlast ?f = q @ butlast u" using 2 by (simp only: butlast_append) simp
      then have "b @ [newline] = q @ butlast u" by (simp add: butlast_append)
      then show thesis by (rule that)
    qed
    have fb: "b \<noteq> []" "hd b \<noteq> newline" "no_blank (q @ v)" using Cons(2) v by (simp_all add: frame_body_def)
    have "q = [] \<or> hd q = hd b" using v fb(1) by (metis hd_append2)
    with fb no_blank_prefix [OF fb(3)] Cons(3) show ?thesis
      by (intro exI [of _ "[]"] exI [of _ "b # bs"] exI [of _ q]) auto
  qed
qed simp

lemma data_text_Nil: "parse_frame [] = None"
  by (simp add: parse_frame_def data_text_def)

lemma parse_frames: "list_all frame_body bs \<Longrightarrow> parseSseChunk (join_text [newline, newline] bs) = List.map_filter parse_frame bs"
  by (cases "bs = []") (simp_all add: parseSseChunk_def split_blank_join List.map_filter_def data_text_Nil)

lemma take_chunks_frames:
  "list_all frame_body bs \<Longrightarrow> no_blank buffer \<Longrightarrow> buffer @ concat chunks = frames_text bs
    \<Longrightarrow> take_chunks buffer chunks = (List.map_filter parse_frame bs, [])"
proof (induction chunks arbitrary: buffer bs)
  case Nil
  then have "bs = []" by (cases bs) (auto simp: no_blank_blank)
  with Nil show ?case by (simp add: List.map_filter_def)
next
  case (Cons c chunks)
  then obtain gs hs r where *: "bs = gs @ hs" "buffer @ c = frames_text gs @ r" "r @ concat chunks = frames_text hs"
      "no_blank r" "r = [] \<or> hd r \<noteq> newline"
    using frames_prefix [of bs "buffer @ c" "concat chunks"] by auto
  have "take_chunk buffer c = (List.map_filter parse_frame gs, r)"
    using * Cons(2) split_blank_frames [of gs r] parse_frames [of gs] by (simp add: take_chunk_def)
  moreover have "take_chunks r chunks = (List.map_filter parse_frame hs, [])"
    using Cons(1) [of hs r] Cons(2) * by simp
  ultimately show ?case using * by (simp add: List.map_filter_def)
qed

section \<open>What is sent is what is seen\<close>

text \<open>The frames the service writes while the response is open: event, data and id.\<close>

fun sent :: "stream_event list \<Rightarrow> (string \<times> json \<times> string option) list" where
  "sent [] = []"
| "sent (Tick None # es) = [(''error'', JObj [(''code'', JStr ''not_found'')], None)]"
| "sent (Tick (Some j) # es) =
     (''job'', job_json j, Some (toISOString (jt_updated_at j))) # (if terminal_state (jt_state j) then [] else sent es)"
| "sent (Heartbeat now_ms # es) = (''heartbeat'', JObj [(''now'', date now_ms)], None) # sent es"
| "sent (ClientGone # es) = []"

definition frame_of :: "string \<times> json \<times> string option \<Rightarrow> string" where
  "frame_of f = (case f of (event, data, i) \<Rightarrow> sse_frame event data i)"

lemma es_step_stopped: "\<not> es_timers s \<Longrightarrow> es_out (foldl es_step s es) = es_out s"
proof (induction es arbitrary: s)
  case (Cons e es)
  then show ?case by (cases e) auto
qed simp

lemma es_step_sent: "es_timers s \<Longrightarrow> es_out (foldl es_step s es) = es_out s @ concat (map frame_of (sent es))"
proof (induction es arbitrary: s rule: sent.induct)
  case (3 j es)
  show ?case
  proof (cases "terminal_state (jt_state j)")
    case True
    then show ?thesis using 3(2)
      by (simp add: es_tick_def Let_def es_step_stopped es_end_def) (simp add: es_send_def frame_of_def)
  next
    case False
    then show ?thesis using 3 by (simp add: es_tick_def Let_def) (simp add: es_send_def frame_of_def)
  qed
qed (simp_all add: es_tick_def es_step_stopped es_end_def es_send_def frame_of_def)

lemma job_events_sent: "es_out (job_events first es) = concat (map frame_of (sent (Tick first # es)))"
proof (cases first)
  case None
  then show ?thesis
    by (simp add: job_events_def open_events_def es_tick_def es_end_def es_step_stopped) (simp add: es_send_def frame_of_def)
next
  case (Some j)
  then show ?thesis
  proof (cases "terminal_state (jt_state j)")
    case True
    with Some show ?thesis
      by (simp add: job_events_def open_events_def es_tick_def es_end_def es_step_stopped Let_def)
        (simp add: es_send_def frame_of_def)
  next
    case False
    with Some show ?thesis
      by (simp add: job_events_def open_events_def es_tick_def es_step_sent Let_def es_send_def)
        (simp add: frame_of_def)
  qed
qed

subsection \<open>One frame\<close>

abbreviation printable :: "string \<Rightarrow> bool" where
  "printable s \<equiv> list_all (\<lambda>c. 32 \<le> (of_char c :: nat)) s"

definition body_of :: "string \<times> json \<times> string option \<Rightarrow> string" where
  "body_of f = (case f of (event, data, i) \<Rightarrow>
     (case i of Some t \<Rightarrow> if t \<noteq> [] then ''id: '' @ t @ [newline] else [] | None \<Rightarrow> [])
     @ (''event: '' @ event) @ newline # ''data: '' @ json_stringify data)"

lemma frame_of_body: "frame_of = (\<lambda>f. body_of f @ [newline, newline])"
  by (rule ext) (simp add: frame_of_def body_of_def sse_frame_def split: prod.splits)

definition good_frame :: "string \<times> json \<times> string option \<Rightarrow> bool" where
  "good_frame f \<longleftrightarrow> (case f of (event, data, i) \<Rightarrow>
     event \<in> {''job'', ''heartbeat'', ''error''} \<and> (\<exists>kvs. data = JObj kvs) \<and> distinct_keys data
     \<and> (case i of Some t \<Rightarrow> printable t | None \<Rightarrow> True))"

lemma printable_no_newline: "printable s \<Longrightarrow> newline \<notin> set s"
  by (fastforce simp: list_all_iff)

lemma event_plain: "event \<in> {''job'', ''heartbeat'', ''error''}
  \<Longrightarrow> newline \<notin> set event \<and> event \<noteq> [] \<and> trim event = event \<and> \<not> is_space (hd event) \<and> list_all (\<lambda>c. \<not> is_line_end c) event"
  by (auto simp: trim_def is_space_def is_line_end_def)

lemma object_text: "\<exists>r. json_stringify (JObj kvs) = CHR ''{'' # r"
  by simp

lemma stringify_no_newline: "newline \<notin> set (json_stringify v)"
  using stringify_printable by (rule printable_no_newline)

lemma data_lines:
  assumes "newline \<notin> set l" and "take 5 l \<noteq> ''data:''"
  shows "data_text (l @ newline # s) = data_text s"
  using assms split_on_append [of newline l s] by (simp add: data_text_def)

lemma data_last:
  "data_text (''data: '' @ json_stringify (JObj kvs)) = json_stringify (JObj kvs)"
proof -
  have "newline \<notin> set (''data: '' @ json_stringify (JObj kvs))"
    using stringify_no_newline [of "JObj kvs"] by (simp del: json_stringify.simps)
  from split_on_plain [OF this] show ?thesis
    by (simp add: data_text_def is_space_def)
qed

lemma take_id: "take 5 (''id: '' @ t) \<noteq> ''data:''" "take 6 (''id: '' @ t @ s) \<noteq> ''event:''"
  by simp_all

lemma data_of_body:
  assumes "good_frame (event, JObj kvs, i)"
  shows "data_text (body_of (event, JObj kvs, i)) = json_stringify (JObj kvs)"
proof -
  have e: "newline \<notin> set (''event: '' @ event)" using assms event_plain by (auto simp: good_frame_def)
  have "data_text ((''event: '' @ event) @ newline # ''data: '' @ json_stringify (JObj kvs)) = json_stringify (JObj kvs)"
    by (subst data_lines [OF e]) (simp, rule data_last)
  moreover have "newline \<notin> set (''id: '' @ t)" if "i = Some t" for t
    using assms that printable_no_newline by (auto simp: good_frame_def)
  ultimately show ?thesis
    using data_lines [of "''id: '' @ t" for t]
    by (cases i) (auto simp: body_of_def)
qed

lemma line_end_newline: "is_line_end newline"
  by (simp add: is_line_end_def)

lemma find_event_here:
  assumes "event \<in> {''job'', ''heartbeat'', ''error''}"
  shows "find_event ((''event: '' @ event) @ newline # s) = Some event"
proof -
  note e = event_plain [OF assms]
  then have "dropWhile is_space (CHR '' '' # event @ newline # s) = event @ newline # s"
    by (cases event) (auto simp: is_space_def)
  moreover have "takeWhile (\<lambda>c. \<not> is_line_end c) (event @ newline # s) = event"
    using e by (simp add: takeWhile_append list_all_iff line_end_newline)
  ultimately show ?thesis by (simp add: find_event.simps event_group_def)
qed

lemma find_event_next:
  assumes "take 6 (l @ newline # s) \<noteq> ''event:''" and "printable l"
  shows "find_event (l @ newline # s) = find_event s"
proof -
  have "\<forall>c \<in> set l. \<not> is_line_end c" using assms(2) by (fastforce simp: list_all_iff is_line_end_def)
  then have "dropWhile (\<lambda>c. \<not> is_line_end c) (l @ newline # s) = newline # s"
    by (simp add: dropWhile_append2 line_end_newline)
  then show ?thesis using assms(1) by (subst find_event.simps) simp
qed

lemma event_of_body:
  assumes "good_frame (event, JObj kvs, i)"
  shows "event_name (body_of (event, JObj kvs, i)) = event"
proof -
  let ?rest = "(''event: '' @ event) @ newline # ''data: '' @ json_stringify (JObj kvs)"
  have e: "event \<in> {''job'', ''heartbeat'', ''error''}" using assms by (simp add: good_frame_def)
  have "find_event ?rest = Some event" using e by (rule find_event_here)
  moreover have "find_event ((''id: '' @ t) @ newline # ?rest) = find_event ?rest" if "i = Some t" for t
    by (rule find_event_next) (use assms that in \<open>simp_all add: good_frame_def\<close>)
  ultimately have "find_event (body_of (event, JObj kvs, i)) = Some event"
    by (cases i) (auto simp: body_of_def)
  then show ?thesis using event_plain [OF e] by (simp add: event_name_def)
qed

lemma parse_body:
  assumes "good_frame f"
  shows "parse_frame (body_of f) = Some (fst f, ParsedData (fst (snd f)))"
proof -
  obtain event kvs i where f: "f = (event, JObj kvs, i)" using assms by (cases f) (auto simp: good_frame_def)
  moreover have "json_parse (json_stringify (JObj kvs)) = Some (JObj kvs)"
    using assms f by (intro parse_stringify) (simp add: good_frame_def)
  moreover have "json_stringify (JObj kvs) \<noteq> []" by simp
  ultimately show ?thesis
    using assms data_of_body [of event kvs i] event_of_body [of event kvs i]
    by (simp add: parse_frame_def Let_def del: json_stringify.simps)
qed

lemma body_frame:
  assumes "good_frame f"
  shows "frame_body (body_of f)"
proof -
  obtain event v i where f: "f = (event, v, i)" by (cases f)
  have e: "newline \<notin> set (''event: '' @ event)" using assms f event_plain by (auto simp: good_frame_def)
  have d: "newline \<notin> set (''data: '' @ json_stringify v)" using stringify_no_newline [of v] by simp
  have "no_blank ((''data: '' @ json_stringify v) @ [newline])" by (subst no_blank_append [OF d]) simp
  then have "no_blank (newline # (''data: '' @ json_stringify v) @ [newline])" by (subst no_blank_Cons) simp
  then have eb: "no_blank ((''event: '' @ event) @ newline # (''data: '' @ json_stringify v) @ [newline])"
    by (subst no_blank_append [OF e])
  have "no_blank ((''id: '' @ t) @ newline # (''event: '' @ event) @ newline # (''data: '' @ json_stringify v) @ [newline])"
    if "i = Some t" for t
  proof -
    have i: "newline \<notin> set (''id: '' @ t)" using assms f that printable_no_newline by (auto simp: good_frame_def)
    from eb have "no_blank (newline # (''event: '' @ event) @ newline # (''data: '' @ json_stringify v) @ [newline])"
      by (subst no_blank_Cons) simp
    then show ?thesis by (subst no_blank_append [OF i])
  qed
  with eb show ?thesis by (cases i) (auto simp: f frame_body_def body_of_def simp del: no_blank.simps)
qed

subsection \<open>The whole stream\<close>

lemma digits_printable: "d < 10 \<Longrightarrow> 32 \<le> (of_char (digit_char d) :: nat)"
  by (simp add: digit_char_value)

lemma pad_printable: "printable (pad w n)"
  by (induction w arbitrary: n) (simp_all add: digits_printable)

lemma iso_printable: "printable (toISOString ms)"
  using pad_printable by (simp add: toISOString_def Let_def split: prod.splits)

lemma job_json_keys: "distinct_keys (job_json j) \<longleftrightarrow> distinct_keys (jt_result j)"
  by (simp add: job_json_def text_or_null_def date_or_null_def count_or_null_def json_of_option_def date_def count_def
      split: option.splits)

definition readable_event :: "stream_event \<Rightarrow> bool" where
  "readable_event e \<longleftrightarrow> (case e of Tick (Some j) \<Rightarrow> distinct_keys (jt_result j) | _ \<Rightarrow> True)"

lemma good_job_frame: "distinct_keys (jt_result j) \<Longrightarrow> good_frame (''job'', job_json j, Some (toISOString ms))"
  by (simp add: good_frame_def job_json_keys iso_printable) (simp add: job_json_def)

lemma sent_good: "list_all readable_event es \<Longrightarrow> list_all good_frame (sent es)"
proof (induction es rule: sent.induct)
  case (3 j es)
  then show ?case using good_job_frame [of j "jt_updated_at j"] by (simp add: readable_event_def)
qed (simp_all add: readable_event_def good_frame_def date_def)

lemma parse_bodies: "list_all good_frame fs \<Longrightarrow>
    List.map_filter parse_frame (map body_of fs) = map (\<lambda>f. (fst f, ParsedData (fst (snd f)))) fs"
  by (induction fs) (simp_all add: List.map_filter_def parse_body)

lemma stream_seen:
  assumes "list_all readable_event (Tick first # es)" and "concat chunks = es_out (job_events first es)"
  shows "take_chunks [] chunks = (map (\<lambda>f. (fst f, ParsedData (fst (snd f)))) (sent (Tick first # es)), [])"
proof -
  let ?fs = "sent (Tick first # es)"
  have g: "list_all good_frame ?fs" using assms(1) by (rule sent_good)
  then have "list_all frame_body (map body_of ?fs)" by (auto simp: list_all_iff body_frame simp del: sent.simps)
  moreover have "[] @ concat chunks = frames_text (map body_of ?fs)"
    using assms(2) by (simp add: job_events_sent frames_text_def frame_of_body o_def del: sent.simps)
  ultimately have "take_chunks [] chunks = (List.map_filter parse_frame (map body_of ?fs), [])"
    by (intro take_chunks_frames) simp_all
  then show ?thesis using parse_bodies [OF g] by simp
qed

text \<open>C7: the dashboard sees exactly the events the service wrote, in their order and with their data, however
  the network cuts the stream into chunks; nothing is left in its buffer.
\<close>

theorem event_stream_roundtrip:
  assumes "list_all readable_event (Tick first # es)" and "concat chunks = es_out (job_events first es)"
  shows "take_chunks [] chunks = (map (\<lambda>f. (fst f, ParsedData (fst (snd f)))) (sent (Tick first # es)), [])"
  using assms by (rule stream_seen)

definition sample_job :: jobT where
  "sample_job = rowToJob (demo_running ''a'' Scan (Some ''1''))"

lemma event_stream_roundtrip_witness:
  "take_chunks [] [take 30 (es_out (job_events (Some sample_job) [Heartbeat 0, Tick None])),
      drop 30 (es_out (job_events (Some sample_job) [Heartbeat 0, Tick None]))]
    = ([(''job'', ParsedData (job_json sample_job)), (''heartbeat'', ParsedData (JObj [(''now'', date 0)])),
        (''error'', ParsedData (JObj [(''code'', JStr ''not_found'')]))], [])"
proof -
  have "list_all readable_event [Tick (Some sample_job), Heartbeat 0, Tick None]" "jt_state sample_job = Running"
    by (simp_all add: readable_event_def sample_job_def rowToJob_def demo_running_def demo_job_def)
  then show ?thesis
    by (subst event_stream_roundtrip [of "Some sample_job" "[Heartbeat 0, Tick None]"]) (simp_all add: terminal_state_def)
qed

end
