(* ===== verification/Watch.thy ===== *)
theory Watch
  imports Events
begin

text \<open>
  \<open>watchJob\<close> of \<open>dashboard/src/lib/api.ts\<close>: following one job over its event stream, and by polling
  once the stream is gone. The closure's variables are a record, and what the browser does (an answer,
  a chunk, a timer, the caller's abort) are the steps. The callbacks neither fail nor abort the watcher
  themselves.
\<close>

section \<open>State\<close>

datatype watch_status = Streaming | Polling | Reconnecting

datatype watch_call =
    OnJob json | OnTerminal json | OnStatus watch_status | OnUnauthorized | OnError | FetchStream | FetchJob

text \<open>
  A timer is its delay while it is pending. \<open>wt_reading\<close>: the body of the stream's response is being
  read, into \<open>wt_buffer\<close>; a stream that was asked for and has not answered yet is
  \<open>wt_reconnecting\<close> without \<open>wt_reading\<close>. The abort signal is raised exactly when \<open>stopped\<close> is.
  \<open>wt_calls\<close> collects the callbacks and the requests, the last one last.
\<close>

record watcher =
  wt_poll_timer :: "nat option"
  wt_reconnect_timer :: "nat option"
  wt_polling :: bool
  wt_reconnecting :: bool
  wt_terminal_sent :: bool
  wt_stopped :: bool
  wt_backoff :: nat
  wt_reading :: bool
  wt_buffer :: string
  wt_calls :: "watch_call list"

definition calling :: "watch_call \<Rightarrow> watcher \<Rightarrow> watcher" where
  "calling c w = w\<lparr>wt_calls := wt_calls w @ [c]\<rparr>"

section \<open>The functions of the closure\<close>

definition cleanupTimers :: "watcher \<Rightarrow> watcher" where
  "cleanupTimers w = w\<lparr>wt_poll_timer := None, wt_reconnect_timer := None\<rparr>"

definition terminal :: "json \<Rightarrow> bool" where
  "terminal job \<longleftrightarrow>
     (case json_field job ''state'' of
        Some (JStr t) \<Rightarrow> t \<in> {''completed'', ''failed'', ''cancelled''}
      | _ \<Rightarrow> False)"

definition stop_watch :: "watcher \<Rightarrow> watcher" where
  "stop_watch w = (if wt_stopped w then w else cleanupTimers (w\<lparr>wt_stopped := True\<rparr>))"

definition handleJob :: "json \<Rightarrow> watcher \<Rightarrow> watcher" where
  "handleJob job w =
     (if wt_stopped w then w
      else (let w = calling (OnJob job) w in
        if terminal job \<and> \<not> wt_terminal_sent w
        then stop_watch (calling (OnTerminal job) (w\<lparr>wt_terminal_sent := True\<rparr>))
        else w))"

text \<open>\<open>poll\<close> up to its request, and after the answer or the failure of the request.\<close>

definition poll_start :: "watcher \<Rightarrow> watcher" where
  "poll_start w =
     (if wt_stopped w \<or> wt_polling w then w
      else calling FetchJob (calling (OnStatus Polling) (w\<lparr>wt_polling := True\<rparr>)))"

definition poll_answer :: "json \<Rightarrow> watcher \<Rightarrow> watcher" where
  "poll_answer job w =
     (let w = handleJob job w;
          w = (if \<not> wt_stopped w \<and> \<not> terminal job then w\<lparr>wt_poll_timer := Some 5000\<rparr> else w)
      in w\<lparr>wt_polling := False\<rparr>)"

definition poll_failure :: "watcher \<Rightarrow> watcher" where
  "poll_failure w =
     (let w = calling OnError w;
          w = (if \<not> wt_stopped w then w\<lparr>wt_poll_timer := Some 10000\<rparr> else w)
      in w\<lparr>wt_polling := False\<rparr>)"

definition scheduleReconnect :: "watcher \<Rightarrow> watcher" where
  "scheduleReconnect w =
     (if wt_stopped w \<or> wt_reconnect_timer w \<noteq> None \<or> wt_reconnecting w then w
      else (calling (OnStatus Reconnecting) w)
        \<lparr>wt_reconnect_timer := Some (wt_backoff w), wt_backoff := min (wt_backoff w * 2) 10000\<rparr>)"

text \<open>\<open>connect\<close> up to its request; its \<open>finally\<close>; the end of the stream; its \<open>catch\<close>.\<close>

definition connect :: "watcher \<Rightarrow> watcher" where
  "connect w =
     (if wt_stopped w \<or> wt_reconnecting w then w
      else calling FetchStream
        (calling (OnStatus (if 500 < wt_backoff w then Reconnecting else Streaming)) (w\<lparr>wt_reconnecting := True\<rparr>)))"

definition connect_finally :: "watcher \<Rightarrow> watcher" where
  "connect_finally w = w\<lparr>wt_reconnecting := False, wt_reading := False\<rparr>"

definition stream_over :: "watcher \<Rightarrow> watcher" where
  "stream_over w = (if wt_stopped w then w else poll_start (scheduleReconnect w))"

definition stream_failed :: "watcher \<Rightarrow> watcher" where
  "stream_failed w = (if wt_stopped w then w else stream_over (calling OnError w))"

definition stream_answer :: "nat \<Rightarrow> bool \<Rightarrow> watcher \<Rightarrow> watcher" where
  "stream_answer status body w =
     (if status = 401 then connect_finally (stop_watch (calling OnUnauthorized w))
      else if \<not> (200 \<le> status \<and> status \<le> 299) \<or> \<not> body then connect_finally (stream_failed w)
      else w\<lparr>wt_backoff := 500, wt_reading := True, wt_buffer := []\<rparr>)"

definition is_object :: "sse_data \<Rightarrow> json option" where
  "is_object d =
     (case d of ParsedData (JObj kvs) \<Rightarrow> Some (JObj kvs) | ParsedData (JArr vs) \<Rightarrow> Some (JArr vs) | _ \<Rightarrow> None)"

text \<open>The loop over the events of a chunk, and whether it returns from \<open>connect\<close>.\<close>

fun handle_events :: "(string \<times> sse_data) list \<Rightarrow> watcher \<Rightarrow> watcher \<times> bool" where
  "handle_events [] w = (w, False)"
| "handle_events ((event, d) # es) w =
     (case (if event = ''job'' then is_object d else None) of
        Some job \<Rightarrow>
          (let w = handleJob job w in
           if wt_stopped w \<or> terminal job then (w, True) else handle_events es w)
      | None \<Rightarrow> handle_events es w)"

definition stream_chunk :: "string \<Rightarrow> watcher \<Rightarrow> watcher" where
  "stream_chunk chunk w =
     (if wt_stopped w then connect_finally w
      else (let (es, rest) = take_chunk (wt_buffer w) chunk;
                (w, returned) = handle_events es (w\<lparr>wt_buffer := rest\<rparr>)
            in if returned then connect_finally w else w))"

section \<open>Steps\<close>

datatype watch_event =
    StreamAnswer nat bool
  | StreamBreaks
  | StreamChunk string
  | StreamEnds
  | JobAnswer json
  | JobFails
  | PollTimer
  | ReconnectTimer
  | AbortWatch

text \<open>An event that cannot happen now, such as an answer to no request, changes nothing.\<close>

fun watch_step :: "watcher \<Rightarrow> watch_event \<Rightarrow> watcher" where
  "watch_step w (StreamAnswer status body) =
     (if wt_reconnecting w \<and> \<not> wt_reading w then stream_answer status body w else w)"
| "watch_step w StreamBreaks = (if wt_reconnecting w then connect_finally (stream_failed w) else w)"
| "watch_step w (StreamChunk c) = (if wt_reading w then stream_chunk c w else w)"
| "watch_step w StreamEnds = (if wt_reading w then connect_finally (stream_over w) else w)"
| "watch_step w (JobAnswer job) = (if wt_polling w then poll_answer job w else w)"
| "watch_step w JobFails = (if wt_polling w then poll_failure w else w)"
| "watch_step w PollTimer =
     (if wt_poll_timer w \<noteq> None then poll_start (w\<lparr>wt_poll_timer := None\<rparr>) else w)"
| "watch_step w ReconnectTimer =
     (if wt_reconnect_timer w \<noteq> None then connect (w\<lparr>wt_reconnect_timer := None\<rparr>) else w)"
| "watch_step w AbortWatch = stop_watch w"

definition watchJob :: watcher where
  "watchJob = connect
     \<lparr>wt_poll_timer = None, wt_reconnect_timer = None, wt_polling = False, wt_reconnecting = False,
      wt_terminal_sent = False, wt_stopped = False, wt_backoff = 500, wt_reading = False, wt_buffer = [],
      wt_calls = []\<rparr>"

definition watch_run :: "watch_event list \<Rightarrow> watcher" where
  "watch_run es = foldl watch_step watchJob es"

section \<open>What every run keeps\<close>

text \<open>The calls that carry a job.\<close>

definition job_calls :: "watcher \<Rightarrow> watch_call list" where
  "job_calls w = filter (\<lambda>c. case c of OnJob v \<Rightarrow> True | OnTerminal v \<Rightarrow> True | _ \<Rightarrow> False) (wt_calls w)"

definition reported :: "json list \<Rightarrow> watch_call list" where
  "reported vs = map OnJob vs @ (if vs \<noteq> [] \<and> terminal (last vs) then [OnTerminal (last vs)] else [])"

definition stream_requests :: "watcher \<Rightarrow> nat" where
  "stream_requests w = length (filter (\<lambda>c. c = FetchStream) (wt_calls w))"

definition watching :: "watcher \<Rightarrow> bool" where
  "watching w \<longleftrightarrow> wt_reconnecting w \<or> wt_polling w \<or> wt_poll_timer w \<noteq> None"

definition told :: "watcher \<Rightarrow> json list \<Rightarrow> bool" where
  "told w vs \<longleftrightarrow> job_calls w = reported vs \<and> list_all (\<lambda>v. \<not> terminal v) (butlast vs)
     \<and> (\<not> wt_stopped w \<longrightarrow> list_all (\<lambda>v. \<not> terminal v) vs)"

definition steady :: "watcher \<Rightarrow> bool" where
  "steady w \<longleftrightarrow>
     (wt_terminal_sent w \<longrightarrow> wt_stopped w) \<and> (wt_stopped w \<longrightarrow> wt_poll_timer w = None)
     \<and> wt_reconnect_timer w = None \<and> wt_backoff w = 500 \<and> stream_requests w = 1 \<and> (\<exists>vs. told w vs)"

lemma reported_open: "list_all (\<lambda>v. \<not> terminal v) vs \<Longrightarrow> reported vs = map OnJob vs"
  by (cases vs rule: rev_cases) (auto simp: reported_def)

lemma told_calling: "c \<notin> range OnJob \<union> range OnTerminal \<Longrightarrow> told (calling c w) vs \<longleftrightarrow> told w vs"
  by (cases c) (auto simp: told_def job_calls_def calling_def)

lemma calling_fields [simp]:
  "wt_stopped (calling c w) = wt_stopped w" "wt_polling (calling c w) = wt_polling w"
  "wt_reconnecting (calling c w) = wt_reconnecting w" "wt_reading (calling c w) = wt_reading w"
  "wt_poll_timer (calling c w) = wt_poll_timer w" "wt_reconnect_timer (calling c w) = wt_reconnect_timer w"
  "wt_backoff (calling c w) = wt_backoff w" "wt_terminal_sent (calling c w) = wt_terminal_sent w"
  "wt_buffer (calling c w) = wt_buffer w"
  by (simp_all add: calling_def)

lemma steady_calling:
  assumes "c \<in> {OnUnauthorized, OnError, FetchJob} \<union> range OnStatus"
  shows "steady (calling c w) \<longleftrightarrow> steady w"
proof -
  have "c \<notin> range OnJob \<union> range OnTerminal" using assms by auto
  moreover have "stream_requests (calling c w) = stream_requests w"
    using assms by (auto simp: stream_requests_def calling_def)
  ultimately show ?thesis by (simp add: steady_def told_calling)
qed

lemma steady_cong:
  "told (w\<lparr>wt_polling := p\<rparr>) vs \<longleftrightarrow> told w vs" "told (w\<lparr>wt_reconnecting := r\<rparr>) vs \<longleftrightarrow> told w vs"
  "told (w\<lparr>wt_reading := b\<rparr>) vs \<longleftrightarrow> told w vs" "told (w\<lparr>wt_buffer := t\<rparr>) vs \<longleftrightarrow> told w vs"
  "told (w\<lparr>wt_poll_timer := n\<rparr>) vs \<longleftrightarrow> told w vs"
  "stream_requests (w\<lparr>wt_polling := p\<rparr>) = stream_requests w" "stream_requests (w\<lparr>wt_reconnecting := r\<rparr>) = stream_requests w"
  "stream_requests (w\<lparr>wt_reading := b\<rparr>) = stream_requests w" "stream_requests (w\<lparr>wt_buffer := t\<rparr>) = stream_requests w"
  "stream_requests (w\<lparr>wt_poll_timer := n\<rparr>) = stream_requests w"
  by (simp_all add: told_def job_calls_def stream_requests_def)

lemma steady_fields [simp]:
  "steady (w\<lparr>wt_polling := p\<rparr>) \<longleftrightarrow> steady w" "steady (w\<lparr>wt_reconnecting := r\<rparr>) \<longleftrightarrow> steady w"
  "steady (w\<lparr>wt_reading := b\<rparr>) \<longleftrightarrow> steady w" "steady (w\<lparr>wt_buffer := t\<rparr>) \<longleftrightarrow> steady w"
  by (simp_all add: steady_def steady_cong)

lemma steady_timer: "steady w \<Longrightarrow> \<not> wt_stopped w \<or> n = None \<Longrightarrow> steady (w\<lparr>wt_poll_timer := n\<rparr>)"
  by (auto simp: steady_def steady_cong)

lemma steady_stop: "steady w \<Longrightarrow> steady (stop_watch w)"
  by (auto simp: steady_def stop_watch_def cleanupTimers_def told_def job_calls_def stream_requests_def)

lemma stop_fields [simp]:
  "wt_stopped (stop_watch w)" "wt_polling (stop_watch w) = wt_polling w" "wt_reconnecting (stop_watch w) = wt_reconnecting w"
  "wt_reading (stop_watch w) = wt_reading w" "wt_calls (stop_watch w) = wt_calls w"
  by (simp_all add: stop_watch_def cleanupTimers_def)

lemma handleJob_open:
  assumes "steady w" and "\<not> wt_stopped w"
  shows "handleJob job w =
    (if terminal job then stop_watch (calling (OnTerminal job) ((calling (OnJob job) w)\<lparr>wt_terminal_sent := True\<rparr>))
     else calling (OnJob job) w)"
  using assms by (auto simp: handleJob_def steady_def Let_def)

lemma steady_handleJob:
  assumes "steady w"
  shows "steady (handleJob job w) \<and> (terminal job \<longrightarrow> wt_stopped (handleJob job w))"
proof (cases "wt_stopped w")
  case True
  then show ?thesis using assms by (simp add: handleJob_def)
next
  case False
  from assms False obtain vs where "told w vs" "list_all (\<lambda>v. \<not> terminal v) vs" by (auto simp: steady_def told_def)
  then have "told (handleJob job w) (vs @ [job])"
    using assms False
    by (auto simp: handleJob_open told_def reported_open) (auto simp: job_calls_def reported_def calling_def)
  with assms False show ?thesis
    by (auto simp: handleJob_open steady_def stop_watch_def cleanupTimers_def calling_def stream_requests_def)
qed

lemma handleJob_fields [simp]:
  "wt_polling (handleJob job w) = wt_polling w" "wt_reconnecting (handleJob job w) = wt_reconnecting w"
  "wt_reading (handleJob job w) = wt_reading w" "\<not> wt_stopped (handleJob job w) \<Longrightarrow> wt_poll_timer (handleJob job w) = wt_poll_timer w"
  by (auto simp: handleJob_def Let_def)

lemma steady_poll_start: "steady w \<Longrightarrow> steady (poll_start w)"
  by (simp add: poll_start_def steady_calling)

lemma steady_poll_answer: "steady w \<Longrightarrow> steady (poll_answer job w)"
  using steady_handleJob [of w job] by (auto simp: poll_answer_def Let_def intro: steady_timer)

lemma steady_poll_failure: "steady w \<Longrightarrow> steady (poll_failure w)"
  by (auto simp: poll_failure_def Let_def steady_calling intro: steady_timer)

lemma steady_stream_over: "steady w \<Longrightarrow> wt_reconnecting w \<Longrightarrow> steady (stream_over w)"
  by (simp add: stream_over_def scheduleReconnect_def steady_poll_start)

lemma steady_stream_failed: "steady w \<Longrightarrow> wt_reconnecting w \<Longrightarrow> steady (stream_failed w)"
  by (simp add: stream_failed_def steady_stream_over steady_calling)

lemma steady_stream_answer: "steady w \<Longrightarrow> wt_reconnecting w \<Longrightarrow> steady (stream_answer status body w)"
  by (auto simp: stream_answer_def connect_finally_def steady_stream_failed steady_stop steady_calling)
    (simp add: steady_def told_def job_calls_def stream_requests_def)

lemma handle_events_keeps:
  assumes "steady w" and "handle_events es w = (w', r)"
  shows "steady w' \<and> wt_polling w' = wt_polling w \<and> wt_reconnecting w' = wt_reconnecting w
    \<and> wt_reading w' = wt_reading w \<and> (r \<longrightarrow> wt_stopped w') \<and> (\<not> wt_stopped w' \<longrightarrow> wt_poll_timer w' = wt_poll_timer w)
    \<and> (wt_stopped w' \<longrightarrow> r \<or> wt_stopped w)"
  using assms
proof (induction es arbitrary: w)
  case (Cons e es)
  obtain event d where e: "e = (event, d)" by (cases e)
  show ?case
  proof (cases "if event = ''job'' then is_object d else None")
    case None
    then show ?thesis using Cons e by simp
  next
    case (Some job)
    have s: "steady (handleJob job w)" "terminal job \<Longrightarrow> wt_stopped (handleJob job w)"
      using steady_handleJob [OF Cons(2)] by auto
    show ?thesis
    proof (cases "wt_stopped (handleJob job w)")
      case True
      then show ?thesis using Cons(3) e Some s by (auto simp: Let_def)
    next
      case False
      with s(2) have "\<not> terminal job" by blast
      with False have "handle_events es (handleJob job w) = (w', r)" using Cons(3) e Some by (simp add: Let_def)
      from Cons(1) [OF s(1) this] False show ?thesis by auto
    qed
  qed
qed simp

lemma watch_run_snoc [simp]: "watch_run (es @ [e]) = watch_step (watch_run es) e" "watch_run [] = watchJob"
  by (simp_all add: watch_run_def)

definition alive :: "watcher \<Rightarrow> bool" where
  "alive w \<longleftrightarrow> (wt_stopped w \<or> watching w) \<and> (wt_reading w \<longrightarrow> wt_reconnecting w)"

lemma poll_start_alive: "wt_stopped (poll_start w) \<or> wt_polling (poll_start w)"
  by (simp add: poll_start_def)

lemma poll_start_fields [simp]:
  "wt_stopped (poll_start w) = wt_stopped w" "wt_reading (poll_start w) = wt_reading w"
  "wt_polling (poll_start w) \<longleftrightarrow> wt_polling w \<or> \<not> wt_stopped w"
  "wt_reconnecting (poll_start w) = wt_reconnecting w" "wt_poll_timer (poll_start w) = wt_poll_timer w"
  by (simp_all add: poll_start_def)

lemma stream_over_alive: "wt_stopped (stream_over w) \<or> wt_polling (stream_over w)"
  using poll_start_alive by (auto simp: stream_over_def)

lemma stream_failed_alive: "wt_stopped (stream_failed w) \<or> wt_polling (stream_failed w)"
  using stream_over_alive by (auto simp: stream_failed_def)

lemma steady_step:
  assumes "steady w" and "alive w"
  shows "steady (watch_step w e) \<and> alive (watch_step w e)"
proof (cases e)
  case (StreamAnswer status body)
  then show ?thesis
    using assms steady_stream_answer [of w status body] stream_failed_alive [of w]
    by (auto simp: alive_def watching_def stream_answer_def connect_finally_def)
next
  case StreamBreaks
  then show ?thesis using assms steady_stream_failed [of w] stream_failed_alive [of w]
    by (auto simp: alive_def watching_def connect_finally_def)
next
  case (StreamChunk c)
  obtain es rest where t: "take_chunk (wt_buffer w) c = (es, rest)" by fastforce
  obtain w' r where h: "handle_events es (w\<lparr>wt_buffer := rest\<rparr>) = (w', r)" by fastforce
  have "steady (w\<lparr>wt_buffer := rest\<rparr>)" using assms(1) by simp
  from handle_events_keeps [OF this h] show ?thesis
    using assms StreamChunk t h by (auto simp: alive_def watching_def stream_chunk_def connect_finally_def)
next
  case StreamEnds
  then show ?thesis using assms steady_stream_over [of w] stream_over_alive [of w]
    by (auto simp: alive_def watching_def connect_finally_def)
next
  case (JobAnswer job)
  then show ?thesis using assms steady_poll_answer [of w job] steady_handleJob [OF assms(1), of job]
    by (auto simp: alive_def watching_def poll_answer_def Let_def)
next
  case JobFails
  then show ?thesis using assms steady_poll_failure [of w]
    by (auto simp: alive_def watching_def poll_failure_def Let_def)
next
  case PollTimer
  then show ?thesis
    using assms steady_poll_start [OF steady_timer [of w None]] poll_start_alive [of "w\<lparr>wt_poll_timer := None\<rparr>"]
    by (auto simp: alive_def watching_def)
next
  case ReconnectTimer
  then show ?thesis using assms by (simp add: steady_def)
next
  case AbortWatch
  then show ?thesis using assms steady_stop by (auto simp: alive_def)
qed

lemma watchJob_steady: "steady watchJob \<and> alive watchJob"
proof -
  have "told watchJob []" by (simp add: told_def job_calls_def reported_def watchJob_def connect_def calling_def)
  then show ?thesis
    by (auto simp: steady_def alive_def watching_def stream_requests_def) (auto simp: watchJob_def connect_def calling_def)
qed

lemma run_steady: "steady (watch_run es) \<and> alive (watch_run es)"
  by (induction es rule: rev_induct) (simp_all add: watchJob_steady steady_step)

text \<open>C8: whatever the browser delivers, and in whatever order, the caller is told of a job until it is
  terminal: that report is the last one, and \<open>onTerminal\<close> is called for it, exactly once.
\<close>

theorem watch_reports_once:
  "\<exists>vs. job_calls (watch_run es) = map OnJob vs @ (if vs \<noteq> [] \<and> terminal (last vs) then [OnTerminal (last vs)] else [])
    \<and> list_all (\<lambda>v. \<not> terminal v) (butlast vs)"
proof -
  obtain vs where "told (watch_run es) vs" using run_steady [of es] by (auto simp: steady_def)
  then show ?thesis unfolding told_def reported_def by blast
qed

lemma job_calls_simps [simp]:
  "job_calls (calling (OnJob v) w) = job_calls w @ [OnJob v]"
  "job_calls (calling (OnTerminal v) w) = job_calls w @ [OnTerminal v]"
  "job_calls (calling (OnStatus st) w) = job_calls w" "job_calls (calling OnUnauthorized w) = job_calls w"
  "job_calls (calling OnError w) = job_calls w" "job_calls (calling FetchStream w) = job_calls w"
  "job_calls (calling FetchJob w) = job_calls w"
  "job_calls (w\<lparr>wt_polling := p\<rparr>) = job_calls w" "job_calls (w\<lparr>wt_reconnecting := p\<rparr>) = job_calls w"
  "job_calls (w\<lparr>wt_reading := p\<rparr>) = job_calls w" "job_calls (w\<lparr>wt_buffer := t\<rparr>) = job_calls w"
  "job_calls (w\<lparr>wt_poll_timer := n\<rparr>) = job_calls w" "job_calls (w\<lparr>wt_reconnect_timer := n\<rparr>) = job_calls w"
  "job_calls (w\<lparr>wt_backoff := k\<rparr>) = job_calls w" "job_calls (w\<lparr>wt_terminal_sent := p\<rparr>) = job_calls w"
  "job_calls (stop_watch w) = job_calls w"
  by (simp_all add: job_calls_def calling_def)

lemma job_calls_functions [simp]:
  "job_calls (poll_start w) = job_calls w" "job_calls (scheduleReconnect w) = job_calls w"
  "job_calls (stream_over w) = job_calls w" "job_calls (stream_failed w) = job_calls w"
  "job_calls (connect_finally w) = job_calls w" "job_calls (connect w) = job_calls w"
  by (simp_all add: poll_start_def scheduleReconnect_def stream_over_def stream_failed_def connect_finally_def connect_def)

lemma stopped_ids:
  "wt_stopped w \<Longrightarrow> handleJob job w = w" "wt_stopped w \<Longrightarrow> poll_start w = w" "wt_stopped w \<Longrightarrow> stream_over w = w"
  "wt_stopped w \<Longrightarrow> stream_failed w = w" "wt_stopped w \<Longrightarrow> connect w = w" "wt_stopped w \<Longrightarrow> stop_watch w = w"
  by (simp_all add: handleJob_def poll_start_def stream_over_def stream_failed_def connect_def stop_watch_def)

lemma stopped_watch_step: "wt_stopped w \<Longrightarrow> wt_stopped (watch_step w e) \<and> job_calls (watch_step w e) = job_calls w"
  by (cases e)
    (simp_all add: stopped_ids stream_answer_def stream_chunk_def poll_answer_def poll_failure_def connect_finally_def Let_def)

lemma stopped_run: "wt_stopped w \<Longrightarrow> job_calls (foldl watch_step w es) = job_calls w"
  by (induction es arbitrary: w) (simp_all add: stopped_watch_step)

text \<open>After the caller's abort no job is reported any more, whatever was on its way.\<close>

theorem watch_silent_after_abort:
  "job_calls (watch_run (es @ AbortWatch # fs)) = job_calls (watch_run es)"
  by (simp add: watch_run_def stopped_run)

lemma failed_fields: "wt_stopped (stream_failed w) = wt_stopped w" "wt_poll_timer (stream_failed w) = wt_poll_timer w"
  by (simp_all add: stream_failed_def stream_over_def scheduleReconnect_def)

text \<open>C9: a watcher never falls asleep: while it is not stopped a stream, a poll or a timer is under way, and
  when the stream breaks, the answer of the poll that takes over brings the end of the job.
\<close>

theorem watch_finishes:
  assumes "\<not> wt_stopped (watch_run es)" and "terminal v"
  shows "watching (watch_run es)
    \<and> job_calls (watch_run (es @ [StreamBreaks, PollTimer, JobAnswer v])) = job_calls (watch_run es) @ [OnJob v, OnTerminal v]"
proof -
  let ?w = "watch_run es"
  let ?w2 = "watch_step (watch_step ?w StreamBreaks) PollTimer"
  have a: "steady ?w" "alive ?w" using run_steady by auto
  then have w: "watching ?w" using assms(1) by (simp add: alive_def)
  then have p: "\<not> wt_stopped ?w2 \<and> wt_polling ?w2 \<and> job_calls ?w2 = job_calls ?w"
    using assms(1) stream_failed_alive [of ?w] 
    by (auto simp: watching_def connect_finally_def failed_fields)
  have s: "steady ?w2" using steady_step [OF a] steady_step by blast
  then have "job_calls (watch_step ?w2 (JobAnswer v)) = job_calls ?w2 @ [OnJob v, OnTerminal v]"
    using p assms(2) handleJob_open [OF s]
    by (simp add: poll_answer_def Let_def)
  with w p show ?thesis by (simp add: watch_run_def)
qed

text \<open>
  \<open>scheduleReconnect\<close> is only called while \<open>reconnecting\<close> is set, so it does nothing: the stream is asked
  for once and never again, and the backoff never grows.
\<close>

lemma watch_never_reconnects:
  "stream_requests (watch_run es) = 1 \<and> wt_backoff (watch_run es) = 500 \<and> wt_reconnect_timer (watch_run es) = None"
  using run_steady [of es] by (simp add: steady_def)

section \<open>Both ends of the stream\<close>

lemma handle_append:
  "handle_events (es @ fs) w = (let (w', r) = handle_events es w in if r then (w', True) else handle_events fs w')"
  by (induction es w rule: handle_events.induct) (auto simp: Let_def split: option.splits prod.splits)

lemma handleJob_buffer: "handleJob job (w\<lparr>wt_buffer := b\<rparr>) = (handleJob job w)\<lparr>wt_buffer := b\<rparr>"
  by (simp add: handleJob_def calling_def stop_watch_def cleanupTimers_def Let_def)

lemma handle_buffer:
  "handle_events es (w\<lparr>wt_buffer := b\<rparr>) = (let (w', r) = handle_events es w in (w'\<lparr>wt_buffer := b\<rparr>, r))"
proof (induction es arbitrary: w)
  case (Cons e es)
  obtain event d where e: "e = (event, d)" by (cases e)
  show ?case
    by (cases "if event = ''job'' then is_object d else None")
      (auto simp: e handleJob_buffer Cons [of w] Cons [of "handleJob v w" for v] Let_def)
qed simp

lemma chunks_run:
  assumes "steady w" and "\<not> wt_stopped w" and "wt_reading w"
  shows "job_calls (foldl watch_step w (map StreamChunk cs)) = job_calls (fst (handle_events (fst (take_chunks (wt_buffer w) cs)) w))"
  using assms
proof (induction cs arbitrary: w)
  case (Cons c cs)
  obtain es b where t: "take_chunk (wt_buffer w) c = (es, b)" by fastforce
  obtain w' r where h: "handle_events es w = (w', r)" by fastforce
  have k: "steady w' \<and> wt_reading w' \<and> (r \<longrightarrow> wt_stopped w') \<and> (wt_stopped w' \<longrightarrow> r)"
    using handle_events_keeps [OF Cons(2) h] Cons(3, 4) by auto
  have hb: "handle_events es (w\<lparr>wt_buffer := b\<rparr>) = (w'\<lparr>wt_buffer := b\<rparr>, r)" by (simp add: handle_buffer h)
  obtain es' b' where t': "take_chunks b cs = (es', b')" by fastforce
  show ?case
  proof (cases r)
    case True
    have "wt_stopped (connect_finally (w'\<lparr>wt_buffer := b\<rparr>))" using True k by (simp add: connect_finally_def)
    then show ?thesis
      using Cons(3, 4) True by (simp add: stream_chunk_def t t' hb h handle_append stopped_run)
  next
    case False
    then have w': "steady (w'\<lparr>wt_buffer := b\<rparr>)" "\<not> wt_stopped (w'\<lparr>wt_buffer := b\<rparr>)" "wt_reading (w'\<lparr>wt_buffer := b\<rparr>)"
      using k by auto
    have "job_calls (foldl watch_step (w'\<lparr>wt_buffer := b\<rparr>) (map StreamChunk cs)) = job_calls (fst (handle_events es' w'))"
      using Cons(1) [OF w'] t' by (simp add: handle_buffer split: prod.splits)
    then show ?thesis
      using Cons(3, 4) False by (simp add: stream_chunk_def t t' hb h handle_append)
  qed
qed simp

text \<open>The jobs in what the service sent.\<close>

definition jobs_sent :: "stream_event list \<Rightarrow> json list" where
  "jobs_sent es = map (\<lambda>f. fst (snd f)) (filter (\<lambda>f. fst f = ''job'') (sent es))"

lemma terminal_job_json: "terminal (job_json j) \<longleftrightarrow> terminal_state (jt_state j)"
  by (cases "jt_state j") (simp_all add: terminal_def terminal_state_def job_json_def json_field_def)

lemma job_json_object: "is_object (ParsedData (job_json j)) = Some (job_json j)"
  by (simp add: is_object_def job_json_def)

lemma reported_next: "\<not> terminal v \<Longrightarrow> reported (v # vs) = OnJob v # reported vs"
  by (auto simp: reported_def)

lemma handle_sent:
  "steady w \<Longrightarrow> \<not> wt_stopped w
    \<Longrightarrow> job_calls (fst (handle_events (map (\<lambda>f. (fst f, ParsedData (fst (snd f)))) (sent es)) w))
      = job_calls w @ reported (jobs_sent es)"
proof (induction es arbitrary: w rule: sent.induct)
  case (3 j es)
  show ?case
  proof (cases "terminal_state (jt_state j)")
    case True
    then show ?thesis
      using 3 by (simp add: jobs_sent_def job_json_object handleJob_open terminal_job_json reported_def)
  next
    case False
    have "steady (handleJob (job_json j) w)" using steady_handleJob [OF 3(2)] by blast
    with False show ?thesis
      using 3 by (simp add: jobs_sent_def job_json_object handleJob_open terminal_job_json reported_next)
  qed
qed (simp_all add: jobs_sent_def reported_def)

text \<open>C6: the two ends together: what the service sends of a job arrives at the caller as the same jobs in the
  same order, and the one that is terminal ends the watch, however the network cuts the stream.
\<close>

theorem watch_follows_stream:
  assumes "list_all readable_event (Tick first # es)" and "concat chunks = es_out (job_events first es)"
    and "vs = jobs_sent (Tick first # es)"
  shows "job_calls (watch_run (StreamAnswer 200 True # map StreamChunk chunks))
    = map OnJob vs @ (if vs \<noteq> [] \<and> terminal (last vs) then [OnTerminal (last vs)] else [])"
proof -
  let ?w = "watch_step watchJob (StreamAnswer 200 True)"
  have w: "steady ?w" "alive ?w" using watchJob_steady steady_step by blast+
  have f: "\<not> wt_stopped ?w" "wt_reading ?w" "wt_buffer ?w = []" "job_calls ?w = []"
    by (simp_all add: watchJob_def connect_def stream_answer_def) (simp_all add: job_calls_def calling_def)
  have "job_calls (foldl watch_step ?w (map StreamChunk chunks)) = reported vs"
    using chunks_run [OF w(1) f(1, 2), of chunks] handle_sent [OF w(1) f(1)] f(3, 4) assms(3) stream_seen [OF assms(1, 2)]
    by simp
  then show ?thesis by (simp add: watch_run_def reported_def)
qed

definition done_job :: jobT where
  "done_job = sample_job\<lparr>jt_state := Completed\<rparr>"

lemma watch_follows_stream_witness:
  "job_calls (watch_run [StreamAnswer 200 True,
      StreamChunk (take 30 (es_out (job_events (Some sample_job) [Heartbeat 0, Tick (Some done_job)]))),
      StreamChunk (drop 30 (es_out (job_events (Some sample_job) [Heartbeat 0, Tick (Some done_job)])))])
    = [OnJob (job_json sample_job), OnJob (job_json done_job), OnTerminal (job_json done_job)]"
proof -
  let ?es = "[Heartbeat 0, Tick (Some done_job)]"
  have "list_all readable_event [Tick (Some sample_job), Heartbeat 0, Tick (Some done_job)]" "jt_state sample_job = Running"
    "jt_state done_job = Completed"
    by (simp_all add: readable_event_def done_job_def sample_job_def rowToJob_def demo_running_def demo_job_def)
  moreover from this have "jobs_sent (Tick (Some sample_job) # ?es) = [job_json sample_job, job_json done_job]"
    "terminal (job_json done_job)"
    by (simp_all add: jobs_sent_def terminal_job_json terminal_state_def)
  ultimately show ?thesis
    using watch_follows_stream [of "Some sample_job" ?es
      "[take 30 (es_out (job_events (Some sample_job) ?es)), drop 30 (es_out (job_events (Some sample_job) ?es))]"]
    by simp
qed

lemma watch_finishes_witness:
  "watching (watch_run [StreamAnswer 503 True, JobFails])
    \<and> job_calls (watch_run [StreamAnswer 503 True, JobFails, StreamBreaks, PollTimer, JobAnswer (job_json done_job)])
      = [OnJob (job_json done_job), OnTerminal (job_json done_job)]"
proof -
  have "jt_state done_job = Completed" by (simp add: done_job_def)
  then have t: "terminal (job_json done_job)" by (simp add: terminal_job_json terminal_state_def)
  have "\<not> wt_stopped (watch_run [StreamAnswer 503 True, JobFails]) \<and> job_calls (watch_run [StreamAnswer 503 True, JobFails]) = []"
    by (simp add: watch_run_def watchJob_def connect_def stream_answer_def stream_failed_def stream_over_def
        scheduleReconnect_def poll_start_def poll_failure_def connect_finally_def Let_def)
      (simp add: job_calls_def calling_def)
  with t watch_finishes [of "[StreamAnswer 503 True, JobFails]"] show ?thesis by simp
qed

end
