(* ===== verification/Web.thy ===== *)
theory Web
  imports Url Watch
begin

text \<open>
  The calls of the dashboard (\<open>api\<close> of \<open>dashboard/src/lib/api.ts\<close>) and how they reach the routes of
  \<open>control-plane/src/routes.ts\<close>: the URL, the query and the body the client builds, the table of paths, and
  what the server makes of a request: cursors, the checks of the request's schema, the arguments of the handler.
  The router, the query parser and the database's reading of a timestamp are parameters.
\<close>

section \<open>Cursors\<close>

text \<open>\<open>encodeCursor\<close> and \<open>decodeCursor\<close> of \<open>control-plane/src/db.ts\<close>.\<close>

definition encodeCursor :: "json \<Rightarrow> string" where
  "encodeCursor v = to_base64url (json_stringify v)"

definition decodeCursor :: "string \<Rightarrow> json \<Rightarrow> json" where
  "decodeCursor cursor fallback = (case json_parse (from_base64url cursor) of Some v \<Rightarrow> v | None \<Rightarrow> fallback)"

lemma decode_encodeCursor: "distinct_keys v \<Longrightarrow> decodeCursor (encodeCursor v) fallback = v"
  by (simp add: encodeCursor_def decodeCursor_def base64url_roundtrip parse_stringify)

section \<open>Request schemas\<close>

definition loginRequest_schema :: schema where
  "loginRequest_schema = TObject [(''username'', False, TText 3 64), (''password'', False, TText 1 1024)]"

definition text_or_missing :: "string \<Rightarrow> string \<times> bool \<times> schema" where
  "text_or_missing k = (k, True, TUnion [TNull, TString])"

definition reconcileRequest_schema :: schema where
  "reconcileRequest_schema = TObject [(''problems'', False, TArray (TObject
     [(''external_id'', False, TString), (''code'', False, TString), text_or_missing ''owner_external_id'',
      text_or_missing ''owner_organization'',
      (''owner_organization_id'', True, TUnion [TNull, TString, TInteger None]),
      (''is_manually_managed'', True, TBoolean), text_or_missing ''mirror_root_external_id'',
      text_or_missing ''mirror_of_external_id'', text_or_missing ''mirror_of'',
      (''problem_pk'', True, TUnion [TString, TInteger None]), (''quota_bytes'', True, TUnion [TNull, bytes]),
      (''schema_version'', True, TInteger (Some 1))]))]"

definition dirtyProblemRequest_schema :: schema where
  "dirtyProblemRequest_schema = TObject
     [(''external_id'', True, TString), (''problem_pk'', True, TUnion [TString, TInteger None]), (''code'', False, TString),
      text_or_missing ''owner_organization'', (''owner_organization_id'', True, TUnion [TNull, TString, TInteger None]),
      text_or_missing ''owner_external_id'', (''is_manually_managed'', True, TBoolean), text_or_missing ''mirror_of'',
      text_or_missing ''mirror_of_external_id'', text_or_missing ''mirror_root'', text_or_missing ''mirror_root_external_id'',
      (''quota_bytes'', True, TUnion [TNull, bytes]), (''schema_version'', True, TInteger (Some 1)),
      (''event_kind'', True, TEnum [''upsert'', ''delete'']),
      (''catalog_state'', True, TEnum [''present'', ''orphan'', ''missing'', ''mirror'', ''deleted''])]"

definition serviceTokenRequest_schema :: schema where
  "serviceTokenRequest_schema = TObject
     [(''subject'', True, TString), (''scopes'', True, TArray TString), (''ttl_seconds'', True, TRange 60 2592000)]"

definition downloadRequest_schema :: schema where
  "downloadRequest_schema = TObject
     [(''problem_external_id'', False, TString), (''ttl_seconds'', True, TRange 1 300), (''path'', True, TText 1 512)]"

section \<open>The dashboard's calls\<close>

text \<open>
  A request as the browser sends it: the path, still encoded, the text after the question mark, the
  \<open>Idempotency-Key\<close> header, and the body's value, which travels as the text \<open>parse_stringify\<close> is
  about. The \<open>Content-Type\<close> is always \<open>application/json\<close>.
\<close>

record http_request =
  ht_method :: string
  ht_path :: string
  ht_query :: string
  ht_key :: "string option"
  ht_body :: "json option"

datatype api_call =
    LoginCall string string
  | HealthCall
  | VolumesCall
  | ReconcileCall "(string \<times> string) list"
  | SyncChangesCall "string option" nat
  | ListProblemsCall "(string \<times> string option) list"
  | ProblemCall string
  | ProblemUsageCall string
  | MarkDirtyCall string
  | ScanCall string
  | SnapshotCall string
  | RestoreCall string "nat option"
  | EvictCall string bool bool
  | OrganizationsCall "string option" nat
  | OrganizationUsageCall string
  | SnapshotsCall "string option" "string option" nat
  | OneSnapshotCall string
  | JobsCall "(string \<times> string option) list"
  | OneJobCall string
  | RetryCall string string
  | CancelCall string string
  | OrphansCall "string option" nat
  | SummaryCall
  | StatusDistributionCall
  | LargestProblemsCall nat
  | LargestOrganizationsCall nat
  | VolumeTimeseriesCall "string option" "nat option"
  | AuditEventsCall "(string \<times> string option) list"
  | DownloadCall string "nat option" "string option"

definition base_path :: string where
  "base_path = ''/api/v1''"

text \<open>\<open>request\<close> up to its \<open>fetch\<close>; the path and the query are kept apart.\<close>

definition api_request :: "string \<Rightarrow> string \<Rightarrow> string \<Rightarrow> string option \<Rightarrow> json option \<Rightarrow> http_request" where
  "api_request method path query key body =
     \<lparr>ht_method = method, ht_path = base_path @ path, ht_query = query, ht_key = key, ht_body = body\<rparr>"

definition get :: "string \<Rightarrow> string \<Rightarrow> http_request" where
  "get path query = api_request ''GET'' path query None None"

definition given :: "(string \<times> string option) list \<Rightarrow> query" where
  "given kvs = map (\<lambda>(k, v). (k, coalesce v [])) (filter (\<lambda>(k, v). truthy v) kvs)"

definition limit_and_cursor :: "nat \<Rightarrow> string option \<Rightarrow> string" where
  "limit_and_cursor limit cursor =
     ''limit='' @ nat_text limit @ (if truthy cursor then ''&cursor='' @ encodeURIComponent (coalesce cursor []) else [])"

definition problem_path :: "string \<Rightarrow> string \<Rightarrow> string" where
  "problem_path i suffix = ''/problems/'' @ encodeURIComponent i @ suffix"

fun api :: "string \<Rightarrow> api_call \<Rightarrow> http_request" where
  "api key (LoginCall username password) =
     api_request ''POST'' ''/auth/login'' [] None (Some (JObj [(''username'', JStr username), (''password'', JStr password)]))"
| "api key HealthCall = get ''/system/health'' []"
| "api key VolumesCall = get ''/storage/volumes'' []"
| "api key (ReconcileCall ps) =
     api_request ''POST'' ''/catalog/problems:reconcile'' [] (Some key)
       (Some (JObj [(''problems'', JArr (map (\<lambda>(i, c). JObj [(''external_id'', JStr i), (''code'', JStr c)]) ps))]))"
| "api key (SyncChangesCall cursor limit) = get ''/sync/changes'' (limit_and_cursor limit cursor)"
| "api key (ListProblemsCall params) = get ''/problems'' (query_text form_encode (given params))"
| "api key (ProblemCall i) = get (problem_path i []) []"
| "api key (ProblemUsageCall i) = get (problem_path i ''/usage'') []"
| "api key (MarkDirtyCall i) = api_request ''POST'' (problem_path i ''/dirty'') [] (Some key) None"
| "api key (ScanCall i) = api_request ''POST'' (problem_path i ''/scan'') [] (Some key) None"
| "api key (SnapshotCall i) = api_request ''POST'' (problem_path i ''/snapshot'') [] (Some key) None"
| "api key (RestoreCall i generation) =
     api_request ''POST'' (problem_path i ''/restore'') [] (Some key)
       (Some (JObj (optional ''generation'' (\<lambda>n. JNum (int n)) generation)))"
| "api key (EvictCall i dryRun force) =
     api_request ''POST'' (problem_path i ''/evict'') [] (Some key) (Some (JObj [(''dry_run'', JBool dryRun), (''force'', JBool force)]))"
| "api key (OrganizationsCall cursor limit) = get ''/organizations'' (limit_and_cursor limit cursor)"
| "api key (OrganizationUsageCall i) = get (''/organizations/'' @ encodeURIComponent i @ ''/usage'') []"
| "api key (SnapshotsCall problemId cursor limit) =
     get ''/snapshots'' (query_text form_encode
       (given [(''problem_id'', problemId), (''cursor'', cursor)] @ [(''limit'', nat_text limit)]))"
| "api key (OneSnapshotCall i) = get (''/snapshots/'' @ encodeURIComponent i) []"
| "api key (JobsCall params) = get ''/jobs'' (query_text form_encode (given params))"
| "api key (OneJobCall i) = get (''/jobs/'' @ encodeURIComponent i) []"
| "api key (RetryCall i reason) =
     api_request ''POST'' (''/jobs/'' @ encodeURIComponent i @ ''/retry'') [] (Some key) (Some (JObj [(''reason'', JStr reason)]))"
| "api key (CancelCall i reason) =
     api_request ''POST'' (''/jobs/'' @ encodeURIComponent i @ ''/cancel'') [] (Some key) (Some (JObj [(''reason'', JStr reason)]))"
| "api key (OrphansCall cursor limit) = get ''/orphans'' (limit_and_cursor limit cursor)"
| "api key SummaryCall = get ''/dashboard/summary'' []"
| "api key StatusDistributionCall = get ''/dashboard/status-distribution'' []"
| "api key (LargestProblemsCall limit) = get ''/dashboard/largest-problems'' (''limit='' @ nat_text limit)"
| "api key (LargestOrganizationsCall limit) = get ''/dashboard/largest-organizations'' (''limit='' @ nat_text limit)"
| "api key (VolumeTimeseriesCall name limit) =
     get ''/dashboard/volume-timeseries'' (query_text form_encode
       (given [(''name'', name), (''limit'', case limit of Some n \<Rightarrow> if 0 < n then Some (nat_text n) else None | None \<Rightarrow> None)]))"
| "api key (AuditEventsCall params) = get ''/audit-events'' (query_text form_encode (given params))"
| "api key (DownloadCall i ttl path) =
     api_request ''POST'' ''/downloads'' [] (Some key) (Some (JObj ([(''problem_external_id'', JStr i)]
       @ optional ''ttl_seconds'' (\<lambda>n. JNum (int n)) ttl @ optional ''path'' JStr path)))"

section \<open>The routes\<close>

text \<open>
  The routes with method and path; the two that serve the OpenAPI document and the event stream of a job
  are left out. A segment is fixed, a parameter, or a fixed beginning and a parameter after it: in
  Fastify's paths a colon begins a parameter, so \<open>problems:reconcile\<close> is the text \<open>problems\<close> followed by
  anything (a colon that stands for itself is written twice).
\<close>

datatype segment = Lit string | Param | Begins string

datatype route =
    LoginRoute | HealthRoute | VolumesRoute | ReconcileRoute | SyncRoute | ProblemsRoute | ProblemRoute | UsageRoute
  | DirtyRoute | ScanRoute | SnapshotRoute | RestoreRoute | EvictRoute | OrganizationsRoute | OrganizationUsageRoute
  | SnapshotsRoute | OneSnapshotRoute | JobsRoute | OneJobRoute | RetryRoute | CancelRoute | OrphansRoute | SummaryRoute
  | StatusRoute | LargestProblemsRoute | LargestOrganizationsRoute | TimeseriesRoute | AuditRoute | DownloadRoute
  | ServiceTokenRoute | ScheduleRoute | FilesRoute | EnsureReadyRoute | SettingsRoute | BackfillRoute | BackfillStartRoute
  | BackfillPauseRoute | BackfillProgressRoute | IncidentsRoute | IncidentRoute | RetentionRoute | PutRetentionRoute
  | RetentionApplyRoute | GcEligibleRoute

definition api_segments :: "segment list \<Rightarrow> segment list" where
  "api_segments ss = Lit ''api'' # Lit ''v1'' # ss"

fun registered :: "route \<Rightarrow> string \<times> segment list" where
  "registered LoginRoute = (''POST'', api_segments [Lit ''auth'', Lit ''login''])"
| "registered HealthRoute = (''GET'', api_segments [Lit ''system'', Lit ''health''])"
| "registered VolumesRoute = (''GET'', api_segments [Lit ''storage'', Lit ''volumes''])"
| "registered ReconcileRoute = (''POST'', api_segments [Lit ''catalog'', Begins ''problems''])"
| "registered SyncRoute = (''GET'', api_segments [Lit ''sync'', Lit ''changes''])"
| "registered ProblemsRoute = (''GET'', api_segments [Lit ''problems''])"
| "registered ProblemRoute = (''GET'', api_segments [Lit ''problems'', Param])"
| "registered UsageRoute = (''GET'', api_segments [Lit ''problems'', Param, Lit ''usage''])"
| "registered DirtyRoute = (''POST'', api_segments [Lit ''problems'', Param, Lit ''dirty''])"
| "registered ScanRoute = (''POST'', api_segments [Lit ''problems'', Param, Lit ''scan''])"
| "registered SnapshotRoute = (''POST'', api_segments [Lit ''problems'', Param, Lit ''snapshot''])"
| "registered RestoreRoute = (''POST'', api_segments [Lit ''problems'', Param, Lit ''restore''])"
| "registered EvictRoute = (''POST'', api_segments [Lit ''problems'', Param, Lit ''evict''])"
| "registered OrganizationsRoute = (''GET'', api_segments [Lit ''organizations''])"
| "registered OrganizationUsageRoute = (''GET'', api_segments [Lit ''organizations'', Param, Lit ''usage''])"
| "registered SnapshotsRoute = (''GET'', api_segments [Lit ''snapshots''])"
| "registered OneSnapshotRoute = (''GET'', api_segments [Lit ''snapshots'', Param])"
| "registered JobsRoute = (''GET'', api_segments [Lit ''jobs''])"
| "registered OneJobRoute = (''GET'', api_segments [Lit ''jobs'', Param])"
| "registered RetryRoute = (''POST'', api_segments [Lit ''jobs'', Param, Lit ''retry''])"
| "registered CancelRoute = (''POST'', api_segments [Lit ''jobs'', Param, Lit ''cancel''])"
| "registered OrphansRoute = (''GET'', api_segments [Lit ''orphans''])"
| "registered SummaryRoute = (''GET'', api_segments [Lit ''dashboard'', Lit ''summary''])"
| "registered StatusRoute = (''GET'', api_segments [Lit ''dashboard'', Lit ''status-distribution''])"
| "registered LargestProblemsRoute = (''GET'', api_segments [Lit ''dashboard'', Lit ''largest-problems''])"
| "registered LargestOrganizationsRoute = (''GET'', api_segments [Lit ''dashboard'', Lit ''largest-organizations''])"
| "registered TimeseriesRoute = (''GET'', api_segments [Lit ''dashboard'', Lit ''volume-timeseries''])"
| "registered AuditRoute = (''GET'', api_segments [Lit ''audit-events''])"
| "registered DownloadRoute = (''POST'', api_segments [Lit ''downloads''])"
| "registered ServiceTokenRoute = (''POST'', api_segments [Lit ''auth'', Lit ''service-token''])"
| "registered ScheduleRoute = (''POST'', api_segments [Lit ''catalog'', Begins ''snapshots''])"
| "registered FilesRoute = (''GET'', api_segments [Lit ''problems'', Param, Lit ''files''])"
| "registered EnsureReadyRoute = (''POST'', api_segments [Lit ''problems'', Param, Lit ''ensure-ready''])"
| "registered SettingsRoute = (''PUT'', api_segments [Lit ''organizations'', Param, Lit ''settings''])"
| "registered BackfillRoute = (''GET'', api_segments [Lit ''backfill''])"
| "registered BackfillStartRoute = (''POST'', api_segments [Lit ''backfill'', Param, Lit ''start''])"
| "registered BackfillPauseRoute = (''POST'', api_segments [Lit ''backfill'', Param, Lit ''pause''])"
| "registered BackfillProgressRoute = (''GET'', api_segments [Lit ''backfill'', Param, Lit ''progress''])"
| "registered IncidentsRoute = (''GET'', api_segments [Lit ''incident-commands''])"
| "registered IncidentRoute = (''POST'', api_segments [Lit ''incident-commands''])"
| "registered RetentionRoute = (''GET'', api_segments [Lit ''retention''])"
| "registered PutRetentionRoute = (''PUT'', api_segments [Lit ''retention'', Param])"
| "registered RetentionApplyRoute = (''POST'', api_segments [Begins ''retention''])"
| "registered GcEligibleRoute = (''GET'', api_segments [Lit ''gc'', Lit ''eligible''])"

section \<open>From the wire to a handler\<close>

text \<open>
  What the server is given by its libraries: the router (method and path in, route and decoded
  parameters out), the query parser, PostgreSQL's reading of a timestamp, \<open>Date.parse\<close>, how a
  problem list's cursor value compares in the sort column, and the two probes of the health route.
\<close>

record wire =
  wi_route :: "string \<Rightarrow> string \<Rightarrow> (route \<times> string list) option"
  wi_query :: "string \<Rightarrow> query"
  wi_timestamp :: "string \<Rightarrow> time option"
  wi_date :: "string \<Rightarrow> int option"
  wi_sort_value :: "string option \<Rightarrow> string \<Rightarrow> bool \<times> nat \<times> string"
  wi_db_ok :: bool
  wi_rust_ok :: bool

text \<open>
  \<open>Rejected\<close>: a refusal of the framework's own, with its code; its status is the framework's affair.
  \<open>Outside\<close>: a body or a cursor whose fields have other types than the handler's casts say. The
  handlers are modelled for values of those types.
\<close>

datatype arrival = Arrives request | Rejected string | Outside

definition arriving :: "('a \<Rightarrow> request) \<Rightarrow> 'a option \<Rightarrow> arrival" where
  "arriving f x = (case x of Some v \<Rightarrow> Arrives (f v) | None \<Rightarrow> Outside)"

definition reading_rows :: "('a \<Rightarrow> read_request) \<Rightarrow> 'a option \<Rightarrow> arrival" where
  "reading_rows f = arriving (\<lambda>x. Read (f x))"

text \<open>An empty cursor counts as none; \<open>None\<close> is a cursor outside of the model.\<close>

definition text_cursor :: "string option \<Rightarrow> string option option" where
  "text_cursor c =
     (if truthy c then (case decodeCursor (coalesce c []) (JStr []) of JStr t \<Rightarrow> Some (Some t) | _ \<Rightarrow> None) else Some None)"

definition dated_fallback :: json where
  "dated_fallback = JObj [(''created_at'', JStr (toISOString 0)), (''id'', JStr [])]"

definition dated_cursor :: "wire \<Rightarrow> string option \<Rightarrow> (time \<times> string) option option" where
  "dated_cursor w c =
     (if truthy c
      then (let v = decodeCursor (coalesce c []) dated_fallback in
        case (json_field v ''created_at'', json_field v ''id'') of
          (Some (JStr d), Some (JStr i)) \<Rightarrow> map_option (\<lambda>t. Some (t, i)) (wi_timestamp w d)
        | _ \<Rightarrow> None)
      else Some None)"

definition problem_cursor :: "wire \<Rightarrow> string option \<Rightarrow> string option \<Rightarrow> ((bool \<times> nat \<times> string) \<times> string) option option" where
  "problem_cursor w col c =
     (if truthy c
      then (let v = decodeCursor (coalesce c []) (JObj [(''value'', JStr []), (''id'', JStr [])]) in
        case (json_field v ''value'', json_field v ''id'') of
          (Some (JStr x), Some (JStr i)) \<Rightarrow> Some (Some (wi_sort_value w col x, i))
        | _ \<Rightarrow> None)
      else Some None)"

text \<open>An optional field of a body.\<close>

definition body_field :: "(json \<Rightarrow> 'a option) \<Rightarrow> json \<Rightarrow> string \<Rightarrow> 'a option option" where
  "body_field read b k = (case json_field b k of None \<Rightarrow> Some None | Some v \<Rightarrow> map_option Some (read v))"

fun as_nat :: "json \<Rightarrow> nat option" where
  "as_nat (JNum n) = (if 0 \<le> n then Some (nat n) else None)"
| "as_nat v = None"

fun as_bool :: "json \<Rightarrow> bool option" where
  "as_bool (JBool b) = Some b"
| "as_bool v = None"

fun as_text :: "json \<Rightarrow> string option" where
  "as_text (JStr t) = Some t"
| "as_text v = None"

fun as_int :: "json \<Rightarrow> int option" where
  "as_int (JNum n) = Some n"
| "as_int v = None"

fun as_texts :: "json \<Rightarrow> string list option" where
  "as_texts (JArr vs) = those (map as_text vs)"
| "as_texts v = None"

text \<open>A count of bytes is a number or its digits as a text, which the database reads as the number.\<close>

fun as_bytes :: "json \<Rightarrow> int option" where
  "as_bytes (JNum n) = Some n"
| "as_bytes (JStr t) = (if t \<noteq> [] \<and> list_all is_digit t then Some (int (digits_value t)) else None)"
| "as_bytes v = None"

text \<open>A field whose \<open>null\<close> counts as missing.\<close>

definition nullable_field :: "(json \<Rightarrow> 'a option) \<Rightarrow> json \<Rightarrow> string \<Rightarrow> 'a option option" where
  "nullable_field read b k = (if json_field b k = Some JNull then Some None else body_field read b k)"

text \<open>
  The validation of a body against the schema of its route. Texts outside the stated lengths and numbers
  outside the stated range are refused; the framework's coercion of a value of another type is not
  modelled.
\<close>

definition validated :: "schema \<Rightarrow> (json \<Rightarrow> arrival) \<Rightarrow> json \<Rightarrow> arrival" where
  "validated t f b = (if conforms t b then f b else Rejected ''FST_ERR_VALIDATION'')"

definition param :: "query \<Rightarrow> string \<Rightarrow> string option" where
  "param q k = map_of q k"

text \<open>
  The handlers' reading of their path, query and body, route by route. The body of a request without
  one is \<open>JObj []\<close>: the handlers replace it by an empty object.
\<close>

fun hand_over :: "wire \<Rightarrow> route \<Rightarrow> string list \<Rightarrow> query \<Rightarrow> json \<Rightarrow> arrival" where
  "hand_over w LoginRoute ps q b = validated loginRequest_schema (\<lambda>b.
     case (json_field b ''username'', json_field b ''password'') of
       (Some (JStr u), Some (JStr p)) \<Rightarrow> Arrives (PostLogin u p) | _ \<Rightarrow> Outside) b"
| "hand_over w HealthRoute ps q b = Arrives (GetHealth (wi_db_ok w) (wi_rust_ok w))"
| "hand_over w VolumesRoute ps q b = Arrives (Read GetVolumes)"
| "hand_over w ReconcileRoute ps q b = validated reconcileRequest_schema (\<lambda>b.
     case json_field b ''problems'' of
       Some (JArr vs) \<Rightarrow> Arrives (Write (PostReconcile (Some vs))) | _ \<Rightarrow> Outside) b"
| "hand_over w SyncRoute ps q b = reading_rows (\<lambda>c. GetSyncChanges c (param q ''limit'')) (dated_cursor w (param q ''cursor''))"
| "hand_over w ProblemsRoute ps q b =
     reading_rows (\<lambda>c. GetProblems \<lparr>lp_search = param q ''search'', lp_ownerOrg = param q ''owner_organization'',
         lp_catalogState = param q ''catalog_state'', lp_sort = param q ''sort'', lp_order = param q ''order'',
         lp_cursor = c, lp_limit = 0\<rparr> (param q ''limit''))
       (problem_cursor w (param q ''sort'') (param q ''cursor''))"
| "hand_over w ProblemRoute ps q b = Arrives (Read (GetProblem (hd ps)))"
| "hand_over w UsageRoute ps q b = Arrives (Read (GetProblemUsage (hd ps)))"
| "hand_over w DirtyRoute ps q b = validated dirtyProblemRequest_schema (\<lambda>b. Arrives (Write (PostDirty (hd ps) b))) b"
| "hand_over w ScanRoute ps q b = Arrives (Write (PostScan (hd ps)))"
| "hand_over w SnapshotRoute ps q b = arriving (\<lambda>g. Write (PostSnapshot (hd ps) g)) (body_field as_nat b ''generation'')"
| "hand_over w RestoreRoute ps q b =
     (case (body_field as_nat b ''generation'', body_field as_bool b ''dry_run'') of
        (Some g, Some dry) \<Rightarrow> Arrives (Write (PostRestore (hd ps) g (coalesce dry False))) | _ \<Rightarrow> Outside)"
| "hand_over w EvictRoute ps q b =
     (case (body_field as_bool b ''dry_run'', body_field as_bool b ''force'', body_field as_text b ''idle_before'',
        body_field as_text b ''reason'') of
        (Some dry, Some force, Some idle, Some reason) \<Rightarrow>
          Arrives (Write (PostEvict (hd ps) \<lparr>ev_dry_run = dry, ev_force = force,
            ev_idle_before = map_option (wi_date w) idle, ev_reason = reason\<rparr>))
      | _ \<Rightarrow> Outside)"
| "hand_over w OrganizationsRoute ps q b =
     reading_rows (\<lambda>c. GetOrganizations c (param q ''limit'')) (text_cursor (param q ''cursor''))"
| "hand_over w OrganizationUsageRoute ps q b = Arrives (Read (GetOrganizationUsage (hd ps)))"
| "hand_over w SnapshotsRoute ps q b =
     reading_rows (\<lambda>c. GetSnapshots (param q ''problem_id'') c (param q ''limit'')) (dated_cursor w (param q ''cursor''))"
| "hand_over w OneSnapshotRoute ps q b = Arrives (Read (GetSnapshot (hd ps)))"
| "hand_over w JobsRoute ps q b =
     reading_rows (\<lambda>c. GetJobs (param q ''state'') (param q ''problem_id'') c (param q ''limit''))
       (dated_cursor w (param q ''cursor''))"
| "hand_over w OneJobRoute ps q b = Arrives (Read (GetJob (hd ps)))"
| "hand_over w RetryRoute ps q b = Arrives (Write (PostRetry (hd ps)))"
| "hand_over w CancelRoute ps q b = arriving (\<lambda>r. Write (PostCancel (hd ps) r)) (body_field as_text b ''reason'')"
| "hand_over w OrphansRoute ps q b =
     reading_rows (\<lambda>c. GetOrphans c (param q ''limit'')) (text_cursor (param q ''cursor''))"
| "hand_over w SummaryRoute ps q b = Arrives (Read GetSummary)"
| "hand_over w StatusRoute ps q b = Arrives (Read GetStatusDistribution)"
| "hand_over w LargestProblemsRoute ps q b = Arrives (Read (GetLargestProblems (param q ''limit'')))"
| "hand_over w LargestOrganizationsRoute ps q b = Arrives (Read (GetLargestOrganizations (param q ''limit'')))"
| "hand_over w TimeseriesRoute ps q b = Arrives (Read (GetVolumeTimeseries (param q ''name'') (param q ''limit'')))"
| "hand_over w AuditRoute ps q b =
     reading_rows (\<lambda>c. GetAuditEvents (map_option (\<lambda>t. map_option nat (wi_date w t)) (param q ''from''))
         (map_option (\<lambda>t. map_option nat (wi_date w t)) (param q ''to''))
         \<lparr>la_actor = param q ''actor'', la_action = param q ''action'', la_problemId = param q ''problem_id'',
          la_from = None, la_to = None, la_cursor = c, la_limit = 0\<rparr> (param q ''limit''))
       (dated_cursor w (param q ''cursor''))"
| "hand_over w DownloadRoute ps q b = validated downloadRequest_schema (\<lambda>b.
     case (json_field b ''problem_external_id'', body_field as_nat b ''ttl_seconds'', body_field as_text b ''path'') of
       (Some (JStr i), Some ttl, Some path) \<Rightarrow> Arrives (Write (PostDownload i (map_option int ttl) path)) | _ \<Rightarrow> Outside) b"
| "hand_over w ServiceTokenRoute ps q b = validated serviceTokenRequest_schema (\<lambda>b.
     case (body_field as_text b ''subject'', body_field as_texts b ''scopes'', body_field as_int b ''ttl_seconds'') of
       (Some subject, Some scopes, Some ttl) \<Rightarrow> Arrives (Write (PostServiceToken
         \<lparr>sq_subject = subject, sq_scopes = scopes, sq_ttl_seconds = ttl\<rparr>)) | _ \<Rightarrow> Outside) b"
| "hand_over w ScheduleRoute ps q b = arriving (\<lambda>n. Write (PostScheduleSnapshots n)) (nullable_field as_int b ''limit'')"
| "hand_over w FilesRoute ps q b = Arrives (Read (GetProblemFiles (hd ps) (param q ''cursor'') (param q ''limit'')))"
| "hand_over w EnsureReadyRoute ps q b = Arrives (Write (PostEnsureReady (hd ps)))"
| "hand_over w SettingsRoute ps q b =
     (case (nullable_field as_bytes b ''storage_quota_bytes'', nullable_field as_int b ''problem_count_quota'') of
        (Some quota, Some n) \<Rightarrow> Arrives (Write (PutSettings (hd ps) quota n)) | _ \<Rightarrow> Outside)"
| "hand_over w BackfillRoute ps q b = Arrives (Read GetBackfill)"
| "hand_over w BackfillStartRoute ps q b = Arrives (Write (PostBackfillStart (hd ps) (json_field b ''limit'')))"
| "hand_over w BackfillPauseRoute ps q b = Arrives (Write (PostBackfillPause (hd ps)))"
| "hand_over w BackfillProgressRoute ps q b = Arrives (Read (GetBackfillProgress (hd ps)))"
| "hand_over w IncidentsRoute ps q b =
     (if truthy (param q ''cursor'')
      then arriving (\<lambda>c. Read (GetIncidentCommands (param q ''command'') (param q ''limit'') (Some c)))
             (wi_timestamp w (coalesce (param q ''cursor'') []))
      else Arrives (Read (GetIncidentCommands (param q ''command'') (param q ''limit'') None)))"
| "hand_over w IncidentRoute ps q b =
     (case (json_field b ''command'', body_field as_bool b ''dry_run'') of
        (Some (JStr command), Some dry) \<Rightarrow>
          Arrives (Write (PostIncidentCommand command (coalesce (json_field b ''args'') (JObj [])) dry))
      | _ \<Rightarrow> Outside)"
| "hand_over w RetentionRoute ps q b = Arrives (Read GetRetention)"
| "hand_over w PutRetentionRoute ps q b =
     arriving (\<lambda>n. Write (PutRetention (hd ps) n)) (body_field as_int b ''retention_days'')"
| "hand_over w RetentionApplyRoute ps q b = Arrives (Write PostRetentionApply)"
| "hand_over w GcEligibleRoute ps q b = Arrives (Read (GetGcEligible (param q ''limit'')))"

text \<open>
  Fastify's parser of JSON bodies refuses a request that announces JSON and has no body. Both refusals
  come after the hooks that authenticate the caller.
\<close>

definition arrive :: "wire \<Rightarrow> http_request \<Rightarrow> arrival" where
  "arrive w h =
     (case wi_route w (ht_method h) (ht_path h) of
        None \<Rightarrow> Rejected ''not_found''
      | Some (r, ps) \<Rightarrow>
          if ht_method h \<noteq> ''GET'' \<and> ht_body h = None then Rejected ''FST_ERR_CTP_EMPTY_JSON_BODY''
          else hand_over w r ps (wi_query w (ht_query h)) (coalesce (ht_body h) (JObj [])))"

text \<open>What the libraries promise: a registered route is found with its parameters decoded, and a query is read back.\<close>

fun path_text :: "segment list \<Rightarrow> string list \<Rightarrow> string" where
  "path_text [] ps = []"
| "path_text (Lit t # ss) ps = CHR ''/'' # t @ path_text ss ps"
| "path_text (Param # ss) (p # ps) = CHR ''/'' # encodeURIComponent p @ path_text ss ps"
| "path_text (Begins t # ss) (p # ps) = CHR ''/'' # t @ p @ path_text ss ps"
| "path_text ss [] = []"

text \<open>
  The parameters a path can carry: of at most a hundred bytes, which is the router's limit; after a fixed
  beginning, characters that stand for themselves.
\<close>

definition param_ok :: "string \<Rightarrow> bool" where
  "param_ok p \<longleftrightarrow> p \<noteq> [] \<and> length p \<le> 100"

definition plain_text :: "string \<Rightarrow> bool" where
  "plain_text p \<longleftrightarrow> list_all (\<lambda>c. is_alnum c \<or> c = CHR '':'') p"

fun fitting :: "segment list \<Rightarrow> string list \<Rightarrow> bool" where
  "fitting [] ps = (ps = [])"
| "fitting (Lit t # ss) ps = fitting ss ps"
| "fitting (Param # ss) (p # ps) = (param_ok p \<and> fitting ss ps)"
| "fitting (Begins t # ss) (p # ps) = (param_ok p \<and> plain_text p \<and> fitting ss ps)"
| "fitting ss [] = False"

definition params_ok :: "route \<Rightarrow> string list \<Rightarrow> bool" where
  "params_ok r ps \<longleftrightarrow> fitting (snd (registered r)) ps"

definition query_ok :: "query \<Rightarrow> bool" where
  "query_ok q \<longleftrightarrow> distinct (map fst q) \<and> list_all (\<lambda>kv. fst kv \<noteq> []) q"

definition libraries_ok :: "wire \<Rightarrow> bool" where
  "libraries_ok w \<longleftrightarrow>
     (\<forall>r ps. params_ok r ps \<longrightarrow> wi_route w (fst (registered r)) (path_text (snd (registered r)) ps) = Some (r, ps))
     \<and> (\<forall>q. query_ok q \<longrightarrow> wi_query w (query_text encodeURIComponent q) = q \<and> wi_query w (query_text form_encode q) = q)"

section \<open>The dashboard's calls arrive\<close>

text \<open>
  A call the interface makes: a parameter of a path is a text of at most a hundred bytes, and not one or
  two dots, which a URL's path drops.
\<close>

definition id_ok :: "string \<Rightarrow> bool" where
  "id_ok i \<longleftrightarrow> i \<noteq> [] \<and> length i \<le> 100 \<and> i \<noteq> ''.'' \<and> i \<noteq> ''..''"

definition names_ok :: "(string \<times> string option) list \<Rightarrow> bool" where
  "names_ok kvs \<longleftrightarrow> distinct (map fst kvs) \<and> list_all (\<lambda>kv. fst kv \<noteq> []) kvs"

fun call_ok :: "api_call \<Rightarrow> bool" where
  "call_ok (ProblemCall i) = id_ok i"
| "call_ok (ProblemUsageCall i) = id_ok i"
| "call_ok (MarkDirtyCall i) = id_ok i"
| "call_ok (ScanCall i) = id_ok i"
| "call_ok (SnapshotCall i) = id_ok i"
| "call_ok (RestoreCall i g) = id_ok i"
| "call_ok (EvictCall i dry force) = id_ok i"
| "call_ok (OrganizationUsageCall i) = id_ok i"
| "call_ok (OneSnapshotCall i) = id_ok i"
| "call_ok (OneJobCall i) = id_ok i"
| "call_ok (RetryCall i reason) = id_ok i"
| "call_ok (CancelCall i reason) = id_ok i"
| "call_ok (ListProblemsCall kvs) = names_ok kvs"
| "call_ok (JobsCall kvs) = names_ok kvs"
| "call_ok (AuditEventsCall kvs) = names_ok kvs"
| "call_ok _ = True"

definition named :: "(string \<times> string option) list \<Rightarrow> string \<Rightarrow> string option" where
  "named kvs k = (case map_of kvs k of Some v \<Rightarrow> if truthy v then v else None | None \<Rightarrow> None)"

text \<open>The handler each call is meant for, with the values the caller gave.\<close>

fun intended :: "wire \<Rightarrow> api_call \<Rightarrow> arrival" where
  "intended w (LoginCall u p) =
     (if 3 \<le> length u \<and> length u \<le> 64 \<and> 1 \<le> length p \<and> length p \<le> 1024 then Arrives (PostLogin u p)
      else Rejected ''FST_ERR_VALIDATION'')"
| "intended w HealthCall = Arrives (GetHealth (wi_db_ok w) (wi_rust_ok w))"
| "intended w VolumesCall = Arrives (Read GetVolumes)"
| "intended w (ReconcileCall ps) =
     Arrives (Write (PostReconcile (Some (map (\<lambda>(i, c). JObj [(''external_id'', JStr i), (''code'', JStr c)]) ps))))"
| "intended w (SyncChangesCall c n) = reading_rows (\<lambda>c. GetSyncChanges c (Some (nat_text n))) (dated_cursor w c)"
| "intended w (ListProblemsCall kvs) =
     reading_rows (\<lambda>c. GetProblems \<lparr>lp_search = named kvs ''search'', lp_ownerOrg = named kvs ''owner_organization'',
         lp_catalogState = named kvs ''catalog_state'', lp_sort = named kvs ''sort'', lp_order = named kvs ''order'',
         lp_cursor = c, lp_limit = 0\<rparr> (named kvs ''limit''))
       (problem_cursor w (named kvs ''sort'') (named kvs ''cursor''))"
| "intended w (ProblemCall i) = Arrives (Read (GetProblem i))"
| "intended w (ProblemUsageCall i) = Arrives (Read (GetProblemUsage i))"
| "intended w (MarkDirtyCall i) = Rejected ''FST_ERR_CTP_EMPTY_JSON_BODY''"
| "intended w (ScanCall i) = Rejected ''FST_ERR_CTP_EMPTY_JSON_BODY''"
| "intended w (SnapshotCall i) = Rejected ''FST_ERR_CTP_EMPTY_JSON_BODY''"
| "intended w (RestoreCall i g) = Arrives (Write (PostRestore i g False))"
| "intended w (EvictCall i dry force) = Arrives (Write (PostEvict i
     \<lparr>ev_dry_run = Some dry, ev_force = Some force, ev_idle_before = None, ev_reason = None\<rparr>))"
| "intended w (OrganizationsCall c n) = reading_rows (\<lambda>c. GetOrganizations c (Some (nat_text n))) (text_cursor c)"
| "intended w (OrganizationUsageCall i) = Arrives (Read (GetOrganizationUsage i))"
| "intended w (SnapshotsCall i c n) =
     reading_rows (\<lambda>c. GetSnapshots (if truthy i then i else None) c (Some (nat_text n))) (dated_cursor w c)"
| "intended w (OneSnapshotCall i) = Arrives (Read (GetSnapshot i))"
| "intended w (JobsCall kvs) =
     reading_rows (\<lambda>c. GetJobs (named kvs ''state'') (named kvs ''problem_id'') c (named kvs ''limit''))
       (dated_cursor w (named kvs ''cursor''))"
| "intended w (OneJobCall i) = Arrives (Read (GetJob i))"
| "intended w (RetryCall i reason) = Arrives (Write (PostRetry i))"
| "intended w (CancelCall i reason) = Arrives (Write (PostCancel i (Some reason)))"
| "intended w (OrphansCall c n) = reading_rows (\<lambda>c. GetOrphans c (Some (nat_text n))) (text_cursor c)"
| "intended w SummaryCall = Arrives (Read GetSummary)"
| "intended w StatusDistributionCall = Arrives (Read GetStatusDistribution)"
| "intended w (LargestProblemsCall n) = Arrives (Read (GetLargestProblems (Some (nat_text n))))"
| "intended w (LargestOrganizationsCall n) = Arrives (Read (GetLargestOrganizations (Some (nat_text n))))"
| "intended w (VolumeTimeseriesCall name n) =
     Arrives (Read (GetVolumeTimeseries (if truthy name then name else None)
       (case n of Some k \<Rightarrow> if 0 < k then Some (nat_text k) else None | None \<Rightarrow> None)))"
| "intended w (AuditEventsCall kvs) =
     reading_rows (\<lambda>c. GetAuditEvents (map_option (\<lambda>t. map_option nat (wi_date w t)) (named kvs ''from''))
         (map_option (\<lambda>t. map_option nat (wi_date w t)) (named kvs ''to''))
         \<lparr>la_actor = named kvs ''actor'', la_action = named kvs ''action'', la_problemId = named kvs ''problem_id'',
          la_from = None, la_to = None, la_cursor = c, la_limit = 0\<rparr> (named kvs ''limit''))
       (dated_cursor w (named kvs ''cursor''))"
| "intended w (DownloadCall i ttl path) =
     (if (\<forall>n \<in> set_option ttl. 1 \<le> n \<and> n \<le> 300) \<and> (\<forall>t \<in> set_option path. 1 \<le> length t \<and> length t \<le> 512)
      then Arrives (Write (PostDownload i (map_option int ttl) path)) else Rejected ''FST_ERR_VALIDATION'')"

lemma arrive_at:
  assumes "libraries_ok w" and "params_ok r ps" and "m = fst (registered r)" and "base_path @ p = path_text (snd (registered r)) ps"
  shows "arrive w (api_request m p q key b) =
    (if m \<noteq> ''GET'' \<and> b = None then Rejected ''FST_ERR_CTP_EMPTY_JSON_BODY''
     else hand_over w r ps (wi_query w q) (coalesce b (JObj [])))"
  using assms by (simp add: arrive_def api_request_def libraries_ok_def)

lemmas url_rules = params_ok_def param_ok_def plain_text_def is_alnum_def api_segments_def base_path_def id_ok_def problem_path_def get_def

text \<open>Calls without a query.\<close>

lemma arrive_fixed:
  assumes "libraries_ok w"
  shows "arrive w (api key HealthCall) = hand_over w HealthRoute [] (wi_query w []) (JObj [])"
    "arrive w (api key VolumesCall) = hand_over w VolumesRoute [] (wi_query w []) (JObj [])"
    "arrive w (api key SummaryCall) = hand_over w SummaryRoute [] (wi_query w []) (JObj [])"
    "arrive w (api key StatusDistributionCall) = hand_over w StatusRoute [] (wi_query w []) (JObj [])"
  using assms by (simp_all add: url_rules
      arrive_at [of w HealthRoute "[]"] arrive_at [of w VolumesRoute "[]"] arrive_at [of w SummaryRoute "[]"]
      arrive_at [of w StatusRoute "[]"])

lemma arrive_one:
  assumes "libraries_ok w" and "id_ok i"
  shows "arrive w (api key (ProblemCall i)) = Arrives (Read (GetProblem i))"
    "arrive w (api key (ProblemUsageCall i)) = Arrives (Read (GetProblemUsage i))"
    "arrive w (api key (OrganizationUsageCall i)) = Arrives (Read (GetOrganizationUsage i))"
    "arrive w (api key (OneSnapshotCall i)) = Arrives (Read (GetSnapshot i))"
    "arrive w (api key (OneJobCall i)) = Arrives (Read (GetJob i))"
  using assms by (simp_all add: url_rules
      arrive_at [of w ProblemRoute "[i]"] arrive_at [of w UsageRoute "[i]"] arrive_at [of w OrganizationUsageRoute "[i]"]
      arrive_at [of w OneSnapshotRoute "[i]"] arrive_at [of w OneJobRoute "[i]"])

lemma arrive_bodiless:
  assumes "libraries_ok w" and "id_ok i"
  shows "arrive w (api key (MarkDirtyCall i)) = Rejected ''FST_ERR_CTP_EMPTY_JSON_BODY''"
    "arrive w (api key (ScanCall i)) = Rejected ''FST_ERR_CTP_EMPTY_JSON_BODY''"
    "arrive w (api key (SnapshotCall i)) = Rejected ''FST_ERR_CTP_EMPTY_JSON_BODY''"
  using assms by (simp_all add: url_rules
      arrive_at [of w DirtyRoute "[i]"] arrive_at [of w ScanRoute "[i]"] arrive_at [of w SnapshotRoute "[i]"])

lemma arrive_action:
  assumes "libraries_ok w" and "id_ok i"
  shows "arrive w (api key (RestoreCall i g)) = Arrives (Write (PostRestore i g False))"
    "arrive w (api key (EvictCall i dry force)) = Arrives (Write (PostEvict i
       \<lparr>ev_dry_run = Some dry, ev_force = Some force, ev_idle_before = None, ev_reason = None\<rparr>))"
    "arrive w (api key (RetryCall i reason)) = Arrives (Write (PostRetry i))"
    "arrive w (api key (CancelCall i reason)) = Arrives (Write (PostCancel i (Some reason)))"
  using assms by (cases g; simp add: url_rules optional_def body_field_def json_field_def arriving_def
      arrive_at [of w RestoreRoute "[i]"] arrive_at [of w EvictRoute "[i]"] arrive_at [of w RetryRoute "[i]"]
      arrive_at [of w CancelRoute "[i]"])+

text \<open>Calls with a query.\<close>

lemma encode_digits: "encodeURIComponent (nat_text n) = nat_text n"
proof -
  have "list_all is_digit (nat_text n)" using nat_text_digits by blast
  then have "concat (map encode_char t) = t" if "list_all is_digit t" for t
    using that by (induction t) (auto simp: encode_char_def is_alnum_def is_digit_def Let_def)
  then show ?thesis using nat_text_digits [of n] by (simp add: encodeURIComponent_def)
qed

lemma encode_names: "encodeURIComponent ''limit'' = ''limit''" "encodeURIComponent ''cursor'' = ''cursor''"
  by (simp_all add: encodeURIComponent_def encode_char_def is_alnum_def)

lemma read_query:
  "libraries_ok w \<Longrightarrow> query_ok q \<Longrightarrow> wi_query w (query_text encodeURIComponent q) = q"
  "libraries_ok w \<Longrightarrow> query_ok q \<Longrightarrow> wi_query w (query_text form_encode q) = q"
  by (simp_all add: libraries_ok_def)

lemma truthy_coalesce: "truthy c \<Longrightarrow> Some (coalesce c []) = c"
  by (cases c) (simp_all add: truthy_def)

definition limit_query :: "nat \<Rightarrow> string option \<Rightarrow> query" where
  "limit_query n c = (''limit'', nat_text n) # (if truthy c then [(''cursor'', coalesce c [])] else [])"

lemma limit_query_text: "limit_and_cursor n c = query_text encodeURIComponent (limit_query n c)"
  by (simp add: limit_and_cursor_def limit_query_def query_text_def encode_digits encode_names)

lemma limit_only_text: "''limit='' @ nat_text n = query_text encodeURIComponent (limit_query n None)"
  by (simp add: limit_query_def query_text_def encode_digits encode_names truthy_def)

lemma limit_query_ok: "query_ok (limit_query n c)"
  by (simp add: limit_query_def query_ok_def)

lemma limit_query_params:
  "param (limit_query n c) ''limit'' = Some (nat_text n)"
  "param (limit_query n c) ''cursor'' = (if truthy c then c else None)"
  by (simp_all add: limit_query_def param_def truthy_coalesce)

lemma cursor_given: "text_cursor (if truthy c then c else None) = text_cursor c"
  "dated_cursor w (if truthy c then c else None) = dated_cursor w c"
  by (simp_all add: text_cursor_def dated_cursor_def truthy_def)

lemmas limit_rules = limit_query_text read_query limit_query_ok limit_query_params cursor_given

lemma arrive_limited:
  assumes "libraries_ok w"
  shows "arrive w (api key (SyncChangesCall c n)) = reading_rows (\<lambda>c. GetSyncChanges c (Some (nat_text n))) (dated_cursor w c)"
    "arrive w (api key (OrganizationsCall c n)) = reading_rows (\<lambda>c. GetOrganizations c (Some (nat_text n))) (text_cursor c)"
    "arrive w (api key (OrphansCall c n)) = reading_rows (\<lambda>c. GetOrphans c (Some (nat_text n))) (text_cursor c)"
  using assms by (simp_all add: url_rules limit_rules del: if_split add: arrive_at [of w SyncRoute "[]"]
      arrive_at [of w OrganizationsRoute "[]"] arrive_at [of w OrphansRoute "[]"])

lemma arrive_largest:
  assumes "libraries_ok w"
  shows "arrive w (api key (LargestProblemsCall n)) = Arrives (Read (GetLargestProblems (Some (nat_text n))))"
    "arrive w (api key (LargestOrganizationsCall n)) = Arrives (Read (GetLargestOrganizations (Some (nat_text n))))"
  unfolding api.simps limit_only_text using assms
  by (simp_all add: url_rules read_query limit_query_ok limit_query_params arrive_at [of w LargestProblemsRoute "[]"]
      arrive_at [of w LargestOrganizationsRoute "[]"])

lemma map_of_given: "distinct (map fst kvs) \<Longrightarrow> map_of (given kvs) k = named kvs k"
proof (induction kvs)
  case (Cons kv kvs)
  obtain k' v where kv: "kv = (k', v)" by (cases kv)
  have "map_of kvs k' = None" using Cons(2) kv by (simp add: map_of_eq_None_iff)
  then have "named kvs k' = None" by (simp add: named_def)
  then show ?case using Cons kv by (auto simp: given_def named_def truthy_coalesce)
qed (simp add: given_def named_def)

lemma given_ok: "names_ok kvs \<Longrightarrow> query_ok (given kvs)"
proof (induction kvs)
  case (Cons kv kvs)
  have "fst ` set (given kvs) \<subseteq> fst ` set kvs" by (force simp: given_def)
  with Cons show ?case by (cases kv) (auto simp: query_ok_def names_ok_def given_def)
qed (simp add: query_ok_def given_def)

lemma arrive_filtered:
  assumes "libraries_ok w" and "names_ok kvs"
  shows "arrive w (api key (ListProblemsCall kvs)) = intended w (ListProblemsCall kvs)"
    "arrive w (api key (JobsCall kvs)) = intended w (JobsCall kvs)"
    "arrive w (api key (AuditEventsCall kvs)) = intended w (AuditEventsCall kvs)"
  using assms map_of_given [of kvs] by (simp_all add: url_rules read_query given_ok names_ok_def param_def
      arrive_at [of w ProblemsRoute "[]"] arrive_at [of w JobsRoute "[]"] arrive_at [of w AuditRoute "[]"])

lemma arrive_login:
  assumes "libraries_ok w"
  shows "arrive w (api key (LoginCall u p)) = intended w (LoginCall u p)"
  using assms by (auto simp: url_rules arrive_at [of w LoginRoute "[]"] validated_def loginRequest_schema_def
      conforms.simps json_field_def)

lemma reconcile_conforms:
  "conforms reconcileRequest_schema (JObj [(''problems'', JArr (map (\<lambda>(i, c). JObj [(''external_id'', JStr i), (''code'', JStr c)]) ps))])"
  by (auto simp: reconcileRequest_schema_def text_or_missing_def conforms.simps)

lemma arrive_reconcile:
  assumes "libraries_ok w"
  shows "arrive w (api key (ReconcileCall ps)) = intended w (ReconcileCall ps)"
  using assms reconcile_conforms
  by (simp add: url_rules arrive_at [of w ReconcileRoute "['':reconcile'']"] validated_def json_field_def)

lemma arrive_download:
  assumes "libraries_ok w"
  shows "arrive w (api key (DownloadCall i ttl path)) = intended w (DownloadCall i ttl path)"
  using assms by (cases ttl; cases path) (auto simp: url_rules arrive_at [of w DownloadRoute "[]"] validated_def
      downloadRequest_schema_def conforms.simps json_field_def optional_def body_field_def)

definition snapshots_query :: "string option \<Rightarrow> string option \<Rightarrow> nat \<Rightarrow> query" where
  "snapshots_query i c n = given [(''problem_id'', i), (''cursor'', c)] @ [(''limit'', nat_text n)]"

lemma snapshots_query_ok: "query_ok (snapshots_query i c n)"
  by (auto simp: snapshots_query_def query_ok_def given_def)

lemma snapshots_query_params:
  "param (snapshots_query i c n) ''problem_id'' = (if truthy i then i else None)"
  "param (snapshots_query i c n) ''cursor'' = (if truthy c then c else None)"
  "param (snapshots_query i c n) ''limit'' = Some (nat_text n)"
  by (cases i; cases c; simp add: snapshots_query_def param_def given_def truthy_def map_add_def)+

lemma arrive_snapshots:
  assumes "libraries_ok w"
  shows "arrive w (api key (SnapshotsCall i c n)) = intended w (SnapshotsCall i c n)"
  using assms by (simp add: url_rules snapshots_query_def [symmetric] read_query snapshots_query_ok snapshots_query_params
      cursor_given arrive_at [of w SnapshotsRoute "[]"] del: if_split)

lemma arrive_timeseries:
  assumes "libraries_ok w"
  shows "arrive w (api key (VolumeTimeseriesCall name n)) = intended w (VolumeTimeseriesCall name n)"
proof -
  let ?n = "case n of Some k \<Rightarrow> if 0 < k then Some (nat_text k) else None | None \<Rightarrow> None"
  let ?kvs = "[(''name'', name), (''limit'', ?n)]"
  have ok: "names_ok ?kvs" by (simp add: names_ok_def)
  have "named ?kvs ''limit'' = ?n"
    using nat_text_digits by (auto simp: named_def truthy_def split: option.splits)
  moreover have "named ?kvs ''name'' = (if truthy name then name else None)" by (simp add: named_def)
  ultimately show ?thesis
    using assms map_of_given [of ?kvs] ok
    by (simp add: url_rules read_query given_ok param_def arrive_at [of w TimeseriesRoute "[]"])
qed

lemmas arrivals = arrive_fixed arrive_one arrive_bodiless arrive_action arrive_limited arrive_largest arrive_filtered
  arrive_login arrive_reconcile arrive_download arrive_snapshots arrive_timeseries


section \<open>A cursor survives the round trip\<close>

lemma encodeCursor_truthy: "distinct_keys v \<Longrightarrow> truthy (Some (encodeCursor v))"
proof -
  assume "distinct_keys v"
  have "json_parse [] = None" by (simp add: json_parse_def)
  with \<open>distinct_keys v\<close> have "json_stringify v \<noteq> []" using parse_stringify [of v] by force
  moreover have "from_base64url [] = []" by (simp add: from_base64url_def List.map_filter_def)
  ultimately have "encodeCursor v \<noteq> []" using base64url_roundtrip [of "json_stringify v"] by (auto simp: encodeCursor_def)
  then show ?thesis by (simp add: truthy_def)
qed

text \<open>The cursor texts of the lists, and the values the handlers get back when the dashboard sends them.\<close>

lemma text_cursor_roundtrip: "text_cursor (Some (encodeCursor (JStr t))) = Some (Some t)"
  using encodeCursor_truthy [of "JStr t"] by (simp add: text_cursor_def decode_encodeCursor)

definition dated_cursor_text :: "nat \<Rightarrow> string \<Rightarrow> string" where
  "dated_cursor_text ms i = encodeCursor (JObj [(''created_at'', JStr (toISOString ms)), (''id'', JStr i)])"

lemma dated_cursor_roundtrip:
  "dated_cursor w (Some (dated_cursor_text ms i)) = map_option (\<lambda>t. Some (t, i)) (wi_timestamp w (toISOString ms))"
  using encodeCursor_truthy [of "JObj [(''created_at'', JStr (toISOString ms)), (''id'', JStr i)]"]
  by (simp add: dated_cursor_def dated_cursor_text_def decode_encodeCursor json_field_def)

section \<open>Libraries that keep their promises\<close>

text \<open>
  The hypotheses on the libraries can be met: here is a router that compares segments and decodes the
  parameters; \<open>parse_query\<close> is a query parser.
\<close>

fun match_segments :: "segment list \<Rightarrow> string list \<Rightarrow> string list option" where
  "match_segments [] [] = Some []"
| "match_segments (Lit t # ss) (x # xs) = (if x = t then match_segments ss xs else None)"
| "match_segments (Param # ss) (x # xs) = map_option (\<lambda>ps. percent_decode x # ps) (match_segments ss xs)"
| "match_segments (Begins t # ss) (x # xs) =
     (if starts_with t x \<and> x \<noteq> t then map_option (\<lambda>ps. percent_decode (drop (length t) x) # ps) (match_segments ss xs)
      else None)"
| "match_segments _ _ = None"

definition all_routes :: "route list" where
  "all_routes = [LoginRoute, HealthRoute, VolumesRoute, ReconcileRoute, SyncRoute, ProblemsRoute, ProblemRoute, UsageRoute,
     DirtyRoute, ScanRoute, SnapshotRoute, RestoreRoute, EvictRoute, OrganizationsRoute, OrganizationUsageRoute,
     SnapshotsRoute, OneSnapshotRoute, JobsRoute, OneJobRoute, RetryRoute, CancelRoute, OrphansRoute, SummaryRoute,
     StatusRoute, LargestProblemsRoute, LargestOrganizationsRoute, TimeseriesRoute, AuditRoute, DownloadRoute,
     ServiceTokenRoute, ScheduleRoute, FilesRoute, EnsureReadyRoute, SettingsRoute, BackfillRoute, BackfillStartRoute,
     BackfillPauseRoute, BackfillProgressRoute, IncidentsRoute, IncidentRoute, RetentionRoute, PutRetentionRoute,
     RetentionApplyRoute, GcEligibleRoute]"

fun first_match :: "string \<Rightarrow> string list \<Rightarrow> route list \<Rightarrow> (route \<times> string list) option" where
  "first_match m parts [] = None"
| "first_match m parts (r # rs) =
     (if fst (registered r) = m
      then (case match_segments (snd (registered r)) parts of Some ps \<Rightarrow> Some (r, ps) | None \<Rightarrow> first_match m parts rs)
      else first_match m parts rs)"

definition plain_route :: "string \<Rightarrow> string \<Rightarrow> (route \<times> string list) option" where
  "plain_route m path = first_match m (tl (split_on (CHR ''/'') path)) all_routes"

fun path_parts :: "segment list \<Rightarrow> string list \<Rightarrow> string list" where
  "path_parts [] ps = []"
| "path_parts (Lit t # ss) ps = t # path_parts ss ps"
| "path_parts (Param # ss) (p # ps) = encodeURIComponent p # path_parts ss ps"
| "path_parts (Begins t # ss) (p # ps) = (t @ p) # path_parts ss ps"
| "path_parts ss [] = []"

lemma split_on_glue: "d \<notin> set t \<Longrightarrow> split_on d s = [] # ys \<Longrightarrow> split_on d (t @ s) = t # ys"
  by (induction t) auto

lemma plain_text_char: "plain_text p \<Longrightarrow> c \<in> set p \<Longrightarrow> c \<noteq> CHR ''/'' \<and> c \<noteq> CHR ''%''"
  by (auto simp: plain_text_def list_all_iff is_alnum_def)

lemma percent_decode_plain_text: "plain_text p \<Longrightarrow> percent_decode p = p"
proof (induction p)
  case (Cons c p)
  then have "c \<noteq> CHR ''%''" using plain_text_char [of "c # p" c] by simp
  with Cons show ?case by (simp add: percent_decode_plain plain_text_def)
qed simp

fun literals_plain :: "segment list \<Rightarrow> bool" where
  "literals_plain [] = True"
| "literals_plain (Lit t # ss) = (CHR ''/'' \<notin> set t \<and> literals_plain ss)"
| "literals_plain (Param # ss) = literals_plain ss"
| "literals_plain (Begins t # ss) = (CHR ''/'' \<notin> set t \<and> literals_plain ss)"

lemma split_path: "literals_plain ss \<Longrightarrow> fitting ss ps \<Longrightarrow> split_on (CHR ''/'') (path_text ss ps) = [] # path_parts ss ps"
proof (induction ss ps rule: path_text.induct)
  case (3 ss p ps)
  have "CHR ''/'' \<notin> set (encodeURIComponent p)" using component_chars by blast
  with 3 show ?case by (simp add: split_on_glue)
next
  case (4 t ss p ps)
  then have "CHR ''/'' \<notin> set (t @ p)" using plain_text_char by auto
  from split_on_glue [OF this] 4 show ?case by simp
qed (simp_all add: split_on_glue)

lemma plain_route_parts:
  assumes "params_ok r ps"
  shows "plain_route (fst (registered r)) (path_text (snd (registered r)) ps)
    = first_match (fst (registered r)) (path_parts (snd (registered r)) ps) all_routes"
proof -
  have "literals_plain (snd (registered r))" by (cases r) (simp_all add: api_segments_def)
  then show ?thesis using assms by (simp add: plain_route_def split_path params_ok_def)
qed

lemma first_match_registered:
  assumes "params_ok r ps"
  shows "first_match (fst (registered r)) (path_parts (snd (registered r)) ps) all_routes = Some (r, ps)"
proof (cases "ps = []")
  case True
  then show ?thesis using assms by (cases r) (simp_all add: params_ok_def api_segments_def all_routes_def)
next
  case False
  then obtain p ps' where ps: "ps = p # ps'" by (cases ps) auto
  have "ps' = []" using assms ps by (cases r) (auto simp: params_ok_def api_segments_def)
  then show ?thesis
    using assms ps by (cases r) (simp_all add: params_ok_def api_segments_def all_routes_def decode_component
      percent_decode_plain_text param_ok_def)
qed

definition plain_wire :: wire where
  "plain_wire = \<lparr>wi_route = plain_route, wi_query = parse_query, wi_timestamp = (\<lambda>t. Some 0), wi_date = (\<lambda>t. Some 0),
     wi_sort_value = (\<lambda>col v. (False, 0, v)), wi_db_ok = True, wi_rust_ok = True\<rparr>"

lemma plain_wire_ok: "libraries_ok plain_wire"
  by (simp add: libraries_ok_def plain_wire_def plain_route_parts first_match_registered parse_query_text)


end
