(* ===== verification/Console.thy ===== *)
theory Console
  imports Url
begin

text \<open>
  The dashboard's session and navigation: the token in the browser's storage and its expiry, the
  answer 401 (\<open>app.tsx\<close> and \<open>request\<close> of \<open>lib/api.ts\<close>), the page a hash stands for, and the buttons that
  turn the pages of a list. Times are in milliseconds.
\<close>

section \<open>The session\<close>

definition SESSION_KEY :: string where "SESSION_KEY = ''storage_session''"
definition LEGACY_TOKEN_KEY :: string where "LEGACY_TOKEN_KEY = ''storage_token''"
definition LEGACY_EXPIRES_KEY :: string where "LEGACY_EXPIRES_KEY = ''storage_token_expires_at''"

text \<open>\<open>localStorage\<close>, the variable \<open>token\<close> of \<open>api.ts\<close>, and the state \<open>authed\<close> of \<open>App\<close>.\<close>

type_synonym local_storage = "string \<rightharpoonup> string"

record console =
  co_storage :: local_storage
  co_token :: "string option"
  co_authed :: bool

text \<open>The session a storage holds, whether it has expired or not.\<close>

definition stored_session :: "local_storage \<Rightarrow> (string \<times> int) option" where
  "stored_session st =
     (if truthy (st SESSION_KEY)
      then (case json_parse (coalesce (st SESSION_KEY) []) of
          None \<Rightarrow> None
        | Some v \<Rightarrow>
            (case (json_field v ''token'', json_field v ''expires_at'') of
               (Some (JStr t), Some (JNum e)) \<Rightarrow> Some (t, e) | _ \<Rightarrow> None))
      else None)"

definition clear_keys :: "local_storage \<Rightarrow> local_storage" where
  "clear_keys st = st(SESSION_KEY := None, LEGACY_TOKEN_KEY := None, LEGACY_EXPIRES_KEY := None)"

definition readStoredToken :: "int \<Rightarrow> console \<Rightarrow> string option \<times> console" where
  "readStoredToken now_ms c =
     (case stored_session (co_storage c) of
        Some (t, e) \<Rightarrow>
          if e \<le> now_ms then (None, c\<lparr>co_storage := clear_keys (co_storage c), co_token := None\<rparr>)
          else (Some t, c\<lparr>co_token := Some t\<rparr>)
      | None \<Rightarrow> (None, c\<lparr>co_storage := clear_keys (co_storage c), co_token := None\<rparr>))"

definition clearStoredToken :: "console \<Rightarrow> console" where
  "clearStoredToken c = c\<lparr>co_storage := clear_keys (co_storage c), co_token := None\<rparr>"

definition logout :: "console \<Rightarrow> console" where
  "logout c = (clearStoredToken c)\<lparr>co_authed := False\<rparr>"

definition syncSession :: "int \<Rightarrow> console \<Rightarrow> console" where
  "syncSession now_ms c = (let (t, c) = readStoredToken now_ms c in c\<lparr>co_authed := truthy t\<rparr>)"

definition session_text :: "string \<Rightarrow> int \<Rightarrow> string" where
  "session_text t expiresAt = json_stringify (JObj [(''token'', JStr t), (''expires_at'', JNum expiresAt)])"

definition expires_at :: "int \<Rightarrow> int \<Rightarrow> int" where
  "expires_at now_ms expiresIn = now_ms + max 0 (expiresIn - 30) * 1000"

definition handleLogin :: "int \<Rightarrow> string \<Rightarrow> int \<Rightarrow> console \<Rightarrow> console" where
  "handleLogin now_ms t expiresIn c =
     (let expiresAt = expires_at now_ms expiresIn in
      c\<lparr>co_storage := (co_storage c)(SESSION_KEY \<mapsto> session_text t expiresAt,
           LEGACY_TOKEN_KEY := None, LEGACY_EXPIRES_KEY := None),
        co_token := Some t, co_authed := True\<rparr>)"

text \<open>\<open>App\<close> when it is mounted.\<close>

definition start_console :: "int \<Rightarrow> local_storage \<Rightarrow> console" where
  "start_console now_ms st = syncSession now_ms \<lparr>co_storage = st, co_token = None, co_authed = False\<rparr>"

subsection \<open>Answers\<close>

text \<open>What \<open>fetch\<close> brings back: \<open>None\<close> for a body that is not JSON.\<close>

record http_response =
  re_status :: nat
  re_status_text :: string
  re_request_id :: "string option"
  re_body :: "json option"

text \<open>The error \<open>request\<close> throws, or the value it returns; \<open>JNull\<close> for \<open>undefined\<close>.\<close>

definition error_of :: "http_response \<Rightarrow> json" where
  "error_of r =
     (case re_body r of
        Some v \<Rightarrow> v
      | None \<Rightarrow> JObj [(''code'', JStr ''http_error''), (''message'', JStr (re_status_text r)),
          (''retryable'', JBool (500 \<le> re_status r)), (''request_id'', JStr (coalesce (re_request_id r) ''unknown''))])"

definition request_answer :: "http_response \<Rightarrow> console \<Rightarrow> (json + json option) \<times> console" where
  "request_answer r c =
     (if \<not> (200 \<le> re_status r \<and> re_status r \<le> 299)
      then (Inl (error_of r), if re_status r = 401 then logout (c\<lparr>co_token := None\<rparr>) else c)
      else if re_status r = 204 then (Inr (Some JNull), c)
      else (Inr (re_body r), c))"

section \<open>Steps\<close>

text \<open>The timer and the storage event re-read the storage, which another tab may have written.\<close>

datatype console_event =
    LoginOk string int
  | SyncTimer
  | OtherTab local_storage
  | LogoutClicked
  | Answer http_response

fun console_step :: "int \<Rightarrow> console_event \<Rightarrow> console \<Rightarrow> console" where
  "console_step now_ms (LoginOk t expiresIn) c = handleLogin now_ms t expiresIn c"
| "console_step now_ms SyncTimer c = syncSession now_ms c"
| "console_step now_ms (OtherTab st) c = syncSession now_ms (c\<lparr>co_storage := st\<rparr>)"
| "console_step now_ms LogoutClicked c = logout c"
| "console_step now_ms (Answer r) c = snd (request_answer r c)"

definition console_run :: "(int \<times> console_event) list \<Rightarrow> console \<Rightarrow> console" where
  "console_run es c = fold (\<lambda>(t, e). console_step t e) es c"

text \<open>The events come in the order of time, and the timer of thirty seconds ticks in time; \<open>last\<close> was the last tick.\<close>

fun timely :: "int \<Rightarrow> int \<Rightarrow> (int \<times> console_event) list \<Rightarrow> int \<Rightarrow> bool" where
  "timely ticked since [] now_ms \<longleftrightarrow> since \<le> now_ms \<and> now_ms \<le> ticked + 30000"
| "timely ticked since ((t, e) # es) now_ms \<longleftrightarrow>
     since \<le> t \<and> t \<le> ticked + 30000 \<and> timely (if e = SyncTimer then t else ticked) t es now_ms"

section \<open>No token is used after its time\<close>

text \<open>The sessions that can have given a token: the logins of this tab and what the storage held.\<close>

definition sessions_of :: "local_storage \<Rightarrow> (int \<times> console_event) list \<Rightarrow> (string \<times> int) set" where
  "sessions_of st es =
     {(t, e). stored_session st = Some (t, e)}
     \<union> {(t, e). \<exists>at st. (at, OtherTab st) \<in> set es \<and> stored_session st = Some (t, e)}
     \<union> {(t, e). \<exists>at n. (at, LoginOk t n) \<in> set es \<and> e = expires_at at n}"

definition session_ok :: "(string \<times> int) set \<Rightarrow> int \<Rightarrow> console \<Rightarrow> bool" where
  "session_ok S ticked c \<longleftrightarrow>
     (\<forall>t e. stored_session (co_storage c) = Some (t, e) \<longrightarrow> (t, e) \<in> S)
     \<and> (\<forall>t. co_token c = Some t \<longrightarrow> (\<exists>e. (t, e) \<in> S \<and> ticked < e))"

lemma session_keys: "SESSION_KEY \<noteq> LEGACY_TOKEN_KEY" "SESSION_KEY \<noteq> LEGACY_EXPIRES_KEY"
  by (simp_all add: SESSION_KEY_def LEGACY_TOKEN_KEY_def LEGACY_EXPIRES_KEY_def)

lemma cleared_session: "stored_session (clear_keys st) = None"
  by (simp add: stored_session_def clear_keys_def session_keys truthy_def)

lemma login_session:
  "stored_session (st(SESSION_KEY \<mapsto> session_text t e, LEGACY_TOKEN_KEY := None, LEGACY_EXPIRES_KEY := None)) = Some (t, e)"
proof -
  have "json_parse (session_text t e) = Some (JObj [(''token'', JStr t), (''expires_at'', JNum e)])"
    unfolding session_text_def by (rule parse_stringify) simp
  moreover have "session_text t e \<noteq> []" by (simp add: session_text_def)
  ultimately show ?thesis by (simp add: stored_session_def session_keys truthy_def json_field_def)
qed

lemma sync_ok: "session_ok S k c \<Longrightarrow> session_ok S now_ms (syncSession now_ms c)"
  by (auto simp: session_ok_def syncSession_def readStoredToken_def cleared_session split: option.splits)

lemma logout_ok: "session_ok S k (logout c)"
  by (simp add: session_ok_def logout_def clearStoredToken_def cleared_session)

lemma session_ok_mono: "session_ok S k c \<Longrightarrow> k' \<le> k \<Longrightarrow> session_ok S k' c"
  by (fastforce simp: session_ok_def)

lemma step_ok:
  assumes "session_ok S ticked c" and "ticked \<le> now_ms"
    and "\<And>st t e'. e = OtherTab st \<Longrightarrow> stored_session st = Some (t, e') \<Longrightarrow> (t, e') \<in> S"
    and "\<And>t n. e = LoginOk t n \<Longrightarrow> (t, expires_at now_ms n) \<in> S \<and> 30 < n"
  shows "session_ok S (if e = SyncTimer then now_ms else ticked) (console_step now_ms e c)"
proof (cases e)
  case (LoginOk t n)
  then have "now_ms < expires_at now_ms n" "(t, expires_at now_ms n) \<in> S"
    using assms(4) [of t n] by (auto simp: expires_at_def)
  then show ?thesis
    using LoginOk assms(2) by (fastforce simp: session_ok_def handleLogin_def login_session)
next
  case SyncTimer
  then show ?thesis using sync_ok [OF assms(1)] by simp
next
  case (OtherTab st)
  have "session_ok S ticked (c\<lparr>co_storage := st\<rparr>)" using assms(1, 3) OtherTab by (simp add: session_ok_def)
  from sync_ok [OF this, of now_ms] show ?thesis using OtherTab assms(2) by (auto intro: session_ok_mono)
next
  case LogoutClicked
  then show ?thesis by (simp add: logout_ok)
next
  case (Answer r)
  then show ?thesis using assms(1) by (simp add: request_answer_def logout_ok)
qed

lemma run_ok:
  assumes "session_ok S ticked c" and "timely ticked since es now_ms" and "ticked \<le> since"
    and "\<forall>at st t e. (at, OtherTab st) \<in> set es \<longrightarrow> stored_session st = Some (t, e) \<longrightarrow> (t, e) \<in> S"
    and "\<forall>at t n. (at, LoginOk t n) \<in> set es \<longrightarrow> (t, expires_at at n) \<in> S \<and> 30 < n"
  shows "\<exists>k. session_ok S k (console_run es c) \<and> now_ms \<le> k + 30000"
  using assms
proof (induction es arbitrary: ticked since c)
  case (Cons x es)
  obtain t e where x: "x = (t, e)" by (cases x)
  let ?k = "if e = SyncTimer then t else ticked"
  have t: "ticked \<le> t" "timely ?k t es now_ms" "?k \<le> t" using Cons(3, 4) x by auto
  have "session_ok S ?k (console_step t e c)"
    by (rule step_ok [OF Cons(2) t(1)]) (use Cons(5, 6) x in auto)
  from Cons(1) [OF this t(2, 3)] Cons(5, 6) x show ?case by (auto simp: console_run_def)
qed (auto simp: console_run_def)



section \<open>Pages\<close>

definition normalizeHash :: "string \<Rightarrow> string" where
  "normalizeHash hash =
     (let withoutHash = (case hash of c # cs \<Rightarrow> if c = CHR ''#'' then cs else hash | [] \<Rightarrow> []);
          path = (if withoutHash = [] then ''/'' else withoutHash)
      in if starts_with ''/'' path then path else CHR ''/'' # path)"

text \<open>The page of a hash, and its parameter.\<close>

definition matchRoute :: "string \<Rightarrow> string \<times> string option" where
  "matchRoute hash =
     (case filter (\<lambda>t. t \<noteq> []) (split_on (CHR ''/'') (normalizeHash hash)) of
        [] \<Rightarrow> (''overview'', None)
      | p # ps \<Rightarrow>
          if p = ''problems'' \<and> ps = [] then (''problems'', None)
          else if p = ''problems'' \<and> length ps = 1 then (''problem-detail'', Some (hd ps))
          else if p = ''organizations'' \<and> ps = [] then (''organizations'', None)
          else if p = ''organizations'' \<and> length ps = 1 then (''organization-detail'', Some (hd ps))
          else if p \<in> {''snapshots'', ''jobs'', ''storage'', ''orphans'', ''deleted'', ''audit'', ''settings''} then (p, None)
          else (''overview'', None))"

definition pageTitle :: "string \<Rightarrow> string" where
  "pageTitle page =
     (case map_of [(''overview'', ''Overview''), (''problems'', ''Problems''), (''problem-detail'', ''Problem detail''),
          (''organizations'', ''Organizations''), (''organization-detail'', ''Organization detail''), (''snapshots'', ''Snapshots''),
          (''jobs'', ''Jobs''), (''storage'', ''Storage & R2''), (''orphans'', ''Orphans''), (''deleted'', ''Deleted problems''),
          (''audit'', ''Audit log''), (''settings'', ''Settings'')] page of
        Some t \<Rightarrow> t | None \<Rightarrow> ''Overview'')"

text \<open>The link of the problem list to one problem.\<close>

definition problem_link :: "string \<Rightarrow> string" where
  "problem_link i = ''#/problems/'' @ encodeURIComponent i"

lemma encode_nonempty: "i \<noteq> [] \<Longrightarrow> encodeURIComponent i \<noteq> []"
  by (cases i) (simp_all add: encodeURIComponent_def encode_char_def percent_def)

lemma problem_link_page:
  assumes "i \<noteq> []"
  shows "matchRoute (problem_link i) = (''problem-detail'', Some (encodeURIComponent i))"
proof -
  have n: "CHR ''/'' \<notin> set (encodeURIComponent i)" using component_chars by blast
  have "split_on (CHR ''/'') (''/problems/'' @ encodeURIComponent i) = [[], ''problems'', encodeURIComponent i]"
    using split_on_plain [OF n] by simp
  moreover have "normalizeHash (problem_link i) = ''/problems/'' @ encodeURIComponent i"
    by (simp add: normalizeHash_def problem_link_def)
  ultimately show ?thesis using encode_nonempty [OF assms] by (simp add: matchRoute_def)
qed

text \<open>
  The parameter is not decoded, and the page hands it to \<open>api.getProblem\<close>, which encodes it again: an id
  with a character that is not its own encoding is asked for under another name.
\<close>

lemma problem_link_encoded_twice: "matchRoute (problem_link ''a b'') = (''problem-detail'', Some ''a%20b'')"
  using problem_link_page [of "''a b''"]
  by (simp add: encodeURIComponent_def encode_char_def is_alnum_def percent_def upper_hex_def char_of_def bit_0)

section \<open>Turning pages\<close>

text \<open>The cursor of the page that is shown, and the cursors of those before it, the last one last.\<close>

record pager =
  pg_cursor :: "string option"
  pg_history :: "string option list"

definition first_page :: pager where
  "first_page = \<lparr>pg_cursor = None, pg_history = []\<rparr>"

definition next_page :: "string option \<Rightarrow> pager \<Rightarrow> pager" where
  "next_page next_cursor p =
     (if truthy next_cursor then \<lparr>pg_cursor = next_cursor, pg_history = pg_history p @ [pg_cursor p]\<rparr> else p)"

text \<open>The button is disabled while there is no page before.\<close>

definition previous_page :: "pager \<Rightarrow> pager" where
  "previous_page p =
     (if pg_history p = [] then p else \<lparr>pg_cursor = last (pg_history p), pg_history = butlast (pg_history p)\<rparr>)"

lemma previous_next: "truthy c \<Longrightarrow> previous_page (next_page c p) = p"
  by (simp add: previous_page_def next_page_def)

text \<open>Going forward through any pages and as many steps back shows the page one started from.\<close>

lemma pages_back: "list_all truthy cs \<Longrightarrow> (previous_page ^^ length cs) (fold next_page cs p) = p"
proof (induction cs arbitrary: p)
  case (Cons c cs)
  have "(previous_page ^^ length (c # cs)) (fold next_page (c # cs) p)
      = previous_page ((previous_page ^^ length cs) (fold next_page cs (next_page c p)))" by simp
  also have "\<dots> = p" using Cons by (simp add: previous_next)
  finally show ?case .
qed simp

end
