(* ===== verification/Browsing.thy ===== *)
theory Browsing
  imports Web Console
begin

text \<open>
  Turning the pages of a list in the dashboard, end to end: the page's cursor goes through
  \<open>lib/api.ts\<close> over the wire to the handler of \<open>routes.ts\<close>, which decodes it, the list function of \<open>db.ts\<close>
  answers with the cursor of the next page, which goes back as a text into the page's state. The law the
  pages rely on, that a cursor survives the way as a text, is the locale \<open>cursor_codec\<close>; together with
  \<open>keyset_cursor\<close> it makes the pages complete.
\<close>

section \<open>Cursors as texts\<close>

definition with_cursor :: "('c \<Rightarrow> 'd) \<Rightarrow> ('r, 'c) page \<Rightarrow> ('r, 'd) page" where
  "with_cursor enc p = \<lparr>pg_items = pg_items p, pg_next_cursor = map_option enc (pg_next_cursor p), pg_has_more = pg_has_more p\<rparr>"

text \<open>A list function behind the wire; \<open>None\<close> is a cursor that does not decode to a value of its type.\<close>

definition over_wire ::
  "(string option \<Rightarrow> 'c option option) \<Rightarrow> ('c \<Rightarrow> string) \<Rightarrow> ('c option \<Rightarrow> ('r, 'c) page) \<Rightarrow> string option
    \<Rightarrow> ('r, string) page option" where
  "over_wire dec enc fetch c = map_option (\<lambda>d. with_cursor enc (fetch d)) (dec c)"

text \<open>
  A reader of a page who presses Next as long as the page says there is more; at most \<open>fuel\<close> pages. The
  result is what was shown and the page's state in the end.
\<close>

fun browse :: "(string option \<Rightarrow> ('r, string) page option) \<Rightarrow> nat \<Rightarrow> pager \<Rightarrow> 'r list \<times> pager" where
  "browse ask 0 p = ([], p)"
| "browse ask (Suc fuel) p =
     (case ask (pg_cursor p) of
        None \<Rightarrow> ([], p)
      | Some pg \<Rightarrow>
          if pg_has_more pg
          then (let (rest, q) = browse ask fuel (Console.next_page (pg_next_cursor pg) p) in (pg_items pg @ rest, q))
          else (pg_items pg, p))"

text \<open>What a codec promises: no cursor, and the empty one, mean the first page; any other one comes back.\<close>

locale cursor_codec =
  fixes dec :: "string option \<Rightarrow> 'c option option"
    and enc :: "'c \<Rightarrow> string"
  assumes dec_first: "dec None = Some None"
    and dec_empty: "dec (Some []) = Some None"
    and dec_enc: "dec (Some (enc c)) = Some (Some c)"
begin

lemma enc_truthy: "truthy (Some (enc c))"
  using dec_empty dec_enc [of c] by (auto simp: truthy_def)

lemma browse_walk:
  assumes "\<And>c. pg_has_more (fetch c) \<Longrightarrow> pg_next_cursor (fetch c) \<noteq> None" and "dec (pg_cursor p) = Some c"
  shows "fst (browse (over_wire dec enc fetch) fuel p) = walk fetch fuel c
    \<and> (\<exists>cs. list_all truthy cs \<and> snd (browse (over_wire dec enc fetch) fuel p) = fold Console.next_page cs p)"
  using assms(2)
proof (induction fuel arbitrary: p c)
  case 0
  show ?case by (auto intro: exI [of _ "[]"])
next
  case (Suc fuel)
  have ask: "over_wire dec enc fetch (pg_cursor p) = Some (with_cursor enc (fetch c))"
    using Suc.prems by (simp add: over_wire_def)
  show ?case
  proof (cases "pg_has_more (fetch c)")
    case False
    then show ?thesis using ask by (auto simp: with_cursor_def Let_def intro: exI [of _ "[]"])
  next
    case True
    then obtain k where k: "pg_next_cursor (fetch c) = Some k" using assms(1) by blast
    let ?q = "Console.next_page (Some (enc k)) p"
    have "dec (pg_cursor ?q) = Some (Some k)" using enc_truthy [of k] by (simp add: Console.next_page_def dec_enc)
    from Suc.IH [OF this] obtain cs where q: "fst (browse (over_wire dec enc fetch) fuel ?q) = walk fetch fuel (Some k)"
      "list_all truthy cs" "snd (browse (over_wire dec enc fetch) fuel ?q) = fold Console.next_page cs ?q" by blast
    have run: "browse (over_wire dec enc fetch) (Suc fuel) p
        = (pg_items (fetch c) @ fst (browse (over_wire dec enc fetch) fuel ?q), snd (browse (over_wire dec enc fetch) fuel ?q))"
      using True k ask by (simp add: with_cursor_def Let_def split: prod.split)
    show ?thesis
      unfolding run using True k q enc_truthy [of k]
      by (auto simp: Let_def intro!: exI [of _ "Some (enc k) # cs"])
  qed
qed

end

text \<open>A list in ascending order of its key, behind a codec for its cursors.\<close>

locale coded_pages = keyset_cursor key cur R + cursor_codec dec enc
  for key :: "'r \<Rightarrow> 'k::linorder" and cur :: "'r \<Rightarrow> 'k" and R :: "'r set"
    and dec :: "string option \<Rightarrow> 'k option option" and enc :: "'k \<Rightarrow> string"
begin

lemma browse_complete:
  assumes "distinct (map key rs)" and "set rs \<subseteq> R" and "0 < lim"
  shows "fst (browse (over_wire dec enc (\<lambda>c. map_page f (page_asc key cur lim c rs))) (Suc (length rs)) first_page)
      = map f (sort_key key rs)
    \<and> (\<exists>n. (previous_page ^^ n) (snd (browse (over_wire dec enc (\<lambda>c. map_page f (page_asc key cur lim c rs))) (Suc (length rs)) first_page))
        = first_page)"
proof -
  let ?fetch = "\<lambda>c. map_page f (page_asc key cur lim c rs)"
  have more: "pg_next_cursor (?fetch c) \<noteq> None" if "pg_has_more (?fetch c)" for c
    using that assms(3) by (auto simp: map_page_def page_asc_def page_of_def Let_def dest!: arg_cong [where f = length])
  have "dec (pg_cursor first_page) = Some None" by (simp add: first_page_def dec_first)
  from browse_walk [of ?fetch, OF more this, of "Suc (length rs)"]
  obtain cs where b: "fst (browse (over_wire dec enc ?fetch) (Suc (length rs)) first_page) = walk ?fetch (Suc (length rs)) None"
    "list_all truthy cs" "snd (browse (over_wire dec enc ?fetch) (Suc (length rs)) first_page) = fold Console.next_page cs first_page"
    by blast
  then show ?thesis
    using walk_complete [OF assms] pages_back [OF b(2), of first_page] by (auto simp: walk_map_page simp del: browse.simps walk.simps)
qed

end

section \<open>The orphans and the organizations\<close>

definition text_code :: "string \<Rightarrow> string" where
  "text_code t = encodeCursor (JStr t)"

interpretation orphan_browsing: coded_pages "\<lambda>r. p_code (fst r)" "\<lambda>r. p_code (fst r)" UNIV text_cursor text_code
  by unfold_locales (simp_all add: text_code_def text_cursor_roundtrip, simp_all add: text_cursor_def truthy_def)

interpretation organization_browsing: coded_pages "\<lambda>org. org" "\<lambda>org. org" UNIV text_cursor text_code
  by unfold_locales

text \<open>\<open>useOrphans\<close> and \<open>useOrganizations\<close>, through the wire to the handlers and back.\<close>

definition page_reply :: "(err + ('r, string) page reply) \<times> db \<Rightarrow> ('r, string) page option" where
  "page_reply r = (case fst r of Inr (Send status p) \<Rightarrow> Some (with_cursor text_code p) | _ \<Rightarrow> None)"

definition orphans_page :: "wire \<Rightarrow> string \<Rightarrow> caller \<Rightarrow> db \<Rightarrow> nat \<Rightarrow> string option \<Rightarrow> (orphanT, string) page option" where
  "orphans_page w key cl s n c =
     (case arrive w (api key (OrphansCall c n)) of
        Arrives (Read (GetOrphans d lim)) \<Rightarrow> page_reply (get_orphans cl d lim s) | _ \<Rightarrow> None)"

definition organizations_page ::
  "wire \<Rightarrow> string \<Rightarrow> caller \<Rightarrow> db \<Rightarrow> nat \<Rightarrow> string option \<Rightarrow> (organization_usageT, string) page option" where
  "organizations_page w key cl s n c =
     (case arrive w (api key (OrganizationsCall c n)) of
        Arrives (Read (GetOrganizations d lim)) \<Rightarrow> page_reply (get_organizations cl d lim s) | _ \<Rightarrow> None)"

lemma pages_over_wire:
  assumes "libraries_ok w" and "hasScope (cl_auth cl) ''read''"
  shows "orphans_page w key cl s n
      = over_wire text_cursor text_code (\<lambda>d. listOrphans d (parseLimit (Some (nat_text n)) 50 200) s)"
    "organizations_page w key cl s n
      = over_wire text_cursor text_code (\<lambda>d. listOrganizationUsage d (parseLimit (Some (nat_text n)) 50 200) s)"
  using assms(2)
  by (simp_all add: fun_eq_iff orphans_page_def organizations_page_def arrive_limited [OF assms(1)] reading_rows_def arriving_def
      over_wire_def page_reply_def get_orphans_def get_organizations_def get_rows_def requireScopes_def
      split: option.split del: api.simps)

lemma parseLimit_pos: "0 < parseLimit v fallback most" if "0 < fallback" "0 < most"
  using that by (auto simp: parseLimit_def split: option.split)


text \<open>Two orphans, read one page of one row after the other.\<close>

definition orphan_db :: db where
  "orphan_db = (demo_db [])\<lparr>problems := [(demo_problem ''2'' ''b c'')\<lparr>p_catalog_state := COrphan\<rparr>,
     (demo_problem ''1'' ''a/b'')\<lparr>p_catalog_state := COrphan\<rparr>],
     problem_usage := [default_usage ''2'' 0, default_usage ''1'' 0]\<rparr>"

definition reader :: caller where
  "reader = \<lparr>cl_auth = \<lparr>tp_sub = ''alice'', tp_role = Viewer, tp_scopes = [''read''], tp_kind = OperatorToken,
     tp_auth_version = Some 1\<rparr>, cl_request_id = ''r'', cl_idempotency_key = None\<rparr>"


end
