(* ===== verification/Queries.thy ===== *)
theory Queries
  imports Web
begin

text \<open>
  The dashboard's queries, \<open>dashboard/src/hooks/queries.ts\<close>: under which key the query library keeps the
  answer of a hook, which call fetches it, how often, and which keys an action invalidates. What the
  library does with them is its documented behaviour: two hooks with equal keys share one entry, and an
  invalidation marks every entry whose key begins with the given one as stale, to be fetched again.
\<close>

section \<open>Hooks\<close>

record problem_params =
  pp_search :: "string option"
  pp_owner_organization :: "string option"
  pp_catalog_state :: "string option"
  pp_sort :: "string option"
  pp_order :: "string option"
  pp_cursor :: "string option"
  pp_limit :: "nat option"

record job_params =
  jp_state :: "string option"
  jp_problem_id :: "string option"
  jp_cursor :: "string option"
  jp_limit :: "nat option"

record audit_params =
  aq_actor :: "string option"
  aq_action :: "string option"
  aq_problem_id :: "string option"
  aq_cursor :: "string option"

datatype hook =
    useHealth
  | useVolumes
  | useDashboardSummary
  | useDashboardStatusDistribution
  | useLargestProblems nat
  | useLargestOrganizations nat
  | useVolumeTimeseries "string option" "nat option"
  | useProblems problem_params
  | useProblem string
  | useProblemUsage string
  | useOrganizations "string option" nat
  | useOrganizationUsage string
  | useSnapshots "string option" "string option" nat
  | useJobs job_params
  | useOrphans "string option" nat
  | useAuditEvents audit_params
  | useSyncChanges "string option" nat

text \<open>
  The parameters of a call, and the objects in the keys: there a field that is \<open>undefined\<close> is left out and
  the library sorts the others; an \<open>undefined\<close> element of the key itself becomes \<open>null\<close>.
\<close>

definition problem_query :: "problem_params \<Rightarrow> (string \<times> string option) list" where
  "problem_query p =
     [(''search'', pp_search p), (''owner_organization'', pp_owner_organization p), (''catalog_state'', pp_catalog_state p),
      (''sort'', pp_sort p), (''order'', pp_order p), (''cursor'', pp_cursor p), (''limit'', map_option nat_text (pp_limit p))]"

definition job_query :: "job_params \<Rightarrow> (string \<times> string option) list" where
  "job_query p =
     [(''state'', jp_state p), (''problem_id'', jp_problem_id p), (''cursor'', jp_cursor p),
      (''limit'', map_option nat_text (jp_limit p))]"

definition audit_query :: "audit_params \<Rightarrow> (string \<times> string option) list" where
  "audit_query p =
     [(''actor'', aq_actor p), (''action'', aq_action p), (''problem_id'', aq_problem_id p), (''cursor'', aq_cursor p)]"

definition number :: "nat \<Rightarrow> json" where
  "number n = JNum (int n)"

definition problem_object :: "problem_params \<Rightarrow> json" where
  "problem_object p = JObj
     (optional ''catalog_state'' JStr (pp_catalog_state p) @ optional ''cursor'' JStr (pp_cursor p)
      @ optional ''limit'' number (pp_limit p) @ optional ''order'' JStr (pp_order p)
      @ optional ''owner_organization'' JStr (pp_owner_organization p) @ optional ''search'' JStr (pp_search p)
      @ optional ''sort'' JStr (pp_sort p) @ [])"

definition job_object :: "job_params \<Rightarrow> json" where
  "job_object p = JObj
     (optional ''cursor'' JStr (jp_cursor p) @ optional ''limit'' number (jp_limit p)
      @ optional ''problem_id'' JStr (jp_problem_id p) @ optional ''state'' JStr (jp_state p) @ [])"

definition audit_object :: "audit_params \<Rightarrow> json" where
  "audit_object p = JObj
     (optional ''action'' JStr (aq_action p) @ optional ''actor'' JStr (aq_actor p)
      @ optional ''cursor'' JStr (aq_cursor p) @ optional ''problem_id'' JStr (aq_problem_id p) @ [])"

definition timeseries_object :: "string option \<Rightarrow> nat option \<Rightarrow> json" where
  "timeseries_object name n = JObj (optional ''limit'' number n @ optional ''name'' JStr name @ [])"

definition text_or_null :: "string option \<Rightarrow> json" where
  "text_or_null v = (case v of None \<Rightarrow> JNull | Some t \<Rightarrow> JStr t)"

fun queryKey :: "hook \<Rightarrow> json list" where
  "queryKey useHealth = [JStr ''health'']"
| "queryKey useVolumes = [JStr ''volumes'']"
| "queryKey useDashboardSummary = [JStr ''dashboard-summary'']"
| "queryKey useDashboardStatusDistribution = [JStr ''dashboard-status-distribution'']"
| "queryKey (useLargestProblems n) = [JStr ''dashboard-largest-problems'', number n]"
| "queryKey (useLargestOrganizations n) = [JStr ''dashboard-largest-organizations'', number n]"
| "queryKey (useVolumeTimeseries name n) =
     [JStr ''dashboard-volume-timeseries'', timeseries_object name n]"
| "queryKey (useProblems p) = [JStr ''problems'', problem_object p]"
| "queryKey (useProblem i) = [JStr ''problem'', JStr i]"
| "queryKey (useProblemUsage i) = [JStr ''problem-usage'', JStr i]"
| "queryKey (useOrganizations c n) = [JStr ''organizations'', text_or_null c, number n]"
| "queryKey (useOrganizationUsage i) = [JStr ''org-usage'', JStr i]"
| "queryKey (useSnapshots i c n) = [JStr ''snapshots'', text_or_null i, text_or_null c, number n]"
| "queryKey (useJobs p) = [JStr ''jobs'', job_object p]"
| "queryKey (useOrphans c n) = [JStr ''orphans'', text_or_null c, number n]"
| "queryKey (useAuditEvents p) = [JStr ''audit'', audit_object p]"
| "queryKey (useSyncChanges c n) = [JStr ''sync'', text_or_null c, number n]"

fun queryFn :: "hook \<Rightarrow> api_call" where
  "queryFn useHealth = HealthCall"
| "queryFn useVolumes = VolumesCall"
| "queryFn useDashboardSummary = SummaryCall"
| "queryFn useDashboardStatusDistribution = StatusDistributionCall"
| "queryFn (useLargestProblems n) = LargestProblemsCall n"
| "queryFn (useLargestOrganizations n) = LargestOrganizationsCall n"
| "queryFn (useVolumeTimeseries name n) = VolumeTimeseriesCall name n"
| "queryFn (useProblems p) = ListProblemsCall (problem_query p)"
| "queryFn (useProblem i) = ProblemCall i"
| "queryFn (useProblemUsage i) = ProblemUsageCall i"
| "queryFn (useOrganizations c n) = OrganizationsCall c n"
| "queryFn (useOrganizationUsage i) = OrganizationUsageCall i"
| "queryFn (useSnapshots i c n) = SnapshotsCall i c n"
| "queryFn (useJobs p) = JobsCall (job_query p)"
| "queryFn (useOrphans c n) = OrphansCall c n"
| "queryFn (useAuditEvents p) = AuditEventsCall (audit_query p)"
| "queryFn (useSyncChanges c n) = SyncChangesCall c n"

text \<open>\<open>refetchInterval\<close>, in milliseconds, and \<open>enabled\<close>.\<close>

fun refetchInterval :: "hook \<Rightarrow> nat option" where
  "refetchInterval useHealth = Some 30000"
| "refetchInterval (useProblemUsage i) = Some 30000"
| "refetchInterval (useJobs p) = Some 10000"
| "refetchInterval (useProblems p) = None"
| "refetchInterval (useProblem i) = None"
| "refetchInterval (useOrganizations c n) = None"
| "refetchInterval (useOrganizationUsage i) = None"
| "refetchInterval (useSnapshots i c n) = None"
| "refetchInterval (useAuditEvents p) = None"
| "refetchInterval (useSyncChanges c n) = None"
| "refetchInterval h = Some 60000"

fun hook_enabled :: "hook \<Rightarrow> bool" where
  "hook_enabled (useProblem i) \<longleftrightarrow> i \<noteq> []"
| "hook_enabled (useProblemUsage i) \<longleftrightarrow> i \<noteq> []"
| "hook_enabled (useOrganizationUsage i) \<longleftrightarrow> i \<noteq> []"
| "hook_enabled h \<longleftrightarrow> True"

section \<open>Actions\<close>

datatype mutation =
    useReconcile "(string \<times> string) list"
  | ScanAction string
  | SnapshotAction string
  | RestoreAction string
  | EvictAction string bool "bool option"
  | useRetryJob string
  | useCancelJob string

fun mutationFn :: "mutation \<Rightarrow> api_call" where
  "mutationFn (useReconcile ps) = ReconcileCall ps"
| "mutationFn (ScanAction i) = ScanCall i"
| "mutationFn (SnapshotAction i) = SnapshotCall i"
| "mutationFn (RestoreAction i) = RestoreCall i None"
| "mutationFn (EvictAction i dryRun force) = EvictCall i dryRun (coalesce force False)"
| "mutationFn (useRetryJob i) = RetryCall i ''dashboard retry''"
| "mutationFn (useCancelJob i) = CancelCall i ''dashboard cancel''"

definition problem_keys :: "string \<Rightarrow> json list list" where
  "problem_keys i = [[JStr ''problem'', JStr i], [JStr ''problem-usage'', JStr i], [JStr ''jobs''], [JStr ''snapshots'']]"

fun onSuccess :: "mutation \<Rightarrow> json list list" where
  "onSuccess (useReconcile ps) = [[JStr ''volumes''], [JStr ''problems''], [JStr ''orphans'']]"
| "onSuccess (ScanAction i) = problem_keys i"
| "onSuccess (SnapshotAction i) = problem_keys i"
| "onSuccess (RestoreAction i) = problem_keys i"
| "onSuccess (EvictAction i dryRun force) = problem_keys i"
| "onSuccess (useRetryJob i) = [[JStr ''jobs'']]"
| "onSuccess (useCancelJob i) = [[JStr ''jobs'']]"

definition invalidates :: "mutation \<Rightarrow> json list \<Rightarrow> bool" where
  "invalidates m key \<longleftrightarrow> list_ex (\<lambda>k. take (length k) key = k) (onSuccess m)"

text \<open>What an action on a problem concerns: its own two entries, the jobs and the snapshots.\<close>

lemma action_concerns:
  "invalidates (ScanAction i) (queryKey h) \<longleftrightarrow>
     h = useProblem i \<or> h = useProblemUsage i \<or> (\<exists>p. h = useJobs p) \<or> (\<exists>j c n. h = useSnapshots j c n)"
  by (cases h) (auto simp: invalidates_def problem_keys_def)

section \<open>The key says what is asked\<close>

lemma map_of_optional:
  "map_of (optional k f v @ xs) k' = (if k' = k then or_else (map_option f v) (map_of xs k') else map_of xs k')"
  by (simp add: optional_def or_else_def split: option.split)

lemma number_eq [simp]: "number m = number n \<longleftrightarrow> m = n" "number n \<noteq> JNull"
  by (simp_all add: number_def)

lemma text_or_null_eq [simp]: "text_or_null v = text_or_null w \<longleftrightarrow> v = w"
  by (simp add: text_or_null_def split: option.split)

lemma object_fields: "JObj xs = JObj ys \<Longrightarrow> map_of xs k = map_of ys k"
  by simp

lemma or_else_None: "or_else v None = v"
  by (simp add: or_else_def split: option.split)

lemma option_map_inj: "(\<And>x y. f x = f y \<Longrightarrow> x = y) \<Longrightarrow> map_option f v = map_option f w \<Longrightarrow> v = w"
  by (cases v; cases w) auto

lemma string_fields: "map_option JStr v = map_option JStr w \<longleftrightarrow> v = w" "map_option number m = map_option number n \<longleftrightarrow> m = n"
  using option_map_inj [of JStr v w] option_map_inj [of number m n] by auto

lemma problem_object_inj: "problem_object p = problem_object q \<Longrightarrow> p = q"
proof -
  assume e: "problem_object p = problem_object q"
  note f = object_fields [OF e [unfolded problem_object_def]]
  show "p = q"
    using f [of "''search''"] f [of "''owner_organization''"] f [of "''catalog_state''"] f [of "''sort''"] f [of "''order''"]
      f [of "''cursor''"] f [of "''limit''"]
    by (simp add: map_of_optional or_else_None string_fields del: map_of_append append_Nil2)
qed

lemma job_object_inj: "job_object p = job_object q \<Longrightarrow> p = q"
proof -
  assume e: "job_object p = job_object q"
  note f = object_fields [OF e [unfolded job_object_def]]
  show "p = q"
    using f [of "''state''"] f [of "''problem_id''"] f [of "''cursor''"] f [of "''limit''"]
    by (simp add: map_of_optional or_else_None string_fields del: map_of_append append_Nil2)
qed

lemma audit_object_inj: "audit_object p = audit_object q \<Longrightarrow> p = q"
proof -
  assume e: "audit_object p = audit_object q"
  note f = object_fields [OF e [unfolded audit_object_def]]
  show "p = q"
    using f [of "''actor''"] f [of "''action''"] f [of "''problem_id''"] f [of "''cursor''"]
    by (simp add: map_of_optional or_else_None string_fields del: map_of_append append_Nil2)
qed

lemma timeseries_object_inj: "timeseries_object v n = timeseries_object w m \<Longrightarrow> v = w \<and> n = m"
proof -
  assume e: "timeseries_object v n = timeseries_object w m"
  note f = object_fields [OF e [unfolded timeseries_object_def]]
  show ?thesis using f [of "''limit''"] f [of "''name''"] by (simp add: map_of_optional or_else_None string_fields del: map_of_append append_Nil2)
qed

lemma queryKey_inj: "queryKey h = queryKey h' \<Longrightarrow> h = h'"
  by (cases h; cases h'; simp;
      (drule problem_object_inj job_object_inj audit_object_inj timeseries_object_inj)?; simp)

section \<open>The cache\<close>

text \<open>
  An entry holds an answer and whether it is stale. The library compares keys by their JSON text,
  which is the same as comparing them (\<open>key_text_inj\<close>). The server is a parameter: what it answers to a call
  in a state, and what a call makes of the state.
\<close>

record 'a entry =
  en_answer :: 'a
  en_stale :: bool

record ('st, 'a) service =
  se_answer :: "'st \<Rightarrow> api_call \<Rightarrow> 'a"
  se_effect :: "api_call \<Rightarrow> 'st \<Rightarrow> 'st"

datatype 'st cache_event = Fetched hook | Succeeded mutation | Elsewhere 'st

type_synonym 'a cache = "json list \<Rightarrow> 'a entry option"

definition invalidate :: "mutation \<Rightarrow> 'a cache \<Rightarrow> 'a cache" where
  "invalidate m c = (\<lambda>key. if invalidates m key then map_option (\<lambda>e. e\<lparr>en_stale := True\<rparr>) (c key) else c key)"

fun cache_step :: "('st, 'a) service \<Rightarrow> 'st cache_event \<Rightarrow> 'st \<times> 'a cache \<Rightarrow> 'st \<times> 'a cache" where
  "cache_step se (Fetched h) (st, c) =
     (st, c(queryKey h \<mapsto> \<lparr>en_answer = se_answer se st (queryFn h), en_stale = False\<rparr>))"
| "cache_step se (Succeeded m) (st, c) = (se_effect se (mutationFn m) st, invalidate m c)"
| "cache_step se (Elsewhere st') (st, c) = (st', c)"

definition cache_run :: "('st, 'a) service \<Rightarrow> 'st cache_event list \<Rightarrow> 'st \<Rightarrow> 'st \<times> 'a cache" where
  "cache_run se es st = fold (cache_step se) es (st, \<lambda>key. None)"

lemma key_text_inj:
  "json_stringify (JArr (queryKey h)) = json_stringify (JArr (queryKey h')) \<Longrightarrow> queryKey h = queryKey h'"
proof -
  have d: "distinct_keys (JArr (queryKey h))" for h
    by (cases h) (auto simp: number_def text_or_null_def problem_object_def job_object_def audit_object_def
        timeseries_object_def optional_def split: option.splits)
  assume "json_stringify (JArr (queryKey h)) = json_stringify (JArr (queryKey h'))"
  then have "Some (JArr (queryKey h)) = Some (JArr (queryKey h'))" using parse_stringify d by metis
  then show ?thesis by simp
qed


text \<open>A server that counts the calls it performed: the usage asked for after an eviction was accepted is the later one.\<close>

definition counting :: "(nat, nat \<times> api_call) service" where
  "counting = \<lparr>se_answer = (\<lambda>n c. (n, c)), se_effect = (\<lambda>c n. n + 1)\<rparr>"


end
