(* ===== verification/ListPages.thy ===== *)
theory ListPages
  imports Queries Console
begin

text \<open>
  The pages of the dashboard that show a list with filters and page buttons: \<open>pages/problems.tsx\<close>,
  \<open>pages/jobs.tsx\<close>, \<open>pages/audit.tsx\<close>, \<open>pages/snapshots.tsx\<close>, \<open>pages/deleted.tsx\<close>. Each keeps its filter, the
  cursor of the page it shows and the cursors before it, and reads the list through a hook of
  \<open>hooks/queries.ts\<close> that keeps showing the answer to the previous key until the next one arrives
  (\<open>placeholderData: (prev) => prev\<close>).
\<close>

section \<open>A page with a list\<close>

text \<open>
  \<open>lv_data\<close> is the hook's \<open>data\<close>: the filter and the cursor it was asked for, its \<open>next_cursor\<close> and its
  \<open>has_more\<close>; the rows are the query's business.
\<close>

record 'f list_view =
  lv_filter :: 'f
  lv_pager :: pager
  lv_data :: "(('f \<times> string option) \<times> string option \<times> bool) option"

definition list_start :: "'f \<Rightarrow> 'f list_view" where
  "list_start f = \<lparr>lv_filter = f, lv_pager = first_page, lv_data = None\<rparr>"

text \<open>A change of the filter goes back to the first page; the data stays until the answer arrives.\<close>

definition set_filter :: "'f \<Rightarrow> 'f list_view \<Rightarrow> 'f list_view" where
  "set_filter f v = v\<lparr>lv_filter := f, lv_pager := first_page\<rparr>"

text \<open>The buttons, which are disabled without more pages and on the first page.\<close>

definition onNext :: "'f list_view \<Rightarrow> 'f list_view" where
  "onNext v =
     (case lv_data v of
        Some (k, next_cursor, True) \<Rightarrow> v\<lparr>lv_pager := Console.next_page next_cursor (lv_pager v)\<rparr>
      | _ \<Rightarrow> v)"

definition onPrev :: "'f list_view \<Rightarrow> 'f list_view" where
  "onPrev v = v\<lparr>lv_pager := previous_page (lv_pager v)\<rparr>"

definition list_key :: "'f list_view \<Rightarrow> 'f \<times> string option" where
  "list_key v = (lv_filter v, pg_cursor (lv_pager v))"

text \<open>The answer to the present key, from the wire or the library's cache.\<close>

definition answered_list :: "string option \<Rightarrow> bool \<Rightarrow> 'f list_view \<Rightarrow> 'f list_view" where
  "answered_list next_cursor has_more v = v\<lparr>lv_data := Some (list_key v, next_cursor, has_more)\<rparr>"

datatype 'f list_event = FilterChanged 'f | NextClicked | PreviousClicked | ListAnswered "string option" bool

fun list_step :: "'f list_view \<Rightarrow> 'f list_event \<Rightarrow> 'f list_view" where
  "list_step v (FilterChanged f) = set_filter f v"
| "list_step v NextClicked = onNext v"
| "list_step v PreviousClicked = onPrev v"
| "list_step v (ListAnswered c m) = answered_list c m v"

definition list_run :: "'f \<Rightarrow> 'f list_event list \<Rightarrow> 'f list_view" where
  "list_run f es = foldl list_step (list_start f) es"

section \<open>The pages\<close>

definition or_undefined :: "string \<Rightarrow> string option" where
  "or_undefined t = (if t = [] then None else Some t)"

definition selected :: "string \<Rightarrow> string" where
  "selected v = (if v = ''all'' then [] else v)"

record problems_filter =
  pf_search :: string
  pf_catalogState :: string
  pf_sort :: string
  pf_order :: string

definition problems_start :: problems_filter where
  "problems_start = \<lparr>pf_search = [], pf_catalogState = [], pf_sort = ''code'', pf_order = ''asc''\<rparr>"

definition onSearch :: "string \<Rightarrow> problems_filter list_view \<Rightarrow> problems_filter list_view" where
  "onSearch t v = set_filter (lv_filter v\<lparr>pf_search := t\<rparr>) v"

definition onCatalogState :: "string \<Rightarrow> problems_filter list_view \<Rightarrow> problems_filter list_view" where
  "onCatalogState t v = set_filter (lv_filter v\<lparr>pf_catalogState := selected t\<rparr>) v"

definition onSort :: "string \<Rightarrow> problems_filter list_view \<Rightarrow> problems_filter list_view" where
  "onSort t v = set_filter (lv_filter v\<lparr>pf_sort := t\<rparr>) v"

definition onOrder :: "problems_filter list_view \<Rightarrow> problems_filter list_view" where
  "onOrder v = set_filter (lv_filter v\<lparr>pf_order := (if pf_order (lv_filter v) = ''asc'' then ''desc'' else ''asc'')\<rparr>) v"

definition problems_hook :: "problems_filter list_view \<Rightarrow> hook" where
  "problems_hook v =
     useProblems \<lparr>pp_search = or_undefined (pf_search (lv_filter v)), pp_owner_organization = None,
       pp_catalog_state = or_undefined (pf_catalogState (lv_filter v)), pp_sort = Some (pf_sort (lv_filter v)),
       pp_order = Some (pf_order (lv_filter v)), pp_cursor = pg_cursor (lv_pager v), pp_limit = Some 50\<rparr>"

definition onState :: "string \<Rightarrow> string list_view \<Rightarrow> string list_view" where
  "onState t v = set_filter (selected t) v"

definition jobs_hook :: "string list_view \<Rightarrow> hook" where
  "jobs_hook v =
     useJobs \<lparr>jp_state = or_undefined (lv_filter v), jp_problem_id = None, jp_cursor = pg_cursor (lv_pager v),
       jp_limit = None\<rparr>"

text \<open>The inputs of these two count once Apply is pressed.\<close>

definition apply_audit ::
  "string \<Rightarrow> string \<Rightarrow> (string option \<times> string option) list_view \<Rightarrow> (string option \<times> string option) list_view" where
  "apply_audit actor action v = set_filter (or_undefined actor, or_undefined action) v"

definition audit_hook :: "(string option \<times> string option) list_view \<Rightarrow> hook" where
  "audit_hook v =
     useAuditEvents \<lparr>aq_actor = fst (lv_filter v), aq_action = snd (lv_filter v), aq_problem_id = None,
       aq_cursor = pg_cursor (lv_pager v)\<rparr>"

definition apply_snapshots :: "string \<Rightarrow> string option list_view \<Rightarrow> string option list_view" where
  "apply_snapshots problemId v = set_filter (or_undefined problemId) v"

definition snapshots_hook :: "string option list_view \<Rightarrow> hook" where
  "snapshots_hook v = useSnapshots (lv_filter v) (pg_cursor (lv_pager v)) 50"

text \<open>The deleted problems have no filter.\<close>

definition deleted_hook :: "unit list_view \<Rightarrow> hook" where
  "deleted_hook v =
     useProblems \<lparr>pp_search = None, pp_owner_organization = None, pp_catalog_state = Some ''deleted'',
       pp_sort = Some ''observed_at'', pp_order = Some ''desc'', pp_cursor = pg_cursor (lv_pager v), pp_limit = Some 100\<rparr>"

lemma or_undefined_inj: "or_undefined a = or_undefined b \<longleftrightarrow> a = b"
  by (simp add: or_undefined_def)

text \<open>Two views of a page ask the same exactly when their filters and cursors agree.\<close>

lemma hook_of_key:
  "problems_hook p = problems_hook p' \<longleftrightarrow> list_key p = list_key p'"
  "jobs_hook j = jobs_hook j' \<longleftrightarrow> list_key j = list_key j'"
  "audit_hook a = audit_hook a' \<longleftrightarrow> list_key a = list_key a'"
  "snapshots_hook s = snapshots_hook s' \<longleftrightarrow> list_key s = list_key s'"
  "deleted_hook d = deleted_hook d' \<longleftrightarrow> list_key d = list_key d'"
  by (auto simp: problems_hook_def jobs_hook_def audit_hook_def snapshots_hook_def deleted_hook_def list_key_def
      or_undefined_inj intro!: problems_filter.equality prod_eqI)

section \<open>The cursors of a page\<close>

text \<open>The user waits for the page: Next is pressed only while the answer to the present key is shown.\<close>

definition settled :: "'f list_view \<Rightarrow> bool" where
  "settled v \<longleftrightarrow> (case lv_data v of None \<Rightarrow> True | Some (k, a) \<Rightarrow> k = list_key v)"

fun patient :: "'f list_view \<Rightarrow> 'f list_event list \<Rightarrow> bool" where
  "patient v [] \<longleftrightarrow> True"
| "patient v (e # es) \<longleftrightarrow> (e = NextClicked \<longrightarrow> settled v) \<and> patient (list_step v e) es"

text \<open>What the answers said: asked for this filter at this cursor, the next page is there.\<close>

fun list_answers :: "'f list_view \<Rightarrow> 'f list_event list \<Rightarrow> (('f \<times> string option) \<times> string option) set" where
  "list_answers v [] = {}"
| "list_answers v (e # es) =
     (case e of ListAnswered c m \<Rightarrow> {(list_key v, c)} | _ \<Rightarrow> {}) \<union> list_answers (list_step v e) es"

text \<open>The cursors from the first page to the shown one are those the answers for this filter gave.\<close>

definition follows :: "(('f \<times> string option) \<times> string option) set \<Rightarrow> 'f \<Rightarrow> string option list \<Rightarrow> bool" where
  "follows A f cs \<longleftrightarrow> cs \<noteq> [] \<and> hd cs = None \<and> successively (\<lambda>c d. ((f, c), d) \<in> A) cs"

definition cursors :: "pager \<Rightarrow> string option list" where
  "cursors p = pg_history p @ [pg_cursor p]"

definition view_ok :: "(('f \<times> string option) \<times> string option) set \<Rightarrow> 'f list_view \<Rightarrow> bool" where
  "view_ok A v \<longleftrightarrow> follows A (lv_filter v) (cursors (lv_pager v))
     \<and> (\<forall>k c m. lv_data v = Some (k, c, m) \<longrightarrow> (k, c) \<in> A)"

lemma follows_mono: "follows A f cs \<Longrightarrow> A \<subseteq> B \<Longrightarrow> follows B f cs"
  by (auto simp: follows_def elim!: successively_mono)

lemma view_ok_mono: "view_ok A v \<Longrightarrow> A \<subseteq> B \<Longrightarrow> view_ok B v"
  by (auto simp: view_ok_def intro: follows_mono)

lemma follows_first: "follows A f (cursors first_page)"
  by (simp add: follows_def cursors_def first_page_def)

lemma follows_next:
  assumes "follows A f (cursors p)" and "((f, pg_cursor p), c) \<in> A"
  shows "follows A f (cursors (Console.next_page c p))"
  using assms by (auto simp: follows_def cursors_def Console.next_page_def successively_append_iff hd_append split: if_splits)

lemma follows_previous: "follows A f (cursors p) \<Longrightarrow> follows A f (cursors (previous_page p))"
  by (cases "pg_history p" rule: rev_cases)
     (auto simp: follows_def cursors_def previous_page_def successively_append_iff hd_append split: if_splits)

lemma view_ok_step:
  assumes "view_ok A v" and "e = NextClicked \<longrightarrow> settled v"
  shows "view_ok (A \<union> (case e of ListAnswered c m \<Rightarrow> {(list_key v, c)} | _ \<Rightarrow> {})) (list_step v e)"
proof (cases e)
  case (FilterChanged f)
  then show ?thesis using assms by (simp add: view_ok_def set_filter_def follows_first)
next
  case NextClicked
  then show ?thesis using assms
    by (auto simp: view_ok_def onNext_def settled_def list_key_def intro: follows_next split: option.split bool.split)
next
  case PreviousClicked
  then show ?thesis using assms by (simp add: view_ok_def onPrev_def follows_previous)
next
  case (ListAnswered c m)
  then show ?thesis using assms by (auto simp: view_ok_def answered_list_def intro: follows_mono)
qed

lemma view_ok_run: "view_ok A v \<Longrightarrow> patient v es \<Longrightarrow> view_ok (A \<union> list_answers v es) (foldl list_step v es)"
proof (induction es arbitrary: A v)
  case (Cons e es)
  have "view_ok (A \<union> (case e of ListAnswered c m \<Rightarrow> {(list_key v, c)} | _ \<Rightarrow> {})) (list_step v e)"
    by (rule view_ok_step) (use Cons.prems in auto)
  moreover have "patient (list_step v e) es" using Cons.prems by simp
  ultimately have "view_ok ((A \<union> (case e of ListAnswered c m \<Rightarrow> {(list_key v, c)} | _ \<Rightarrow> {}))
      \<union> list_answers (list_step v e) es) (foldl list_step (list_step v e) es)" by (rule Cons.IH)
  then show ?case by (simp only: Un_assoc list_answers.simps foldl_Cons)
qed simp

text \<open>C14: a page never mixes two lists. Whatever the user types, selects and clicks, as long as Next is pressed on
  a page that has arrived, the page shown and every page Previous leads to were named by an answer for
  the filter and the order that are set now, each by the one before it, beginning with the first page.
\<close>

theorem pages_of_one_list:
  assumes "patient (list_start f) es"
  shows "let v = list_run f es; cs = cursors (lv_pager v) in
    hd cs = None \<and> successively (\<lambda>c d. ((lv_filter v, c), d) \<in> list_answers (list_start f) es) cs"
proof -
  have "view_ok {} (list_start f)" by (simp add: view_ok_def list_start_def follows_first)
  from view_ok_run [OF this assms] show ?thesis by (simp add: view_ok_def follows_def list_run_def Let_def)
qed

definition sorted_by_id :: problems_filter where
  "sorted_by_id = problems_start\<lparr>pf_sort := ''external_id''\<rparr>"

lemma pages_of_one_list_witness:
  "let es = [ListAnswered (Some ''c'') True, NextClicked, ListAnswered None False, FilterChanged sorted_by_id,
      ListAnswered (Some ''d'') True, NextClicked]
   in cursors (lv_pager (list_run problems_start es)) = [None, Some ''d'']
    \<and> ((sorted_by_id, None), Some ''d'') \<in> list_answers (list_start problems_start) es"
proof -
  let ?es = "[ListAnswered (Some ''c'') True, NextClicked, ListAnswered None False, FilterChanged sorted_by_id,
      ListAnswered (Some ''d'') True, NextClicked]"
  note defs = list_start_def settled_def list_key_def answered_list_def onNext_def Console.next_page_def truthy_def set_filter_def
    first_page_def
  have "patient (list_start problems_start) ?es" by (simp add: defs)
  from pages_of_one_list [OF this] show ?thesis by (simp add: Let_def cursors_def list_run_def defs)
qed

section \<open>Pressing Next too early\<close>

text \<open>
  While the next answer is on its way the buttons act on the previous one. Next right after a change of
  the order takes the cursor of the old list into the new one; Next pressed twice lists a page twice.
\<close>

lemma next_mixes_lists:
  "let v = list_run problems_start [ListAnswered (Some ''c'') True, FilterChanged sorted_by_id, NextClicked]
   in lv_filter v = sorted_by_id \<and> pg_cursor (lv_pager v) = Some ''c''"
  by (simp add: Let_def list_run_def list_start_def list_key_def answered_list_def onNext_def Console.next_page_def truthy_def
      set_filter_def first_page_def)

lemma next_twice:
  "cursors (lv_pager (list_run f [ListAnswered (Some ''c'') True, NextClicked, NextClicked])) = [None, Some ''c'', Some ''c'']"
  by (simp add: cursors_def list_run_def list_start_def list_key_def answered_list_def onNext_def Console.next_page_def truthy_def
      first_page_def)

end
