(* ===== verification/Sizes.thy ===== *)
theory Sizes
  imports Http
begin

text \<open>
  Sizes in the dashboard, \<open>dashboard/src/lib/utils.ts\<close>: the exact arithmetic on byte counts that may
  exceed what a JavaScript number holds, and how they are shown. The other end of \<open>int8\<close>.
\<close>

section \<open>Byte counts\<close>

text \<open>
  A byte count as it may arrive: missing, a number that is an integer, one that is not (a fraction,
  \<open>NaN\<close>, an infinity), text, or a \<open>bigint\<close>.
\<close>

datatype byte_input = NoBytes | NumberBytes int | OtherNumber | TextBytes string | BigBytes int

definition digits_only :: "string \<Rightarrow> bool" where
  "digits_only t \<longleftrightarrow> t \<noteq> [] \<and> list_all is_digit t"

fun toBigIntBytes :: "byte_input \<Rightarrow> nat option" where
  "toBigIntBytes NoBytes = None"
| "toBigIntBytes (BigBytes n) = (if 0 \<le> n then Some (nat n) else None)"
| "toBigIntBytes (NumberBytes n) = (if n < 0 \<or> \<not> is_safe_integer n then None else Some (nat n))"
| "toBigIntBytes OtherNumber = None"
| "toBigIntBytes (TextBytes t) = (if digits_only t then Some (digits_value t) else None)"

fun add_from :: "nat \<Rightarrow> byte_input list \<Rightarrow> nat option" where
  "add_from acc [] = Some acc"
| "add_from acc (v # vs) =
     (case toBigIntBytes v of None \<Rightarrow> None | Some n \<Rightarrow> add_from (acc + n) vs)"

definition addBytes :: "byte_input list \<Rightarrow> nat option" where
  "addBytes values = add_from 0 values"

definition subtractBytes :: "byte_input \<Rightarrow> byte_input \<Rightarrow> nat option" where
  "subtractBytes left right =
     (case (toBigIntBytes left, toBigIntBytes right) of
        (Some a, Some b) \<Rightarrow> if a < b then None else Some (a - b)
      | _ \<Rightarrow> None)"

text \<open>The result counts hundredths of a per cent; the code divides it by 100.\<close>

definition bytePercent :: "byte_input \<Rightarrow> byte_input \<Rightarrow> nat option" where
  "bytePercent used all =
     (case (toBigIntBytes used, toBigIntBytes all) of
        (Some u, Some t) \<Rightarrow> if t = 0 then None else Some (u * 10000 div t)
      | _ \<Rightarrow> None)"

section \<open>Showing them\<close>

text \<open>\<open>toLocaleString('en-US')\<close> of a natural number: a comma between groups of three digits.\<close>

function group_digits :: "nat \<Rightarrow> string" where
  "group_digits n =
     (if n < 1000 then nat_text n
      else group_digits (n div 1000) @ '','' @ [digit_char (n div 100 mod 10), digit_char (n div 10 mod 10), digit_char (n mod 10)])"
  by auto

termination
  by (relation "measure id") auto

declare group_digits.simps [simp del]

definition em_dash :: string where
  "em_dash = map char_of [226 :: nat, 128, 148]"

definition unit_names :: "string list" where
  "unit_names = [''B'', ''KB'', ''MB'', ''GB'', ''TB'', ''PB'']"

text \<open>The loop that picks the unit: \<open>u\<close> is its index, \<open>d\<close> its size in bytes.\<close>

function pick_unit :: "nat \<Rightarrow> nat \<Rightarrow> nat \<Rightarrow> nat \<times> nat" where
  "pick_unit parsed u d =
     (if u < length unit_names - 1 \<and> d * 1024 \<le> parsed then pick_unit parsed (Suc u) (d * 1024) else (u, d))"
  by auto

termination
  by (relation "measure (\<lambda>(parsed, u, d). length unit_names - u)") auto

declare pick_unit.simps [simp del]

fun pad_zeros :: "nat \<Rightarrow> string \<Rightarrow> string" where
  "pad_zeros w t = replicate (w - length t) (CHR ''0'') @ t"

definition strip_zeros :: "string \<Rightarrow> string" where
  "strip_zeros t = rev (dropWhile (\<lambda>c. c = CHR ''0'') (rev t))"

definition scaled_size :: "nat \<Rightarrow> nat \<Rightarrow> nat \<Rightarrow> nat" where
  "scaled_size parsed decimals d = (parsed * 10 ^ decimals * 10 div d + 5) div 10"

definition fraction_text :: "nat \<Rightarrow> nat \<Rightarrow> string" where
  "fraction_text decimals fraction =
     (let t = if 0 < decimals then strip_zeros (pad_zeros decimals (nat_text fraction)) else []
      in if t \<noteq> [] then CHR ''.'' # t else [])"

definition formatBytes :: "byte_input \<Rightarrow> nat \<Rightarrow> string" where
  "formatBytes v decimals =
     (case toBigIntBytes v of
        None \<Rightarrow> em_dash
      | Some parsed \<Rightarrow>
          if parsed = 0 then ''0 B''
          else (let (u, d) = pick_unit parsed 0 1 in
            if u = 0 then group_digits parsed @ '' B''
            else (let scaled = scaled_size parsed decimals d;
                      whole = scaled div 10 ^ decimals;
                      fraction = scaled mod 10 ^ decimals
                  in group_digits whole @ fraction_text decimals fraction @ '' '' @ unit_names ! u)))"

definition formatNumber :: "nat option \<Rightarrow> string" where
  "formatNumber n = (case n of None \<Rightarrow> em_dash | Some k \<Rightarrow> group_digits k)"

text \<open>\<open>Math.floor\<close> on the whole milliseconds since \<open>then_ms\<close>; a moment to come counts backwards.\<close>

definition formatRelative :: "int \<Rightarrow> int option \<Rightarrow> string" where
  "formatRelative now_ms then_ms =
     (case then_ms of
        None \<Rightarrow> em_dash
      | Some t \<Rightarrow>
          (let sec = (now_ms - t) div 1000; mins = sec div 60; hr = mins div 60; day = hr div 24 in
           if sec < 60 then int_text sec @ ''s ago''
           else if mins < 60 then int_text mins @ ''m ago''
           else if hr < 24 then int_text hr @ ''h ago''
           else int_text day @ ''d ago''))"

text \<open>How the value of a \<open>Bytes\<close> field of a response reaches these functions.\<close>

fun bytes_of :: "json \<Rightarrow> byte_input" where
  "bytes_of (JNum n) = NumberBytes n"
| "bytes_of (JStr t) = TextBytes t"
| "bytes_of v = NoBytes"

section \<open>Properties\<close>

lemma bytes_of_int8 [simp]: "0 \<le> n \<Longrightarrow> toBigIntBytes (bytes_of (int8 n)) = Some (nat n)"
  using nat_text_digits [of "nat n"]
  by (auto simp: int8_def is_safe_integer_def digits_only_def int_text_def digits_value_nat_text)

lemma add_from_exact: "list_all (\<lambda>n. 0 \<le> n) ns \<Longrightarrow> add_from acc (map (\<lambda>n. bytes_of (int8 n)) ns) = Some (acc + nat (sum_list ns))"
proof (induction ns arbitrary: acc)
  case (Cons n ns)
  then have "0 \<le> sum_list ns" by (auto simp: list_all_iff intro: sum_list_nonneg)
  with Cons show ?case by (simp add: nat_add_distrib)
qed simp

text \<open>C40: byte counts reach the dashboard without loss, whatever their size: what the service writes as a
  number or, past 2^53 - 1, as text is read back as the same count; a list of counts is added up
  exactly, and taking a part away from the sum of two leaves the other.
\<close>

theorem byte_counts_exact:
  assumes "list_all (\<lambda>n. 0 \<le> n) ns" and "0 \<le> a" and "0 \<le> b"
  shows "map (\<lambda>n. toBigIntBytes (bytes_of (int8 n))) ns = map (\<lambda>n. Some (nat n)) ns
    \<and> addBytes (map (\<lambda>n. bytes_of (int8 n)) ns) = Some (nat (sum_list ns))
    \<and> subtractBytes (bytes_of (int8 (a + b))) (bytes_of (int8 a)) = Some (nat b)"
  using assms add_from_exact [OF assms(1), of 0]
  by (auto simp: addBytes_def subtractBytes_def list_all_iff nat_add_distrib)

lemma byte_counts_exact_witness:
  "addBytes [bytes_of (int8 9007199254740991), bytes_of (int8 9007199254740993)] = Some 18014398509481984
    \<and> int8 9007199254740993 = JStr ''9007199254740993''"
  using byte_counts_exact [of "[9007199254740991, 9007199254740993]" 0 0]
  by (simp add: int8_def max_safe_integer_def int_text_def nat_text.simps digit_char_def char_of_def bit_0)

lemma pick_unit_from:
  "pick_unit n u d = (u', d') \<Longrightarrow> d = 1024 ^ u \<Longrightarrow> d \<le> n \<Longrightarrow> u \<le> 5
    \<Longrightarrow> d' = 1024 ^ u' \<and> d' \<le> n \<and> u' \<le> 5 \<and> (u' = 5 \<or> n < d' * 1024)"
proof (induction n u d rule: pick_unit.induct)
  case (1 n u d)
  show ?case
  proof (cases "u < length unit_names - 1 \<and> d * 1024 \<le> n")
    case True
    then show ?thesis using 1 by (subst (asm) (2) pick_unit.simps) (auto simp: unit_names_def)
  next
    case False
    then show ?thesis using 1(2-) by (subst (asm) (1) pick_unit.simps) (auto simp: unit_names_def)
  qed
qed

lemma pick_unit_fits:
  assumes "pick_unit n 0 1 = (u, d)" and "0 < n"
  shows "d = 1024 ^ u \<and> d \<le> n \<and> u \<le> 5 \<and> (u = 5 \<or> n < d * 1024)"
  using pick_unit_from [OF assms(1)] assms(2) by auto

text \<open>Rounding twice, first down to a tenth and then to the nearest unit, is rounding half up once.\<close>

lemma scaled_size_rounds:
  assumes "0 < d"
  shows "scaled_size n k d = (2 * (n * 10 ^ k) + d) div (2 * d)"
proof -
  have "(n * 10 ^ k * 10 div d + 5) div 10 = ((n * 10 ^ k * 10 + 5 * d) div d) div 10"
    using assms by simp
  also have "\<dots> = (5 * (2 * (n * 10 ^ k) + d)) div (5 * (2 * d))"
    by (simp add: div_mult2_eq [symmetric] algebra_simps)
  also have "\<dots> = (2 * (n * 10 ^ k) + d) div (2 * d)"
    by (rule div_mult_mult1) simp
  finally show ?thesis by (simp add: scaled_size_def)
qed

text \<open>The shown number, in units of one part of \<open>10 ^ k\<close>, is within half a part of the exact size.\<close>

lemma scaled_size_error:
  assumes "0 < d"
  shows "2 * d * scaled_size n k d \<le> 2 * (n * 10 ^ k) + d \<and> 2 * (n * 10 ^ k) < 2 * d * scaled_size n k d + d"
proof -
  let ?x = "2 * (n * 10 ^ k) + d"
  have "2 * d * (?x div (2 * d)) \<le> ?x" by (rule times_div_less_eq_dividend)
  moreover have "?x < 2 * d * (?x div (2 * d)) + 2 * d"
    using assms mod_less_divisor [of "2 * d" ?x] mult_div_mod_eq [of "2 * d" ?x] by linarith
  ultimately show ?thesis using assms by (simp add: scaled_size_rounds)
qed

lemma fraction_text_0: "fraction_text k 0 = []"
proof -
  have "dropWhile (\<lambda>c. c = CHR ''0'') (rev (replicate (k - 1) (CHR ''0'') @ ''0'')) = []" by simp
  moreover have "nat_text 0 = ''0''" by (simp add: nat_text.simps digit_char_def char_of_def bit_0)
  ultimately show ?thesis by (simp add: fraction_text_def strip_zeros_def)
qed

text \<open>A size is shown in the largest of the six units that is not larger than it, and the number shown
  is within half a unit of its last decimal of the exact one: no byte count is shown with the wrong
  unit or rounded twice.
\<close>

theorem formatBytes_accurate:
  assumes "toBigIntBytes v = Some n" and "0 < n"
  shows "\<exists>u m. u \<le> 5 \<and> 1024 ^ u \<le> n \<and> (u = 5 \<or> n < 1024 ^ Suc u)
    \<and> formatBytes v k = group_digits (m div 10 ^ k) @ fraction_text k (m mod 10 ^ k) @ '' '' @ unit_names ! u
    \<and> 2 * 1024 ^ u * m \<le> 2 * (n * 10 ^ k) + 1024 ^ u \<and> 2 * (n * 10 ^ k) < 2 * 1024 ^ u * m + 1024 ^ u"
proof -
  obtain u d where p: "pick_unit n 0 1 = (u, d)" by fastforce
  then have f: "d = 1024 ^ u" "d \<le> n" "u \<le> 5" "u = 5 \<or> n < 1024 ^ Suc u"
    using pick_unit_fits [OF p assms(2)] by auto
  show ?thesis
  proof (cases "u = 0")
    case True
    then have "formatBytes v k = group_digits (n * 10 ^ k div 10 ^ k) @ fraction_text k (n * 10 ^ k mod 10 ^ k) @ '' '' @ unit_names ! 0"
      using assms p by (simp add: formatBytes_def fraction_text_0 unit_names_def)
    then show ?thesis using True f by (intro exI [of _ 0] exI [of _ "n * 10 ^ k"]) simp
  next
    case False
    then have "formatBytes v k = group_digits (scaled_size n k d div 10 ^ k)
        @ fraction_text k (scaled_size n k d mod 10 ^ k) @ '' '' @ unit_names ! u"
      using assms p by (simp add: formatBytes_def Let_def)
    then show ?thesis using f scaled_size_error [of d n k] by (intro exI [of _ u] exI [of _ "scaled_size n k d"]) simp
  qed
qed

lemma formatBytes_accurate_witness:
  "toBigIntBytes (NumberBytes 1536) = Some 1536
    \<and> (\<exists>u m. u \<le> 5 \<and> 1024 ^ u \<le> (1536 :: nat)
      \<and> formatBytes (NumberBytes 1536) 1 = group_digits (m div 10) @ fraction_text 1 (m mod 10) @ '' '' @ unit_names ! u)"
  using formatBytes_accurate [of "NumberBytes 1536" 1536 1] by (auto simp: is_safe_integer_def max_safe_integer_def)

text \<open>Rounding comes after the choice of the unit: one byte below a megabyte is shown as 1,024 KB.\<close>

lemma formatBytes_before_unit: "formatBytes (NumberBytes 1048575) 1 = ''1,024 KB''"
proof -
  have p: "pick_unit 1048575 0 1 = (1, 1024)" by (simp add: pick_unit.simps unit_names_def)
  have s: "scaled_size 1048575 1 1024 = 10240" by (simp add: scaled_size_def)
  have g: "group_digits 1024 = ''1,024''"
    by (simp add: group_digits.simps nat_text.simps digit_char_def char_of_def bit_0)
  show ?thesis
    using p s g fraction_text_0 [of 1]
    by (simp add: formatBytes_def is_safe_integer_def max_safe_integer_def unit_names_def)
qed

end
