(* ===== verification/Pages.thy ===== *)
theory Pages
  imports Watch Sizes Worker Listing
begin

text \<open>
  What the dashboard's pages compute and tell the user: the actions on a problem
  (\<open>pages/problem-detail.tsx\<close> with \<open>components/toaster.tsx\<close>), the buttons of the list of jobs
  (\<open>pages/jobs.tsx\<close>), the colour of a status (\<open>components/status-badge.tsx\<close>) and the figures of \<open>pages/overview.tsx\<close> and \<open>pages/storage.tsx\<close>.
\<close>

section \<open>Toasts\<close>

datatype variant = DefaultToast | SuccessToast | DestructiveToast

record toast =
  to_title :: string
  to_description :: "string option"
  to_variant :: variant

text \<open>The list of the toaster: each toast has an id of its own, the last one comes last.\<close>

definition add_toast :: "string \<Rightarrow> toast \<Rightarrow> (string \<times> toast) list \<Rightarrow> (string \<times> toast) list" where
  "add_toast i t ts = ts @ [(i, t)]"

definition dismiss :: "string \<Rightarrow> (string \<times> toast) list \<Rightarrow> (string \<times> toast) list" where
  "dismiss i ts = filter (\<lambda>t. fst t \<noteq> i) ts"

lemma dismiss_added: "i \<notin> fst ` set ts \<Longrightarrow> dismiss i (add_toast i t ts) = ts"
  by (auto simp: dismiss_def add_toast_def filter_id_conv)

section \<open>An action on a problem\<close>

definition job_name :: "json \<Rightarrow> string" where
  "job_name job = ''Job '' @ coalesce (text_field job ''id'') []"

text \<open>The callbacks \<open>doAction\<close> gives to \<open>watchJob\<close>.\<close>

definition onTerminal :: "string \<Rightarrow> json \<Rightarrow> toast list" where
  "onTerminal label job =
     (let state = text_field job ''state'' in
      if state = Some ''completed''
      then [\<lparr>to_title = label @ '' completed'', to_description = Some (job_name job), to_variant = SuccessToast\<rparr>]
      else if state = Some ''failed''
      then [\<lparr>to_title = label @ '' failed'',
             to_description = Some (coalesce (text_field job ''error_message'')
               (coalesce (text_field job ''error_code'') (job_name job @ '' failed''))),
             to_variant = DestructiveToast\<rparr>]
      else if state = Some ''cancelled''
      then [\<lparr>to_title = label @ '' cancelled'', to_description = Some (job_name job @ '' was cancelled''),
             to_variant = DestructiveToast\<rparr>]
      else [])"

definition expired_toast :: toast where
  "expired_toast = \<lparr>to_title = ''Session expired'',
     to_description = Some ''Sign in again to continue tracking jobs.'', to_variant = DestructiveToast\<rparr>"

fun toasts_of :: "string \<Rightarrow> watch_call \<Rightarrow> toast list" where
  "toasts_of label (OnTerminal job) = onTerminal label job"
| "toasts_of label OnUnauthorized = [expired_toast]"
| "toasts_of label c = []"

text \<open>\<open>followedJobs\<close> after the callbacks: by id, the last report.\<close>

definition onJob :: "json \<Rightarrow> (string \<rightharpoonup> json) \<Rightarrow> string \<rightharpoonup> json" where
  "onJob job m = m(coalesce (text_field job ''id'') [] \<mapsto> job)"

definition followed :: "watch_call list \<Rightarrow> string \<rightharpoonup> json" where
  "followed calls = fold (\<lambda>c m. case c of OnJob job \<Rightarrow> onJob job m | _ \<Rightarrow> m) calls (\<lambda>i. None)"

text \<open>
  \<open>doAction\<close>: the call's error message, or the id of the accepted job and what its watcher has called so far.
\<close>

definition doAction :: "string \<Rightarrow> string + string \<times> watcher \<Rightarrow> toast list \<times> (string \<rightharpoonup> json)" where
  "doAction label answer =
     (case answer of
        Inl message \<Rightarrow>
          ([\<lparr>to_title = label @ '' failed'', to_description = Some message, to_variant = DestructiveToast\<rparr>], \<lambda>i. None)
      | Inr (jobId, w) \<Rightarrow>
          (\<lparr>to_title = label @ '' accepted'', to_description = Some (''Tracking job '' @ jobId @ ''.''), to_variant = DefaultToast\<rparr>
             # concat (map (toasts_of label) (wt_calls w)),
           followed (wt_calls w)))"

text \<open>The button of the eviction dialog.\<close>

definition evict_allowed :: "string \<Rightarrow> string \<Rightarrow> bool \<Rightarrow> bool" where
  "evict_allowed confirmText code pending \<longleftrightarrow> \<not> (confirmText \<noteq> code \<or> pending)"

section \<open>The user is told the outcome once\<close>

definition outcome_toast :: "string \<Rightarrow> json \<Rightarrow> toast" where
  "outcome_toast label job = hd (onTerminal label job)"

lemma terminal_outcome: "terminal job \<Longrightarrow> onTerminal label job = [outcome_toast label job]"
  by (auto simp: terminal_def outcome_toast_def onTerminal_def text_field_def Let_def split: option.splits json.splits)

text \<open>The toasts of an action besides the notes on an expired session.\<close>

definition told_user :: "string \<Rightarrow> watch_call list \<Rightarrow> toast list" where
  "told_user label calls = concat (map (toasts_of label) (filter (\<lambda>c. c \<noteq> OnUnauthorized) calls))"

lemma told_user_jobs:
  "told_user label calls
    = concat (map (toasts_of label) (filter (\<lambda>c. case c of OnJob v \<Rightarrow> True | OnTerminal v \<Rightarrow> True | _ \<Rightarrow> False) calls))"
  by (induction calls) (auto simp: told_user_def split: watch_call.split)

lemma followed_jobs:
  "followed calls = followed (filter (\<lambda>c. case c of OnJob v \<Rightarrow> True | OnTerminal v \<Rightarrow> True | _ \<Rightarrow> False) calls)"
proof -
  have "fold (\<lambda>c m. case c of OnJob job \<Rightarrow> onJob job m | _ \<Rightarrow> m) calls m
      = fold (\<lambda>c m. case c of OnJob job \<Rightarrow> onJob job m | _ \<Rightarrow> m)
          (filter (\<lambda>c. case c of OnJob v \<Rightarrow> True | OnTerminal v \<Rightarrow> True | _ \<Rightarrow> False) calls) m" for m
    by (induction calls arbitrary: m) (auto split: watch_call.split)
  then show ?thesis by (simp add: followed_def)
qed


section \<open>The buttons of a job\<close>

text \<open>\<open>JobsPage\<close>: \<open>state\<close> is the job's state as the row shows it.\<close>

definition retry_disabled :: "string \<Rightarrow> bool" where
  "retry_disabled state \<longleftrightarrow> state \<noteq> ''failed'' \<and> state \<noteq> ''cancelled''"

definition cancel_disabled :: "string \<Rightarrow> bool" where
  "cancel_disabled state \<longleftrightarrow> state \<noteq> ''pending'' \<and> state \<noteq> ''running''"

definition onRetry :: "string option \<Rightarrow> toast" where
  "onRetry failure =
     (case failure of
        None \<Rightarrow> \<lparr>to_title = ''Job retried'', to_description = None, to_variant = SuccessToast\<rparr>
      | Some message \<Rightarrow> \<lparr>to_title = ''Retry failed'', to_description = Some message, to_variant = DestructiveToast\<rparr>)"

definition onCancel :: "string option \<Rightarrow> toast" where
  "onCancel failure =
     (case failure of
        None \<Rightarrow> \<lparr>to_title = ''Job cancelled'', to_description = None, to_variant = SuccessToast\<rparr>
      | Some message \<Rightarrow> \<lparr>to_title = ''Cancel failed'', to_description = Some message, to_variant = DestructiveToast\<rparr>)"

text \<open>
  A disabled button is one the server would refuse: \<open>cancelJob\<close> and \<open>retryJob\<close> find no row then. The
  converse holds for Cancel; Retry is also offered for a job without attempts left.
\<close>

lemma job_texts:
  "retry_disabled (job_state_text st) \<longleftrightarrow> st \<noteq> Failed \<and> st \<noteq> Cancelled"
  "cancel_disabled (job_state_text st) \<longleftrightarrow> st \<noteq> Pending \<and> st \<noteq> Running"
  by (cases st; simp add: retry_disabled_def cancel_disabled_def)+

lemma disabled_cancel_refused:
  assumes "j \<in> set (jobs s)" and "jobs_violation (jobs s) = None"
  shows "cancel_disabled (job_state_text (j_state j)) \<longleftrightarrow> \<not> (\<exists>k \<in> set (jobs s). j_id k = j_id j \<and> job_active k)"
  using assms id_unique [of "jobs s" _ j] by (auto simp: job_texts job_active_def)

section \<open>The colour of a status\<close>

datatype badge_variant = DefaultBadge | SecondaryBadge | DestructiveBadge | SuccessBadge | WarningBadge | OutlineBadge

definition variantForStatus :: "string \<Rightarrow> badge_variant" where
  "variantForStatus status =
     (let s = to_lower status in
      if s \<in> {''ready'', ''ok'', ''present'', ''completed''} then SuccessBadge
      else if s \<in> {''error'', ''failed'', ''missing'', ''down''} then DestructiveBadge
      else if s \<in> {''uploading'', ''hashing'', ''verifying'', ''running'', ''pending'', ''partial''} then WarningBadge
      else if s \<in> {''superseded'', ''cancelled'', ''none'', ''orphan''} then SecondaryBadge
      else OutlineBadge)"

lemma job_colours:
  "map (\<lambda>st. variantForStatus (job_state_text st)) [Pending, Running, Completed, Failed, Cancelled]
    = [WarningBadge, WarningBadge, SuccessBadge, DestructiveBadge, SecondaryBadge]"
  by (simp add: variantForStatus_def to_lower_def to_lower_char_def char_of_def bit_0)

section \<open>The figures of the overview\<close>

text \<open>In hundredths of a GiB; the code divides by 100.\<close>

definition bytesToGiB :: "byte_input \<Rightarrow> nat" where
  "bytesToGiB v = (case toBigIntBytes v of None \<Rightarrow> 0 | Some n \<Rightarrow> n * 100 div 1024 ^ 3)"

text \<open>\<open>Number\<close> of a count is exact up to 2^53.\<close>

definition countToNumber :: "byte_input \<Rightarrow> nat" where
  "countToNumber v = (case toBigIntBytes v of None \<Rightarrow> 0 | Some n \<Rightarrow> n)"

record volume_point =
  po_observed_at :: nat
  po_available :: nat
  po_free :: nat
  po_total :: nat
  po_name :: string

text \<open>The label of a point, its local time of day, is \<open>toLocaleTimeString\<close> of \<open>po_observed_at\<close>.\<close>

definition volumeChartData :: "volumeT list \<Rightarrow> volume_point list" where
  "volumeChartData items = map (\<lambda>v.
     \<lparr>po_observed_at = vt_observed_at v, po_available = bytesToGiB (bytes_of (vt_available_bytes v)),
      po_free = bytesToGiB (bytes_of (vt_free_bytes v)), po_total = bytesToGiB (bytes_of (vt_total_bytes v)),
      po_name = vt_name v\<rparr>) (rev items)"

record bar =
  ba_name :: string
  ba_logical :: nat
  ba_label :: string

definition largestProblemData :: "usageT list \<Rightarrow> bar list" where
  "largestProblemData items = map (\<lambda>p.
     \<lparr>ba_name = ut_problem_id p, ba_logical = bytesToGiB (bytes_of (ut_logical_bytes p)),
      ba_label = formatBytes (bytes_of (ut_logical_bytes p)) 1\<rparr>) items"

definition largestOrganizationData :: "organization_usageT list \<Rightarrow> bar list" where
  "largestOrganizationData items = map (\<lambda>x.
     \<lparr>ba_name = ou_organization_id x, ba_logical = bytesToGiB (bytes_of (ou_logical_bytes x)),
      ba_label = formatBytes (bytes_of (ou_logical_bytes x)) 1\<rparr>) items"

text \<open>A bigint or \<open>null\<close> that goes back into these functions.\<close>

definition again :: "nat option \<Rightarrow> byte_input" where
  "again n = (case n of None \<Rightarrow> NoBytes | Some k \<Rightarrow> BigBytes (int k))"

definition usedBytes :: "volumeT \<Rightarrow> nat option" where
  "usedBytes v = subtractBytes (bytes_of (vt_total_bytes v)) (bytes_of (vt_available_bytes v))"

text \<open>In hundredths of a per cent.\<close>

definition usedPct :: "volumeT \<Rightarrow> nat option" where
  "usedPct v = bytePercent (again (usedBytes v)) (bytes_of (vt_total_bytes v))"

datatype meter = PlainMeter | WarningMeter | DestructiveMeter

definition indicator :: "nat option \<Rightarrow> meter" where
  "indicator pct =
     (if 9000 < coalesce pct 0 then DestructiveMeter else if 8000 < coalesce pct 0 then WarningMeter else PlainMeter)"

subsection \<open>What they show\<close>

text \<open>A figure in GiB is the exact size rounded down to a hundredth.\<close>

lemma bytesToGiB_int8:
  assumes "0 \<le> n"
  shows "bytesToGiB (bytes_of (int8 n)) * 1024 ^ 3 \<le> nat n * 100
    \<and> nat n * 100 < Suc (bytesToGiB (bytes_of (int8 n))) * 1024 ^ 3"
proof -
  let ?d = "1024 ^ 3 :: nat"
  have "bytesToGiB (bytes_of (int8 n)) = nat n * 100 div ?d" using assms by (simp add: bytesToGiB_def)
  then show ?thesis using div_times_less_eq_dividend [of "nat n * 100" ?d] dividend_less_div_times [of ?d "nat n * 100"]
    by (simp add: algebra_simps)
qed

lemma toRfc3339_mono: "a \<le> b \<Longrightarrow> toRfc3339 a \<le> toRfc3339 b"
  by (simp add: toRfc3339_def div_le_mono)

lemma sorted_chart: "sorted (map po_observed_at (volumeChartData (listVolumeTimeseries name lim s)))"
proof -
  let ?k = "\<lambda>v. - int (v_observed_at v)"
  have s: "sorted (map ?k (order_limit ?k lim vs))" for vs
    using sorted_wrt_take [of "(\<le>)" "map ?k (sort_key ?k vs)" lim] by (simp add: order_limit_def take_map)
  have "sorted (map (\<lambda>v. toRfc3339 (v_observed_at v)) (rev vs))" if "sorted (map ?k vs)" for vs
    using that by (induction vs) (auto simp: sorted_append toRfc3339_mono)
  from this [OF s] show ?thesis
    by (simp add: volumeChartData_def listVolumeTimeseries_def rev_map comp_def volume_item_def)
qed

text \<open>A volume of the database, as the page reads it.\<close>

lemma used_of_row:
  assumes "0 \<le> v_available_bytes r" and "v_available_bytes r \<le> v_total_bytes r" and "0 < v_total_bytes r"
  shows "usedBytes (volume_item r) = Some (nat (v_total_bytes r - v_available_bytes r))
    \<and> (\<exists>pct. usedPct (volume_item r) = Some pct \<and> pct \<le> 10000)"
proof -
  have u: "usedBytes (volume_item r) = Some (nat (v_total_bytes r - v_available_bytes r))"
    using assms by (auto simp: usedBytes_def volume_item_def subtractBytes_def nat_diff_distrib)
  let ?u = "nat (v_total_bytes r - v_available_bytes r)" and ?t = "nat (v_total_bytes r)"
  have "?u * 10000 \<le> ?t * 10000" using assms by simp
  then have "?u * 10000 div ?t \<le> ?t * 10000 div ?t" by (rule div_le_mono)
  also have "\<dots> = 10000" using assms by simp
  finally have "?u * 10000 div ?t \<le> 10000" .
  then show ?thesis using u assms by (simp add: usedPct_def bytePercent_def again_def volume_item_def)
qed

text \<open>
  The overview tells the truth of a volume: whatever volumes the database holds with as much available as
  they have or less, the used bytes are exact, the percentage is at most 100, the points of the history
  run forward in time, and each figure in GiB is below the exact size by less than a hundredth.
\<close>

theorem overview_truthful:
  assumes "list_all (\<lambda>r. 0 \<le> v_available_bytes r \<and> v_available_bytes r \<le> v_total_bytes r \<and> 0 < v_total_bytes r)
      (storage_volume_observations s)"
    and "r \<in> set (storage_volume_observations s)"
  shows "sorted (map po_observed_at (volumeChartData (listVolumeTimeseries name lim s)))
    \<and> usedBytes (volume_item r) = Some (nat (v_total_bytes r - v_available_bytes r))
    \<and> (\<exists>pct. usedPct (volume_item r) = Some pct \<and> pct \<le> 10000)
    \<and> (let gib = bytesToGiB (bytes_of (vt_available_bytes (volume_item r)))
       in gib * 1024 ^ 3 \<le> nat (v_available_bytes r) * 100 \<and> nat (v_available_bytes r) * 100 < Suc gib * 1024 ^ 3)"
  using assms sorted_chart used_of_row [of r] bytesToGiB_int8 [of "v_available_bytes r"]
  by (auto simp: list_all_iff volume_item_def Let_def)

end
