(* ===== verification/Shell.thy ===== *)
theory Shell
  imports Console Admin Pages
begin

text \<open>
  The frame around the dashboard's pages: signing in and the choice of the page (\<open>app.tsx\<close>), the navigation
  (\<open>components/sidebar.tsx\<close>), signing out (\<open>pages/settings.tsx\<close>), and the calls of \<open>lib/api.ts\<close> that do not
  go through \<open>request\<close>.
\<close>

section \<open>Navigation\<close>

definition navItems :: "(string \<times> string) list" where
  "navItems =
     [(''Overview'', ''#/''), (''Problems'', ''#/problems''), (''Organizations'', ''#/organizations''),
      (''Snapshots'', ''#/snapshots''), (''Jobs'', ''#/jobs''), (''Storage & R2'', ''#/storage''),
      (''Orphans'', ''#/orphans''), (''Deleted'', ''#/deleted''), (''Audit log'', ''#/audit''), (''Settings'', ''#/settings'')]"

definition without_hash :: "string \<Rightarrow> string" where
  "without_hash t = (case t of c # cs \<Rightarrow> if c = CHR ''#'' then cs else t | [] \<Rightarrow> [])"

definition currentPath :: "string \<Rightarrow> string" where
  "currentPath hash = (let path = without_hash (if hash = [] then ''#/'' else hash) in if path = [] then ''/'' else path)"

definition isActive :: "string \<Rightarrow> string \<Rightarrow> bool" where
  "isActive to path =
     (let target = without_hash to in
      if target = ''/'' then path = ''/'' else path = target \<or> starts_with (target @ ''/'') path)"

text \<open>\<open>SettingsPage\<close>: the event it dispatches is the one \<open>App\<close> answers with \<open>logout\<close>.\<close>

definition onLogout :: "console \<Rightarrow> console \<times> toast" where
  "onLogout c =
     (logout (c\<lparr>co_storage := (co_storage c)(LEGACY_TOKEN_KEY := None, LEGACY_EXPIRES_KEY := None)\<rparr>),
      \<lparr>to_title = ''Signed out'', to_description = None, to_variant = SuccessToast\<rparr>)"

lemma onLogout_ends_session: "fst (onLogout c) = logout c"
  by (simp add: onLogout_def logout_def clearStoredToken_def clear_keys_def fun_upd_twist fun_eq_iff)

text \<open>Each entry of the navigation opens the page it names, and is the only one marked there.\<close>

definition marked :: "string \<Rightarrow> string list" where
  "marked hash = map fst (filter (\<lambda>i. isActive (snd i) (currentPath hash)) navItems)"

lemma nav_marks_itself:
  "list_all (\<lambda>(label, to). marked to = [label]) navItems"
  by (simp add: navItems_def marked_def isActive_def currentPath_def without_hash_def)

section \<open>The page of a hash\<close>

datatype page_component =
    OverviewPage | ProblemsPage | ProblemDetailPage string | OrganizationsPage | OrganizationDetailPage string
  | SnapshotsPage | JobsPage | StoragePage | DeletedPage | OrphansPage | AuditPage | SettingsPage

text \<open>The \<open>switch\<close> of \<open>Router\<close>. The two pages with a parameter take it for given (\<open>param!\<close>); \<open>undefined\<close> would
  be the empty id here.
\<close>

definition pageContent :: "string \<times> string option \<Rightarrow> page_component" where
  "pageContent route =
     (let page = fst route; param = coalesce (snd route) [] in
      if page = ''overview'' then OverviewPage
      else if page = ''problems'' then ProblemsPage
      else if page = ''problem-detail'' then ProblemDetailPage param
      else if page = ''organizations'' then OrganizationsPage
      else if page = ''organization-detail'' then OrganizationDetailPage param
      else if page = ''snapshots'' then SnapshotsPage
      else if page = ''jobs'' then JobsPage
      else if page = ''storage'' then StoragePage
      else if page = ''deleted'' then DeletedPage
      else if page = ''orphans'' then OrphansPage
      else if page = ''audit'' then AuditPage
      else if page = ''settings'' then SettingsPage
      else OverviewPage)"

text \<open>The parameter is there exactly for the pages that need it, and is not empty.\<close>

lemma param_where_needed:
  "fst (matchRoute hash) \<in> {''problem-detail'', ''organization-detail''} \<longleftrightarrow> snd (matchRoute hash) \<noteq> None"
  by (auto simp: matchRoute_def split: list.splits)

lemma param_nonempty: "snd (matchRoute hash) \<noteq> Some []"
proof -
  let ?ts = "filter (\<lambda>t. t \<noteq> []) (split_on (CHR ''/'') (normalizeHash hash))"
  have "\<forall>t \<in> set ?ts. t \<noteq> []" by simp
  then have "hd ps \<noteq> []" if "?ts = p # ps" "length ps = 1" for p ps
    using that by (cases ps) auto
  then show ?thesis by (auto simp: matchRoute_def split: list.splits)
qed

text \<open>Every page has a title of its own, and the navigation opens the pages it names.\<close>

lemma nav_opens_component:
  "map (\<lambda>i. pageContent (matchRoute (snd i))) navItems
    = [OverviewPage, ProblemsPage, OrganizationsPage, SnapshotsPage, JobsPage, StoragePage, OrphansPage, DeletedPage,
       AuditPage, SettingsPage]"
  by (simp add: navItems_def matchRoute_def normalizeHash_def pageContent_def)

section \<open>Signing in\<close>

text \<open>What a failing call throws; \<open>message\<close> of a JSON object, or of an \<open>Error\<close>.\<close>

datatype thrown = ThrownJson json | ThrownError string

definition apiErrorMessage :: "thrown \<Rightarrow> string" where
  "apiErrorMessage e =
     (case e of
        ThrownJson v \<Rightarrow> coalesce (text_field v ''message'') ''Request failed''
      | ThrownError message \<Rightarrow> message)"

text \<open>The answer of \<open>api.login\<close>, and the form of \<open>LoginScreen\<close>.\<close>

record login_answer =
  la_token :: string
  la_token_type :: "string option"
  la_expires_in :: int

record login_form =
  lf_error :: "string option"
  lf_loading :: bool

definition handleSubmit ::
  "int \<Rightarrow> thrown + login_answer \<Rightarrow> console \<Rightarrow> login_form \<Rightarrow> console \<times> login_form \<times> toast list" where
  "handleSubmit now_ms answer c form =
     (let refused = (\<lambda>e. (c, form\<lparr>lf_error := Some (apiErrorMessage e), lf_loading := False\<rparr>, []))
      in case answer of
        Inl e \<Rightarrow> refused e
      | Inr res \<Rightarrow>
          if truthy (la_token_type res) \<and> la_token_type res \<noteq> Some ''Bearer''
          then refused (ThrownError ''Unsupported token type returned by server'')
          else (handleLogin now_ms (la_token res) (la_expires_in res) c, form\<lparr>lf_error := None, lf_loading := False\<rparr>,
                [\<lparr>to_title = ''Signed in'', to_description = None, to_variant = SuccessToast\<rparr>]))"

lemma failed_login_keeps_session: "fst (handleSubmit now_ms (Inl e) c form) = c"
  by (simp add: handleSubmit_def Let_def)

lemma login_opens_session:
  assumes "la_token_type res = Some ''Bearer''" and "t \<noteq> []" and "la_token res = t"
    and "readStoredToken later (fst (handleSubmit now_ms (Inr res) c form)) = (v, c')"
  shows "v = (if expires_at now_ms (la_expires_in res) \<le> later then None else Some t)"
  using assms by (auto simp: handleSubmit_def handleLogin_def readStoredToken_def login_session Let_def split: if_splits)

section \<open>Calls of their own\<close>

text \<open>\<open>requestAllowingHealth503\<close>: no token is sent and an answer 401 ends no session.\<close>

definition requestAllowingHealth503 :: "string \<Rightarrow> http_response \<Rightarrow> json + json option" where
  "requestAllowingHealth503 path r =
     (if re_status r = 503 \<and> path = ''/system/health'' then Inr (re_body r)
      else if \<not> (200 \<le> re_status r \<and> re_status r \<le> 299) then Inl (error_of r)
      else Inr (re_body r))"

definition absoluteApiPath :: "string \<Rightarrow> string" where
  "absoluteApiPath pathOrUrl =
     (if starts_with ''http'' pathOrUrl then pathOrUrl
      else if starts_with ''/api/v1'' pathOrUrl then pathOrUrl
      else ''/api/v1'' @ (if starts_with ''/'' pathOrUrl then pathOrUrl else CHR ''/'' # pathOrUrl))"

lemma events_path: "absoluteApiPath (aj_events_url (accepted job)) = aj_events_url (accepted job)"
  by (simp add: absoluteApiPath_def accepted_def)

definition health_json :: "health_response \<Rightarrow> json" where
  "health_json h = JObj [(''status'', JStr (hr_status h)), (''version'', JStr ''0.1.0''), (''database'', JBool (hr_database h)),
     (''rust_data_plane'', JBool (hr_rust_data_plane h))]"

text \<open>The card of the overview: the status of the badge and the line below it, or an error to retry.\<close>

definition health_card :: "json + json option \<Rightarrow> string \<times> string" where
  "health_card answer =
     (let data = (case answer of Inr v \<Rightarrow> coalesce v JNull | Inl e \<Rightarrow> JNull);
          part = (\<lambda>k. if bool_field data k False then ''ok'' else ''down'')
      in (coalesce (text_field data ''status'') ''unknown'', ''DB: '' @ part ''database'' @ '' / Rust: '' @ part ''rust_data_plane''))"

text \<open>A degraded service is answered with 503 and still shown, part by part.\<close>

lemma health_shown:
  assumes "get_health dbOk rustOk = Send st h" and "re_status r = st" and "re_body r = Some (health_json h)"
  shows "health_card (requestAllowingHealth503 ''/system/health'' r)
    = (if dbOk \<and> rustOk then ''ok'' else ''degraded'',
       ''DB: '' @ (if dbOk then ''ok'' else ''down'') @ '' / Rust: '' @ (if rustOk then ''ok'' else ''down''))"
  using assms
  by (auto simp: get_health_def requestAllowingHealth503_def health_card_def health_json_def bool_field_def text_field_def
      json_field_def coalesce_def)

end
