(* ===== verification/DataPlane.thy ===== *)
theory DataPlane
  imports Url Routes
begin

text \<open>
  The client of the data plane, class \<open>RustClient\<close> of \<open>control-plane/src/rust-client.ts\<close>: which request
  each of its methods makes, how it reads the answer, and how a failing answer becomes a \<open>RustError\<close>.
  The HTTP library is a parameter: a call answers with a status and the text of the body, or fails,
  and the database may change meanwhile in any way.
\<close>

section \<open>Requests\<close>

text \<open>The header \<open>content-type\<close> is always \<open>application/json\<close>; \<open>ru_token\<close> is \<open>x-internal-token\<close>.\<close>

record rust_call =
  ru_method :: string
  ru_url :: string
  ru_token :: "string option"
  ru_body :: "json option"
  ru_timeout_ms :: nat

text \<open>
  \<open>pl_syntax\<close> is the message of the \<open>SyntaxError\<close> of a body that is not JSON, \<open>pl_timestamp\<close>
  PostgreSQL's reading of the data plane's timestamps.
\<close>

record plane =
  pl_env :: env
  pl_http :: "rust_call \<Rightarrow> (db, nat \<times> string) act"
  pl_syntax :: "string \<Rightarrow> string"
  pl_timestamp :: "string \<Rightarrow> time"

definition token_header :: "env \<Rightarrow> string option" where
  "token_header e = (if e_rustInternalToken e = [] then None else Some (e_rustInternalToken e))"

text \<open>What \<open>post\<close> and \<open>getJson\<close> make of an answer.\<close>

definition answered :: "plane \<Rightarrow> nat \<times> string \<Rightarrow> (db, json) act" where
  "answered pl = (\<lambda>(statusCode, text).
     if 400 \<le> statusCode then throw (rust_error statusCode (json_parse text))
     else (case json_parse text of
             Some v \<Rightarrow> ret v
           | None \<Rightarrow> throw (PlainError (pl_syntax pl text))))"

definition post :: "plane \<Rightarrow> string \<Rightarrow> json \<Rightarrow> nat \<Rightarrow> (db, json) act" where
  "post pl path body timeoutMs =
     bnd (pl_http pl \<lparr>ru_method = ''POST'', ru_url = e_rustBaseUrl (pl_env pl) @ path,
            ru_token = token_header (pl_env pl), ru_body = Some body, ru_timeout_ms = timeoutMs\<rparr>)
       (answered pl)"

definition getJson :: "plane \<Rightarrow> string \<Rightarrow> nat \<Rightarrow> (db, json) act" where
  "getJson pl path timeoutMs =
     bnd (pl_http pl \<lparr>ru_method = ''GET'', ru_url = e_rustBaseUrl (pl_env pl) @ path,
            ru_token = token_header (pl_env pl), ru_body = None, ru_timeout_ms = timeoutMs\<rparr>)
       (answered pl)"

section \<open>The methods\<close>

definition nullable :: "('a \<Rightarrow> json) \<Rightarrow> 'a option \<Rightarrow> json" where
  "nullable f v = (case v of None \<Rightarrow> JNull | Some x \<Rightarrow> f x)"

definition rust_health :: "plane \<Rightarrow> (db, bool) act" where
  "rust_health pl = try_catch (bnd (getJson pl ''/internal/ready'' 10000) (\<lambda>_. ret True)) (\<lambda>_. ret False)"

definition rust_getVolumes :: "plane \<Rightarrow> (db, json) act" where
  "rust_getVolumes pl = getJson pl ''/internal/volumes'' 30000"

definition rust_scan :: "plane \<Rightarrow> string \<Rightarrow> string option \<Rightarrow> (db, json) act" where
  "rust_scan pl code problemExternalId =
     post pl ''/internal/scan''
       (JObj [(''code'', JStr code), (''problem_external_id'', nullable JStr problemExternalId)]) 600000"

definition rust_createSnapshot :: "plane \<Rightarrow> string \<Rightarrow> nat \<Rightarrow> string \<Rightarrow> nat \<Rightarrow> json \<Rightarrow> (db, json) act" where
  "rust_createSnapshot pl problemExternalId generation code fencingToken dirtyVersion =
     post pl ''/internal/snapshot''
       (JObj [(''problem_external_id'', JStr problemExternalId), (''generation'', JNum (int generation)),
              (''code'', JStr code), (''fencing_token'', JNum (int fencingToken)),
              (''dirty_version'', dirtyVersion)]) 600000"

definition rust_restore :: "plane \<Rightarrow> string \<Rightarrow> nat \<Rightarrow> string \<Rightarrow> nat \<Rightarrow> (db, json) act" where
  "rust_restore pl problemExternalId generation dest fencingToken =
     post pl ''/internal/restore''
       (JObj [(''problem_external_id'', JStr problemExternalId), (''generation'', JNum (int generation)),
              (''dest'', JStr dest), (''fencing_token'', JNum (int fencingToken))]) 600000"

definition ready_path :: "string \<Rightarrow> string \<Rightarrow> string" where
  "ready_path problemExternalId code =
     ''/internal/ready?problem_external_id='' @ encodeURIComponent problemExternalId
       @ ''&code='' @ encodeURIComponent code"

definition rust_ready :: "plane \<Rightarrow> string \<Rightarrow> string \<Rightarrow> (db, json) act" where
  "rust_ready pl problemExternalId code = getJson pl (ready_path problemExternalId code) 8000"

definition rust_evict ::
  "plane \<Rightarrow> string \<Rightarrow> string \<Rightarrow> bool \<Rightarrow> bool \<Rightarrow> nat \<Rightarrow> string option \<Rightarrow> (db, json) act" where
  "rust_evict pl problemExternalId code dryRun force fencingToken idleBefore =
     post pl ''/internal/evict''
       (JObj [(''problem_external_id'', JStr problemExternalId), (''code'', JStr code),
              (''dry_run'', JBool dryRun), (''force'', JBool force),
              (''fencing_token'', JNum (int fencingToken)), (''idle_before'', nullable JStr idleBefore)]) 30000"

definition rust_reconcile :: "plane \<Rightarrow> (string \<times> string) list \<Rightarrow> (db, json) act" where
  "rust_reconcile pl ps =
     post pl ''/internal/reconcile''
       (JObj [(''problems'', JArr (map (\<lambda>(i, c). JArr [JStr i, JStr c]) ps))]) 600000"

definition rust_deleteObject :: "plane \<Rightarrow> string \<Rightarrow> nat \<Rightarrow> (db, json) act" where
  "rust_deleteObject pl objectKey fencingToken =
     post pl ''/internal/objects:delete''
       (JObj [(''object_key'', JStr objectKey), (''fencing_token'', JNum (int fencingToken))]) 30000"

text \<open>\<open>JSON.stringify\<close> leaves the fields out that are \<open>undefined\<close>.\<close>

definition rust_presign :: "plane \<Rightarrow> string \<Rightarrow> int option \<Rightarrow> string option \<Rightarrow> (db, json) act" where
  "rust_presign pl problemExternalId ttlSeconds path =
     post pl ''/internal/presign''
       (JObj ((''problem_external_id'', JStr problemExternalId)
          # optional ''ttl_seconds'' JNum ttlSeconds @ optional ''path'' JStr path)) 30000"

definition rust_getProblemUsage :: "plane \<Rightarrow> string \<Rightarrow> (db, json) act" where
  "rust_getProblemUsage pl code =
     getJson pl (''/internal/problems/'' @ encodeURIComponent code @ ''/usage'') 30000"

section \<open>The client its callers see\<close>

text \<open>
  The answers are cast to the interfaces of the file, not checked. The fields the callers use are
  read here; answers whose fields have other types are outside of the model.
\<close>

definition number_of :: "json \<Rightarrow> string \<Rightarrow> int" where
  "number_of v k = (case json_field v k of
     Some (JNum n) \<Rightarrow> n | Some (JStr t) \<Rightarrow> int (digits_value t) | _ \<Rightarrow> 0)"

definition text_of :: "json \<Rightarrow> string \<Rightarrow> string" where
  "text_of v k = (case json_field v k of Some (JStr t) \<Rightarrow> t | _ \<Rightarrow> [])"

definition scan_of :: "plane \<Rightarrow> json \<Rightarrow> scan_result" where
  "scan_of pl v =
     \<lparr>sr_logical_bytes = number_of v ''logical_bytes'', sr_allocated_bytes = number_of v ''allocated_bytes'',
      sr_archive_bytes = number_of v ''archive_bytes'', sr_auxiliary_bytes = number_of v ''auxiliary_bytes'',
      sr_file_count = number_of v ''file_count'', sr_observed_at = pl_timestamp pl (text_of v ''observed_at''),
      sr_raw = v\<rparr>"

definition snapshot_of :: "json \<Rightarrow> rust_snapshot" where
  "snapshot_of v = \<lparr>rs_state = text_of v ''state'', rs_raw = (case v of JObj kvs \<Rightarrow> kvs | _ \<Rightarrow> [])\<rparr>"

definition local_of :: "string \<Rightarrow> local_status" where
  "local_of t = (if t = ''present'' then LPresent else if t = ''missing'' then LMissing else LPartial)"

definition ready_of :: "plane \<Rightarrow> json \<Rightarrow> ready_result" where
  "ready_of pl v =
     \<lparr>rd_ready = (json_field v ''ready'' = Some (JBool True)), rd_local_status = local_of (text_of v ''local_status''),
      rd_observed_at = pl_timestamp pl (text_of v ''observed_at'')\<rparr>"

definition volume_of :: "json \<Rightarrow> rust_volume" where
  "volume_of v =
     \<lparr>rv_total_bytes = number_of v ''total_bytes'', rv_free_bytes = number_of v ''free_bytes'',
      rv_available_bytes = number_of v ''available_bytes'', rv_observed_at = text_of v ''observed_at'',
      rv_stale = (json_field v ''stale'' = Some (JBool True))\<rparr>"

definition map_act :: "('a \<Rightarrow> 'b) \<Rightarrow> (db, 'a) act \<Rightarrow> (db, 'b) act" where
  "map_act f m = bnd m (\<lambda>v. ret (f v))"

text \<open>The worker's client, and the application's.\<close>

definition client_of :: "plane \<Rightarrow> rust_client" where
  "client_of pl =
     \<lparr>rc_scan = (\<lambda>code i. map_act (scan_of pl) (rust_scan pl code (Some i))),
      rc_createSnapshot = (\<lambda>i gen code token v. map_act snapshot_of (rust_createSnapshot pl i gen code token v)),
      rc_restore = rust_restore pl, rc_evict = rust_evict pl,
      rc_deleteObject = (\<lambda>key token. map_act (\<lambda>_. ()) (rust_deleteObject pl key token))\<rparr>"

definition worker_on :: "plane \<Rightarrow> worker_ctx \<Rightarrow> worker_ctx" where
  "worker_on pl ctx = ctx\<lparr>wc_rust := client_of pl\<rparr>"

definition app_on :: "plane \<Rightarrow> app \<Rightarrow> app" where
  "app_on pl a = a\<lparr>ap_env := pl_env pl,
     ap_ready := (\<lambda>i code. map_act (ready_of pl) (rust_ready pl i code)),
     ap_volumes := map_act volume_of (rust_getVolumes pl),
     ap_presign := (\<lambda>i ttl path. map_act (\<lambda>v. (text_of v ''url'', text_of v ''expires_at''))
                      (rust_presign pl i (Some ttl) path))\<rparr>"

text \<open>The readiness question names its problem and code, whatever characters they have.\<close>

lemma ready_query:
  "\<exists>q. ready_path i code = ''/internal/ready?'' @ q \<and> parse_query q = [(''problem_external_id'', i), (''code'', code)]"
proof -
  have "encodeURIComponent ''problem_external_id'' = ''problem_external_id''" "encodeURIComponent ''code'' = ''code''"
    by (simp_all add: encodeURIComponent_def encode_char_def is_alnum_def)
  then have "ready_path i code
      = ''/internal/ready?'' @ query_text encodeURIComponent [(''problem_external_id'', i), (''code'', code)]"
    by (simp add: ready_path_def query_text_def)
  then show ?thesis by (auto simp: parse_query_text)
qed

section \<open>What is kept of a failing answer\<close>

text \<open>The answer with a body that has only the string fields \<open>code\<close> and \<open>message\<close>, when it fails.\<close>

definition text_entry :: "json option \<Rightarrow> string \<Rightarrow> (string \<times> json) list" where
  "text_entry body k =
     (case body of Some (JObj kvs) \<Rightarrow> (case map_of kvs k of Some (JStr t) \<Rightarrow> [(k, JStr t)] | _ \<Rightarrow> []) | _ \<Rightarrow> [])"

definition failure_text :: "json option \<Rightarrow> string" where
  "failure_text body = json_stringify (JObj (text_entry body ''code'' @ text_entry body ''message''))"

definition essential :: "nat \<times> string \<Rightarrow> nat \<times> string" where
  "essential = (\<lambda>(statusCode, text).
     (statusCode, if 400 \<le> statusCode then failure_text (json_parse text) else text))"

definition scrubbed :: "plane \<Rightarrow> plane" where
  "scrubbed pl = pl\<lparr>pl_http := (\<lambda>c. map_act essential (pl_http pl c))\<rparr>"

lemma text_entry_cases:
  "text_entry body k = [] \<and> (\<forall>kvs t. body = Some (JObj kvs) \<longrightarrow> map_of kvs k \<noteq> Some (JStr t))
    \<or> (\<exists>kvs t. body = Some (JObj kvs) \<and> map_of kvs k = Some (JStr t) \<and> text_entry body k = [(k, JStr t)])"
  by (auto simp: text_entry_def split: option.splits json.splits)

lemma failure_text_parse:
  "json_parse (failure_text body) = Some (JObj (text_entry body ''code'' @ text_entry body ''message''))"
  unfolding failure_text_def
  by (rule parse_stringify) (use text_entry_cases [of body "''code''"] text_entry_cases [of body "''message''"] in auto)

lemma rust_error_essential: "rust_error statusCode (json_parse (failure_text body)) = rust_error statusCode body"
  unfolding failure_text_parse
  by (auto simp: rust_error_def text_entry_def json_field_def Let_def split: option.splits json.splits)

lemma answered_essential: "answered (scrubbed pl) (essential r) = answered pl r"
  by (cases r) (simp add: answered_def essential_def scrubbed_def rust_error_essential cong: option.case_cong)

lemma scrubbed_http: "pl_http (scrubbed pl) c = map_act essential (pl_http pl c)" "pl_env (scrubbed pl) = pl_env pl"
  by (simp_all add: scrubbed_def)

lemma bnd_map_act: "bnd (map_act f m) g = bnd m (\<lambda>x. g (f x))"
  by (rule ext) (simp add: map_act_def bnd_def ret_def split: prod.splits sum.splits)

lemma scrubbed_post: "post (scrubbed pl) path body ms = post pl path body ms"
  and scrubbed_getJson: "getJson (scrubbed pl) path ms = getJson pl path ms"
  unfolding post_def getJson_def by (simp_all add: scrubbed_http bnd_map_act answered_essential)

lemmas scrubbed_calls = scrubbed_post scrubbed_getJson

lemmas rust_methods = rust_getVolumes_def rust_scan_def rust_createSnapshot_def rust_restore_def rust_ready_def
  rust_evict_def rust_reconcile_def rust_deleteObject_def rust_presign_def rust_getProblemUsage_def rust_health_def

lemma scrubbed_client: "client_of (scrubbed pl) = client_of pl"
proof -
  have "scan_of (scrubbed pl) = scan_of pl" by (rule ext) (simp add: scan_of_def scrubbed_def)
  moreover have "rust_restore (scrubbed pl) = rust_restore pl" "rust_evict (scrubbed pl) = rust_evict pl"
    by (simp_all add: fun_eq_iff rust_restore_def rust_evict_def scrubbed_calls)
  ultimately show ?thesis by (simp add: client_of_def rust_methods scrubbed_calls)
qed

lemma no_json_object:
  "(\<nexists>kvs. json_parse text = Some (JObj kvs))
    \<Longrightarrow> rust_error statusCode (json_parse text) = RustError statusCode None ''data plane request failed''"
  by (auto simp: rust_error_def coalesce_def split: option.splits json.splits)

text \<open>C28: what the data plane writes into a failing answer stays out of everything: of a body, only the
  strings \<open>code\<close> and \<open>message\<close> of a JSON object matter, and nothing of a body that is no JSON object
  (\<open>no_json_object\<close>). Running any job and serving any request is the same with every failing answer cut
  down to those.
\<close>

theorem upstream_text_not_kept:
  "runJob (worker_on (scrubbed pl) ctx) t = runJob (worker_on pl ctx) t \<and> app_on (scrubbed pl) a = app_on pl a"
proof -
  have "ready_of (scrubbed pl) = ready_of pl" by (rule ext) (simp add: ready_of_def scrubbed_def)
  then show ?thesis
    by (simp add: worker_on_def scrubbed_client app_on_def rust_methods scrubbed_calls scrubbed_http)
qed

section \<open>A failing answer and the job\<close>

text \<open>In the state \<open>s\<close> the data plane answers every call so, and leaves the state \<open>s'\<close>.\<close>

definition answers :: "plane \<Rightarrow> db \<Rightarrow> nat \<times> string \<Rightarrow> db \<Rightarrow> bool" where
  "answers pl s r s' \<longleftrightarrow> (\<forall>c. pl_http pl c s = (Inr r, s'))"

lemma post_fails:
  "answers pl s (statusCode, text) s' \<Longrightarrow> 400 \<le> statusCode
    \<Longrightarrow> post pl path body ms s = (Inl (rust_error statusCode (json_parse text)), s')"
  by (simp add: post_def answers_def answered_def bnd_def throw_def)

text \<open>A job that asks the data plane about its problem first.\<close>

definition asks_first :: "jobT \<Rightarrow> problemT \<Rightarrow> db \<Rightarrow> bool" where
  "asks_first t p s \<longleftrightarrow> jt_job_type t \<in> {Scan, Snapshot, Restore, Evict} \<and> truthy (jt_problem_id t)
     \<and> getProblem (coalesce (jt_problem_id t) []) s = Some p
     \<and> (jt_job_type t = Snapshot \<longrightarrow> jt_target_generation t \<noteq> None)"

lemma handler_fails:
  assumes "asks_first t p s" and "holds_lease s t" and "wc_leaseValid ctx s"
    and "answers pl s (statusCode, text) s'" and "400 \<le> statusCode"
  shows "dispatch (worker_on pl ctx) t s = (Inl (rust_error statusCode (json_parse text)), s')"
proof -
  have g: "guard_lease (worker_on pl ctx) t s = (Inr (), s)"
    using assms(2, 3) by (intro guard_ok) (simp_all add: worker_on_def)
  note f = post_fails [OF assms(4, 5)]
  have "jt_job_type t = Scan \<or> jt_job_type t = Snapshot \<or> jt_job_type t = Restore \<or> jt_job_type t = Evict"
    using assms(1) by (auto simp: asks_first_def)
  then show ?thesis
    using assms(1) g f
    by (auto simp: asks_first_def dispatch_def scan_handler_def snapshot_handler_def restore_handler_def evict_handler_def
        require_problem_id_def require_problem_def worker_on_def client_of_def map_act_def rust_methods Let_def)
qed


text \<open>A scan of a problem while the data plane's disk is full.\<close>

definition full_text :: string where
  "full_text = json_stringify (JObj [(''code'', JStr ''DISK_FULL''), (''message'', JStr ''no space'')])"

definition full_plane :: plane where
  "full_plane = \<lparr>pl_env = ap_env demo_app, pl_http = (\<lambda>c. ret (507, full_text)),
     pl_syntax = (\<lambda>t. []), pl_timestamp = (\<lambda>t. 0)\<rparr>"

definition scan_job :: job where
  "scan_job = demo_running ''a'' Scan (Some ''1'')"

definition scan_db :: db where
  "scan_db = demo_db [scan_job]"


end
