(* ===== verification/Cli.thy ===== *)
theory Cli
  imports Users Worker Contract
begin

text \<open>
  The command \<open>admin-users\<close> of \<open>control-plane/src/admin-users.ts\<close>: the arguments, the password on the
  standard input, what is printed and the exit status, around the account operations of \<open>Users\<close>.
\<close>

section \<open>The command\<close>

text \<open>\<open>/\r?\n$/\<close> is removed: one line end at the end of the text.\<close>

definition strip_line_end :: "string \<Rightarrow> string" where
  "strip_line_end t =
     (case rev t of
        [] \<Rightarrow> []
      | c # cs \<Rightarrow>
          if c = CHR 0x0A
          then (case cs of [] \<Rightarrow> [] | d # ds \<Rightarrow> if d = CHR 0x0D then rev ds else rev cs)
          else t)"

text \<open>What a run without an exception ends in: \<open>usage()\<close>, a line, or the table of \<open>list\<close>.\<close>

record cli_row =
  cu_username :: string
  cu_role :: string
  cu_enabled :: bool
  cu_auth_version :: nat
  cu_created_at :: string
  cu_password_changed_at :: string

datatype cli_reply = Usage | Line string | Table "cli_row list"

definition password_flag :: string where
  "password_flag = ''--password-stdin''"

definition user_line :: "dashboard_user_auth \<Rightarrow> cli_row" where
  "user_line u =
     \<lparr>cu_username = dua_username u, cu_role = dua_role u, cu_enabled = dua_enabled u,
      cu_auth_version = dua_authVersion u, cu_created_at = toISOString (dua_createdAt u),
      cu_password_changed_at = toISOString (dua_passwordChangedAt u)\<rparr>"

text \<open>
  \<open>args\<close> is \<open>process.argv\<close> without its first two entries, \<open>stdin\<close> the text of the standard input and
  \<open>salt\<close> what \<open>randomBytes\<close> returns.
\<close>

definition admin_command :: "scrypt \<Rightarrow> string \<Rightarrow> string list \<Rightarrow> string \<Rightarrow> (db, cli_reply) act" where
  "admin_command scrypt salt args stdin =
     (case args of
        [] \<Rightarrow> ret Usage
      | command # rest \<Rightarrow>
          (let username = (case rest of [] \<Rightarrow> [] | u # us \<Rightarrow> u);
               flag = password_flag \<in> set args;
               password = strip_line_end stdin in
           if command = ''create'' then
             (if username = [] \<or> \<not> flag then ret Usage
              else bnd (createDashboardUser scrypt salt username password) (\<lambda>user.
                ret (Line (''Created dashboard administrator: '' @ dua_username user))))
           else if command = ''passwd'' then
             (if username = [] \<or> \<not> flag then ret Usage
              else bnd (changeDashboardUserPassword scrypt salt username password) (\<lambda>user.
                case user of
                  None \<Rightarrow> throw (PlainError (''Dashboard user not found: '' @ username))
                | Some u \<Rightarrow> ret (Line (''Changed password and revoked existing sessions: '' @ dua_username u))))
           else if command = ''delete'' then
             (if username = [] \<or> flag then ret Usage
              else bnd (deleteDashboardUser username) (\<lambda>deleted.
                if \<not> deleted then throw (PlainError (''Dashboard user not found: '' @ username))
                else ret (Line (''Deleted dashboard administrator and revoked existing sessions: '' @ to_lower username))))
           else if command = ''list'' then
             (if username \<noteq> [] then ret Usage
              else reading (\<lambda>s.
                let users = listDashboardUsers s in
                ret (if users = [] then Line ''No dashboard administrators configured.'' else Table (map user_line users))))
           else ret Usage))"

text \<open>The process: exit status, what goes to the standard output, and the error text.\<close>

record cli_exit =
  ex_status :: nat
  ex_reply :: cli_reply
  ex_error :: string

definition cli_error :: "(err \<Rightarrow> string) \<Rightarrow> err \<Rightarrow> string" where
  "cli_error pg e = (case e of UniqueViolation c \<Rightarrow> ''Dashboard user already exists.'' | _ \<Rightarrow> err_message pg e)"

definition cli_main ::
  "scrypt \<Rightarrow> string \<Rightarrow> (err \<Rightarrow> string) \<Rightarrow> string option \<Rightarrow> string list \<Rightarrow> string \<Rightarrow> db \<Rightarrow> cli_exit \<times> db" where
  "cli_main scrypt salt pg databaseUrl args stdin s =
     (if \<not> truthy databaseUrl
      then (\<lparr>ex_status = 1, ex_reply = Line [], ex_error = ''Missing env STORAGE_DATABASE_URL''\<rparr>, s)
      else (case admin_command scrypt salt args stdin s of
              (Inl e, s') \<Rightarrow> (\<lparr>ex_status = 1, ex_reply = Line [], ex_error = cli_error pg e\<rparr>, s')
            | (Inr Usage, s') \<Rightarrow> (\<lparr>ex_status = 2, ex_reply = Usage, ex_error = []\<rparr>, s')
            | (Inr r, s') \<Rightarrow> (\<lparr>ex_status = 0, ex_reply = r, ex_error = []\<rparr>, s')))"

section \<open>What the exit status says\<close>

lemma create_error_same:
  "createDashboardUser scrypt salt n pw s = (Inl e, s') \<Longrightarrow> s' = s"
  by (auto simp: createDashboardUser_def bnd_def throw_def ret_def lift_sum_def split: option.splits sum.splits if_splits)

lemma change_missing_same:
  assumes "changeDashboardUserPassword scrypt salt n pw s = (r, s')" and "\<not> (\<exists>u. r = Inr (Some u))"
  shows "s' = s"
proof (cases "normalizeUsername n")
  case None
  with assms show ?thesis by (simp add: changeDashboardUserPassword_def)
next
  case (Some name)
  show ?thesis
  proof (cases "hashPassword scrypt salt pw")
    case (Inl e)
    with assms Some show ?thesis by (simp add: changeDashboardUserPassword_def)
  next
    case (Inr h)
    with assms Some have none: "user_row name s = None"
      and s': "s' = s\<lparr>dashboard_users := upd_where (\<lambda>u. du_username u = name) (repassworded h (now_us s)) (dashboard_users s)\<rparr>"
      by (cases "user_row name s"; auto simp: changeDashboardUserPassword_def)+
    have "upd_where (\<lambda>u. du_username u = name) f xs = xs" if "List.find (\<lambda>u. du_username u = name) xs = None"
      for f and xs :: "dashboard_user list"
      using that by (induction xs) (auto simp: upd_where_def split: if_splits)
    with none s' show ?thesis by (simp add: user_row_def)
  qed
qed

lemma delete_failed_same:
  "deleteDashboardUser n s = (r, s') \<Longrightarrow> r \<noteq> Inr True \<Longrightarrow> s' = s"
  by (auto simp: deleteDashboardUser_def tx_def split: option.splits if_splits)

lemma admin_command_step:
  assumes "admin_command scrypt salt args stdin s = (r, s')"
  shows "s' = s \<or> user_step s s' \<and> (\<exists>line. r = Inr (Line line))"
proof -
  let ?u = "case tl args of [] \<Rightarrow> [] | u # us \<Rightarrow> u" and ?pw = "strip_line_end stdin"
  have c: "s' = s \<or> user_step s s' \<and> (\<exists>line. r = Inr (Line line))"
    if "bnd (createDashboardUser scrypt salt ?u ?pw) (\<lambda>user. ret (Line (f user))) s = (r, s')" for f
    using that us_create [of s scrypt salt ?u ?pw] create_error_same
    by (cases "createDashboardUser scrypt salt ?u ?pw s") (auto simp: bnd_def split: sum.splits)
  have p: "s' = s \<or> user_step s s' \<and> (\<exists>line. r = Inr (Line line))"
    if "bnd (changeDashboardUserPassword scrypt salt ?u ?pw) (\<lambda>user. case user of None \<Rightarrow> throw e | Some u \<Rightarrow> ret (Line (f u))) s = (r, s')"
    for e f
    using that us_change [of s scrypt salt ?u ?pw] change_missing_same
    by (cases "changeDashboardUserPassword scrypt salt ?u ?pw s") (fastforce simp: bnd_def split: sum.splits option.splits)
  have d: "s' = s \<or> user_step s s' \<and> (\<exists>line. r = Inr (Line line))"
    if "bnd (deleteDashboardUser ?u) (\<lambda>x. if \<not> x then throw e else ret (Line l)) s = (r, s')" for e l
    using that us_delete [of s ?u] delete_failed_same
    by (cases "deleteDashboardUser ?u s") (fastforce simp: bnd_def split: sum.splits if_splits)
  show ?thesis
    using assms c p d unfolding admin_command_def
    by (cases args) (auto simp: Let_def split: if_splits)
qed

text \<open>
  The command says what it did. A status other than zero means that the accounts are as they were;
  any run keeps the user names unique and leaves an enabled account if there was one.
\<close>

theorem cli_status_truthful:
  assumes "cli_main scrypt salt pg databaseUrl args stdin s = (x, s')"
  shows "(ex_status x \<noteq> 0 \<longrightarrow> s' = s)
    \<and> (users_unique s \<and> 0 < enabled_count s \<longrightarrow> users_unique s' \<and> 0 < enabled_count s')
    \<and> ex_status x \<in> {0, 1, 2}"
proof (cases "truthy databaseUrl")
  case False
  then show ?thesis using assms by (auto simp: cli_main_def)
next
  case True
  obtain r s1 where run: "admin_command scrypt salt args stdin s = (r, s1)" by fastforce
  have s1: "s' = s1" using assms True run by (auto simp: cli_main_def split: sum.splits cli_reply.splits)
  have "s1 = s" if "ex_status x \<noteq> 0"
    using that admin_command_step [OF run] assms True run by (auto simp: cli_main_def split: sum.splits cli_reply.splits)
  moreover have "users_unique s' \<and> 0 < enabled_count s'" if "users_unique s" "0 < enabled_count s"
    using that admin_command_step [OF run] s1 user_step_unique user_step_keeps_admin by blast
  moreover have "ex_status x \<in> {0, 1, 2}" using assms True run by (auto simp: cli_main_def split: sum.splits cli_reply.splits)
  ultimately show ?thesis using s1 by simp
qed

section \<open>The password that was read logs in\<close>

lemma stored_hash:
  assumes "admin_command scrypt salt [command, u, password_flag] stdin s = (Inr r, s')" and "r \<noteq> Usage"
    and "command = ''create'' \<or> command = ''passwd''"
  shows "\<exists>n h row. normalizeUsername u = Some n \<and> hashPassword scrypt salt (strip_line_end stdin) = Inr h
    \<and> user_row n s' = Some row \<and> du_password_hash row = h"
proof -
  have u: "u \<noteq> []" using assms by (auto simp: admin_command_def)
  show ?thesis
  proof (cases "command = ''create''")
    case True
    with assms(1) u obtain user where "createDashboardUser scrypt salt u (strip_line_end stdin) s = (Inr user, s')"
      by (auto simp: admin_command_def bnd_eq_Inr Let_def)
    then show ?thesis
      by (auto simp: createDashboardUser_def bnd_eq_Inr lift_sum_def new_user_def user_row_def find_append_None
          split: option.splits sum.splits if_splits)
  next
    case False
    with assms u obtain user where run: "changeDashboardUserPassword scrypt salt u (strip_line_end stdin) s = (Inr (Some user), s')"
      by (auto simp: admin_command_def bnd_eq_Inr Let_def split: option.splits)
    then obtain n h where n: "normalizeUsername u = Some n" "hashPassword scrypt salt (strip_line_end stdin) = Inr h"
      "s' = s\<lparr>dashboard_users := upd_where (\<lambda>u. du_username u = n) (repassworded h (now_us s)) (dashboard_users s)\<rparr>"
      "user_row n s \<noteq> None"
      by (auto simp: changeDashboardUserPassword_def bnd_eq_Inr lift_sum_def split: option.splits sum.splits)
    have "user_row n s' = map_option (repassworded h (now_us s)) (user_row n s)"
      using n(3) by (simp add: user_row_def) (subst user_row_upd; auto)
    with n show ?thesis by (auto simp: repassworded_def)
  qed
qed

text \<open>C35: the password the command read is the one that logs in: after a successful \<open>create\<close> or \<open>passwd\<close>, a
  login under any spelling of the name is accepted exactly when the account is enabled and the
  password has the same key as the line that was read, without its line end.
\<close>

theorem cli_password_logs_in:
  assumes "cli_main scrypt salt pg databaseUrl [command, u, password_flag] stdin s = (x, s')" and "ex_status x = 0"
    and "command = ''create'' \<or> command = ''passwd''" and "length salt = SALT_LENGTH"
    and "\<And>pw t k. scrypt pw t KEY_LENGTH COST BLOCK_SIZE PARALLELIZATION = Inr k \<Longrightarrow> length k = KEY_LENGTH"
    and "normalizeUsername v = normalizeUsername u"
  shows "verifyDashboardCredentials scrypt v password s' \<noteq> None \<longleftrightarrow>
    (\<exists>a. getDashboardUser v s' = Some a \<and> dua_enabled a)
    \<and> scrypt password salt KEY_LENGTH COST BLOCK_SIZE PARALLELIZATION
        = scrypt (strip_line_end stdin) salt KEY_LENGTH COST BLOCK_SIZE PARALLELIZATION"
proof -
  obtain r where "admin_command scrypt salt [command, u, password_flag] stdin s = (Inr r, s')" "r \<noteq> Usage"
    using assms(1, 2) by (auto simp: cli_main_def split: if_splits prod.splits sum.splits cli_reply.splits)
  then obtain n h row where h: "normalizeUsername u = Some n" "hashPassword scrypt salt (strip_line_end stdin) = Inr h"
    "user_row n s' = Some row" "du_password_hash row = h" using stored_hash assms(3) by blast
  have "verifyPassword scrypt password h \<longleftrightarrow> scrypt password salt KEY_LENGTH COST BLOCK_SIZE PARALLELIZATION
      = scrypt (strip_line_end stdin) salt KEY_LENGTH COST BLOCK_SIZE PARALLELIZATION"
    by (rule verifyPassword_hash [OF h(2) assms(4) assms(5)])
  moreover have "verifyDashboardCredentials scrypt v password s' \<noteq> None \<longleftrightarrow> du_enabled row \<and> verifyPassword scrypt password h"
    using h assms(6) login_needs_account [of scrypt v password s'] by auto
  ultimately show ?thesis using h assms(6) by (auto simp: getDashboardUser_def rowToUser_def)
qed

section \<open>Witnesses\<close>

lemma cli_status_truthful_witness:
  "ex_status (fst (cli_main demo_scrypt [] (\<lambda>e. []) (Some ''db'') [''delete''] [] alice_db)) = 2
    \<and> snd (cli_main demo_scrypt [] (\<lambda>e. []) (Some ''db'') [''delete''] [] alice_db) = alice_db"
proof -
  have "ex_status (fst (cli_main demo_scrypt [] (\<lambda>e. []) (Some ''db'') [''delete''] [] alice_db)) = 2"
    by (simp add: cli_main_def admin_command_def truthy_def ret_def)
  then show ?thesis
    using cli_status_truthful [of demo_scrypt "[]" "\<lambda>e. []" "Some ''db''" "[''delete'']" "[]" alice_db] by (metis prod.collapse zero_neq_numeral)
qed

definition typed_line :: string where
  "typed_line = ''correct horse'' @ [CHR 0x0D, CHR 0x0A]"

lemma cli_password_logs_in_witness:
  "\<exists>x s'. cli_main demo_scrypt (replicate 16 (CHR ''s'')) (\<lambda>e. []) (Some ''db'') [''passwd'', ''alice'', password_flag] typed_line alice_db = (x, s')
    \<and> verifyDashboardCredentials demo_scrypt ''alice'' ''correct horse'' s' \<noteq> None
    \<and> verifyDashboardCredentials demo_scrypt ''alice'' ''wrong'' s' = None"
proof -
  let ?salt = "replicate 16 (CHR ''s'')"
  let ?key = "\<lambda>pw. demo_scrypt pw ?salt KEY_LENGTH COST BLOCK_SIZE PARALLELIZATION"
  have line: "strip_line_end typed_line = ''correct horse''" by (simp add: strip_line_end_def typed_line_def)
  obtain x s' where run: "cli_main demo_scrypt ?salt (\<lambda>e. []) (Some ''db'') [''passwd'', ''alice'', password_flag] typed_line alice_db = (x, s')"
    by fastforce
  have ok: "ex_status x = 0" and acc: "\<exists>a. getDashboardUser ''alice'' s' = Some a \<and> dua_enabled a"
    using run by (auto simp: cli_main_def admin_command_def truthy_def password_flag_def line changeDashboardUserPassword_def alice_name
        hashPassword_def validatePassword_def deriveKey_def demo_scrypt_def alice_db_def user_row_def alice_def new_user_def
        upd_where_def getDashboardUser_def rowToUser_def Let_def bnd_def)
  have len: "length ?salt = SALT_LENGTH" by (simp add: SALT_LENGTH_def)
  have "verifyDashboardCredentials demo_scrypt ''alice'' pw s' \<noteq> None \<longleftrightarrow> ?key pw = ?key ''correct horse''" for pw
    using cli_password_logs_in [OF run ok _ len _ refl, of pw] acc unfolding line by (auto simp: demo_scrypt_def)
  moreover have "?key ''wrong'' \<noteq> ?key ''correct horse''" by (simp add: demo_scrypt_def KEY_LENGTH_def)
  ultimately show ?thesis using run by blast
qed

end
