(* ===== verification/Migrate.thy ===== *)
theory Migrate
  imports Prelude
begin

text \<open>
  The migration runner \<open>control-plane/src/migrate.ts\<close>. What a file of SQL does to a schema, the content of
  the files and what other connections do between the statements are parameters. The runner sends its
  statements one after the other through a pool nobody else uses, which serves them all on one connection.
\<close>

section \<open>The runner\<close>

text \<open>\<open>mg_applied\<close>: the versions of \<open>schema_migrations\<close>, in the order of their insertion.\<close>

record 's migrated =
  mg_applied :: "string list"
  mg_schema :: 's

record 's migration_io =
  mi_listing :: "string list option"
  mi_read :: "string \<Rightarrow> string option"
  mi_sql :: "string \<Rightarrow> 's \<Rightarrow> err + 's"
  mi_meanwhile :: "string \<Rightarrow> 's migrated \<Rightarrow> 's migrated"

definition is_sql :: "string \<Rightarrow> bool" where
  "is_sql f \<longleftrightarrow> starts_with (rev ''.sql'') (rev f)"

text \<open>\<open>file.replace(/\.sql$/, '')\<close>.\<close>

definition migration_version :: "string \<Rightarrow> string" where
  "migration_version f = (if is_sql f then take (length f - 4) f else f)"

text \<open>The files in the order of \<open>sort\<close>, which compares character codes.\<close>

definition migration_files :: "string list \<Rightarrow> string list" where
  "migration_files listing = sort (filter is_sql listing)"

definition insert_version :: "string \<Rightarrow> ('s migrated, unit) act" where
  "insert_version v m =
     (if v \<in> set (mg_applied m) then (Inl (UniqueViolation ''schema_migrations_pkey''), m)
      else (Inr (), m\<lparr>mg_applied := mg_applied m @ [v]\<rparr>))"

definition run_sql :: "'s migration_io \<Rightarrow> string \<Rightarrow> ('s migrated, unit) act" where
  "run_sql io sql m =
     (case mi_sql io sql (mg_schema m) of
        Inl e \<Rightarrow> (Inl e, m)
      | Inr sc \<Rightarrow> (Inr (), m\<lparr>mg_schema := sc\<rparr>))"

text \<open>One file: the check, the reading of the file, and the transaction with its rollback.\<close>

definition migrate_file :: "'s migration_io \<Rightarrow> string \<Rightarrow> ('s migrated, unit) act" where
  "migrate_file io f = reading (\<lambda>m.
     let version = migration_version f in
     if version \<in> set (mg_applied m) then ret ()
     else (case mi_read io f of
             None \<Rightarrow> throw (PlainError ''ENOENT'')
           | Some sql \<Rightarrow>
               bnd (modify (mi_meanwhile io version)) (\<lambda>_.
               tx (bnd (run_sql io sql) (\<lambda>_. insert_version version)))))"

fun migrate_files :: "'s migration_io \<Rightarrow> string list \<Rightarrow> 's migrated \<Rightarrow> nat \<times> 's migrated" where
  "migrate_files io [] m = (0, m)"
| "migrate_files io (f # fs) m =
     (case migrate_file io f m of
        (Inl e, m') \<Rightarrow> (1, m')
      | (Inr _, m') \<Rightarrow> migrate_files io fs m')"

text \<open>The exit status and the state; a directory that cannot be read is not an error.\<close>

definition runMigrations :: "string option \<Rightarrow> 's migration_io \<Rightarrow> 's migrated \<Rightarrow> nat \<times> 's migrated" where
  "runMigrations databaseUrl io m =
     (if databaseUrl = None \<or> databaseUrl = Some [] then (1, m)
      else (case mi_listing io of
              None \<Rightarrow> (0, m)
            | Some listing \<Rightarrow> migrate_files io (migration_files listing) m))"

section \<open>Every migration once, in order\<close>

text \<open>The reference: the schema after a list of files.\<close>

fun schema_after :: "'s migration_io \<Rightarrow> string list \<Rightarrow> 's \<Rightarrow> 's option" where
  "schema_after io [] sc = Some sc"
| "schema_after io (f # fs) sc =
     (case mi_read io f of
        None \<Rightarrow> None
      | Some sql \<Rightarrow> (case mi_sql io sql sc of Inl e \<Rightarrow> None | Inr sc' \<Rightarrow> schema_after io fs sc'))"

definition pending :: "'s migrated \<Rightarrow> string list \<Rightarrow> string list" where
  "pending m fs = filter (\<lambda>f. migration_version f \<notin> set (mg_applied m)) fs"

text \<open>Nobody else changes the migrations or the schema meanwhile.\<close>

definition alone :: "'s migration_io \<Rightarrow> bool" where
  "alone io \<longleftrightarrow> (\<forall>v m. mi_meanwhile io v m = m)"

lemma sql_file: "is_sql f \<longleftrightarrow> (\<exists>v. f = v @ ''.sql'')"
proof
  assume "is_sql f"
  then obtain r where "rev f = rev ''.sql'' @ r"
    unfolding is_sql_def by (cases "rev f"; force elim: starts_with.elims)
  then have "f = rev r @ ''.sql''" by (metis rev_append rev_rev_ident)
  then show "\<exists>v. f = v @ ''.sql''" by blast
qed (auto simp: is_sql_def)

lemma migration_version_sql: "migration_version (v @ ''.sql'') = v"
  using sql_file [of "v @ ''.sql''"] by (auto simp: migration_version_def)

lemma migration_version_inj: "is_sql f \<Longrightarrow> is_sql g \<Longrightarrow> migration_version f = migration_version g \<Longrightarrow> f = g"
  by (auto simp: sql_file migration_version_sql simp del: append.simps)

text \<open>One file, when its version is not recorded yet.\<close>

lemma migrate_file_pending:
  assumes "migration_version f \<notin> set (mg_applied (mi_meanwhile io (migration_version f) m))" and "migration_version f \<notin> set (mg_applied m)"
  shows "(case schema_after io [f] (mg_schema (mi_meanwhile io (migration_version f) m)) of
      None \<Rightarrow> (\<exists>e. migrate_file io f m = (Inl e, if mi_read io f = None then m else mi_meanwhile io (migration_version f) m))
    | Some sc \<Rightarrow> migrate_file io f m =
        (Inr (), (mi_meanwhile io (migration_version f) m)\<lparr>mg_schema := sc,
           mg_applied := mg_applied (mi_meanwhile io (migration_version f) m) @ [migration_version f]\<rparr>))"
  using assms by (auto simp: migrate_file_def Let_def run_sql_def insert_version_def tx_def bnd_def
      split: option.splits sum.splits)

lemma migrate_file_applied: "migration_version f \<in> set (mg_applied m) \<Longrightarrow> migrate_file io f m = (Inr (), m)"
  by (simp add: migrate_file_def Let_def)

lemma migrate_files_alone:
  assumes "alone io" and "list_all is_sql fs" and "distinct fs" and "migrate_files io fs m = (st, m')"
  shows "\<exists>ran rest. pending m fs = ran @ rest \<and> mg_applied m' = mg_applied m @ map migration_version ran
    \<and> schema_after io ran (mg_schema m) = Some (mg_schema m')
    \<and> (st = 0 \<longleftrightarrow> rest = []) \<and> (rest \<noteq> [] \<longrightarrow> schema_after io [hd rest] (mg_schema m') = None)"
  using assms(2-4)
proof (induction fs arbitrary: m)
  case (Cons f fs)
  let ?v = "migration_version f"
  show ?case
  proof (cases "?v \<in> set (mg_applied m)")
    case True
    then show ?thesis using Cons by (simp add: migrate_file_applied pending_def)
  next
    case False
    have o: "mi_meanwhile io ?v m = m" using assms(1) by (simp add: alone_def)
    show ?thesis
    proof (cases "schema_after io [f] (mg_schema m)")
      case None
      then obtain e where "migrate_file io f m = (Inl e, m)"
        using migrate_file_pending [of f io m] False o by auto
      then have "st = 1 \<and> m' = m" using Cons.prems(3) by simp
      then show ?thesis using None False by (intro exI [of _ "[]"] exI [of _ "f # pending m fs"]) (simp add: pending_def)
    next
      case (Some sc)
      let ?m1 = "m\<lparr>mg_schema := sc, mg_applied := mg_applied m @ [?v]\<rparr>"
      have "migrate_file io f m = (Inr (), ?m1)" using migrate_file_pending [of f io m] False o Some by simp
      then have run: "migrate_files io fs ?m1 = (st, m')" using Cons.prems(3) by simp
      have "migration_version g \<noteq> ?v" if "g \<in> set fs" for g
        using that Cons.prems(1, 2) migration_version_inj [of g f] by (auto simp: list_all_iff)
      then have same: "pending ?m1 fs = pending m fs" by (auto simp: pending_def intro: filter_cong)
      obtain ran rest where r: "pending ?m1 fs = ran @ rest" "mg_applied m' = mg_applied ?m1 @ map migration_version ran"
        "schema_after io ran (mg_schema ?m1) = Some (mg_schema m')" "st = 0 \<longleftrightarrow> rest = []"
        "rest \<noteq> [] \<longrightarrow> schema_after io [hd rest] (mg_schema m') = None"
        using Cons.IH [OF _ _ run] Cons.prems(1, 2) by auto
      have "schema_after io (f # ran) (mg_schema m) = Some (mg_schema m')"
        using Some r(3) by (auto split: option.splits sum.splits)
      then show ?thesis using r same False by (intro exI [of _ "f # ran"] exI [of _ rest]) (simp add: pending_def)
    qed
  qed
qed (simp add: pending_def)

text \<open>C34: every migration runs once, in order. A run of the migrations performs a first part of the files that
  are not recorded yet, in the order of their names, records exactly those, and leaves the schema
  exactly as these files make it, nothing of the one that failed. The status is 0 iff none is left; the
  ones that are left are what the next run starts with, and after a complete run there is nothing to do.
\<close>

theorem migrations_run_once:
  assumes "alone io" and "mi_listing io = Some listing" and "distinct listing" and "url \<noteq> []"
    and "runMigrations (Some url) io m = (st, m')"
  shows "\<exists>ran rest. pending m (migration_files listing) = ran @ rest
    \<and> mg_applied m' = mg_applied m @ map migration_version ran
    \<and> schema_after io ran (mg_schema m) = Some (mg_schema m')
    \<and> (st = 0 \<longleftrightarrow> rest = []) \<and> pending m' (migration_files listing) = rest
    \<and> (st = 0 \<longrightarrow> runMigrations (Some url) io m' = (0, m'))"
proof -
  let ?fs = "migration_files listing"
  have fs: "list_all is_sql ?fs" "distinct ?fs" using assms(3) by (auto simp: migration_files_def list_all_iff)
  have run: "migrate_files io ?fs m = (st, m')" using assms by (simp add: runMigrations_def)
  obtain ran rest where r: "pending m ?fs = ran @ rest" "mg_applied m' = mg_applied m @ map migration_version ran"
    "schema_after io ran (mg_schema m) = Some (mg_schema m')" "st = 0 \<longleftrightarrow> rest = []"
    using migrate_files_alone [OF assms(1) fs run] by blast
  have d: "distinct (map migration_version ?fs)"
    using fs by (auto simp: distinct_map inj_on_def list_all_iff intro: migration_version_inj)
  have "distinct (map migration_version (ran @ rest))" using d r(1) by (metis distinct_map_filter pending_def)
  then have "filter (\<lambda>f. migration_version f \<notin> migration_version ` set ran) (ran @ rest) = rest"
    by (auto simp: filter_empty_conv intro!: filter_True)
  moreover have "pending m' ?fs = filter (\<lambda>f. migration_version f \<notin> migration_version ` set ran) (pending m ?fs)"
    using r(2) by (auto simp: pending_def intro: filter_cong)
  ultimately have p: "pending m' ?fs = rest" using r(1) by simp
  have "runMigrations (Some url) io m' = (0, m')" if "st = 0"
  proof -
    obtain st2 m2 where run2: "migrate_files io ?fs m' = (st2, m2)" by fastforce
    have "pending m' ?fs = []" using p r(4) that by simp
    then have "st2 = 0 \<and> mg_applied m2 = mg_applied m' \<and> mg_schema m2 = mg_schema m'"
      using migrate_files_alone [OF assms(1) fs run2] by auto
    then show ?thesis using run2 assms(2, 4) by (simp add: runMigrations_def)
  qed
  with r p show ?thesis by blast
qed

section \<open>Other runners\<close>

text \<open>The recorded migrations are distinct, and the schema is what they make of \<open>base\<close>.\<close>

definition faithful :: "'s migration_io \<Rightarrow> 's \<Rightarrow> 's migrated \<Rightarrow> bool" where
  "faithful io base m \<longleftrightarrow> distinct (mg_applied m)
     \<and> schema_after io (map (\<lambda>v. v @ ''.sql'') (mg_applied m)) base = Some (mg_schema m)"

lemma schema_after_append:
  "schema_after io (fs @ gs) sc = Option.bind (schema_after io fs sc) (schema_after io gs)"
  by (induction fs arbitrary: sc) (auto split: option.splits sum.splits)

lemma migrate_file_faithful:
  assumes "is_sql f" and "faithful io base m" and "\<And>v m. faithful io base m \<Longrightarrow> faithful io base (mi_meanwhile io v m)"
  shows "faithful io base (snd (migrate_file io f m))"
proof -
  let ?v = "migration_version f" and ?o = "mi_meanwhile io (migration_version f) m"
  have f: "?v @ ''.sql'' = f" using assms(1) by (auto simp: sql_file migration_version_sql simp del: append.simps)
  have o: "faithful io base ?o" using assms(2, 3) by blast
  show ?thesis
  proof (cases "?v \<in> set (mg_applied m) \<or> ?v \<in> set (mg_applied ?o)")
    case True
    then have "snd (migrate_file io f m) \<in> {m, ?o}"
      by (auto simp: migrate_file_def Let_def run_sql_def insert_version_def tx_def bnd_def split: option.splits sum.splits)
    with assms(2) o show ?thesis by auto
  next
    case False
    show ?thesis
    proof (cases "schema_after io [f] (mg_schema ?o)")
      case None
      then show ?thesis using migrate_file_pending [of f io m] False assms(2) o by auto
    next
      case (Some sc)
      then show ?thesis
        using migrate_file_pending [of f io m] False o f by (auto simp: faithful_def schema_after_append)
    qed
  qed
qed

text \<open>
  Runners may overlap. Whatever other connections commit between a runner's statements, if they keep the
  records faithful to the schema, so does the runner: no migration is recorded twice and none is
  applied without its record or recorded without its effect.
\<close>

theorem migrations_stay_faithful:
  assumes "faithful io base m" and "\<And>v m. faithful io base m \<Longrightarrow> faithful io base (mi_meanwhile io v m)"
  shows "faithful io base (snd (runMigrations databaseUrl io m))"
proof -
  have "faithful io base (snd (migrate_files io fs m))" if "list_all is_sql fs" "faithful io base m" for fs m
    using that
  proof (induction fs arbitrary: m)
    case (Cons f fs)
    have "faithful io base (snd (migrate_file io f m))" using Cons.prems assms(2) by (intro migrate_file_faithful) auto
    with Cons show ?case by (cases "migrate_file io f m") (auto split: sum.splits)
  qed simp
  with assms(1) show ?thesis
    by (auto simp: runMigrations_def migration_files_def list_all_iff split: option.splits)
qed

section \<open>Witnesses\<close>

text \<open>Two migrations that each add a table, listed in the wrong order; the first one is applied already.\<close>

definition demo_io :: "string list migration_io" where
  "demo_io = \<lparr>mi_listing = Some [''2.sql'', ''1.sql'', ''notes.txt''], mi_read = (\<lambda>f. Some (take 1 f)),
     mi_sql = (\<lambda>sql tables. if sql \<in> set tables then Inl (PlainError ''exists'') else Inr (tables @ [sql])),
     mi_meanwhile = (\<lambda>v m. m)\<rparr>"

definition demo_migrated :: "string list migrated" where
  "demo_migrated = \<lparr>mg_applied = [''1''], mg_schema = [''1'']\<rparr>"

lemma demo_files: "migration_files [''2.sql'', ''1.sql'', ''notes.txt''] = [''1.sql'', ''2.sql'']"
  by (simp add: migration_files_def is_sql_def less_char_def)

lemma migrations_run_once_witness:
  "runMigrations (Some ''db'') demo_io demo_migrated = (0, \<lparr>mg_applied = [''1'', ''2''], mg_schema = [''1'', ''2'']\<rparr>)
    \<and> runMigrations (Some ''db'') demo_io \<lparr>mg_applied = [''1'', ''2''], mg_schema = [''1'', ''2'']\<rparr>
      = (0, \<lparr>mg_applied = [''1'', ''2''], mg_schema = [''1'', ''2'']\<rparr>)"
proof -
  have v: "migration_version ''1.sql'' = ''1''" "migration_version ''2.sql'' = ''2''" by (simp_all add: migration_version_def is_sql_def)
  have run: "runMigrations (Some ''db'') demo_io demo_migrated = (0, \<lparr>mg_applied = [''1'', ''2''], mg_schema = [''1'', ''2'']\<rparr>)"
    by (simp add: runMigrations_def demo_io_def demo_files demo_migrated_def migrate_file_def v Let_def tx_def bnd_def run_sql_def
        insert_version_def)
  have "alone demo_io" by (simp add: alone_def demo_io_def)
  from migrations_run_once [OF this _ _ _ run] run show ?thesis by (auto simp: demo_io_def)
qed

lemma migrations_stay_faithful_witness:
  "faithful demo_io [] (snd (runMigrations (Some ''db'') demo_io demo_migrated))"
  by (rule migrations_stay_faithful) (simp_all add: faithful_def demo_io_def demo_migrated_def)

end
