(* ===== verification/Lifecycle.thy ===== *)
theory Lifecycle
  imports Service
begin

text \<open>
  The life of the process, \<open>main\<close> of \<open>control-plane/src/index.ts\<close> with \<open>start\<close>, \<open>stop\<close> and \<open>loop\<close> of
  \<open>worker.ts\<close>: the worker loops, the maintenance timers of \<open>Service\<close>, the HTTP server and its requests, the
  connection pool, and the shutdown a signal starts. What a loop or a request does with the database is
  modelled elsewhere; here it matters only that it uses it.
\<close>

section \<open>The process\<close>

text \<open>
  A worker loop works with the database (\<open>Busy\<close>), sleeps, or has left its \<open>while\<close>. A call of
  \<open>shutdown\<close> is known by what it waits for.
\<close>

datatype loop_state = Busy | Sleeping | Done
datatype shutdown_call = AwaitMaintenance | AwaitWorker | AwaitClose | AwaitPool

record process =
  pr_scheduler :: "scheduler option"
  pr_stopped :: bool
  pr_loops :: "loop_state list"
  pr_listening :: bool
  pr_closed :: bool
  pr_requests :: nat
  pr_pool_ended :: bool
  pr_calls :: "shutdown_call list"
  pr_exit :: "nat option"

text \<open>The \<open>while\<close> of \<open>loop\<close>.\<close>

definition loop_head :: "bool \<Rightarrow> loop_state" where
  "loop_head stopped = (if stopped then Done else Busy)"

text \<open>\<open>main\<close> up to \<open>app.listen\<close>.\<close>

definition boot :: "env \<Rightarrow> process" where
  "boot e =
     \<lparr>pr_scheduler = (if e_workerEnabled e then Some (start new_scheduler) else None), pr_stopped = False,
      pr_loops = (if e_workerEnabled e then map (\<lambda>_. loop_head False) (worker_lanes e) else []),
      pr_listening = False, pr_closed = False, pr_requests = 0, pr_pool_ended = False, pr_calls = [], pr_exit = None\<rparr>"

definition maintenance_idle :: "process \<Rightarrow> bool" where
  "maintenance_idle p \<longleftrightarrow> (\<forall>c. pr_scheduler p = Some c \<longrightarrow> sc_running c = 0 \<and> sc_rescheduling c = 0)"

text \<open>The call's next step, when what it waits for is there; \<open>pool.end()\<close> rejects a second call.\<close>

definition shutdown_next :: "nat \<Rightarrow> process \<Rightarrow> process option" where
  "shutdown_next k p =
     (case pr_calls p ! k of
        AwaitMaintenance \<Rightarrow>
          if maintenance_idle p then Some (p\<lparr>pr_stopped := True, pr_calls := (pr_calls p)[k := AwaitWorker]\<rparr>) else None
      | AwaitWorker \<Rightarrow>
          if set (pr_loops p) \<subseteq> {Done}
          then Some (p\<lparr>pr_listening := False, pr_closed := True, pr_calls := (pr_calls p)[k := AwaitClose]\<rparr>) else None
      | AwaitClose \<Rightarrow>
          if 0 < pr_requests p then None
          else if pr_pool_ended p then Some (p\<lparr>pr_exit := Some 1\<rparr>)
          else Some (p\<lparr>pr_pool_ended := True, pr_calls := (pr_calls p)[k := AwaitPool]\<rparr>)
      | AwaitPool \<Rightarrow> Some (p\<lparr>pr_exit := Some 0\<rparr>))"

inductive process_step :: "process \<Rightarrow> process \<Rightarrow> bool" where
  ps_listen: "pr_exit p = None \<Longrightarrow> \<not> pr_closed p \<Longrightarrow> process_step p (p\<lparr>pr_listening := True\<rparr>)"
| ps_listen_fails: "pr_exit p = None \<Longrightarrow> \<not> pr_listening p \<Longrightarrow> process_step p (p\<lparr>pr_exit := Some 1\<rparr>)"
| ps_request: "pr_exit p = None \<Longrightarrow> pr_listening p \<Longrightarrow> process_step p (p\<lparr>pr_requests := pr_requests p + 1\<rparr>)"
| ps_answer: "pr_exit p = None \<Longrightarrow> 0 < pr_requests p \<Longrightarrow> process_step p (p\<lparr>pr_requests := pr_requests p - 1\<rparr>)"
| ps_maintenance: "pr_exit p = None \<Longrightarrow> pr_scheduler p = Some c \<Longrightarrow> scheduler_step c d
    \<Longrightarrow> process_step p (p\<lparr>pr_scheduler := Some d\<rparr>)"
| ps_sleep: "pr_exit p = None \<Longrightarrow> i < length (pr_loops p) \<Longrightarrow> pr_loops p ! i = Busy
    \<Longrightarrow> process_step p (p\<lparr>pr_loops := (pr_loops p)[i := Sleeping]\<rparr>)"
| ps_turn: "pr_exit p = None \<Longrightarrow> i < length (pr_loops p) \<Longrightarrow> pr_loops p ! i \<noteq> Done
    \<Longrightarrow> process_step p (p\<lparr>pr_loops := (pr_loops p)[i := loop_head (pr_stopped p)]\<rparr>)"
| ps_signal: "pr_exit p = None
    \<Longrightarrow> process_step p (p\<lparr>pr_scheduler := map_option stop (pr_scheduler p), pr_calls := pr_calls p @ [AwaitMaintenance]\<rparr>)"
| ps_shutdown: "pr_exit p = None \<Longrightarrow> k < length (pr_calls p) \<Longrightarrow> shutdown_next k p = Some q \<Longrightarrow> process_step p q"

inductive_cases process_stepE: "process_step p q"

definition uses_database :: "process \<Rightarrow> bool" where
  "uses_database p \<longleftrightarrow> \<not> maintenance_idle p \<or> Busy \<in> set (pr_loops p) \<or> 0 < pr_requests p"

section \<open>The pool is ended last\<close>

fun rank :: "shutdown_call \<Rightarrow> nat" where
  "rank AwaitMaintenance = 0"
| "rank AwaitWorker = 1"
| "rank AwaitClose = 2"
| "rank AwaitPool = 3"

text \<open>The calls of \<open>shutdown\<close> in the order they come in.\<close>

instantiation shutdown_call :: linorder
begin

definition less_eq_shutdown_call :: "shutdown_call \<Rightarrow> shutdown_call \<Rightarrow> bool" where
  "less_eq_shutdown_call a b \<longleftrightarrow> rank a \<le> rank b"

definition less_shutdown_call :: "shutdown_call \<Rightarrow> shutdown_call \<Rightarrow> bool" where
  "less_shutdown_call a b \<longleftrightarrow> rank a < rank b"

instance
proof
  fix a b :: shutdown_call
  show "a \<le> b \<Longrightarrow> b \<le> a \<Longrightarrow> a = b"
    by (cases a; cases b) (simp_all add: less_eq_shutdown_call_def)
qed (auto simp: less_eq_shutdown_call_def less_shutdown_call_def)

end

lemmas shutdown_order [simp] = less_eq_shutdown_call_def less_shutdown_call_def

text \<open>What has to have happened before what.\<close>

definition orderly :: "process \<Rightarrow> bool" where
  "orderly p \<longleftrightarrow>
     (\<forall>c. pr_scheduler p = Some c \<longrightarrow> scheduler_ok c \<and> (pr_calls p \<noteq> [] \<longrightarrow> sc_stopped c))
     \<and> (pr_stopped p \<longrightarrow> maintenance_idle p \<and> pr_calls p \<noteq> [])
     \<and> (pr_closed p \<longrightarrow> pr_stopped p \<and> set (pr_loops p) \<subseteq> {Done} \<and> \<not> pr_listening p)
     \<and> (pr_pool_ended p \<longrightarrow> pr_closed p \<and> pr_requests p = 0)
     \<and> (\<forall>x \<in> set (pr_calls p). (AwaitWorker \<le> x \<longrightarrow> pr_stopped p) \<and> (AwaitClose \<le> x \<longrightarrow> pr_closed p)
          \<and> (AwaitPool \<le> x \<longrightarrow> pr_pool_ended p))"

lemma scheduler_stop_ok: "scheduler_ok c \<Longrightarrow> scheduler_ok (stop c) \<and> sc_stopped (stop c)"
  using scheduler_step_ok [OF ss_stop] by (simp add: stop_def)

lemma orderly_boot: "orderly (boot e)"
proof -
  have "scheduler_ok (start new_scheduler)"
    by (rule scheduler_step_ok [OF ss_start]) (simp add: new_scheduler_def scheduler_ok_def)
  then show ?thesis by (simp add: orderly_def boot_def)
qed

lemma orderly_maintenance:
  assumes "orderly p" and "pr_scheduler p = Some c" and "scheduler_step c d"
  shows "orderly (p\<lparr>pr_scheduler := Some d\<rparr>)"
proof -
  have "scheduler_ok d" using assms scheduler_step_ok by (auto simp: orderly_def)
  moreover have "sc_stopped d \<and> sc_running d \<le> sc_running c \<and> sc_rescheduling d \<le> sc_rescheduling c" if "pr_calls p \<noteq> []"
    using that assms stopped_step by (auto simp: orderly_def)
  ultimately show ?thesis using assms(1, 2) by (fastforce simp: orderly_def maintenance_idle_def)
qed

lemma orderly_loops:
  assumes "orderly p" and "i < length (pr_loops p)" and "pr_loops p ! i \<noteq> Done"
  shows "orderly (p\<lparr>pr_loops := (pr_loops p)[i := x]\<rparr>)"
proof -
  have "pr_loops p ! i \<in> set (pr_loops p)" using assms(2) by simp
  then have "\<not> set (pr_loops p) \<subseteq> {Done}" using assms(3) by auto
  then have "\<not> pr_closed p" using assms(1) unfolding orderly_def by blast
  with assms(1) show ?thesis by (auto simp: orderly_def maintenance_idle_def)
qed

lemma in_update: "x \<in> set (xs[k := y]) \<Longrightarrow> x = y \<or> x \<in> set xs"
  using set_update_subset_insert by fastforce

lemma orderly_shutdown:
  assumes "orderly p" and "k < length (pr_calls p)" and "shutdown_next k p = Some q"
  shows "orderly q"
proof -
  have k: "pr_calls p ! k \<in> set (pr_calls p)" and ne: "pr_calls p \<noteq> []" using assms(2) by auto
  show ?thesis
  proof (cases "pr_calls p ! k")
    case AwaitMaintenance
    then have "maintenance_idle p" and "q = p\<lparr>pr_stopped := True, pr_calls := (pr_calls p)[k := AwaitWorker]\<rparr>"
      using assms(3) by (auto simp: shutdown_next_def split: if_splits)
    with assms(1) ne show ?thesis by (auto simp: orderly_def maintenance_idle_def dest!: in_update)
  next
    case AwaitWorker
    then have "set (pr_loops p) \<subseteq> {Done}"
      and "q = p\<lparr>pr_listening := False, pr_closed := True, pr_calls := (pr_calls p)[k := AwaitClose]\<rparr>" and "pr_stopped p"
      using assms(1, 3) k by (auto simp: shutdown_next_def orderly_def split: if_splits)
    with assms(1) ne show ?thesis by (auto simp: orderly_def maintenance_idle_def dest!: in_update)
  next
    case AwaitClose
    then have "pr_closed p" using assms(1) k by (auto simp: orderly_def)
    with AwaitClose assms(1, 3) ne show ?thesis
      by (auto simp: shutdown_next_def orderly_def maintenance_idle_def split: if_splits dest!: in_update)
  next
    case AwaitPool
    then show ?thesis using assms by (auto simp: shutdown_next_def orderly_def maintenance_idle_def)
  qed
qed

lemma orderly_step: "process_step p q \<Longrightarrow> orderly p \<Longrightarrow> orderly q"
proof (induction rule: process_step.induct)
  case (ps_signal p)
  then show ?case
    using scheduler_stop_ok by (auto simp: orderly_def maintenance_idle_def stop_def)
next
  case (ps_maintenance p c d)
  then show ?case by (intro orderly_maintenance)
next
  case (ps_sleep p i)
  then show ?case by (intro orderly_loops) simp_all
next
  case (ps_turn p i)
  then show ?case by (intro orderly_loops)
next
  case (ps_shutdown p k q)
  then show ?case by (blast intro: orderly_shutdown)
qed (auto simp: orderly_def maintenance_idle_def)

lemma orderly_reachable: "process_step\<^sup>*\<^sup>* (boot e) p \<Longrightarrow> orderly p"
  by (induction rule: rtranclp_induct) (auto intro: orderly_boot orderly_step)


section \<open>A shutdown finishes\<close>

abbreviation steps :: "process \<Rightarrow> process \<Rightarrow> bool" where
  "steps \<equiv> process_step\<^sup>*\<^sup>*"

text \<open>The runs of maintenance end, the loops come to their \<open>while\<close>, and the requests are answered.\<close>

lemma same_field:
  "sc_running c = n \<Longrightarrow> c\<lparr>sc_running := n\<rparr> = c"
  "sc_rescheduling c = n \<Longrightarrow> c\<lparr>sc_rescheduling := n\<rparr> = c"
  "pr_scheduler p = x \<Longrightarrow> p\<lparr>pr_scheduler := x\<rparr> = p"
  "pr_requests p = n \<Longrightarrow> p\<lparr>pr_requests := n\<rparr> = p"
  by auto

lemma run_ends:
  assumes "pr_exit p = None" and "pr_scheduler p = Some c" and "sc_stopped c"
  shows "steps p (p\<lparr>pr_scheduler := Some (c\<lparr>sc_running := 0\<rparr>)\<rparr>)"
  using assms
proof (induction "sc_running c" arbitrary: p c)
  case (Suc n)
  let ?c = "c\<lparr>sc_running := sc_running c - 1\<rparr>"
  have "scheduler_step c ?c" using ss_end [of c] Suc.hyps(2) Suc.prems(3) by (simp add: schedule_def)
  then have "process_step p (p\<lparr>pr_scheduler := Some ?c\<rparr>)" using Suc.prems by (blast intro: ps_maintenance)
  moreover have "steps (p\<lparr>pr_scheduler := Some ?c\<rparr>) (p\<lparr>pr_scheduler := Some (?c\<lparr>sc_running := 0\<rparr>)\<rparr>)"
    using Suc.hyps(1) [of ?c "p\<lparr>pr_scheduler := Some ?c\<rparr>"] Suc.hyps(2) Suc.prems by simp
  ultimately show ?case by (simp add: converse_rtranclp_into_rtranclp)
qed (simp add: same_field)

lemma reschedule_ends:
  assumes "pr_exit p = None" and "pr_scheduler p = Some c" and "sc_stopped c"
  shows "steps p (p\<lparr>pr_scheduler := Some (c\<lparr>sc_rescheduling := 0\<rparr>)\<rparr>)"
  using assms
proof (induction "sc_rescheduling c" arbitrary: p c)
  case (Suc n)
  let ?c = "c\<lparr>sc_rescheduling := sc_rescheduling c - 1\<rparr>"
  have "scheduler_step c ?c" using ss_reend [of c] Suc.hyps(2) Suc.prems(3) by simp
  then have "process_step p (p\<lparr>pr_scheduler := Some ?c\<rparr>)" using Suc.prems by (blast intro: ps_maintenance)
  moreover have "steps (p\<lparr>pr_scheduler := Some ?c\<rparr>) (p\<lparr>pr_scheduler := Some (?c\<lparr>sc_rescheduling := 0\<rparr>)\<rparr>)"
    using Suc.hyps(1) [of ?c "p\<lparr>pr_scheduler := Some ?c\<rparr>"] Suc.hyps(2) Suc.prems by simp
  ultimately show ?case by (simp add: converse_rtranclp_into_rtranclp)
qed (simp add: same_field)

lemma maintenance_ends:
  assumes "pr_exit p = None" and "\<forall>c. pr_scheduler p = Some c \<longrightarrow> sc_stopped c"
  shows "\<exists>x. steps p (p\<lparr>pr_scheduler := x\<rparr>) \<and> maintenance_idle (p\<lparr>pr_scheduler := x\<rparr>)"
proof (cases "pr_scheduler p")
  case None
  then show ?thesis by (intro exI [of _ None]) (simp add: maintenance_idle_def same_field)
next
  case (Some c)
  let ?p = "p\<lparr>pr_scheduler := Some (c\<lparr>sc_running := 0\<rparr>)\<rparr>" and ?d = "c\<lparr>sc_running := 0, sc_rescheduling := 0\<rparr>"
  have "steps p ?p" using run_ends assms Some by blast
  moreover have "steps ?p (?p\<lparr>pr_scheduler := Some ?d\<rparr>)"
    using reschedule_ends [of ?p "c\<lparr>sc_running := 0\<rparr>"] assms Some by simp
  ultimately have "steps p (p\<lparr>pr_scheduler := Some ?d\<rparr>)" by simp
  then show ?thesis by (intro exI [of _ "Some ?d"]) (simp add: maintenance_idle_def)
qed

lemma loops_end:
  assumes "pr_exit p = None" and "pr_stopped p"
  shows "\<exists>ls. steps p (p\<lparr>pr_loops := ls\<rparr>) \<and> set ls \<subseteq> {Done}"
  using assms
proof (induction "length (filter (\<lambda>x. x \<noteq> Done) (pr_loops p))" arbitrary: p rule: less_induct)
  case less
  show ?case
  proof (cases "set (pr_loops p) \<subseteq> {Done}")
    case True
    then show ?thesis by (intro exI [of _ "pr_loops p"]) simp
  next
    case False
    then obtain i where i: "i < length (pr_loops p)" "pr_loops p ! i \<noteq> Done" by (metis in_set_conv_nth insertI1 subsetI)
    let ?q = "p\<lparr>pr_loops := (pr_loops p)[i := Done]\<rparr>"
    have step: "process_step p ?q" using ps_turn [OF less.prems(1) i] less.prems(2) by (simp add: loop_head_def)
    have "filter (\<lambda>x. x \<noteq> Done) (take i xs @ Done # drop (Suc i) xs) = filter (\<lambda>x. x \<noteq> Done) (take i xs) @ filter (\<lambda>x. x \<noteq> Done) (drop (Suc i) xs)" for xs
      by simp
    moreover have "filter (\<lambda>x. x \<noteq> Done) (pr_loops p)
        = filter (\<lambda>x. x \<noteq> Done) (take i (pr_loops p)) @ pr_loops p ! i # filter (\<lambda>x. x \<noteq> Done) (drop (Suc i) (pr_loops p))"
      using i by (subst id_take_nth_drop [OF i(1)]) simp
    ultimately have "length (filter (\<lambda>x. x \<noteq> Done) (pr_loops ?q)) < length (filter (\<lambda>x. x \<noteq> Done) (pr_loops p))"
      using i(1) by (simp add: upd_conv_take_nth_drop)
    from less.hyps [OF this] less.prems obtain ls where "steps ?q (?q\<lparr>pr_loops := ls\<rparr>)" "set ls \<subseteq> {Done}" by auto
    then show ?thesis using step by (intro exI [of _ ls]) (simp add: converse_rtranclp_into_rtranclp)
  qed
qed

lemma requests_end: "pr_exit p = None \<Longrightarrow> steps p (p\<lparr>pr_requests := 0\<rparr>)"
proof (induction "pr_requests p" arbitrary: p)
  case (Suc n)
  let ?q = "p\<lparr>pr_requests := pr_requests p - 1\<rparr>"
  have "process_step p ?q" using Suc by (intro ps_answer) simp_all
  moreover have "steps ?q (?q\<lparr>pr_requests := 0\<rparr>)" using Suc.hyps(1) [of ?q] Suc by simp
  ultimately show ?case by (simp add: converse_rtranclp_into_rtranclp)
qed (simp add: same_field)

text \<open>As long as there is one call, the pool is ended only when the call waits for that.\<close>

lemma pool_call: "steps (boot e) p \<Longrightarrow> pr_pool_ended p \<longrightarrow> AwaitPool \<in> set (pr_calls p)"
proof (induction rule: rtranclp_induct)
  case (step p q)
  from step(2) show ?case
  proof (cases rule: process_step.cases)
    case (ps_shutdown k)
    have "x \<in> set xs \<Longrightarrow> xs ! k \<noteq> x \<Longrightarrow> x \<in> set (xs[k := y])" for x y and xs :: "shutdown_call list"
      by (metis in_set_conv_nth length_list_update nth_list_update_neq)
    with ps_shutdown step(3) show ?thesis
      by (auto simp: shutdown_next_def set_update_memI split: shutdown_call.splits if_splits)
  qed (use step(3) in auto)
qed (simp add: boot_def)

text \<open>The stages of a shutdown that is alone.\<close>

lemma finish_pool:
  "pr_exit p = None \<Longrightarrow> pr_calls p = [AwaitPool] \<Longrightarrow> \<exists>q. steps p q \<and> pr_exit q = Some 0"
  using ps_shutdown [of p 0 "p\<lparr>pr_exit := Some 0\<rparr>"]
  by (intro exI [of _ "p\<lparr>pr_exit := Some 0\<rparr>"]) (simp add: shutdown_next_def r_into_rtranclp)

lemma finish_close:
  assumes "pr_exit p = None" and "pr_calls p = [AwaitClose]" and "\<not> pr_pool_ended p"
  shows "\<exists>q. steps p q \<and> pr_exit q = Some 0"
proof -
  let ?p = "p\<lparr>pr_requests := 0\<rparr>"
  let ?q = "?p\<lparr>pr_pool_ended := True, pr_calls := [AwaitPool]\<rparr>"
  have "process_step ?p ?q" using assms by (intro ps_shutdown [of _ 0]) (simp_all add: shutdown_next_def)
  moreover obtain q where "steps ?q q" "pr_exit q = Some 0" using finish_pool [of ?q] assms by auto
  ultimately show ?thesis using requests_end [OF assms(1)] by (meson converse_rtranclp_into_rtranclp rtranclp_trans)
qed

lemma finish_worker:
  assumes "pr_exit p = None" and "pr_calls p = [AwaitWorker]" and "\<not> pr_pool_ended p" and "pr_stopped p"
  shows "\<exists>q. steps p q \<and> pr_exit q = Some 0"
proof -
  obtain ls where ls: "steps p (p\<lparr>pr_loops := ls\<rparr>)" "set ls \<subseteq> {Done}" using loops_end assms by blast
  let ?p = "p\<lparr>pr_loops := ls\<rparr>"
  let ?q = "?p\<lparr>pr_listening := False, pr_closed := True, pr_calls := [AwaitClose]\<rparr>"
  have "process_step ?p ?q" using assms ls(2) by (intro ps_shutdown [of _ 0]) (simp_all add: shutdown_next_def)
  moreover obtain q where "steps ?q q" "pr_exit q = Some 0" using finish_close [of ?q] assms by auto
  ultimately show ?thesis using ls(1) by (meson converse_rtranclp_into_rtranclp rtranclp_trans)
qed

lemma finish_maintenance:
  assumes "pr_exit p = None" and "pr_calls p = [AwaitMaintenance]" and "\<not> pr_pool_ended p"
    and "\<forall>c. pr_scheduler p = Some c \<longrightarrow> sc_stopped c"
  shows "\<exists>q. steps p q \<and> pr_exit q = Some 0"
proof -
  obtain x where x: "steps p (p\<lparr>pr_scheduler := x\<rparr>)" "maintenance_idle (p\<lparr>pr_scheduler := x\<rparr>)"
    using maintenance_ends assms by blast
  let ?p = "p\<lparr>pr_scheduler := x\<rparr>"
  let ?q = "?p\<lparr>pr_stopped := True, pr_calls := [AwaitWorker]\<rparr>"
  have "process_step ?p ?q" using assms x(2) by (intro ps_shutdown [of _ 0]) (simp_all add: shutdown_next_def)
  moreover obtain q where "steps ?q q" "pr_exit q = Some 0" using finish_worker [of ?q] assms by auto
  ultimately show ?thesis using x(1) by (meson converse_rtranclp_into_rtranclp rtranclp_trans)
qed

text \<open>A shutdown finishes. From every state in which one signal has arrived, the process can still end with
  status 0: nothing the shutdown waits for depends on something that has already been stopped.
\<close>

theorem shutdown_finishes:
  assumes "steps (boot e) p" and "pr_calls p = [x]" and "pr_exit p = None"
  shows "\<exists>q. steps p q \<and> pr_exit q = Some 0"
proof -
  have o: "orderly p" by (rule orderly_reachable [OF assms(1)])
  then have c: "\<forall>c. pr_scheduler p = Some c \<longrightarrow> sc_stopped c" using assms(2) by (auto simp: orderly_def)
  have "pr_pool_ended p \<Longrightarrow> x = AwaitPool" using pool_call [OF assms(1)] assms(2) by simp
  then show ?thesis
  proof (cases x)
    case AwaitMaintenance
    then show ?thesis using finish_maintenance c assms pool_call [OF assms(1)] by auto
  next
    case AwaitWorker
    then show ?thesis using finish_worker o assms pool_call [OF assms(1)] by (auto simp: orderly_def)
  next
    case AwaitClose
    then show ?thesis using finish_close assms pool_call [OF assms(1)] by auto
  next
    case AwaitPool
    then show ?thesis using finish_pool assms by auto
  qed
qed

section \<open>Two signals\<close>

text \<open>
  A second signal starts a second shutdown. Both come to \<open>pool.end()\<close>, and the pool rejects the second
  call: nobody handles the rejection, and the process ends with status 1.
\<close>

lemma second_signal_crashes:
  assumes "\<not> e_workerEnabled e"
  shows "\<exists>p k. steps (boot e) p \<and> pr_pool_ended p \<and> k < length (pr_calls p) \<and> pr_calls p ! k = AwaitClose
    \<and> shutdown_next k p = Some (p\<lparr>pr_exit := Some 1\<rparr>)"
proof -
  define p1 where "p1 = (boot e)\<lparr>pr_calls := [AwaitMaintenance, AwaitMaintenance]\<rparr>"
  define p2 where "p2 = p1\<lparr>pr_stopped := True, pr_calls := [AwaitWorker, AwaitWorker]\<rparr>"
  define p3 where "p3 = p2\<lparr>pr_listening := False, pr_closed := True, pr_calls := [AwaitClose, AwaitClose]\<rparr>"
  define p4 where "p4 = p3\<lparr>pr_pool_ended := True, pr_calls := [AwaitPool, AwaitClose]\<rparr>"
  note defs = p4_def p3_def p2_def p1_def
  have b: "pr_scheduler (boot e) = None" "pr_exit (boot e) = None" "pr_loops (boot e) = []" "pr_calls (boot e) = []"
    "pr_requests (boot e) = 0" "\<not> pr_pool_ended (boot e)"
    using assms by (simp_all add: boot_def)
  let ?one = "(boot e)\<lparr>pr_calls := [AwaitMaintenance]\<rparr>"
  have "process_step (boot e) ?one" using ps_signal [of "boot e"] b by (simp add: same_field)
  moreover have "process_step ?one p1" using ps_signal [of ?one] b by (simp add: same_field p1_def)
  ultimately have s1: "steps (boot e) p1" by simp
  have s2: "steps p1 p2"
  proof -
    let ?m = "p1\<lparr>pr_stopped := True, pr_calls := [AwaitWorker, AwaitMaintenance]\<rparr>"
    have "process_step p1 ?m" using b by (intro ps_shutdown [of _ 0]) (simp_all add: defs shutdown_next_def maintenance_idle_def)
    moreover have "process_step ?m p2"
      using b by (intro ps_shutdown [of _ 1]) (simp_all add: defs shutdown_next_def maintenance_idle_def)
    ultimately show ?thesis by simp
  qed
  have s3: "steps p2 p3"
  proof -
    let ?m = "p2\<lparr>pr_listening := False, pr_closed := True, pr_calls := [AwaitClose, AwaitWorker]\<rparr>"
    have "process_step p2 ?m" using b by (intro ps_shutdown [of _ 0]) (simp_all add: defs shutdown_next_def)
    moreover have "process_step ?m p3" using b by (intro ps_shutdown [of _ 1]) (simp_all add: defs shutdown_next_def)
    ultimately show ?thesis by simp
  qed
  have "process_step p3 p4" using b by (intro ps_shutdown [of _ 0]) (simp_all add: defs shutdown_next_def)
  then have "steps (boot e) p4" using s1 s2 s3 by (meson rtranclp.rtrancl_into_rtrancl rtranclp_trans)
  moreover have "shutdown_next 1 p4 = Some (p4\<lparr>pr_exit := Some 1\<rparr>)" using b by (simp add: defs shutdown_next_def)
  ultimately show ?thesis by (intro exI [of _ p4] exI [of _ 1]) (simp add: defs)
qed

section \<open>Witnesses\<close>

definition demo_env :: env where
  "demo_env = env_of minimal_env ''d'' ''t'' ''j'' ''s''"


lemma shutdown_finishes_witness:
  "\<exists>q. steps ((boot demo_env)\<lparr>pr_scheduler := map_option stop (pr_scheduler (boot demo_env)), pr_calls := [AwaitMaintenance]\<rparr>) q
    \<and> pr_exit q = Some 0"
proof (rule shutdown_finishes [where e = demo_env])
  have "pr_exit (boot demo_env) = None" "pr_calls (boot demo_env) = []" by (simp_all add: boot_def)
  then show "steps (boot demo_env) ((boot demo_env)\<lparr>pr_scheduler := map_option stop (pr_scheduler (boot demo_env)), pr_calls := [AwaitMaintenance]\<rparr>)"
    using ps_signal [of "boot demo_env"] by (simp add: r_into_rtranclp)
qed (simp_all add: boot_def)

end
