(* ===== verification/Creation.thy ===== *)
theory Creation
  imports Queue
begin

text \<open>
  What \<open>createJob\<close> answers on each branch: the replay of an idempotency key, a key reused for
  another request, an active equivalent job, a busy problem, and a new job; and that asking twice
  is asking once.
\<close>

section \<open>Facts the branches share\<close>

lemma touched_row:
  assumes "jobs_violation (jobs s) = None" and r: "r \<in> set (jobs s)"
  obtains t where "update_jobs False (\<lambda>j. j_id j = j_id r) id s = (Inr [r\<lparr>j_updated_at := now_us s\<rparr>], t)"
    and "jobs t = map (updated_job (\<lambda>j. j_id j = j_id r) id (now_us s)) (jobs s)"
    and "t = s\<lparr>jobs := jobs t\<rparr>"
proof -
  let ?p = "\<lambda>j. j_id j = j_id r"
  have na: "no_activation (updated_job ?p id (now_us s))"
    by (simp add: no_activation_updated)
  obtain t where t: "update_jobs False ?p id s = (Inr (map (updated_job ?p id (now_us s)) (filter ?p (jobs s))), t)"
    "jobs t = map (updated_job ?p id (now_us s)) (jobs s)"
    using update_jobs_ok [OF assms(1) na] .
  have "filter ?p (jobs s) = [r]"
    using assms by (auto simp: jobs_violation_None dest: filter_unique_key)
  moreover from t have "t = s\<lparr>jobs := jobs t\<rparr>"
    by (auto simp: update_jobs_def Let_def split: option.splits)
  ultimately show ?thesis using t that by simp
qed

section \<open>The branches\<close>

lemma key_row_unique:
  assumes "jobs_violation js = None" and "j \<in> set js" and "same_key opts j"
  shows "filter (same_key opts) js = [j]"
proof -
  let ?k = "\<lambda>j. (j_idempotency_key j, j_job_type j)"
  have eq: "same_key opts = (\<lambda>x. ?k x = ?k j)"
    using assms(3) by (auto simp: same_key_def fun_eq_iff)
  show ?thesis unfolding eq
    by (rule filter_unique_key) (use assms in \<open>auto simp: jobs_violation_None\<close>)
qed

lemma createJob_replay_stmt:
  assumes ok: "jobs_violation (jobs s) = None" and j: "j \<in> set (jobs s)"
    and "same_key opts j" and "same_request opts fp j"
  shows "createJob_stmt opts fp s = update_jobs False (\<lambda>x. j_id x = j_id j) id s"
  using key_row_unique [OF ok j assms(3)] assms(4) by (simp add: createJob_stmt_def)

lemma createJob_key_conflict_stmt:
  assumes ok: "jobs_violation (jobs s) = None" and j: "j \<in> set (jobs s)"
    and "same_key opts j" and "\<not> same_request opts fp j"
  shows "createJob_stmt opts fp s = (Inr [], s)"
  using key_row_unique [OF ok j assms(3)] assms(4) by (simp add: createJob_stmt_def)

lemma no_key_row: "(\<And>j. j \<in> set js \<Longrightarrow> \<not> same_key opts j) \<Longrightarrow> filter (same_key opts) js = []"
  by (simp add: filter_empty_conv)

lemma createJob_reuse_stmt:
  assumes "\<And>j. j \<in> set (jobs s) \<Longrightarrow> \<not> same_key opts j"
    and "first_by j_created_at (reusable opts fp) (jobs s) = Some a"
  shows "createJob_stmt opts fp s = update_jobs False (\<lambda>x. j_id x = j_id a) id s"
  using no_key_row [of "jobs s" opts] assms by (simp add: createJob_stmt_def)

lemma createJob_busy_stmt:
  assumes "\<And>j. j \<in> set (jobs s) \<Longrightarrow> \<not> same_key opts j"
    and "\<And>j. j \<in> set (jobs s) \<Longrightarrow> \<not> reusable opts fp j"
    and "j \<in> set (jobs s)" and "incompatible_with opts j"
  shows "createJob_stmt opts fp s = (Inr [], s)"
proof -
  have "first_by j_created_at (reusable opts fp) (jobs s) = None"
    using assms(2) by (simp add: first_by_None)
  with no_key_row [of "jobs s" opts] assms show ?thesis by (auto simp: createJob_stmt_def)
qed

text \<open>
  With no key row, no reusable and no incompatible job the new row breaks no index, so only a
  missing problem or a repeated identifier can refuse it.
\<close>

lemma unique_on_snoc:
  "unique_on p k (js @ [x]) \<longleftrightarrow> unique_on p k js \<and> (p x \<longrightarrow> (\<forall>j \<in> set js. p j \<longrightarrow> k j \<noteq> k x))"
  by (fastforce simp: unique_on_def image_iff)

lemma new_job_no_violation:
  assumes ok: "jobs_violation js = None"
    and key: "\<And>j. j \<in> set js \<Longrightarrow> \<not> same_key opts j"
    and reuse: "\<And>j. j \<in> set js \<Longrightarrow> \<not> reusable opts fp j"
    and inc: "\<And>j. j \<in> set js \<Longrightarrow> \<not> incompatible_with opts j"
    and gc: "co_jobType opts = GcCollect \<and> co_problemId opts = None \<Longrightarrow> active_gc_job js = None"
    and i: "\<And>j. j \<in> set js \<Longrightarrow> j_id j \<noteq> i"
  shows "jobs_violation (js @ [new_job opts fp i n]) = None"
proof -
  have "unique_on idx_active (\<lambda>j. (j_problem_id j, j_job_type j)) (js @ [new_job opts fp i n])"
    unfolding unique_on_snoc
  proof (intro conjI impI ballI)
    show "unique_on idx_active (\<lambda>j. (j_problem_id j, j_job_type j)) js"
      using ok by (simp add: jobs_violation_None)
    fix j
    assume "idx_active (new_job opts fp i n)" and "j \<in> set js" and "idx_active j"
    with inc [of j] show "(j_problem_id j, j_job_type j)
        \<noteq> (j_problem_id (new_job opts fp i n), j_job_type (new_job opts fp i n))"
      by (auto simp: incompatible_with_def idx_active_def local_operation_def new_job_def)
  qed
  moreover have "unique_on idx_running j_problem_id (js @ [new_job opts fp i n])"
    using ok by (simp add: unique_on_snoc jobs_violation_None idx_running_def new_job_def)
  moreover have "unique_on idx_gc j_job_type (js @ [new_job opts fp i n])"
    unfolding unique_on_snoc
    using ok gc by (auto simp: jobs_violation_None idx_gc_def new_job_def active_gc_job_def first_by_None)
  moreover have "distinct (map j_id (js @ [new_job opts fp i n]))"
    using ok i by (auto simp: jobs_violation_None new_job_def)
  moreover have "distinct (map (\<lambda>j. (j_idempotency_key j, j_job_type j)) (js @ [new_job opts fp i n]))"
    using ok key by (fastforce simp: jobs_violation_None new_job_def same_key_def image_iff)
  ultimately show ?thesis by (simp only: jobs_violation_None)
qed

text \<open>The identifier \<open>uuid_generate_v4()\<close> is about to return is not in the table.\<close>

definition fresh_next :: "db \<Rightarrow> bool" where
  "fresh_next s \<longleftrightarrow> (\<forall>j \<in> set (jobs s). j_id j \<noteq> uuid_src s (uuid_pos s))"

definition problem_ref_ok :: "create_opts \<Rightarrow> db \<Rightarrow> bool" where
  "problem_ref_ok opts s \<longleftrightarrow>
     (case co_problemId opts of None \<Rightarrow> True | Some pid \<Rightarrow> problem_exists pid s)"

definition after_insert :: "create_opts \<Rightarrow> db \<Rightarrow> db" where
  "after_insert opts s =
     s\<lparr>uuid_pos := Suc (uuid_pos s),
       jobs := jobs s @ [new_job opts (create_fingerprint opts) (uuid_src s (uuid_pos s)) (now_us s)]\<rparr>"

text \<open>A new job. When no row has the key, no active job is equivalent and none is incompatible,
  \<open>createJob\<close> inserts exactly one row: pending, first of three attempts, no lease, token 0; it
  returns that row, and nothing else in the database changes. No index violation is possible.\<close>

theorem createJob_inserts:
  assumes "jobs_violation (jobs s) = None"
    and "\<forall>j \<in> set (jobs s). \<not> same_key opts j"
    and "\<forall>j \<in> set (jobs s). \<not> reusable opts (create_fingerprint opts) j"
    and "\<forall>j \<in> set (jobs s). \<not> incompatible_with opts j"
    and "co_jobType opts \<noteq> GcCollect"
    and "problem_ref_ok opts s" and "fresh_next s"
  shows "createJob opts s =
    (Inr (rowToJob (new_job opts (create_fingerprint opts) (uuid_src s (uuid_pos s)) (now_us s))),
     after_insert opts s)"
proof -
  let ?fp = "create_fingerprint opts"
  have none: "first_by j_created_at (reusable opts ?fp) (jobs s) = None"
    using assms(3) by (simp add: first_by_None)
  have "jobs_violation (jobs s @ [new_job opts ?fp (uuid_src s (uuid_pos s)) (now_us s)]) = None"
    by (rule new_job_no_violation) (use assms in \<open>auto simp: fresh_next_def\<close>)
  then have "createJob_stmt opts ?fp s
      = (Inr [new_job opts ?fp (uuid_src s (uuid_pos s)) (now_us s)], after_insert opts s)"
    using assms none no_key_row [of "jobs s" opts]
    by (auto simp: createJob_stmt_def fresh_uuid_def insert_job_def after_insert_def
        problem_ref_ok_def problem_exists_def new_job_def split: option.splits)
  then show ?thesis by (simp add: createJob_def)
qed

theorem createJob_inserts_witness:
  "fst (createJob (demo_opts ''k'' Scan (Some ''1'')) (demo_db []))
   = Inr (rowToJob (new_job (demo_opts ''k'' Scan (Some ''1'')) ''fp'' ''i'' 1000000))"
  by (subst createJob_inserts)
     (simp_all add: demo_simps queue_eval problem_ref_ok_def fresh_next_def)

text \<open>Replay. A second request under the same key, for the same problem, generation and
  fingerprint, returns the row of the first one, whatever its state, inserts nothing and changes
  no column but \<open>updated_at\<close> of that row.\<close>

theorem createJob_replays:
  assumes "jobs_violation (jobs s) = None" and "j \<in> set (jobs s)"
    and "same_key opts j" and "same_request opts (create_fingerprint opts) j"
  shows "createJob opts s =
    (Inr (rowToJob (j\<lparr>j_updated_at := now_us s\<rparr>)),
     s\<lparr>jobs := upd_where (\<lambda>x. j_id x = j_id j) (\<lambda>x. x\<lparr>j_updated_at := now_us s\<rparr>) (jobs s)\<rparr>)"
proof -
  obtain t where t: "update_jobs False (\<lambda>x. j_id x = j_id j) id s = (Inr [j\<lparr>j_updated_at := now_us s\<rparr>], t)"
    "jobs t = map (updated_job (\<lambda>x. j_id x = j_id j) id (now_us s)) (jobs s)" "t = s\<lparr>jobs := jobs t\<rparr>"
    using touched_row [OF assms(1,2)] .
  have "jobs t = upd_where (\<lambda>x. j_id x = j_id j) (\<lambda>x. x\<lparr>j_updated_at := now_us s\<rparr>) (jobs s)"
    using t(2) by (simp add: upd_where_def updated_job_def cong: map_cong)
  with t createJob_replay_stmt [OF assms] show ?thesis by (simp add: createJob_def)
qed

theorem createJob_replays_witness:
  "fst (createJob (demo_opts ''a'' Scan (Some ''1'')) (demo_db [demo_job ''a'' Scan (Some ''1'') Failed]))
   = Inr (rowToJob ((demo_job ''a'' Scan (Some ''1'') Failed)\<lparr>j_updated_at := 1000000\<rparr>))"
  by (subst createJob_replays [where j = "demo_job ''a'' Scan (Some ''1'') Failed"])
     (simp_all add: demo_simps queue_eval)

text \<open>A key cannot name two requests. If the key's row is for another problem, generation or
  fingerprint, \<open>createJob\<close> raises \<open>IdempotencyConflictError\<close> and changes nothing.\<close>

theorem createJob_key_conflict:
  assumes "jobs_violation (jobs s) = None" and "j \<in> set (jobs s)"
    and "same_key opts j" and "\<not> same_request opts (create_fingerprint opts) j"
  shows "createJob opts s = (Inl IdempotencyConflictError, s)"
  using createJob_key_conflict_stmt [OF assms] assms(2,3) by (auto simp: createJob_def)

theorem createJob_key_conflict_witness:
  "createJob (demo_opts ''a'' Scan (Some ''2'')) (demo_db [demo_job ''a'' Scan (Some ''1'') Pending])
   = (Inl IdempotencyConflictError, demo_db [demo_job ''a'' Scan (Some ''1'') Pending])"
  by (rule createJob_key_conflict [where j = "demo_job ''a'' Scan (Some ''1'') Pending"])
     (simp_all add: demo_simps queue_eval)

text \<open>A problem runs one kind of local work at a time. A new key for a scan, snapshot, restore or
  evict of a problem with an active incompatible job (everything but a scan beside a snapshot)
  raises \<open>ProblemOperationConflictError\<close> and changes nothing.\<close>

theorem createJob_busy:
  assumes "\<forall>j \<in> set (jobs s). \<not> same_key opts j"
    and "\<forall>j \<in> set (jobs s). \<not> reusable opts (create_fingerprint opts) j"
    and "j \<in> set (jobs s)" and "incompatible_with opts j"
    and "co_problemId opts = Some pid" and "pid \<noteq> []" and "local_problem_type (co_jobType opts)"
  shows "createJob opts s = (Inl (ProblemOperationConflictError pid), s)"
proof -
  have "createJob_stmt opts (create_fingerprint opts) s = (Inr [], s)"
    by (rule createJob_busy_stmt) (use assms in auto)
  moreover have "\<exists>j \<in> set (jobs s). j_problem_id j = Some pid \<and> local_problem_type (j_job_type j) \<and> job_active j"
    using assms(3,4,5) by (auto simp: incompatible_with_def)
  ultimately show ?thesis using assms by (simp add: createJob_def truthy_def)
qed

theorem createJob_busy_witness:
  "createJob (demo_opts ''k'' Restore (Some ''1'')) (demo_db [demo_job ''a'' Evict (Some ''1'') Pending])
   = (Inl (ProblemOperationConflictError ''1''), demo_db [demo_job ''a'' Evict (Some ''1'') Pending])"
  by (rule createJob_busy [where j = "demo_job ''a'' Evict (Some ''1'') Pending"])
     (simp_all add: demo_simps queue_eval)

section \<open>Asking twice\<close>

lemma createJob_Inr_cases:
  assumes ok: "jobs_violation (jobs s) = None" and c: "createJob opts s = (Inr t, s')"
  obtains (unchanged) "s' = s"
  | (touched) a where "a \<in> set (jobs s)" and "t = rowToJob (a\<lparr>j_updated_at := now_us s\<rparr>)"
      and "jobs s' = map (updated_job (\<lambda>j. j_id j = j_id a) id (now_us s)) (jobs s)"
      and "(same_key opts a \<and> same_request opts (create_fingerprint opts) a)
           \<or> ((\<forall>j \<in> set (jobs s). \<not> same_key opts j)
               \<and> first_by j_created_at (reusable opts (create_fingerprint opts)) (jobs s) = Some a)"
  | (inserted) i where "t = rowToJob (new_job opts (create_fingerprint opts) i (now_us s))"
      and "jobs s' = jobs s @ [new_job opts (create_fingerprint opts) i (now_us s)]"
proof -
  let ?fp = "create_fingerprint opts"
  show ?thesis
  proof (cases "\<exists>j \<in> set (jobs s). same_key opts j")
    case True
    then obtain j where j: "j \<in> set (jobs s)" "same_key opts j" by blast
    show ?thesis
    proof (cases "same_request opts ?fp j")
      case True
      obtain t' where t': "update_jobs False (\<lambda>x. j_id x = j_id j) id s = (Inr [j\<lparr>j_updated_at := now_us s\<rparr>], t')"
        "jobs t' = map (updated_job (\<lambda>x. j_id x = j_id j) id (now_us s)) (jobs s)"
        using touched_row [OF ok j(1)] by blast
      with createJob_replay_stmt [OF ok j True] c show ?thesis
        by (intro touched [of j]) (use j True in \<open>auto simp: createJob_def\<close>)
    next
      case False
      with createJob_key_conflict_stmt [OF ok j False] j c show ?thesis
        by (auto simp: createJob_def split: if_splits)
    qed
  next
    case nokey: False
    show ?thesis
    proof (cases "first_by j_created_at (reusable opts ?fp) (jobs s)")
      case (Some a)
      then have a: "a \<in> set (jobs s)" by (auto dest: first_by_Some)
      obtain t' where t': "update_jobs False (\<lambda>x. j_id x = j_id a) id s = (Inr [a\<lparr>j_updated_at := now_us s\<rparr>], t')"
        "jobs t' = map (updated_job (\<lambda>x. j_id x = j_id a) id (now_us s)) (jobs s)"
        using touched_row [OF ok a] by blast
      have "createJob_stmt opts ?fp s = update_jobs False (\<lambda>x. j_id x = j_id a) id s"
        by (rule createJob_reuse_stmt) (use nokey Some in auto)
      with t' c show ?thesis
        by (intro touched [of a]) (use a nokey Some in \<open>auto simp: createJob_def\<close>)
    next
      case None
      with nokey no_key_row [of "jobs s" opts] c show ?thesis
        by (auto simp: createJob_def createJob_stmt_def fresh_uuid_def
            split: if_splits prod.splits sum.splits option.splits
            elim!: insert_job_cases intro: unchanged inserted)
    qed
  qed
qed

lemma same_key_touched [simp]: "same_key opts (updated_job p id n j) = same_key opts j"
  by (simp add: same_key_def updated_job_def)

lemma same_request_touched [simp]: "same_request opts fp (updated_job p id n j) = same_request opts fp j"
  by (simp add: same_request_def updated_job_def)

lemma reusable_touched [simp]: "reusable opts fp (updated_job p id n j) = reusable opts fp j"
  by (simp add: reusable_def job_active_def updated_job_def)

lemma touched_id [simp]: "j_id (updated_job p id n j) = j_id j"
  "j_created_at (updated_job p id n j) = j_created_at j"
  by (simp_all add: updated_job_def)

lemma jobs_violation_touched:
  "jobs_violation js = None \<Longrightarrow> jobs_violation (map (updated_job p id n) js) = None"
  by (rule jobs_violation_no_activation) (auto simp: no_activation_updated)

lemma createJob_replays_id:
  assumes "jobs_violation (jobs s) = None" and "j \<in> set (jobs s)"
    and "same_key opts j" and "same_request opts (create_fingerprint opts) j"
  shows "\<exists>t s'. createJob opts s = (Inr t, s') \<and> jt_id t = j_id j \<and> map j_id (jobs s') = map j_id (jobs s)"
proof -
  obtain t where t: "update_jobs False (\<lambda>x. j_id x = j_id j) id s = (Inr [j\<lparr>j_updated_at := now_us s\<rparr>], t)"
    "jobs t = map (updated_job (\<lambda>x. j_id x = j_id j) id (now_us s)) (jobs s)"
    using touched_row [OF assms(1,2)] by blast
  with createJob_replay_stmt [OF assms] show ?thesis
    by (auto simp: createJob_def rowToJob_def)
qed

text \<open>C26: creation is idempotent. Whichever way \<open>createJob\<close> answered the first time, replay, reuse of
  an active job or insertion, the same call on the state it left behind succeeds, answers with
  the same job id and adds no row.\<close>

theorem createJob_idempotent:
  assumes ok: "jobs_violation (jobs s) = None" and c: "createJob opts s = (Inr t, s')"
    and ok': "jobs_violation (jobs s') = None"
  shows "\<exists>t' s''. createJob opts s' = (Inr t', s'') \<and> jt_id t' = jt_id t
           \<and> map j_id (jobs s'') = map j_id (jobs s')"
  using ok c
proof (cases rule: createJob_Inr_cases)
  case unchanged
  with c show ?thesis by auto
next
  case (touched a)
  let ?g = "updated_job (\<lambda>j. j_id j = j_id a) id (now_us s)"
  have a': "?g a \<in> set (jobs s')" unfolding touched(3) using touched(1) by (metis image_eqI list.set_map)
  have id_t: "jt_id t = j_id (?g a)" using touched(2) by (simp add: rowToJob_def)
  from touched(4) show ?thesis
  proof
    assume "same_key opts a \<and> same_request opts (create_fingerprint opts) a"
    then show ?thesis unfolding id_t
      by (intro createJob_replays_id [OF ok' a']) (simp_all only: same_key_touched same_request_touched)
  next
    assume r: "(\<forall>j \<in> set (jobs s). \<not> same_key opts j)
       \<and> first_by j_created_at (reusable opts (create_fingerprint opts)) (jobs s) = Some a"
    have "first_by j_created_at (reusable opts (create_fingerprint opts)) (jobs s') = Some (?g a)"
      using r unfolding touched(3) by (subst first_by_map) simp_all
    moreover have "\<not> same_key opts j" if "j \<in> set (jobs s')" for j
      using that r touched(3) by auto
    ultimately have "createJob_stmt opts (create_fingerprint opts) s'
        = update_jobs False (\<lambda>x. j_id x = j_id (?g a)) id s'"
      by (rule createJob_reuse_stmt [rotated])
    moreover obtain u where "update_jobs False (\<lambda>x. j_id x = j_id (?g a)) id s'
        = (Inr [(?g a)\<lparr>j_updated_at := now_us s'\<rparr>], u)"
      and "jobs u = map (updated_job (\<lambda>x. j_id x = j_id (?g a)) id (now_us s')) (jobs s')"
      using touched_row [OF ok' a'] by blast
    ultimately show ?thesis using id_t by (auto simp: createJob_def rowToJob_def)
  qed
next
  case (inserted i)
  let ?j = "new_job opts (create_fingerprint opts) i (now_us s)"
  have "same_key opts ?j" "same_request opts (create_fingerprint opts) ?j"
    by (simp_all add: same_key_def same_request_def new_job_def)
  moreover have "?j \<in> set (jobs s')" using inserted by simp
  ultimately show ?thesis using createJob_replays_id [OF ok'] inserted(1)
    by (fastforce simp: rowToJob_def)
qed

theorem createJob_idempotent_witness:
  "\<exists>t' s''. createJob (demo_opts ''k'' Scan (Some ''1''))
      (snd (createJob (demo_opts ''k'' Scan (Some ''1'')) (demo_db []))) = (Inr t', s'')
    \<and> jt_id t' = ''i''
    \<and> map j_id (jobs s'') = [''i'']"
proof -
  have c: "createJob (demo_opts ''k'' Scan (Some ''1'')) (demo_db [])
      = (Inr (rowToJob (new_job (demo_opts ''k'' Scan (Some ''1'')) ''fp'' ''i'' 1000000)),
         snd (createJob (demo_opts ''k'' Scan (Some ''1'')) (demo_db [])))"
    by (simp add: demo_simps queue_eval)
  have ok: "jobs_violation (jobs (demo_db [])) = None"
    "jobs_violation (jobs (snd (createJob (demo_opts ''k'' Scan (Some ''1'')) (demo_db [])))) = None"
    and ids: "map j_id (jobs (snd (createJob (demo_opts ''k'' Scan (Some ''1'')) (demo_db [])))) = [''i'']"
    by (simp_all add: demo_simps queue_eval)
  show ?thesis using createJob_idempotent [OF ok(1) c ok(2)] ids by (simp add: rowToJob_def new_job_def)
qed

end
