(* ===== verification/Ensure.thy ===== *)
theory Ensure
  imports Creation System
begin

text \<open>
  What the route \<open>ensure-ready\<close> promises the judge (\<open>control-plane/src/routes.ts\<close> with
  \<open>createRestoreJobIfMissing\<close> of \<open>db.ts\<close>): a folder that is there is never restored over, and an
  accepted answer names a restore that is really queued.
\<close>

section \<open>The row behind a job\<close>

lemma in_set_image_map: "x \<in> set xs \<Longrightarrow> f x \<in> set (map f xs)"
  by simp

text \<open>The row \<open>createJob\<close> answers is in the table and is of the kind asked for.\<close>

definition row_for :: "create_opts \<Rightarrow> jobT \<Rightarrow> db \<Rightarrow> bool" where
  "row_for opts t s \<longleftrightarrow>
     (\<exists>j \<in> set (jobs s). t = rowToJob j \<and> j_job_type j = co_jobType opts \<and> j_problem_id j = co_problemId opts
        \<and> j_target_generation j = co_targetGeneration opts)"

lemma touched_row_for:
  assumes "update_jobs False (\<lambda>j. j_id j = j_id a) id s = (Inr (r # rs), s')" and "jobs_violation (jobs s) = None"
    and "a \<in> set (jobs s)" and "j_job_type a = co_jobType opts \<and> j_problem_id a = co_problemId opts
      \<and> j_target_generation a = co_targetGeneration opts"
  shows "row_for opts (rowToJob r) s'"
proof -
  obtain t where t: "update_jobs False (\<lambda>j. j_id j = j_id a) id s = (Inr [a\<lparr>j_updated_at := now_us s\<rparr>], t)"
    "jobs t = map (updated_job (\<lambda>j. j_id j = j_id a) id (now_us s)) (jobs s)"
    using touched_row [OF assms(2,3)] by blast
  then have "r = a\<lparr>j_updated_at := now_us s\<rparr>" "s' = t" using assms(1) by auto
  moreover have "updated_job (\<lambda>j. j_id j = j_id a) id (now_us s) a \<in> set (jobs t)"
    unfolding t(2) using assms(3) by (rule in_set_image_map)
  then have "a\<lparr>j_updated_at := now_us s\<rparr> \<in> set (jobs t)" unfolding updated_job_def by simp
  ultimately show ?thesis using assms(4) by (auto simp: row_for_def)
qed

lemma createJob_stmt_row:
  assumes ok: "jobs_violation (jobs s) = None" and run: "createJob_stmt opts fp s = (Inr (r # rs), s')"
  shows "row_for opts (rowToJob r) s'"
proof (cases "filter (same_request opts fp) (filter (same_key opts) (jobs s))")
  case (Cons a as)
  then have "a \<in> set (filter (same_request opts fp) (filter (same_key opts) (jobs s)))" by (simp del: set_filter filter_filter)
  then have a: "a \<in> set (jobs s)" "same_request opts fp a" "same_key opts a" by auto
  have "update_jobs False (\<lambda>j. j_id j = j_id a) id s = (Inr (r # rs), s')"
    using Cons run by (simp add: createJob_stmt_def Let_def del: filter_filter)
  then show ?thesis
    using a by (intro touched_row_for [OF _ ok a(1)]) (auto simp: same_request_def same_key_def)
next
  case none: Nil
  show ?thesis
  proof (cases "\<exists>a. (if filter (\<lambda>j. \<not> same_request opts fp j) (filter (same_key opts) (jobs s)) = []
      then first_by j_created_at (reusable opts fp) (jobs s) else None) = Some a")
    case True
    then obtain a where a: "first_by j_created_at (reusable opts fp) (jobs s) = Some a"
      "filter (\<lambda>j. \<not> same_request opts fp j) (filter (same_key opts) (jobs s)) = []"
      by (auto split: if_splits)
    with first_by_Some [OF a(1)] none run show ?thesis
      by (intro touched_row_for [OF _ ok, of a r rs]) (auto simp: createJob_stmt_def reusable_def)
  next
    case False
    with none run show ?thesis
      by (auto simp: createJob_stmt_def Let_def fresh_uuid_def row_for_def new_job_def
          split: if_splits prod.splits sum.splits elim!: insert_job_cases)
  qed
qed

lemma createJob_row:
  assumes ok: "jobs_violation (jobs s) = None" and run: "createJob opts s = (Inr t, s')" and "co_jobType opts \<noteq> GcCollect"
  shows "row_for opts t s'"
proof -
  obtain q s1 where q: "createJob_stmt opts (create_fingerprint opts) s = (q, s1)" by fastforce
  then obtain r rs where "q = Inr (r # rs)" "t = rowToJob r" "s1 = s'"
    using run assms(3) by (auto simp: createJob_def split: sum.splits list.splits if_splits)
  with q createJob_stmt_row [OF ok] show ?thesis by blast
qed

lemma createRestore_row:
  assumes ok: "queue_ok s" and run: "createRestoreJobIfMissing opts s = (Inr (ClaimJob t), s')"
  shows "row_for (restore_create_opts opts) t s'"
proof (cases "restore_replay opts (jobs s)")
  case (Some r)
  then have "r \<in> set (jobs s)" "j_job_type r = Restore" by (auto simp: restore_replay_def dest: find_Some_in)
  with Some run show ?thesis
    by (auto simp: createRestoreJobIfMissing_def tx_eq_Inr row_for_def restore_create_opts_def split: if_splits)
next
  case none: None
  show ?thesis
  proof (cases "restore_active opts (jobs s)")
    case (Some a)
    then have "a \<in> set (jobs s)" "j_job_type a = Restore" "j_problem_id a = Some (ro_problemId opts)"
      "j_target_generation a = Some (ro_targetGeneration opts)"
      by (auto simp: restore_active_def dest: first_by_Some)
    with none Some run show ?thesis
      by (auto simp: createRestoreJobIfMissing_def tx_eq_Inr row_for_def restore_create_opts_def)
  next
    case None
    obtain k s1 u s2 ins upd where c: "cancelPendingLocalJobsForRestore (ro_problemId opts) s = (Inr k, s1)"
      "upsert_usage ins upd s1 = (Inr u, s2)" "createJob (restore_create_opts opts) s2 = (Inr t, s')"
      using none None run
      by (auto simp: createRestoreJobIfMissing_def tx_eq_Inr bnd_eq_Inr split: if_splits)
    have "queue_safe s s1" using presD [OF safe_jobs(1), of s "ro_problemId opts"] c(1) by simp
    moreover have "queue_safe s1 s2" using presD [OF pres_idle_safe [OF idle_upsert_usage], of s1 ins upd] c(2) by simp
    ultimately have "queue_ok s2" using ok by (blast intro: safe_ok)
    then have "jobs_violation (jobs s2) = None" by (simp add: queue_ok_def fence_ok_def)
    from createJob_row [OF this c(3)] show ?thesis by (simp add: restore_create_opts_def)
  qed
qed

section \<open>What an answer means\<close>

lemma createRestore_snapshots: "pres snapshot_frame (createRestoreJobIfMissing opts)"
proof -
  have "pres snapshot_frame (upsert_usage ins upd)" for ins upd
    by (simp add: pres_def snapshot_frame_def upsert_usage_def Let_def)
  then show ?thesis
    unfolding createRestoreJobIfMissing_def cancelPendingLocalJobsForRestore_def
    by (intro pres_intros update_jobs_snapshot_frame createJob_snapshot_frame)
qed

definition restoring_row :: "string \<Rightarrow> accepted_job \<Rightarrow> db \<Rightarrow> bool" where
  "restoring_row i aj s \<longleftrightarrow>
     (\<exists>j \<in> set (jobs s). j_id j = aj_job_id aj \<and> j_job_type j = Restore \<and> j_problem_id j = Some i
        \<and> j_state j \<in> {Pending, Running}
        \<and> (\<exists>n \<in> set (snapshots s). s_problem_id n = i \<and> s_state n = Ready \<and> j_target_generation j = Some (s_generation n)))"

lemma ensure_from_Send:
  assumes ok: "queue_ok s" and run: "ensure_from a cl key i actual s = (Inr (Send st b), t)"
  shows "st = 200 \<and> b = EnsuredReady \<and> (rd_ready actual \<and> rd_local_status actual = LPresent \<or> rd_local_status actual = LMissing)
    \<or> (\<exists>aj. st = 202 \<and> b = Restoring aj \<and> rd_local_status actual = LMissing \<and> restoring_row i aj t)"
proof (cases "rd_local_status actual = LMissing")
  case False
  with run show ?thesis by (auto simp: ensure_from_def reject_def split: if_splits)
next
  case True
  obtain snap where snap: "getLatestReadySnapshot i s = Some snap"
    using True run by (cases "getLatestReadySnapshot i s") (auto simp: ensure_from_def reject_def)
  then obtain n where n: "n \<in> set (snapshots s)" "s_problem_id n = i" "s_state n = Ready" "st_generation snap = s_generation n"
    by (auto simp: getLatestReadySnapshot_def rowToSnapshot_def dest: first_by_Some)
  define opts where "opts = ensure_opts cl key i (st_generation snap) (rd_observed_at actual)"
  have no_send: "fst (sendJobError a cl e u) \<noteq> Inr (Send st b)" for e u
    by (cases e) (simp_all add: sendJobError_def Let_def reject_def)
  obtain claim s1 where c: "createRestoreJobIfMissing opts s = (Inr claim, s1)"
    using run True snap no_send
    by (cases "createRestoreJobIfMissing opts s"; cases "fst (createRestoreJobIfMissing opts s)")
      (auto simp: ensure_from_def job_catch_def opts_def try_catch_eq_Inr bnd_eq_Inr dest: arg_cong [where f = fst])
  show ?thesis
  proof (cases claim)
    case ClaimReady
    with run True snap c show ?thesis
      by (auto simp: ensure_from_def job_catch_def opts_def try_catch_def bnd_def)
  next
    case (ClaimJob j)
    obtain r where r: "r \<in> set (jobs s1)" "j = rowToJob r" "j_job_type r = Restore" "j_problem_id r = Some i"
      "j_target_generation r = Some (st_generation snap)"
      using createRestore_row [OF ok c [unfolded ClaimJob]]
      by (auto simp: row_for_def restore_create_opts_def opts_def ensure_opts_def)
    have sn: "snapshots s1 = snapshots s"
      using presD [OF createRestore_snapshots, of s opts] c by (simp add: snapshot_frame_def)
    have t: "jt_state j \<notin> {Completed, Failed, Cancelled} \<and> st = 202 \<and> b = Restoring (accepted j)
        \<and> jobs t = jobs s1 \<and> snapshots t = snapshots s1"
      using run True snap c ClaimJob
      by (auto simp: ensure_from_def job_catch_def opts_def try_catch_def bnd_def rejectTerminalEnsureJob_def reject_def
          audit_def insertAuditEvent_def fresh_uuid_def split: if_splits)
    then have "restoring_row i (accepted j) t"
      using r n sn by (cases "j_state r") (auto simp: restoring_row_def accepted_def rowToJob_def intro!: bexI [of _ r] bexI [of _ n])
    with t True show ?thesis by blast
  qed
qed


lemma post_ensure_ready_Inr:
  assumes "plain_app a" and "queue_ok s" and "post_ensure_ready a cl i s = (Inr r, t)"
  shows "(\<exists>st code msg rt rid. r = Fail st code msg rt rid)
    \<or> (\<exists>key code actual s1 s2. queue_safe s s1 \<and> ap_ready a i code s1 = (Inr actual, s2) \<and> queue_ok s2
         \<and> ensure_from a cl key i actual s2 = (Inr r, t))"
proof (cases "list_ex (hasScope (cl_auth cl)) [''mutate''] \<and> truthy (cl_idempotency_key cl) \<and> getProblem i s \<noteq> None")
  case False
  with assms(3) show ?thesis
    by (auto simp: post_ensure_ready_def requireScopes_def getIdempotencyKey_def with_problem_def not_found_def reject_def
        split: if_splits)
next
  case True
  then obtain p where p: "getProblem i s = Some p" by blast
  obtain q s1 where touch: "touchProblemAccess i s = (q, s1)" by fastforce
  then have s1: "queue_safe s s1" using presD [OF safe_jobs(3), of s i] by simp
  obtain w s2 where ask: "ap_ready a i (pt_code p) s1 = (w, s2)" by fastforce
  then have "queue_safe s1 s2" using assms(1) by (metis plain_app_def presD snd_conv)
  then have "queue_ok s2" using safe_ok safe.R_trans s1 assms(2) by blast
  with assms(3) True p touch ask s1 show ?thesis
    by (cases q; cases w)
      (auto simp: post_ensure_ready_def requireScopes_def getIdempotencyKey_def with_problem_def reject_def
        bnd_def try_catch_def)
qed


section \<open>No destructive restore\<close>

definition restores :: "db \<Rightarrow> job list" where
  "restores s = filter (\<lambda>j. j_job_type j = Restore) (jobs s)"

definition same_restores :: "db \<Rightarrow> db \<Rightarrow> bool" where
  "same_restores s t \<longleftrightarrow> restores t = restores s"

interpretation sameres: preorder_rel same_restores
  by unfold_locales (auto simp: same_restores_def)

lemma restores_update_jobs:
  assumes pf: "\<And>j. p j \<Longrightarrow> j_job_type j \<noteq> Restore \<and> j_job_type (f j) \<noteq> Restore"
  shows "pres same_restores (update_jobs st p f)"
proof (rule presI)
  fix s :: db
  obtain r t where u: "update_jobs st p f s = (r, t)" by fastforce
  have g: "filter (\<lambda>j. j_job_type j = Restore) (map (updated_job p f n) js) = filter (\<lambda>j. j_job_type j = Restore) js" for n js
    by (induction js) (use pf in \<open>auto simp: updated_job_def\<close>)
  from u have "jobs t = jobs s \<or> jobs t = map (updated_job p f (now_us s)) (jobs s)"
    by (cases rule: update_jobs_cases) simp_all
  then show "same_restores s (snd (update_jobs st p f s))"
    using u g by (auto simp: same_restores_def restores_def)
qed

lemma restores_modify: "(\<And>s. jobs (h s) = jobs s) \<Longrightarrow> pres same_restores (modify h)"
  by (simp add: pres_def same_restores_def restores_def)

lemma touch_restores: "pres same_restores (touchProblemAccess i)"
  unfolding touchProblemAccess_def by (intro pres_intros restores_modify restores_update_jobs) auto

text \<open>C24: no destructive restore. Unless the data plane reports the folder missing (it reports it present or
  partial, or cannot be asked), ensure-ready leaves every restore job exactly as it was and queues
  none, whatever snapshots exist and whatever the database says of the folder.\<close>

theorem ensure_ready_never_overwrites:
  assumes "\<forall>code s1. jobs (snd (ap_ready a i code s1)) = jobs s1
      \<and> (\<forall>actual. fst (ap_ready a i code s1) = Inr actual \<longrightarrow> rd_local_status actual \<noteq> LMissing)"
  shows "filter (\<lambda>j. j_job_type j = Restore) (jobs (snd (post_ensure_ready a cl i s)))
       = filter (\<lambda>j. j_job_type j = Restore) (jobs s)"
proof -
  have ask: "pres same_restores (ap_ready a i code)" for code
    using assms by (simp add: pres_def same_restores_def restores_def)
  have rest: "same_restores s2 (snd (ensure_from a cl key i actual s2))"
    if "rd_local_status actual \<noteq> LMissing" for key actual s2
    using that by (simp add: ensure_from_def reject_def same_restores_def)
  have go: "pres same_restores (bnd (try_catch (bnd (ap_ready a i code) (\<lambda>r. ret (Inr r))) (\<lambda>e. ret (Inl e))) (\<lambda>answer.
      case answer of Inl e \<Rightarrow> reject cl st c (m e) True | Inr actual \<Rightarrow> ensure_from a cl key i actual))" for code st c m key
  proof (rule presI)
    fix s1
    obtain w s2 where w: "ap_ready a i code s1 = (w, s2)" by fastforce
    then have "same_restores s1 s2" using presD [OF ask, of s1 code] by simp
    moreover have "rd_local_status actual \<noteq> LMissing" if "w = Inr actual" for actual
      using assms w that by (metis fst_conv)
    ultimately show "same_restores s1 (snd (bnd (try_catch (bnd (ap_ready a i code) (\<lambda>r. ret (Inr r))) (\<lambda>e. ret (Inl e)))
        (\<lambda>answer. case answer of Inl e \<Rightarrow> reject cl st c (m e) True | Inr actual \<Rightarrow> ensure_from a cl key i actual) s1))"
      using w rest by (cases w) (auto simp: bnd_def try_catch_def reject_def intro: sameres.R_trans)
  qed
  have "pres same_restores (post_ensure_ready a cl i)"
    unfolding post_ensure_ready_def requireScopes_def getIdempotencyKey_def with_problem_def not_found_def reject_def
    by (intro sameres.pres_if sameres.pres_ret sameres.pres_reading sameres.pres_case_option)
      (rule sameres.pres_bnd, intro pres_intros touch_restores,
       rule sameres.pres_case_option, rule go [unfolded reject_def], rule sameres.pres_ret)
  then show ?thesis by (simp add: pres_def same_restores_def restores_def)
qed

section \<open>Witnesses\<close>

text \<open>A data plane that reports the folder missing.\<close>

definition missing_app :: app where
  "missing_app = admin_app\<lparr>ap_ready := (\<lambda>i code. ret \<lparr>rd_ready = False, rd_local_status = LMissing, rd_observed_at = 0\<rparr>)\<rparr>"

definition admin_caller :: caller where
  "admin_caller = \<lparr>cl_auth = admin_payload, cl_request_id = ''r'', cl_idempotency_key = Some ''k''\<rparr>"

definition backed_up_db :: db where
  "backed_up_db = (demo_db [])\<lparr>snapshots := [demo_snapshot ''s'' ''1'' 3 Ready]\<rparr>"

lemma missing_app_plain: "plain_app missing_app"
  using admin_app_plain by (simp add: plain_app_def missing_app_def safe.pres_ret del: ret_simp)

lemma backed_up_ok: "queue_ok backed_up_db"
  by (simp add: backed_up_db_def queue_ok_def fence_ok_def rows_ok_def demo_simps queue_eval)

lemma ensure_runs: "\<exists>aj t. post_ensure_ready missing_app admin_caller ''1'' backed_up_db = (Inr (Send 202 (Restoring aj)), t)"
  by (simp add: post_ensure_ready_def requireScopes_def hasScope_def getIdempotencyKey_def with_problem_def getProblem_def
      admin_caller_def admin_payload_def missing_app_def backed_up_db_def touchProblemAccess_def ensure_from_def
      getLatestReadySnapshot_def rowToSnapshot_def createRestoreJobIfMissing_def restore_replay_def restore_active_def
      cancelPendingLocalJobsForRestore_def restored_meanwhile_def usage_of_def upsert_usage_def ensure_opts_def
      restore_create_opts_def job_catch_def rejectTerminalEnsureJob_def audit_def insertAuditEvent_def no_target_def
      accepted_def demo_simps queue_eval)


theorem ensure_ready_never_overwrites_witness:
  "filter (\<lambda>j. j_job_type j = Restore) (jobs (snd (post_ensure_ready admin_app admin_caller ''1'' backed_up_db))) = []"
proof -
  have "\<forall>code s1. jobs (snd (ap_ready admin_app ''1'' code s1)) = jobs s1
      \<and> (\<forall>actual. fst (ap_ready admin_app ''1'' code s1) = Inr actual \<longrightarrow> rd_local_status actual \<noteq> LMissing)"
    by (simp add: admin_app_def demo_app_def)
  from ensure_ready_never_overwrites [OF this] show ?thesis by (simp add: backed_up_db_def demo_db_def)
qed

end
