(* ===== verification/Sessions.thy ===== *)
theory Sessions
  imports System
begin

text \<open>
  The life of a token, across the routes that issue it (\<open>routes.ts\<close>), the signing and checking of
  \<open>auth.ts\<close>, the accounts of \<open>dashboard-users.ts\<close> and the authentication hook.
\<close>

section \<open>What is asked of the token library\<close>

text \<open>
  About one signed token: its text can stand in a header; with its own secret and audience it gives
  its claims back until it expires (\<open>exp\<close> counts whole seconds); and whatever secret it is checked
  with, it never gives other claims than the ones it was signed with.
\<close>

definition honest_token :: "jwt_lib \<Rightarrow> string \<Rightarrow> string \<Rightarrow> nat \<Rightarrow> payload \<Rightarrow> time \<Rightarrow> bool" where
  "honest_token lib secret aud ttl p now \<longleftrightarrow>
     (let tok = jl_sign lib secret aud ttl p now in
      tok \<noteq> [] \<and> \<not> is_space (hd tok)
      \<and> (\<forall>t. now \<le> t \<and> t div 1000000 < now div 1000000 + ttl \<longrightarrow> jl_verify lib tok secret (Some aud) t = Inr p)
      \<and> (\<forall>sec a t q. jl_verify lib tok sec a t = Inr q \<longrightarrow> q = p))"

lemma bearer_token:
  assumes "tok \<noteq> []" and "\<not> is_space (hd tok)"
  shows "extractBearerToken (Some (''Bearer '' @ tok)) = Some tok"
proof -
  have "dropWhile is_space tok = tok" using assms by (cases tok) simp_all
  moreover have "to_lower ''Bearer'' = ''bearer''"
    by (simp add: to_lower_def to_lower_char_def char_of_def bit_0)
  ultimately show ?thesis using assms
    by (simp add: extractBearerToken_def is_space_def Let_def)
qed

section \<open>Service tokens\<close>


section \<open>Dashboard sessions\<close>


lemma name_char_plain: "is_name_char c \<Longrightarrow> \<not> is_space c \<and> to_lower_char c = c"
  by (auto simp: is_name_char_def is_name_start_def is_digit_def is_space_def to_lower_char_def Let_def)

lemma normalize_idem:
  assumes "normalizeUsername v = Some n"
  shows "normalizeUsername n = Some n"
proof -
  have f: "username_format n" using assms by (auto simp: normalizeUsername_def Let_def split: if_splits)
  then have all: "list_all is_name_char n" and "n \<noteq> []"
    by (auto simp: username_format_def is_name_char_def split: list.splits)
  then have ns: "\<forall>c \<in> set n. \<not> is_space c \<and> to_lower_char c = c" by (auto simp: list_all_iff name_char_plain)
  have d: "dropWhile is_space xs = xs" if "\<forall>c \<in> set xs. \<not> is_space c" for xs
    using that by (cases xs) auto
  have "trim n = n" using d [of n] d [of "rev n"] ns by (simp add: trim_def)
  moreover have "to_lower n = n" using ns by (simp add: to_lower_def map_idI)
  ultimately show ?thesis using f by (simp add: normalizeUsername_def)
qed

text \<open>The claims of the token a login hands out.\<close>

definition session_claims :: "dashboard_user \<Rightarrow> payload" where
  "session_claims row =
     \<lparr>tp_sub = du_username row, tp_role = role_of_text (du_role row), tp_scopes = operatorScopes (role_of_text (du_role row)),
      tp_kind = OperatorToken, tp_auth_version = Some (int (du_auth_version row))\<rparr>"

lemma login_Send:
  assumes "post_login a rid username password s = (Inr (Send st r), t)"
  shows "\<exists>n row. normalizeUsername username = Some n \<and> user_row n s = Some row \<and> du_enabled row
    \<and> verifyPassword (ap_scrypt a) password (du_password_hash row)
    \<and> lr_token r = jl_sign (ap_jwt a) (e_dashboardJwtSecret (ap_env a)) (e_dashboardJwtAudience (ap_env a)) 3600
        (session_claims row) (now_us s)
    \<and> dashboard_users t = dashboard_users s \<and> now_us t = now_us s"
proof -
  obtain u where u: "verifyDashboardCredentials (ap_scrypt a) username password s = Some u"
    using assms by (cases "verifyDashboardCredentials (ap_scrypt a) username password s")
      (auto simp: post_login_def bnd_eq_Inr)
  then obtain n row where row: "normalizeUsername username = Some n" "user_row n s = Some row" "u = rowToUser row"
    "du_enabled row" "verifyPassword (ap_scrypt a) password (du_password_hash row)"
    by (auto simp: verifyDashboardCredentials_def getDashboardUser_def Let_def rowToUser_def split: option.splits if_splits)
  with assms u show ?thesis
    by (auto simp: post_login_def Let_def bnd_eq_Inr login_audit_def insertAuditEvent_def fresh_uuid_def
        signOperatorToken_def session_claims_def rowToUser_def)
qed

text \<open>A login session, from start to end. The token a login hands out lets its owner through the hook as
  an operator with the scopes of the account's role, in every later state before its hour is over in
  which the account's row is as it was; and from the moment the password is changed or the account
  deleted, the same token is refused with 401.\<close>

theorem login_session_life:
  assumes run: "post_login a rid username password s = (Inr (Send st r), t)"
    and row: "normalizeUsername username = Some n" "user_row n s = Some row" "is_safe_integer (int (du_auth_version row))"
    and lib: "honest_token (ap_jwt a) (e_dashboardJwtSecret (ap_env a)) (e_dashboardJwtAudience (ap_env a)) 3600
      (session_claims row) (now_us s)"
    and live: "now_us s \<le> now_us u" "now_us u div 1000000 < now_us s div 1000000 + 3600" "user_row n u = Some row"
  shows "authenticate a rid' (Some (''Bearer '' @ lr_token r)) u = Send 200 (session_claims row)
    \<and> (\<forall>scrypt salt pw v w.
         changeDashboardUserPassword scrypt salt username pw u = (Inr (Some w), v) \<or> deleteDashboardUser username u = (Inr True, v)
         \<longrightarrow> authenticate a rid' (Some (''Bearer '' @ lr_token r)) v = Fail 401 ''invalid_token'' ''Invalid or expired token'' False rid')"
proof -
  let ?p = "session_claims row"
  have r: "lr_token r = jl_sign (ap_jwt a) (e_dashboardJwtSecret (ap_env a)) (e_dashboardJwtAudience (ap_env a)) 3600 ?p (now_us s)"
    "du_enabled row" using login_Send [OF run] row(1,2) by auto
  have name: "du_username row = n" using row(2) by (auto simp: user_row_def dest: find_Some_in)
  have norm: "normalizeUsername (tp_sub ?p) = Some n"
    using normalize_idem [OF row(1)] name by (simp add: session_claims_def)
  have tok: "lr_token r \<noteq> []" "\<not> is_space (hd (lr_token r))"
    "jl_verify (ap_jwt a) (lr_token r) (e_dashboardJwtSecret (ap_env a)) (Some (e_dashboardJwtAudience (ap_env a))) (now_us u) = Inr ?p"
    "\<And>sec aud t' q. jl_verify (ap_jwt a) (lr_token r) sec aud t' = Inr q \<Longrightarrow> q = ?p"
    using lib live(1,2) unfolding honest_token_def Let_def r(1) [symmetric] by blast+
  have active: "isDashboardSessionActive ?p u"
    using norm live(3) r(2) row(3) by (simp add: session_active_iff) (simp add: session_claims_def)
  have first: "authenticate a rid' (Some (''Bearer '' @ lr_token r)) u = Send 200 ?p"
    using bearer_token [OF tok(1,2)] tok(3) active
    by (simp add: authenticate_def Let_def verifyToken_def) (simp add: session_claims_def)
  have kind: "tp_kind ?p = OperatorToken" by (simp add: session_claims_def)
  have refused: "authenticate a rid' (Some (''Bearer '' @ lr_token r)) v = Fail 401 ''invalid_token'' ''Invalid or expired token'' False rid'"
    if "\<not> isDashboardSessionActive ?p v" for v
  proof -
    have op: "verifyToken (ap_jwt a) (lr_token r) (e_dashboardJwtSecret (ap_env a)) (Some (e_dashboardJwtAudience (ap_env a)))
        (Some OperatorToken) (now_us v) = Inr q \<Longrightarrow> q = ?p" for q
      using tok(4) by (auto simp: verifyToken_def split: sum.splits if_splits)
    have sv: "\<exists>e. verifyToken (ap_jwt a) (lr_token r) (e_clueojServiceSecret (ap_env a)) (Some (e_clueojServiceAudience (ap_env a)))
        (Some ServiceToken) (now_us v) = Inl e"
      using tok(4) [of "e_clueojServiceSecret (ap_env a)" "Some (e_clueojServiceAudience (ap_env a))" "now_us v"] kind
      by (cases "jl_verify (ap_jwt a) (lr_token r) (e_clueojServiceSecret (ap_env a)) (Some (e_clueojServiceAudience (ap_env a))) (now_us v)")
        (simp_all add: verifyToken_def)
    show ?thesis
      using bearer_token [OF tok(1,2)] op sv that
      by (auto simp: authenticate_def Let_def split: sum.splits)
  qed
  have "\<not> isDashboardSessionActive ?p v"
    if "changeDashboardUserPassword scrypt salt username pw u = (Inr (Some w), v) \<or> deleteDashboardUser username u = (Inr True, v)"
    for scrypt salt pw v w
    using session_ends [OF active, of username scrypt salt pw v] norm row(1) that by auto
  with first refused show ?thesis by blast
qed


section \<open>Witnesses\<close>

text \<open>A token library whose one text stands for the claims it was signed with, for an hour.\<close>

definition one_token_jwt :: "payload \<Rightarrow> jwt_lib" where
  "one_token_jwt p =
     \<lparr>jl_sign = (\<lambda>secret aud ttl q now. ''t''),
      jl_verify = (\<lambda>token secret aud now.
        if token = ''t'' \<and> (secret = ''s'' \<and> tp_kind p = ServiceToken \<or> secret = ''j'' \<and> tp_kind p = OperatorToken)
        then Inr p else Inl (PlainError ''signature''))\<rparr>"

definition judge_claims :: payload where
  "judge_claims = \<lparr>tp_sub = ''clueoj-service'', tp_role = StorageAdmin, tp_scopes = service_scopes,
     tp_kind = ServiceToken, tp_auth_version = None\<rparr>"

definition judge_app :: app where
  "judge_app = demo_app\<lparr>ap_jwt := one_token_jwt judge_claims\<rparr>"

definition default_body :: service_token_request where
  "default_body = \<lparr>sq_subject = None, sq_scopes = None, sq_ttl_seconds = None\<rparr>"

definition judge_reply :: service_token_response where
  "judge_reply = \<lparr>sp_token = ''t'', sp_expires_in = 86400, sp_audience = e_clueojServiceAudience (ap_env judge_app),
     sp_scopes = service_scopes\<rparr>"

lemma judge_app_simps:
  "ap_jwt judge_app = one_token_jwt judge_claims" "e_clueojServiceSecret (ap_env judge_app) = ''s''"
  "e_dashboardJwtSecret (ap_env judge_app) = ''j''"
  by (simp_all add: judge_app_def demo_secrets)

definition demo_admin :: caller where
  "demo_admin = \<lparr>cl_auth = admin_payload, cl_request_id = ''r'', cl_idempotency_key = Some ''k''\<rparr>"

lemma judge_run: "fst (post_service_token judge_app demo_admin default_body s) = Inr (Send 200 (judge_reply))"
proof -
  have sc: "requireScopes demo_admin [''admin''] h = h" for h :: "(db, service_token_response reply) act"
    by (simp add: requireScopes_def hasScope_def demo_admin_def admin_payload_def)
  have key: "getIdempotencyKey demo_admin h = h ''k''" for h :: "string \<Rightarrow> (db, service_token_response reply) act"
    by (simp add: getIdempotencyKey_def demo_admin_def truthy_def)
  have body: "sq_scopes default_body = None" "sq_ttl_seconds default_body = None" "sq_subject default_body = None"
    by (simp_all add: default_body_def)
  show ?thesis
    unfolding post_service_token_def sc key
    by (simp add: body Let_def filter_False bnd_def audit_def insertAuditEvent_def fresh_uuid_def signServiceToken_def
        judge_app_simps judge_reply_def) (simp add: one_token_jwt_def)
qed


definition alice_key :: string where
  "alice_key = take KEY_LENGTH (''correct horse'' @ replicate KEY_LENGTH (CHR ''x''))"

definition alice_row :: dashboard_user where
  "alice_row = new_user ''alice'' (encode_hash (replicate SALT_LENGTH (CHR ''s'')) alice_key) 0"

definition login_db :: db where
  "login_db = (demo_db [])\<lparr>dashboard_users := [alice_row, new_user ''bob'' ''h'' 0]\<rparr>"

definition alice_app :: app where
  "alice_app = demo_app\<lparr>ap_jwt := one_token_jwt (session_claims alice_row)\<rparr>"

definition alice_reply :: login_response where
  "alice_reply = \<lparr>lr_token = ''t'', lr_expires_in = 3600, lr_role = ''storage-admin''\<rparr>"

lemma alice_app_simps:
  "ap_jwt alice_app = one_token_jwt (session_claims alice_row)" "e_dashboardJwtSecret (ap_env alice_app) = ''j''"
  "ap_scrypt alice_app = demo_scrypt"
  by (simp_all add: alice_app_def demo_secrets) (simp add: demo_app_def)

lemma alice_password: "verifyPassword demo_scrypt ''correct horse'' (du_password_hash alice_row)"
proof -
  have "length alice_key = KEY_LENGTH" by (simp add: alice_key_def)
  then show ?thesis
    by (simp add: alice_row_def new_user_def verifyPassword_def split_hash hash_numbers base64url_roundtrip deriveKey_def
        COST_def BLOCK_SIZE_def PARALLELIZATION_def demo_scrypt_def) (simp add: alice_key_def)
qed

lemma alice_user: "user_row ''alice'' login_db = Some alice_row" "du_enabled alice_row" "du_role alice_row = ''storage-admin''"
    "du_auth_version alice_row = 1" "du_username alice_row = ''alice''"
  by (simp_all add: user_row_def login_db_def alice_row_def new_user_def)

lemma alice_run: "fst (post_login alice_app ''r'' ''alice'' ''correct horse'' login_db) = Inr (Send 200 alice_reply)"
proof -
  have "verifyDashboardCredentials demo_scrypt ''alice'' ''correct horse'' login_db = Some (rowToUser alice_row)"
    using alice_password by (simp add: verifyDashboardCredentials_def getDashboardUser_def alice_name alice_user rowToUser_def)
  then show ?thesis
    by (simp add: post_login_def alice_app_simps bnd_def login_audit_def insertAuditEvent_def fresh_uuid_def Let_def
        signOperatorToken_def alice_reply_def rowToUser_def alice_user) (simp add: one_token_jwt_def)
qed

theorem login_session_life_witness:
  "authenticate alice_app ''h'' (Some (''Bearer '' @ lr_token alice_reply)) login_db = Send 200 (session_claims alice_row)
   \<and> authenticate alice_app ''h'' (Some (''Bearer '' @ lr_token alice_reply)) (snd (deleteDashboardUser ''alice'' login_db))
     = Fail 401 ''invalid_token'' ''Invalid or expired token'' False ''h''"
proof -
  obtain t where run: "post_login alice_app ''r'' ''alice'' ''correct horse'' login_db = (Inr (Send 200 alice_reply), t)"
    using alice_run by (metis prod.collapse)
  have safe: "is_safe_integer (int (du_auth_version alice_row))"
    by (simp add: alice_user is_safe_integer_def max_safe_integer_def)
  have lib: "honest_token (ap_jwt alice_app) (e_dashboardJwtSecret (ap_env alice_app)) (e_dashboardJwtAudience (ap_env alice_app)) 3600
      (session_claims alice_row) (now_us login_db)"
    by (simp add: honest_token_def alice_app_simps one_token_jwt_def session_claims_def is_space_def)
  have later: "now_us login_db div 1000000 < now_us login_db div 1000000 + 3600" by simp
  have "enabled_count login_db = 2"
    by (simp add: enabled_count_def count_where_def login_db_def alice_row_def new_user_def)
  then have "fst (deleteDashboardUser ''alice'' login_db) = Inr True"
    by (simp add: deleteDashboardUser_def alice_name tx_def alice_user)
  then obtain v where v: "deleteDashboardUser ''alice'' login_db = (Inr True, v)" by (metis prod.collapse)
  from login_session_life [OF run alice_name alice_user(1) safe lib order_refl later alice_user(1), of "''h''"]
  show ?thesis unfolding v by (metis v snd_conv)
qed

end
