(* ===== verification/Evictions.thy ===== *)
theory Evictions
  imports Ensure Leases DataPlane
begin

text \<open>
  What a request asks of the worker travels in the column \<open>result\<close> of its job: \<open>setJobPayload\<close> writes it
  and the handler reads it. An eviction, from the route (\<open>routes.ts\<close>) over the queue (\<open>db.ts\<close>) to the
  call of the data plane (\<open>worker.ts\<close>, \<open>rust-client.ts\<close>), and where the order gets lost.
\<close>

section \<open>What a job has been asked\<close>

definition asked :: "job \<Rightarrow> job_type \<times> string option \<times> json option" where
  "asked j = (j_job_type j, j_problem_id j, j_result j)"

lemma asked_updated_at [simp]: "asked (j\<lparr>j_updated_at := n\<rparr>) = asked j"
  by (simp add: asked_def)

definition keeps_asked :: "string \<Rightarrow> db \<Rightarrow> db \<Rightarrow> bool" where
  "keeps_asked i s t \<longleftrightarrow> (\<forall>j \<in> set (jobs s). j_id j = i \<longrightarrow> (\<exists>k \<in> set (jobs t). j_id k = i \<and> asked k = asked j))"

interpretation asks: preorder_rel "keeps_asked i"
  by unfold_locales (auto simp: keeps_asked_def, metis)

lemma keeps_asked_same: "jobs t = jobs s \<Longrightarrow> keeps_asked i s t"
  by (auto simp: keeps_asked_def)

lemma keeps_asked_update:
  assumes u: "update_jobs st p f s0 = (r, t)" and "jobs s0 = jobs s"
    and f: "\<And>j. p j \<Longrightarrow> j_id j = i \<Longrightarrow> j_id (f j) = i \<and> asked (f j) = asked j"
  shows "keeps_asked i s t"
  using u
proof (cases rule: update_jobs_cases)
  case (failed c)
  with assms(2) show ?thesis by (simp add: keeps_asked_same)
next
  case ok
  show ?thesis unfolding keeps_asked_def
  proof (intro ballI impI)
    fix j assume j: "j \<in> set (jobs s)" "j_id j = i"
    let ?k = "updated_job p f (now_us s0) j"
    have "?k \<in> set (jobs t)" using ok(2) j(1) assms(2) by simp
    moreover have "j_id ?k = i \<and> asked ?k = asked j" using f [of j] j(2) by (simp add: updated_job_def)
    ultimately show "\<exists>k \<in> set (jobs t). j_id k = i \<and> asked k = asked j" by blast
  qed
qed

lemma asked_update_jobs:
  "(\<And>j. p j \<Longrightarrow> j_id j = i \<Longrightarrow> j_id (f j) = i \<and> asked (f j) = asked j) \<Longrightarrow> pres (keeps_asked i) (update_jobs st p f)"
  by (rule presI) (metis keeps_asked_update prod.collapse)

section \<open>The operations that leave it alone\<close>

lemma asked_createJob: "pres (keeps_asked i) (createJob opts)"
proof (rule presI)
  fix s
  obtain r t where eq: "createJob_stmt opts (create_fingerprint opts) s = (r, t)" by fastforce
  then consider i' where "update_jobs False (\<lambda>j. j_id j = i') id s = (r, t)"
    | "t = s"
    | x where "jobs t = jobs s @ [x]"
    by (auto simp: createJob_stmt_def Let_def fresh_uuid_def
        split: list.splits option.splits if_splits prod.splits sum.splits elim!: insert_job_cases)
  then have "keeps_asked i s t"
  proof cases
    case 1
    then show ?thesis by (rule keeps_asked_update) simp_all
  next
    case 2
    then show ?thesis by (simp add: keeps_asked_same)
  next
    case 3
    then show ?thesis by (auto simp: keeps_asked_def)
  qed
  with eq show "keeps_asked i s (snd (createJob opts s))" by (simp add: snd_createJob)
qed

lemma asked_cancelPending: "pres (keeps_asked i) (cancelPendingLocalJobsForRestore pid)"
  unfolding cancelPendingLocalJobsForRestore_def
  by (intro pres_intros asked_update_jobs) (simp add: asked_def)

lemma asked_upsert_usage: "pres (keeps_asked i) (upsert_usage ins upd)"
  by (auto simp: pres_def upsert_usage_def Let_def intro!: keeps_asked_same)

lemma asked_modify: "(\<And>s. jobs (h s) = jobs s) \<Longrightarrow> pres (keeps_asked i) (modify h)"
  by (auto simp: pres_def intro: keeps_asked_same)

lemma asked_createRestore: "pres (keeps_asked i) (createRestoreJobIfMissing opts)"
  unfolding createRestoreJobIfMissing_def
  by (intro pres_intros asked_cancelPending asked_upsert_usage asked_createJob)

lemma asked_touchProblemAccess: "pres (keeps_asked i) (touchProblemAccess pid)"
  unfolding touchProblemAccess_def
  by (intro pres_intros asked_modify asked_update_jobs) (simp_all add: asked_def)

lemma asked_renew: "pres (keeps_asked i) (renewJobLease i' w k n)"
  unfolding renewJobLease_def by (intro pres_intros asked_update_jobs) (simp add: asked_def)

lemma asked_complete: "jt_id t \<noteq> i \<Longrightarrow> pres (keeps_asked i) (completeJobWithLease t st res ec em)"
  unfolding completeJobWithLease_def by (intro pres_intros asked_update_jobs) (simp add: lease_held_def)

lemma asked_updateJobState: "i' \<noteq> i \<Longrightarrow> pres (keeps_asked i) (updateJobState i' st res ec em)"
  unfolding updateJobState_def by (intro pres_intros asked_update_jobs) simp

lemma asked_setJobPayload: "i' \<noteq> i \<Longrightarrow> pres (keeps_asked i) (setJobPayload i' v)"
  unfolding setJobPayload_def by (intro pres_intros asked_update_jobs) simp

lemma asked_retryJob: "pres (keeps_asked i) (retryJob i')"
  unfolding retryJob_def by (intro pres_intros asked_update_jobs) (simp add: asked_def)

lemma asked_cancelJob: "pres (keeps_asked i) (cancelJob i' reason)"
  unfolding pres_def cancelJob_def Let_def
  by (auto simp: keeps_asked_same asked_def split: option.splits prod.splits sum.splits elim!: keeps_asked_update)

lemma asked_failExpired: "pres (keeps_asked i) failExpiredRunningJobs"
  unfolding pres_def failExpiredRunningJobs_def Let_def
  by (auto simp: keeps_asked_same asked_def split: option.splits prod.splits sum.splits elim!: keeps_asked_update)

lemma asked_acquire_stmt: "pres (keeps_asked i) (acquire_stmt w n ln)"
  unfolding pres_def acquire_stmt_def Let_def
  by (auto simp: keeps_asked_same asked_def split: option.splits prod.splits sum.splits elim!: keeps_asked_update)

lemma asked_acquireJob: "pres (keeps_asked i) (acquireJob w n ln)"
  unfolding acquireJob_def by (intro pres_intros asked_failExpired asked_acquire_stmt)

section \<open>A job that waits for its worker\<close>

text \<open>
  The steps of the queue while the job \<open>i\<close> has no outcome: every operation of \<open>queue_step\<close>, the ones
  that write a \<open>result\<close> for other jobs only, and no deletion of the row.
\<close>

inductive waiting_step :: "string \<Rightarrow> db \<Rightarrow> db \<Rightarrow> bool" for i where
  ws_create: "waiting_step i s (snd (createJob opts s))"
| ws_cancel_local: "waiting_step i s (snd (cancelPendingLocalJobsForRestore pid s))"
| ws_restore: "waiting_step i s (snd (createRestoreJobIfMissing ropts s))"
| ws_touch: "waiting_step i s (snd (touchProblemAccess pid s))"
| ws_expire: "waiting_step i s (snd (failExpiredRunningJobs s))"
| ws_acquire: "waiting_step i s (snd (acquireJob w n ln s))"
| ws_renew: "waiting_step i s (snd (renewJobLease i' w k n s))"
| ws_complete: "final_state st \<Longrightarrow> jt_id t \<noteq> i \<Longrightarrow> waiting_step i s (snd (completeJobWithLease t st res ec em s))"
| ws_update: "final_state st \<Longrightarrow> i' \<noteq> i \<Longrightarrow> waiting_step i s (snd (updateJobState i' st res ec em s))"
| ws_payload: "i' \<noteq> i \<Longrightarrow> waiting_step i s (snd (setJobPayload i' v s))"
| ws_cancel: "waiting_step i s (snd (cancelJob i' reason s))"
| ws_retry: "waiting_step i s (snd (retryJob i' s))"
| ws_prune: "jobs t = filter q (jobs s) \<Longrightarrow> (\<And>j. j_id j = i \<Longrightarrow> q j) \<Longrightarrow>
     job_fencing_counters t = job_fencing_counters s \<Longrightarrow> uuid_src t = uuid_src s \<Longrightarrow> uuid_pos s \<le> uuid_pos t
     \<Longrightarrow> now_us s \<le> now_us t \<Longrightarrow> waiting_step i s t"

lemma waiting_queue_step: "waiting_step i s t \<Longrightarrow> queue_step s t"
  by (induction rule: waiting_step.induct) (auto intro: queue_step.intros)

lemmas asked_ops = asked_createJob asked_cancelPending asked_createRestore asked_touchProblemAccess
  asked_failExpired asked_acquireJob asked_renew asked_complete asked_updateJobState
  asked_setJobPayload asked_cancelJob asked_retryJob

lemma waiting_keeps: "waiting_step i s t \<Longrightarrow> keeps_asked i s t"
proof (induction rule: waiting_step.induct)
  case (ws_prune t q s)
  then show ?case by (auto simp: keeps_asked_def)
qed (auto intro: asked_ops [THEN presD])

lemma waiting_steps:
  assumes "(waiting_step i)\<^sup>*\<^sup>* s t"
  shows "keeps_asked i s t \<and> queue_step\<^sup>*\<^sup>* s t"
  using assms
proof (induction rule: rtranclp_induct)
  case base
  then show ?case by (simp add: asks.R_refl)
next
  case (step t u)
  then show ?case using waiting_keeps [of i t u] waiting_queue_step [of i t u]
    by (blast intro: asks.R_trans rtranclp.rtrancl_into_rtrancl)
qed

lemma acquired_as_asked:
  assumes ok: "queue_ok s" and j: "j \<in> set (jobs s)" and run: "acquireJob w n ln s = (Inr (Some t), s')" and "jt_id t = j_id j"
  shows "jt_job_type t = j_job_type j \<and> jt_problem_id t = j_problem_id j \<and> jt_result t = coalesce (j_result j) JNull"
proof -
  obtain c token where c: "c \<in> set (jobs s)" "t = rowToJob (granted_row w n token (now_us s) c)"
    using acquireJob_Some [OF ok run] by blast
  then have "j_id c = j_id j" using assms(4) by (simp add: rowToJob_def granted_row_def)
  then have "c = j" using id_unique [of "jobs s" c j] c(1) j ok by (simp add: queue_ok_def fence_ok_def)
  then show ?thesis using c(2) by (simp add: rowToJob_def granted_row_def coalesce_def split: option.split)
qed

section \<open>An eviction is carried out as it was asked\<close>

text \<open>The order an accepted eviction leaves with its job, and how the handler reads it.\<close>

definition evict_payload :: "app \<Rightarrow> evict_request \<Rightarrow> json" where
  "evict_payload a body =
     JObj ([(''dry_run'', JBool (coalesce (ev_dry_run body) True)), (''force'', JBool (coalesce (ev_force body) False))]
       @ optional ''idle_before'' (\<lambda>t. JStr (ap_iso a t)) (Option.bind (ev_idle_before body) (\<lambda>t. t))
       @ optional ''reason'' JStr (ev_reason body))"

lemma evict_payload_fields:
  "bool_field (evict_payload a body) ''dry_run'' True = coalesce (ev_dry_run body) True"
  "bool_field (evict_payload a body) ''force'' False = coalesce (ev_force body) False"
  "text_field (evict_payload a body) ''idle_before''
    = map_option (ap_iso a) (Option.bind (ev_idle_before body) (\<lambda>t. t))"
  by (cases "ev_reason body"; cases "Option.bind (ev_idle_before body) (\<lambda>t. t)";
      simp add: evict_payload_def bool_field_def text_field_def json_field_def optional_def)+

lemma set_payload_row:
  assumes "setJobPayload i v s = (Inr q, s')" and "j \<in> set (jobs s)" and "j_id j = i" and "j_state j = Pending"
  shows "\<exists>k \<in> set (jobs s'). j_id k = i \<and> asked k = (j_job_type j, j_problem_id j, Some v)"
proof -
  let ?p = "\<lambda>j. j_id j = i \<and> j_state j = Pending" and ?f = "\<lambda>j. j\<lparr>j_result := Some v\<rparr>"
  obtain rows where "update_jobs False ?p ?f s = (Inr rows, s')"
    using assms(1) by (auto simp: setJobPayload_def bnd_eq_Inr)
  then have "jobs s' = map (updated_job ?p ?f (now_us s)) (jobs s)" by (cases rule: update_jobs_cases) simp_all
  then have "updated_job ?p ?f (now_us s) j \<in> set (jobs s')" using assms(2) by simp
  then show ?thesis using assms(3, 4)
    by (intro bexI [of _ "updated_job ?p ?f (now_us s) j"]) (simp_all add: updated_job_def asked_def)
qed

lemma audit_jobs: "audit cl action t s = (r, s') \<Longrightarrow> jobs s' = jobs s"
  by (auto simp: audit_def insertAuditEvent_def fresh_uuid_def)

lemma job_error_no_send: "sendJobError a cl e s \<noteq> (Inr (Send st v), t)"
  by (cases e) (simp_all add: sendJobError_def reject_def Let_def)

lemma post_evict_row:
  assumes ok: "queue_ok s" and run: "post_evict a cl pid body s = (Inr (Send 202 acc), s')" and "aj_state acc = Pending"
  shows "\<exists>k \<in> set (jobs s'). j_id k = aj_job_id acc \<and> asked k = (Evict, Some pid, Some (evict_payload a body))"
proof -
  let ?idle = "Option.bind (ev_idle_before body) (\<lambda>t. t)"
  have "enqueue_evict a cl pid body ?idle s = (Inr (Send 202 acc), s')"
    using run by (auto simp: post_evict_def requireScopes_def reject_def split: if_splits option.splits)
  then obtain opts t s1 q s2 u tg where c: "createJob opts s = (Inr t, s1)"
      "setJobPayload (jt_id t) (evict_payload a body) s1 = (Inr q, s2)" "acc = accepted t"
      "audit cl ''problem.evict'' tg s2 = (Inr u, s')"
    and opts: "co_jobType opts = Evict" "co_problemId opts = Some pid"
    by (auto simp: enqueue_evict_def Let_def with_problem_def not_found_def reject_def job_catch_def getIdempotencyKey_def
        try_catch_eq_Inr bnd_eq_Inr evict_payload_def [symmetric, unfolded append.simps] action_opts_def job_error_no_send
        split: if_splits option.splits)
  have viol: "jobs_violation (jobs s) = None" using ok by (simp add: queue_ok_def rows_ok_def)
  have "row_for opts t s1" using createJob_row [OF viol c(1)] opts(1) by simp
  then obtain j where j: "j \<in> set (jobs s1)" "t = rowToJob j" "j_job_type j = Evict" "j_problem_id j = Some pid"
    using opts by (auto simp: row_for_def)
  then have "j_id j = jt_id t" "j_state j = Pending" using c(3) assms(3) by (simp_all add: rowToJob_def accepted_def)
  from set_payload_row [OF c(2) j(1) this] have "\<exists>k \<in> set (jobs s2). j_id k = jt_id t \<and> asked k = (Evict, Some pid, Some (evict_payload a body))"
    using j(3, 4) by simp
  moreover have "jobs s' = jobs s2" by (rule audit_jobs [OF c(4)])
  ultimately show ?thesis using c(3) by (simp add: accepted_def)
qed

lemma post_evict_ok: "queue_ok s \<Longrightarrow> post_evict a cl pid body s = (r, s') \<Longrightarrow> queue_ok s'"
proof -
  have "pres queue_safe (post_evict a cl pid body)"
    unfolding post_evict_def enqueue_evict_def Let_def by (intro pres_intros)
  then show "queue_ok s \<Longrightarrow> post_evict a cl pid body s = (r, s') \<Longrightarrow> queue_ok s'"
    using safe_ok presD [of queue_safe "post_evict a cl pid body" s] by auto
qed

lemma evict_dispatch:
  assumes "jt_job_type t = Evict" and "jt_problem_id t = Some pid" and "pid \<noteq> []" and "jt_result t = evict_payload a body"
    and "holds_lease s t" and "wc_leaseValid ctx s" and "getProblem pid s = Some p"
  shows "dispatch (worker_on pl ctx) t s
    = rust_evict pl pid (pt_code p) (coalesce (ev_dry_run body) True) (coalesce (ev_force body) False)
        (jt_fencing_token t) (map_option (ap_iso a) (Option.bind (ev_idle_before body) (\<lambda>t. t))) s"
proof -
  have g: "guard_lease (worker_on pl ctx) t s = (Inr (), s)"
    using assms(5, 6) by (intro guard_ok) (simp_all add: worker_on_def)
  have "pt_external_id p = pid"
    using assms(7) by (auto simp: getProblem_def rowToProblem_def find_Some_iff)
  then show ?thesis
    using assms g
    by (simp add: dispatch_def evict_handler_def require_problem_id_def require_problem_def truthy_def coalesce_def
        worker_on_def client_of_def evict_payload_fields)
qed

lemma acquired_holds:
  assumes "queue_ok s" and "acquireJob w n ln s = (Inr (Some t), s')"
  shows "holds_lease s' t"
  using acquireJob_Some [OF assms] assms(1) granted_holds by blast


section \<open>Where the order gets lost\<close>

text \<open>
  The column that carries the order receives the outcome as well. After a failure it is \<open>null\<close>, and a
  job that is retried then runs with the handler's defaults: an eviction asked for with \<open>dry_run: false\<close>
  ends as a dry run.
\<close>

lemma updated_first:
  assumes "update_jobs st p f s = (Inr rows, s')" and "first_row rows = Some t"
  obtains j where "j \<in> set (jobs s)" "p j" "t = rowToJob (updated_job p f (now_us s) j)"
proof (cases "filter p (jobs s)")
  case Nil
  with assms show ?thesis by (cases rule: update_jobs_cases) (simp_all add: first_row_def)
next
  case (Cons j js)
  then have "j \<in> set (filter p (jobs s))" by (simp del: set_filter filter_filter)
  moreover have "t = rowToJob (updated_job p f (now_us s) j)"
    using assms Cons by (cases rule: update_jobs_cases) (simp_all add: first_row_def)
  ultimately show ?thesis by (intro that [of j]) simp_all
qed

lemma retried_eviction_is_dry:
  assumes ok: "queue_ok s" and f: "completeJobWithLease t Failed JNull ec em s = (Inr (Some r), s1)"
    and re: "retryJob (jt_id t) s1 = (Inr (Some r'), s2)"
  shows "jt_result r' = JNull \<and> bool_field (jt_result r') ''dry_run'' True \<and> \<not> bool_field (jt_result r') ''force'' False"
proof -
  let ?p = "lease_held s (jt_id t) (jt_lease_owner t) (jt_fencing_token t)"
  let ?f = "\<lambda>j. j\<lparr>j_state := Failed, j_result := Some JNull, j_error_code := ec, j_error_message := em,
                   j_completed_at := Some (now_us s)\<rparr>"
  obtain rows where u: "update_jobs True ?p ?f s = (Inr rows, s1)" "first_row rows = Some r"
    using f by (auto simp: completeJobWithLease_def bnd_eq_Inr)
  obtain j where j: "j \<in> set (jobs s)" "?p j" using updated_first [OF u] by blast
  have s1: "jobs s1 = map (updated_job ?p ?f (now_us s)) (jobs s)" using u(1) by (cases rule: update_jobs_cases) simp_all
  obtain k where k: "k \<in> set (jobs s1)" "j_id k = jt_id t" "r' = rowToJob (k\<lparr>j_state := Pending, j_lease_owner := None,
      j_lease_expires_at := None, j_requested_cancel_at := None, j_requested_cancel_reason := None,
      j_error_code := None, j_error_message := None, j_updated_at := now_us s1\<rparr>)"
    using re by (auto simp: retryJob_def bnd_eq_Inr updated_job_def elim!: updated_first)
  then obtain l where l: "l \<in> set (jobs s)" "k = updated_job ?p ?f (now_us s) l" using s1 by auto
  then have "j_id l = jt_id t" using k(2) by (auto simp: updated_job_def split: if_splits)
  then have "l = j" using j l(1) ok id_unique [of "jobs s" l j] by (simp add: lease_held_def queue_ok_def rows_ok_def)
  then have "j_result k = Some JNull" using l(2) j(2) by (simp add: updated_job_def)
  then show ?thesis using k(3) by (simp add: rowToJob_def coalesce_def bool_field_def json_field_def)
qed

text \<open>
  The job is visible before its order: \<open>createJob\<close> and \<open>setJobPayload\<close> are two statements, and the second
  has no effect on a job that a worker has acquired in between.
\<close>

lemma late_order_dropped:
  assumes "jobs_violation (jobs s) = None" and "\<And>j. j \<in> set (jobs s) \<Longrightarrow> j_id j = i \<Longrightarrow> j_state j \<noteq> Pending"
  shows "fst (setJobPayload i v s) = Inr None \<and> jobs (snd (setJobPayload i v s)) = jobs s"
proof -
  let ?p = "\<lambda>j. j_id j = i \<and> j_state j = Pending" and ?f = "\<lambda>j. j\<lparr>j_result := Some v\<rparr>"
  have same: "map (updated_job ?p ?f (now_us s)) (jobs s) = jobs s"
    by (rule map_idI) (use assms(2) in \<open>auto simp: updated_job_def\<close>)
  have none: "filter ?p (jobs s) = []" using assms(2) by (auto simp: filter_empty_conv)
  obtain q s' where u: "update_jobs False ?p ?f s = (q, s')" by fastforce
  then show ?thesis
  proof (cases rule: update_jobs_cases)
    case (failed c)
    then show ?thesis using same assms(1) by simp
  next
    case ok
    then show ?thesis using u same none by (simp add: setJobPayload_def first_row_def bnd_def)
  qed
qed

section \<open>A witness\<close>

definition evict_now :: evict_request where
  "evict_now = \<lparr>ev_dry_run = Some False, ev_force = Some True, ev_idle_before = None, ev_reason = None\<rparr>"

lemma evict_accepted:
  "\<exists>acc s1 t s3. post_evict missing_app admin_caller ''1'' evict_now (demo_db []) = (Inr (Send 202 acc), s1)
    \<and> aj_state acc = Pending \<and> acquireJob ''w'' 60 LaneBulk s1 = (Inr (Some t), s3) \<and> jt_id t = aj_job_id acc
    \<and> problems s3 = problems (demo_db [])"
  by (simp add: post_evict_def enqueue_evict_def evict_now_def requireScopes_def hasScope_def with_problem_def getProblem_def
      admin_caller_def admin_payload_def job_catch_def getIdempotencyKey_def action_opts_def setJobPayload_def
      audit_def insertAuditEvent_def no_target_def accepted_def action_fingerprint_def demo_simps queue_eval)


end
