(* ===== verification/ContractClient.thy ===== *)
theory ContractClient
  imports Web Console
begin

text \<open>
  The contract client, \<open>packages/contracts/generated/client.ts\<close>: what each method of \<open>StorageClient\<close> sends
  and which handler of \<open>control-plane/src/routes.ts\<close> it reaches, what becomes of the answer, and that the
  interfaces of the file are true of what the service sends.
\<close>

section \<open>Requests\<close>

text \<open>A trailing slash of the base URL is dropped; the base URL names an origin.\<close>

record contract_client =
  cc_baseUrl :: string
  cc_token :: string

definition storage_client :: "string \<Rightarrow> string \<Rightarrow> contract_client" where
  "storage_client baseUrl token =
     \<lparr>cc_baseUrl = (if baseUrl \<noteq> [] \<and> last baseUrl = CHR ''/'' then butlast baseUrl else baseUrl), cc_token = token\<rparr>"

record contract_message =
  cm_origin :: string
  cm_authorization :: string
  cm_request :: http_request

definition defined :: "(string \<times> string option) list \<Rightarrow> query" where
  "defined kvs = map (\<lambda>(k, v). (k, coalesce v [])) (filter (\<lambda>(k, v). v \<noteq> None) kvs)"

text \<open>
  \<open>request\<close> up to its \<open>fetch\<close>. Every path begins with \<open>/api/v1\<close>, which is \<open>base_path\<close>; a field of the
  query that is \<open>undefined\<close> is left out, an empty one is sent; an empty key is no header.
\<close>

definition contract_request ::
  "contract_client \<Rightarrow> string \<Rightarrow> string \<Rightarrow> (string \<times> string option) list \<Rightarrow> string option \<Rightarrow> json option \<Rightarrow> contract_message" where
  "contract_request c method path query idempotencyKey body =
     \<lparr>cm_origin = cc_baseUrl c, cm_authorization = ''Bearer '' @ cc_token c,
      cm_request = api_request method path (query_text form_encode (defined query))
        (if truthy idempotencyKey then idempotencyKey else None) body\<rparr>"

subsection \<open>The methods\<close>

record problem_action =
  pa_dry_run :: "bool option"
  pa_generation :: "nat option"
  pa_force :: "bool option"
  pa_idle_before :: "string option"
  pa_reason :: "string option"

definition problem_action_json :: "problem_action \<Rightarrow> json" where
  "problem_action_json a = JObj (optional ''dry_run'' JBool (pa_dry_run a)
     @ optional ''generation'' (\<lambda>n. JNum (int n)) (pa_generation a) @ optional ''force'' JBool (pa_force a)
     @ optional ''idle_before'' JStr (pa_idle_before a) @ optional ''reason'' JStr (pa_reason a))"

definition job_action_json :: "string option \<Rightarrow> json" where
  "job_action_json reason = JObj (optional ''reason'' JStr reason)"

definition service_token_json :: "service_token_request \<Rightarrow> json" where
  "service_token_json r = JObj (optional ''subject'' JStr (sq_subject r)
     @ optional ''scopes'' (\<lambda>ts. JArr (map JStr ts)) (sq_scopes r) @ optional ''ttl_seconds'' JNum (sq_ttl_seconds r))"

text \<open>
  A constructor per method with its arguments; the idempotency key is apart. The bodies of \<open>reconcile\<close> and
  \<open>markProblemDirty\<close> are JSON values, of the types the interfaces say (\<open>contract_call_ok\<close>).
\<close>

datatype contract_call =
    CallGetHealth
  | CallLogin string string
  | CallIssueServiceToken service_token_request
  | CallGetVolumes
  | CallReconcile "json list"
  | CallGetSyncChanges "string option" "nat option"
  | CallListProblems "(string \<times> string option) list"
  | CallGetProblem string
  | CallGetProblemUsage string
  | CallGetProblemFiles string "string option" "nat option"
  | CallMarkProblemDirty string json
  | CallEnsureProblemReady string
  | CallScanProblem string "problem_action option"
  | CallSnapshotProblem string "problem_action option"
  | CallRestoreProblem string problem_action
  | CallEvictProblem string problem_action
  | CallListOrganizations "string option" "nat option"
  | CallGetOrganizationUsage string
  | CallListSnapshots "(string \<times> string option) list"
  | CallGetSnapshot string
  | CallListJobs "(string \<times> string option) list"
  | CallGetJob string
  | CallScheduleCatalogSnapshots "int option"
  | CallUpdateOrganizationSettings string "json option" "json option"
  | CallGetDashboardSummary
  | CallGetDashboardStatusDistribution
  | CallGetLargestProblems "nat option"
  | CallGetLargestOrganizations "nat option"
  | CallGetVolumeTimeseries "(string \<times> string option) list"
  | CallRetryJob string "string option option"
  | CallCancelJob string "string option option"
  | CallListOrphans "string option" "nat option"
  | CallListAuditEvents "(string \<times> string option) list"
  | CallDownload string "nat option"
  | CallStartBackfill string
  | CallPauseBackfill string
  | CallApplyRetention
  | CallListGcEligible "nat option"

definition paging_query :: "string option \<Rightarrow> nat option \<Rightarrow> (string \<times> string option) list" where
  "paging_query cursor n = [(''cursor'', cursor), (''limit'', map_option nat_text n)]"

definition job_path :: "string \<Rightarrow> string \<Rightarrow> string" where
  "job_path i suffix = ''/jobs/'' @ encodeURIComponent i @ suffix"

definition backfill_path :: "string \<Rightarrow> string \<Rightarrow> string" where
  "backfill_path capability suffix = ''/backfill/'' @ encodeURIComponent capability @ suffix"

fun contract :: "contract_client \<Rightarrow> string \<Rightarrow> contract_call \<Rightarrow> contract_message" where
  "contract c key CallGetHealth = contract_request c ''GET'' ''/system/health'' [] None None"
| "contract c key (CallLogin username password) = contract_request c ''POST'' ''/auth/login'' [] None
     (Some (JObj [(''username'', JStr username), (''password'', JStr password)]))"
| "contract c key (CallIssueServiceToken req) =
     contract_request c ''POST'' ''/auth/service-token'' [] (Some key) (Some (service_token_json req))"
| "contract c key CallGetVolumes = contract_request c ''GET'' ''/storage/volumes'' [] None None"
| "contract c key (CallReconcile ps) =
     contract_request c ''POST'' ''/catalog/problems:reconcile'' [] (Some key) (Some (JObj [(''problems'', JArr ps)]))"
| "contract c key (CallGetSyncChanges cursor n) = contract_request c ''GET'' ''/sync/changes'' (paging_query cursor n) None None"
| "contract c key (CallListProblems params) = contract_request c ''GET'' ''/problems'' params None None"
| "contract c key (CallGetProblem i) = contract_request c ''GET'' (problem_path i []) [] None None"
| "contract c key (CallGetProblemUsage i) = contract_request c ''GET'' (problem_path i ''/usage'') [] None None"
| "contract c key (CallGetProblemFiles i cursor n) =
     contract_request c ''GET'' (problem_path i ''/files'') (paging_query cursor n) None None"
| "contract c key (CallMarkProblemDirty i body) =
     contract_request c ''POST'' (problem_path i ''/dirty'') [] (Some key) (Some body)"
| "contract c key (CallEnsureProblemReady i) = contract_request c ''POST'' (problem_path i ''/ensure-ready'') [] (Some key) None"
| "contract c key (CallScanProblem i a) =
     contract_request c ''POST'' (problem_path i ''/scan'') [] (Some key) (map_option problem_action_json a)"
| "contract c key (CallSnapshotProblem i a) =
     contract_request c ''POST'' (problem_path i ''/snapshot'') [] (Some key) (map_option problem_action_json a)"
| "contract c key (CallRestoreProblem i a) =
     contract_request c ''POST'' (problem_path i ''/restore'') [] (Some key) (Some (problem_action_json a))"
| "contract c key (CallEvictProblem i a) =
     contract_request c ''POST'' (problem_path i ''/evict'') [] (Some key) (Some (problem_action_json a))"
| "contract c key (CallListOrganizations cursor n) = contract_request c ''GET'' ''/organizations'' (paging_query cursor n) None None"
| "contract c key (CallGetOrganizationUsage i) =
     contract_request c ''GET'' (''/organizations/'' @ encodeURIComponent i @ ''/usage'') [] None None"
| "contract c key (CallListSnapshots params) = contract_request c ''GET'' ''/snapshots'' params None None"
| "contract c key (CallGetSnapshot i) = contract_request c ''GET'' (''/snapshots/'' @ encodeURIComponent i) [] None None"
| "contract c key (CallListJobs params) = contract_request c ''GET'' ''/jobs'' params None None"
| "contract c key (CallGetJob i) = contract_request c ''GET'' (job_path i []) [] None None"
| "contract c key (CallScheduleCatalogSnapshots n) =
     contract_request c ''POST'' ''/catalog/snapshots:schedule'' [] (Some key) (Some (JObj (optional ''limit'' JNum n)))"
| "contract c key (CallUpdateOrganizationSettings i quota n) =
     contract_request c ''PUT'' (''/organizations/'' @ encodeURIComponent i @ ''/settings'') [] (Some key)
       (Some (JObj (optional ''storage_quota_bytes'' id quota @ optional ''problem_count_quota'' id n)))"
| "contract c key CallGetDashboardSummary = contract_request c ''GET'' ''/dashboard/summary'' [] None None"
| "contract c key CallGetDashboardStatusDistribution =
     contract_request c ''GET'' ''/dashboard/status-distribution'' [] None None"
| "contract c key (CallGetLargestProblems n) =
     contract_request c ''GET'' ''/dashboard/largest-problems'' [(''limit'', map_option nat_text n)] None None"
| "contract c key (CallGetLargestOrganizations n) =
     contract_request c ''GET'' ''/dashboard/largest-organizations'' [(''limit'', map_option nat_text n)] None None"
| "contract c key (CallGetVolumeTimeseries params) =
     contract_request c ''GET'' ''/dashboard/volume-timeseries'' params None None"
| "contract c key (CallRetryJob i body) =
     contract_request c ''POST'' (job_path i ''/retry'') [] (Some key) (map_option job_action_json body)"
| "contract c key (CallCancelJob i body) =
     contract_request c ''POST'' (job_path i ''/cancel'') [] (Some key) (map_option job_action_json body)"
| "contract c key (CallListOrphans cursor n) = contract_request c ''GET'' ''/orphans'' (paging_query cursor n) None None"
| "contract c key (CallListAuditEvents params) = contract_request c ''GET'' ''/audit-events'' params None None"
| "contract c key (CallDownload i ttl) = contract_request c ''POST'' ''/downloads'' [] (Some key)
     (Some (JObj ((''problem_external_id'', JStr i) # optional ''ttl_seconds'' (\<lambda>n. JNum (int n)) ttl)))"
| "contract c key (CallStartBackfill capability) =
     contract_request c ''POST'' (backfill_path capability ''/start'') [] (Some key) None"
| "contract c key (CallPauseBackfill capability) =
     contract_request c ''POST'' (backfill_path capability ''/pause'') [] (Some key) None"
| "contract c key CallApplyRetention = contract_request c ''POST'' ''/retention:apply'' [] (Some key) None"
| "contract c key (CallListGcEligible n) =
     contract_request c ''GET'' ''/gc/eligible'' [(''limit'', map_option nat_text n)] None None"

text \<open>\<open>jobEventsUrl\<close>: the URL only; the caller opens the stream.\<close>

definition jobEventsUrl :: "contract_client \<Rightarrow> string \<Rightarrow> string" where
  "jobEventsUrl c i = cc_baseUrl c @ base_path @ job_path i ''/events''"

section \<open>What the calls are meant for\<close>

definition supplied :: "(string \<times> string option) list \<Rightarrow> string \<Rightarrow> string option" where
  "supplied kvs k = coalesce (map_of kvs k) None"

text \<open>A setting is a number, a text of digits, \<open>null\<close>, or left out; \<open>null\<close> and nothing both mean no limit.\<close>

fun setting :: "json option \<Rightarrow> int option" where
  "setting (Some (JNum n)) = Some n"
| "setting (Some (JStr t)) = Some (int (digits_value t))"
| "setting v = None"

definition needs_body :: "'a option \<Rightarrow> write_request \<Rightarrow> arrival" where
  "needs_body body r = (if body = None then Rejected ''FST_ERR_CTP_EMPTY_JSON_BODY'' else Arrives (Write r))"

fun meant :: "wire \<Rightarrow> contract_call \<Rightarrow> arrival" where
  "meant w CallGetHealth = Arrives (GetHealth (wi_db_ok w) (wi_rust_ok w))"
| "meant w (CallLogin u p) =
     (if 3 \<le> length u \<and> length u \<le> 64 \<and> 1 \<le> length p \<and> length p \<le> 1024 then Arrives (PostLogin u p)
      else Rejected ''FST_ERR_VALIDATION'')"
| "meant w (CallIssueServiceToken req) =
     (if \<forall>n \<in> set_option (sq_ttl_seconds req). 60 \<le> n \<and> n \<le> 2592000 then Arrives (Write (PostServiceToken req))
      else Rejected ''FST_ERR_VALIDATION'')"
| "meant w CallGetVolumes = Arrives (Read GetVolumes)"
| "meant w (CallReconcile ps) = Arrives (Write (PostReconcile (Some ps)))"
| "meant w (CallGetSyncChanges c n) = reading_rows (\<lambda>c. GetSyncChanges c (map_option nat_text n)) (dated_cursor w c)"
| "meant w (CallListProblems kvs) =
     reading_rows (\<lambda>c. GetProblems \<lparr>lp_search = supplied kvs ''search'', lp_ownerOrg = supplied kvs ''owner_organization'',
         lp_catalogState = supplied kvs ''catalog_state'', lp_sort = supplied kvs ''sort'', lp_order = supplied kvs ''order'',
         lp_cursor = c, lp_limit = 0\<rparr> (supplied kvs ''limit''))
       (problem_cursor w (supplied kvs ''sort'') (supplied kvs ''cursor''))"
| "meant w (CallGetProblem i) = Arrives (Read (GetProblem i))"
| "meant w (CallGetProblemUsage i) = Arrives (Read (GetProblemUsage i))"
| "meant w (CallGetProblemFiles i c n) = Arrives (Read (GetProblemFiles i c (map_option nat_text n)))"
| "meant w (CallMarkProblemDirty i body) = Arrives (Write (PostDirty i body))"
| "meant w (CallEnsureProblemReady i) = Rejected ''FST_ERR_CTP_EMPTY_JSON_BODY''"
| "meant w (CallScanProblem i a) = needs_body a (PostScan i)"
| "meant w (CallSnapshotProblem i a) = needs_body a (PostSnapshot i (case a of None \<Rightarrow> None | Some a \<Rightarrow> pa_generation a))"
| "meant w (CallRestoreProblem i a) = Arrives (Write (PostRestore i (pa_generation a) (coalesce (pa_dry_run a) False)))"
| "meant w (CallEvictProblem i a) = Arrives (Write (PostEvict i
     \<lparr>ev_dry_run = pa_dry_run a, ev_force = pa_force a, ev_idle_before = map_option (wi_date w) (pa_idle_before a),
      ev_reason = pa_reason a\<rparr>))"
| "meant w (CallListOrganizations c n) = reading_rows (\<lambda>c. GetOrganizations c (map_option nat_text n)) (text_cursor c)"
| "meant w (CallGetOrganizationUsage i) = Arrives (Read (GetOrganizationUsage i))"
| "meant w (CallListSnapshots kvs) =
     reading_rows (\<lambda>c. GetSnapshots (supplied kvs ''problem_id'') c (supplied kvs ''limit''))
       (dated_cursor w (supplied kvs ''cursor''))"
| "meant w (CallGetSnapshot i) = Arrives (Read (GetSnapshot i))"
| "meant w (CallListJobs kvs) =
     reading_rows (\<lambda>c. GetJobs (supplied kvs ''state'') (supplied kvs ''problem_id'') c (supplied kvs ''limit''))
       (dated_cursor w (supplied kvs ''cursor''))"
| "meant w (CallGetJob i) = Arrives (Read (GetJob i))"
| "meant w (CallScheduleCatalogSnapshots n) = Arrives (Write (PostScheduleSnapshots n))"
| "meant w (CallUpdateOrganizationSettings i quota n) = Arrives (Write (PutSettings i (setting quota) (setting n)))"
| "meant w CallGetDashboardSummary = Arrives (Read GetSummary)"
| "meant w CallGetDashboardStatusDistribution = Arrives (Read GetStatusDistribution)"
| "meant w (CallGetLargestProblems n) = Arrives (Read (GetLargestProblems (map_option nat_text n)))"
| "meant w (CallGetLargestOrganizations n) = Arrives (Read (GetLargestOrganizations (map_option nat_text n)))"
| "meant w (CallGetVolumeTimeseries kvs) = Arrives (Read (GetVolumeTimeseries (supplied kvs ''name'') (supplied kvs ''limit'')))"
| "meant w (CallRetryJob i body) = needs_body body (PostRetry i)"
| "meant w (CallCancelJob i body) = needs_body body (PostCancel i (coalesce body None))"
| "meant w (CallListOrphans c n) = reading_rows (\<lambda>c. GetOrphans c (map_option nat_text n)) (text_cursor c)"
| "meant w (CallListAuditEvents kvs) =
     reading_rows (\<lambda>c. GetAuditEvents (map_option (\<lambda>t. map_option nat (wi_date w t)) (supplied kvs ''from''))
         (map_option (\<lambda>t. map_option nat (wi_date w t)) (supplied kvs ''to''))
         \<lparr>la_actor = supplied kvs ''actor'', la_action = supplied kvs ''action'', la_problemId = supplied kvs ''problem_id'',
          la_from = None, la_to = None, la_cursor = c, la_limit = 0\<rparr> (supplied kvs ''limit''))
       (dated_cursor w (supplied kvs ''cursor''))"
| "meant w (CallDownload i ttl) =
     (if \<forall>n \<in> set_option ttl. 1 \<le> n \<and> n \<le> 300 then Arrives (Write (PostDownload i (map_option int ttl) None))
      else Rejected ''FST_ERR_VALIDATION'')"
| "meant w (CallStartBackfill capability) = Rejected ''FST_ERR_CTP_EMPTY_JSON_BODY''"
| "meant w (CallPauseBackfill capability) = Rejected ''FST_ERR_CTP_EMPTY_JSON_BODY''"
| "meant w CallApplyRetention = Rejected ''FST_ERR_CTP_EMPTY_JSON_BODY''"
| "meant w (CallListGcEligible n) = Arrives (Read (GetGcEligible (map_option nat_text n)))"

text \<open>The arguments are of their types; a text that is part of a path is short enough and not made of dots.\<close>

definition quota_setting :: schema where
  "quota_setting = TUnion [TInteger None, TDigits, TNull]"

fun contract_call_ok :: "contract_call \<Rightarrow> bool" where
  "contract_call_ok (CallReconcile ps) = conforms reconcileRequest_schema (JObj [(''problems'', JArr ps)])"
| "contract_call_ok (CallListProblems kvs) = names_ok kvs"
| "contract_call_ok (CallGetProblem i) = id_ok i"
| "contract_call_ok (CallGetProblemUsage i) = id_ok i"
| "contract_call_ok (CallGetProblemFiles i c n) = id_ok i"
| "contract_call_ok (CallMarkProblemDirty i body) = (id_ok i \<and> conforms dirtyProblemRequest_schema body)"
| "contract_call_ok (CallEnsureProblemReady i) = id_ok i"
| "contract_call_ok (CallScanProblem i a) = id_ok i"
| "contract_call_ok (CallSnapshotProblem i a) = id_ok i"
| "contract_call_ok (CallRestoreProblem i a) = id_ok i"
| "contract_call_ok (CallEvictProblem i a) = id_ok i"
| "contract_call_ok (CallGetOrganizationUsage i) = id_ok i"
| "contract_call_ok (CallListSnapshots kvs) = names_ok kvs"
| "contract_call_ok (CallGetSnapshot i) = id_ok i"
| "contract_call_ok (CallListJobs kvs) = names_ok kvs"
| "contract_call_ok (CallGetJob i) = id_ok i"
| "contract_call_ok (CallUpdateOrganizationSettings i quota n) =
     (id_ok i \<and> pred_option (conforms quota_setting) quota \<and> pred_option (conforms (TUnion [TInteger None, TNull])) n)"
| "contract_call_ok (CallGetVolumeTimeseries kvs) = names_ok kvs"
| "contract_call_ok (CallRetryJob i body) = id_ok i"
| "contract_call_ok (CallCancelJob i body) = id_ok i"
| "contract_call_ok (CallListAuditEvents kvs) = names_ok kvs"
| "contract_call_ok (CallStartBackfill capability) = id_ok capability"
| "contract_call_ok (CallPauseBackfill capability) = id_ok capability"
| "contract_call_ok c = True"

section \<open>The calls arrive\<close>

lemma map_of_defined: "distinct (map fst kvs) \<Longrightarrow> map_of (defined kvs) k = supplied kvs k"
proof (induction kvs)
  case (Cons kv kvs)
  obtain k' v where kv: "kv = (k', v)" by (cases kv)
  have "map_of kvs k' = None" using Cons(2) kv by (simp add: map_of_eq_None_iff)
  then have "supplied kvs k' = None" by (simp add: supplied_def)
  then show ?case using Cons kv by (cases v) (auto simp: defined_def supplied_def)
qed (simp add: defined_def supplied_def)

lemma defined_ok: "names_ok kvs \<Longrightarrow> query_ok (defined kvs)"
proof (induction kvs)
  case (Cons kv kvs)
  have "fst ` set (defined kvs) \<subseteq> fst ` set kvs" by (force simp: defined_def)
  with Cons show ?case by (cases kv) (auto simp: query_ok_def names_ok_def defined_def)
qed (simp add: query_ok_def defined_def)

lemma contract_at:
  assumes "libraries_ok w" and "params_ok r ps" and "m = fst (registered r)" and "base_path @ p = path_text (snd (registered r)) ps"
    and "names_ok q"
  shows "arrive w (cm_request (contract_request c m p q key b)) =
    (if m \<noteq> ''GET'' \<and> b = None then Rejected ''FST_ERR_CTP_EMPTY_JSON_BODY''
     else hand_over w r ps (defined q) (coalesce b (JObj [])))"
  unfolding contract_request_def contract_message.simps arrive_at [OF assms(1-4)] read_query(2) [OF assms(1) defined_ok [OF assms(5)]] ..

lemma paging_ok: "names_ok (paging_query c n)" "names_ok []" "names_ok [(''limit'', v)]"
  by (simp_all add: names_ok_def paging_query_def)

lemma supplied_paging:
  "supplied (paging_query c n) ''cursor'' = c" "supplied (paging_query c n) ''limit'' = map_option nat_text n"
  "supplied [(''limit'', v)] ''limit'' = v"
  by (simp_all add: supplied_def paging_query_def)

lemma param_defined: "names_ok kvs \<Longrightarrow> param (defined kvs) k = supplied kvs k"
  by (simp add: names_ok_def param_def map_of_defined)

lemmas contract_rules = url_rules job_path_def backfill_path_def paging_ok param_defined supplied_paging

text \<open>Calls that read.\<close>

lemma contract_reads:
  assumes "libraries_ok w"
  shows "arrive w (cm_request (contract c key CallGetHealth)) = meant w CallGetHealth"
    "arrive w (cm_request (contract c key CallGetVolumes)) = meant w CallGetVolumes"
    "arrive w (cm_request (contract c key CallGetDashboardSummary)) = meant w CallGetDashboardSummary"
    "arrive w (cm_request (contract c key CallGetDashboardStatusDistribution)) = meant w CallGetDashboardStatusDistribution"
    "arrive w (cm_request (contract c key (CallGetSyncChanges cu n))) = meant w (CallGetSyncChanges cu n)"
    "arrive w (cm_request (contract c key (CallListOrganizations cu n))) = meant w (CallListOrganizations cu n)"
    "arrive w (cm_request (contract c key (CallListOrphans cu n))) = meant w (CallListOrphans cu n)"
    "arrive w (cm_request (contract c key (CallGetLargestProblems n))) = meant w (CallGetLargestProblems n)"
    "arrive w (cm_request (contract c key (CallGetLargestOrganizations n))) = meant w (CallGetLargestOrganizations n)"
    "arrive w (cm_request (contract c key (CallListGcEligible n))) = meant w (CallListGcEligible n)"
  using assms by (simp_all add: contract_rules
      contract_at [of w HealthRoute "[]"] contract_at [of w VolumesRoute "[]"] contract_at [of w SummaryRoute "[]"]
      contract_at [of w StatusRoute "[]"] contract_at [of w SyncRoute "[]"] contract_at [of w OrganizationsRoute "[]"]
      contract_at [of w OrphansRoute "[]"] contract_at [of w LargestProblemsRoute "[]"]
      contract_at [of w LargestOrganizationsRoute "[]"] contract_at [of w GcEligibleRoute "[]"])

lemma contract_lists:
  assumes "libraries_ok w" and "names_ok kvs"
  shows "arrive w (cm_request (contract c key (CallListProblems kvs))) = meant w (CallListProblems kvs)"
    "arrive w (cm_request (contract c key (CallListSnapshots kvs))) = meant w (CallListSnapshots kvs)"
    "arrive w (cm_request (contract c key (CallListJobs kvs))) = meant w (CallListJobs kvs)"
    "arrive w (cm_request (contract c key (CallGetVolumeTimeseries kvs))) = meant w (CallGetVolumeTimeseries kvs)"
    "arrive w (cm_request (contract c key (CallListAuditEvents kvs))) = meant w (CallListAuditEvents kvs)"
  using assms by (simp_all add: contract_rules
      contract_at [of w ProblemsRoute "[]"] contract_at [of w SnapshotsRoute "[]"] contract_at [of w JobsRoute "[]"]
      contract_at [of w TimeseriesRoute "[]"] contract_at [of w AuditRoute "[]"])

lemma contract_rows:
  assumes "libraries_ok w" and "id_ok i"
  shows "arrive w (cm_request (contract c key (CallGetProblem i))) = meant w (CallGetProblem i)"
    "arrive w (cm_request (contract c key (CallGetProblemUsage i))) = meant w (CallGetProblemUsage i)"
    "arrive w (cm_request (contract c key (CallGetProblemFiles i cu n))) = meant w (CallGetProblemFiles i cu n)"
    "arrive w (cm_request (contract c key (CallGetOrganizationUsage i))) = meant w (CallGetOrganizationUsage i)"
    "arrive w (cm_request (contract c key (CallGetSnapshot i))) = meant w (CallGetSnapshot i)"
    "arrive w (cm_request (contract c key (CallGetJob i))) = meant w (CallGetJob i)"
  using assms by (simp_all add: contract_rules
      contract_at [of w ProblemRoute "[i]"] contract_at [of w UsageRoute "[i]"] contract_at [of w FilesRoute "[i]"]
      contract_at [of w OrganizationUsageRoute "[i]"] contract_at [of w OneSnapshotRoute "[i]"]
      contract_at [of w OneJobRoute "[i]"])

text \<open>Calls that announce a body and send none.\<close>

lemma contract_bodiless:
  assumes "libraries_ok w" and "id_ok i"
  shows "arrive w (cm_request (contract c key (CallEnsureProblemReady i))) = meant w (CallEnsureProblemReady i)"
    "arrive w (cm_request (contract c key (CallStartBackfill i))) = meant w (CallStartBackfill i)"
    "arrive w (cm_request (contract c key (CallPauseBackfill i))) = meant w (CallPauseBackfill i)"
  using assms by (simp_all add: contract_rules
      contract_at [of w EnsureReadyRoute "[i]"] contract_at [of w BackfillStartRoute "[i]"]
      contract_at [of w BackfillPauseRoute "[i]"])

lemma contract_retention:
  assumes "libraries_ok w"
  shows "arrive w (cm_request (contract c key CallApplyRetention)) = meant w CallApplyRetention"
  using assms by (simp add: contract_rules contract_at [of w RetentionApplyRoute "['':apply'']"])

text \<open>Calls with a body.\<close>

lemma lookup_optional: "map_of (optional k f v) k' = (if k' = k then map_option f v else None)"
  by (cases v) (simp_all add: optional_def)

lemma field_of_append: "json_field (JObj (kvs @ kvs')) k = (case map_of kvs k of Some x \<Rightarrow> Some x | None \<Rightarrow> json_field (JObj kvs') k)"
  "json_field (JObj (optional k' f v)) k = (if k = k' then map_option f v else None)"
  by (auto simp: json_field_def map_add_def lookup_optional split: option.split)

lemmas optional_fields = field_of_append lookup_optional

lemma action_fields:
  "body_field as_bool (problem_action_json a) ''dry_run'' = Some (pa_dry_run a)"
  "body_field as_nat (problem_action_json a) ''generation'' = Some (pa_generation a)"
  "body_field as_bool (problem_action_json a) ''force'' = Some (pa_force a)"
  "body_field as_text (problem_action_json a) ''idle_before'' = Some (pa_idle_before a)"
  "body_field as_text (problem_action_json a) ''reason'' = Some (pa_reason a)"
  "body_field as_text (job_action_json r) ''reason'' = Some r"
  by (simp_all add: body_field_def problem_action_json_def job_action_json_def optional_fields split: option.split)

lemma contract_orders:
  assumes "libraries_ok w" and "id_ok i"
  shows "arrive w (cm_request (contract c key (CallScanProblem i b))) = meant w (CallScanProblem i b)"
    "arrive w (cm_request (contract c key (CallSnapshotProblem i b))) = meant w (CallSnapshotProblem i b)"
    "arrive w (cm_request (contract c key (CallRestoreProblem i a))) = meant w (CallRestoreProblem i a)"
    "arrive w (cm_request (contract c key (CallEvictProblem i a))) = meant w (CallEvictProblem i a)"
  using assms by (cases b; simp add: contract_rules action_fields needs_body_def arriving_def
      contract_at [of w ScanRoute "[i]"] contract_at [of w SnapshotRoute "[i]"] contract_at [of w RestoreRoute "[i]"]
      contract_at [of w EvictRoute "[i]"])+

lemma contract_job_actions:
  assumes "libraries_ok w" and "id_ok i"
  shows "arrive w (cm_request (contract c key (CallRetryJob i r))) = meant w (CallRetryJob i r)"
    "arrive w (cm_request (contract c key (CallCancelJob i r))) = meant w (CallCancelJob i r)"
  using assms by (cases r; simp add: contract_rules action_fields needs_body_def arriving_def
      contract_at [of w RetryRoute "[i]"] contract_at [of w CancelRoute "[i]"])+

lemma contract_dirty:
  assumes "libraries_ok w" and "id_ok i" and "conforms dirtyProblemRequest_schema b"
  shows "arrive w (cm_request (contract c key (CallMarkProblemDirty i b))) = meant w (CallMarkProblemDirty i b)"
  using assms by (simp add: contract_rules validated_def contract_at [of w DirtyRoute "[i]"])

lemma contract_reconcile:
  assumes "libraries_ok w" and "conforms reconcileRequest_schema (JObj [(''problems'', JArr ps)])"
  shows "arrive w (cm_request (contract c key (CallReconcile ps))) = meant w (CallReconcile ps)"
  using assms by (simp add: contract_rules validated_def json_field_def contract_at [of w ReconcileRoute "['':reconcile'']"])

lemma contract_login:
  assumes "libraries_ok w"
  shows "arrive w (cm_request (contract c key (CallLogin u p))) = meant w (CallLogin u p)"
  using assms by (auto simp: contract_rules contract_at [of w LoginRoute "[]"] validated_def loginRequest_schema_def
      conforms.simps json_field_def)

lemma contract_download:
  assumes "libraries_ok w"
  shows "arrive w (cm_request (contract c key (CallDownload i ttl))) = meant w (CallDownload i ttl)"
  using assms by (cases ttl) (auto simp: contract_rules contract_at [of w DownloadRoute "[]"] validated_def
      downloadRequest_schema_def conforms.simps json_field_def optional_def body_field_def)

lemma those_texts: "those (map as_text (map JStr ts)) = Some ts"
  by (induction ts) simp_all

lemma contract_service_token:
  assumes "libraries_ok w"
  shows "arrive w (cm_request (contract c key (CallIssueServiceToken req))) = meant w (CallIssueServiceToken req)"
proof -
  have "body_field as_text (service_token_json req) ''subject'' = Some (sq_subject req)"
    "body_field as_texts (service_token_json req) ''scopes'' = Some (sq_scopes req)"
    "body_field as_int (service_token_json req) ''ttl_seconds'' = Some (sq_ttl_seconds req)"
    using those_texts by (auto simp: body_field_def service_token_json_def optional_fields split: option.splits)
  moreover have "conforms serviceTokenRequest_schema (service_token_json req)
      \<longleftrightarrow> (\<forall>n \<in> set_option (sq_ttl_seconds req). 60 \<le> n \<and> n \<le> 2592000)"
    by (cases req; cases "sq_subject req"; cases "sq_scopes req"; cases "sq_ttl_seconds req")
      (auto simp: serviceTokenRequest_schema_def service_token_json_def optional_def conforms.simps)
  ultimately show ?thesis
    using assms by (simp add: contract_rules contract_at [of w ServiceTokenRoute "[]"] validated_def)
qed

lemma contract_settings:
  assumes "libraries_ok w" and "id_ok i" and "pred_option (conforms quota_setting) quota"
    and "pred_option (conforms (TUnion [TInteger None, TNull])) n"
  shows "arrive w (cm_request (contract c key (CallUpdateOrganizationSettings i quota n)))
    = meant w (CallUpdateOrganizationSettings i quota n)"
proof -
  let ?b = "JObj (optional ''storage_quota_bytes'' id quota @ optional ''problem_count_quota'' id n)"
  have "nullable_field as_bytes ?b ''storage_quota_bytes'' = Some (setting quota)"
    using assms(3) by (cases quota; cases "the quota")
      (auto simp: nullable_field_def body_field_def optional_fields quota_setting_def conforms.simps)
  moreover have "nullable_field as_int ?b ''problem_count_quota'' = Some (setting n)"
    using assms(4) by (cases n; cases "the n") (auto simp: nullable_field_def body_field_def optional_fields conforms.simps)
  ultimately show ?thesis using assms(1,2) by (simp add: contract_rules contract_at [of w SettingsRoute "[i]"])
qed

lemma contract_schedule:
  assumes "libraries_ok w"
  shows "arrive w (cm_request (contract c key (CallScheduleCatalogSnapshots n))) = meant w (CallScheduleCatalogSnapshots n)"
  using assms by (cases n) (simp_all add: contract_rules contract_at [of w ScheduleRoute "['':schedule'']"] nullable_field_def
      body_field_def optional_fields arriving_def)

lemmas contract_arrivals = contract_reads contract_lists contract_rows contract_bodiless contract_retention contract_orders contract_job_actions contract_dirty
  contract_reconcile contract_login contract_download contract_service_token contract_settings contract_schedule

text \<open>The caller and the key arrive as well.\<close>

lemma bearer_found:
  assumes "token \<noteq> []" and "\<not> is_space (hd token)"
  shows "extractBearerToken (Some (''Bearer '' @ token)) = Some token"
  using assms by (cases token) (simp_all add: extractBearerToken_def is_space_def to_lower_def to_lower_char_def char_of_def bit_0)

lemma contract_authorization: "cm_authorization (contract c key call) = ''Bearer '' @ cc_token c"
  by (cases call) (simp_all add: contract_request_def)

fun keyed :: "contract_call \<Rightarrow> bool" where
  "keyed (CallLogin u p) = False"
| "keyed call = True"

lemma contract_key:
  "key \<noteq> [] \<Longrightarrow> keyed call \<Longrightarrow> ht_method (cm_request (contract c key call)) \<noteq> ''GET''
    \<Longrightarrow> ht_key (cm_request (contract c key call)) = Some key"
  by (cases call) (simp_all add: contract_request_def api_request_def truthy_def)



text \<open>
  What the colon of \<open>/retention:apply\<close> does: the route takes any path that begins with
  \<open>/api/v1/retention\<close>, so a misspelt path applies the retention.
\<close>

lemma retention_any_tail:
  assumes "libraries_ok w" and "param_ok p" and "plain_text p"
  shows "arrive w (api_request ''POST'' (''/retention'' @ p) [] key (Some b)) = Arrives (Write PostRetentionApply)"
  using assms by (simp add: arrive_at [of w RetentionApplyRoute "[p]"] params_ok_def api_segments_def base_path_def)

text \<open>The URL of a job's event stream is the one the service announces for it.\<close>

lemma events_url_agrees:
  assumes "encodeURIComponent (jt_id j) = jt_id j"
  shows "jobEventsUrl c (jt_id j) = cc_baseUrl c @ aj_events_url (accepted j)"
  using assms by (simp add: jobEventsUrl_def job_path_def base_path_def accepted_def)

section \<open>Answers\<close>

text \<open>A reply as it travels; \<open>body\<close> renders what the handler sends.\<close>

fun rendered :: "('b \<Rightarrow> json) \<Rightarrow> 'b reply \<Rightarrow> http_response" where
  "rendered body (Send st b) = \<lparr>re_status = st, re_status_text = [], re_request_id = None, re_body = Some (body b)\<rparr>"
| "rendered body (Fail st code message retryable rid) =
     \<lparr>re_status = st, re_status_text = [], re_request_id = None,
      re_body = Some (JObj [(''code'', JStr code), (''message'', JStr message), (''retryable'', JBool retryable),
        (''request_id'', JStr rid)])\<rparr>"

text \<open>
  What \<open>request\<close> throws: the parser's error, the error of reading a field of \<open>null\<close>, or \<open>StorageAPIError\<close>
  with what the body has under the four names (\<open>None\<close> for \<open>undefined\<close>) and the status.
\<close>

datatype contract_failure =
    NotJson
  | NoErrorObject
  | StorageAPIError "json option" "json option" "json option" "json option" nat

definition contract_answer :: "http_response \<Rightarrow> contract_failure + json" where
  "contract_answer r =
     (case re_body r of
        None \<Rightarrow> Inl NotJson
      | Some v \<Rightarrow>
          if 200 \<le> re_status r \<and> re_status r \<le> 299 then Inr v
          else if v = JNull then Inl NoErrorObject
          else Inl (StorageAPIError (json_field v ''code'') (json_field v ''message'') (json_field v ''retryable'')
                 (json_field v ''request_id'') (re_status r)))"

lemma refusal_thrown:
  "\<not> (200 \<le> st \<and> st \<le> 299) \<Longrightarrow> contract_answer (rendered body (Fail st code message retryable rid))
    = Inl (StorageAPIError (Some (JStr code)) (Some (JStr message)) (Some (JBool retryable)) (Some (JStr rid)) st)"
  by (simp add: contract_answer_def json_field_def)

definition health_answer_json :: "health_response \<Rightarrow> json" where
  "health_answer_json h = JObj [(''status'', JStr (hr_status h)), (''version'', JStr ''0.1.0''),
     (''database'', JBool (hr_database h)), (''rust_data_plane'', JBool (hr_rust_data_plane h))]"

text \<open>A degraded service answers 503 with the health it found; \<open>getHealth\<close> throws an error without a code, and the health is lost.\<close>

lemma degraded_health_thrown:
  "\<not> (dbOk \<and> rustOk)
    \<Longrightarrow> contract_answer (rendered health_answer_json (get_health dbOk rustOk)) = Inl (StorageAPIError None None None None 503)"
  by (auto simp: contract_answer_def get_health_def health_answer_json_def json_field_def)

end
