(* ===== verification/Interfaces.thy ===== *)
theory Interfaces
  imports Contract ContractClient
begin

text \<open>
  The interfaces of \<open>packages/contracts/generated/client.ts\<close>, and that they are true of what the service
  sends: each schema the API declares is narrower than the interface the client reads the answer as.
\<close>

section \<open>Narrower schemas\<close>

text \<open>TypeScript's assignability on the types used here: every value of the first is one of the second.\<close>

inductive narrower :: "schema \<Rightarrow> schema \<Rightarrow> bool" where
  same: "narrower t t"
| date_text: "narrower TDateTime TString"
| digits_text: "narrower TDigits TString"
| enum_text: "narrower (TEnum ts) TString"
| enums: "set ts \<subseteq> set us \<Longrightarrow> narrower (TEnum ts) (TEnum us)"
| integers: "narrower (TInteger least) (TInteger None)"
| union_of: "(\<And>t. t \<in> set ts \<Longrightarrow> narrower t u) \<Longrightarrow> narrower (TUnion ts) u"
| union_with: "u \<in> set us \<Longrightarrow> narrower t u \<Longrightarrow> narrower t (TUnion us)"
| items: "narrower t u \<Longrightarrow> narrower (TArray t) (TArray u)"
| objects: "list_all2 (\<lambda>f g. fst f = fst g \<and> (fst (snd f) \<longrightarrow> fst (snd g)) \<and> narrower (snd (snd f)) (snd (snd g))) fs gs
    \<Longrightarrow> narrower (TObject fs) (TObject gs)"

lemma narrower_conforms: "narrower t u \<Longrightarrow> conforms t v \<Longrightarrow> conforms u v"
proof (induction t u arbitrary: v rule: narrower.induct)
  case (objects fs gs)
  then obtain kvs where v: "v = JObj kvs" by (cases v) (simp_all add: conforms.simps(14))
  have "field_ok v g" if "g \<in> set gs" for g
  proof -
    obtain i where i: "i < length gs" "gs ! i = g" using \<open>g \<in> set gs\<close> by (metis in_set_conv_nth)
    then have f: "fs ! i \<in> set fs" using list_all2_lengthD [OF objects.IH] by simp
    note o = list_all2_nthD2 [OF objects.IH i(1), unfolded i(2)]
    then have "fst (fs ! i) = fst g" "fst (snd (fs ! i)) \<longrightarrow> fst (snd g)"
      "\<And>x. conforms (snd (snd (fs ! i))) x \<Longrightarrow> conforms (snd (snd g)) x" by blast+
    moreover have "field_ok v (fs ! i)" using objects.prems f unfolding v conforms_TObject by blast
    ultimately show ?thesis by (auto simp: field_ok_def split: option.splits)
  qed
  then show ?case unfolding v conforms_TObject by blast
next
  case date_text
  then show ?case by (cases v) (simp_all add: conforms.simps)
next
  case digits_text
  then show ?case by (cases v) (simp_all add: conforms.simps)
next
  case (enum_text ts)
  then show ?case by (cases v) (simp_all add: conforms.simps)
next
  case (enums ts us)
  then show ?case by (cases v) (auto simp: conforms.simps)
next
  case (integers least)
  then show ?case by (cases v) (simp_all add: conforms.simps)
next
  case (union_of ts u)
  then show ?case by (auto simp: conforms.simps(12))
next
  case (union_with u us t)
  then show ?case by (auto simp: conforms.simps(12))
next
  case (items t u)
  then show ?case by (cases v) (auto simp: conforms.simps(13))
qed

section \<open>The interfaces\<close>

text \<open>A number of TypeScript is an integer here; \<open>unknown\<close> allows anything.\<close>

definition byte_value :: schema where "byte_value = TUnion [TInteger None, TString]"
definition nullable_type :: "schema \<Rightarrow> schema" where "nullable_type t = TUnion [t, TNull]"

definition errorResponse_interface :: schema where
  "errorResponse_interface = TObject
    [(''code'', False, TString), (''message'', False, TString), (''retryable'', False, TBoolean), (''request_id'', False, TString)]"

definition healthResponse_interface :: schema where
  "healthResponse_interface = TObject
    [(''status'', False, TString), (''version'', False, TString), (''database'', False, TBoolean),
     (''rust_data_plane'', False, TBoolean)]"

definition volume_interface :: schema where
  "volume_interface = TObject
    [(''name'', False, TString), (''mount_path'', False, TString), (''total_bytes'', False, byte_value),
     (''free_bytes'', False, byte_value), (''available_bytes'', False, byte_value), (''observed_at'', False, TString),
     (''stale'', False, TBoolean)]"

definition problem_interface :: schema where
  "problem_interface = TObject
    [(''external_id'', False, TString), (''code'', False, TString), (''logical_bytes'', True, byte_value),
     (''owner_organization'', False, nullable_type TString), (''is_manually_managed'', False, TBoolean),
     (''mirror_of'', False, nullable_type TString), (''mirror_root'', False, nullable_type TString),
     (''quota_bytes'', False, nullable_type byte_value),
     (''catalog_state'', False, TEnum [''present'', ''orphan'', ''missing'', ''mirror'', ''deleted'']),
     (''dirty'', False, TBoolean), (''dirty_generation'', False, nullable_type (TInteger None)),
     (''dirty_version'', False, byte_value), (''observed_at'', False, TString), (''stale'', False, TBoolean)]"

definition problemUsage_interface :: schema where
  "problemUsage_interface = TObject
    [(''problem_id'', False, TString), (''logical_bytes'', False, byte_value), (''allocated_bytes'', False, byte_value),
     (''archive_bytes'', False, byte_value), (''auxiliary_bytes'', False, byte_value),
     (''file_count'', False, TInteger None),
     (''local_status'', False, TEnum [''present'', ''missing'', ''partial'', ''orphan'']),
     (''r2_status'', False, TEnum [''none'', ''uploading'', ''ready'', ''error'', ''superseded'']),
     (''snapshot_generation'', False, nullable_type (TInteger None)), (''orphan_bytes'', False, byte_value),
     (''referenced_bytes'', False, byte_value), (''quota_bytes'', False, nullable_type byte_value),
     (''last_accessed_at'', True, nullable_type TString), (''observed_at'', False, TString), (''stale'', False, TBoolean)]"

definition organizationUsage_interface :: schema where
  "organizationUsage_interface = TObject
    [(''organization_id'', False, TString), (''problem_count'', False, TInteger None),
     (''logical_bytes'', False, byte_value), (''allocated_bytes'', False, byte_value), (''archive_bytes'', False, byte_value),
     (''auxiliary_bytes'', False, byte_value), (''referenced_bytes'', False, byte_value),
     (''quota_bytes'', False, nullable_type byte_value), (''problem_count_quota'', False, nullable_type (TInteger None)),
     (''observed_at'', False, TString), (''stale'', False, TBoolean)]"

definition snapshot_interface :: schema where
  "snapshot_interface = TObject
    [(''id'', False, TString), (''problem_id'', False, TString), (''generation'', False, TInteger None),
     (''state'', False, TEnum [''discovered'', ''hashing'', ''uploading'', ''verifying'', ''ready'', ''error'', ''superseded'']),
     (''file_count'', False, TInteger None), (''total_bytes'', False, byte_value),
     (''manifest_key'', False, nullable_type TString), (''error_code'', False, nullable_type TString),
     (''error_message'', False, nullable_type TString), (''created_at'', False, TString), (''completed_at'', False, nullable_type TString)]"

definition snapshotObject_interface :: schema where
  "snapshotObject_interface = TObject
    [(''snapshot_id'', False, TString), (''rel_path'', False, TString), (''sha256'', False, TString),
     (''size_bytes'', False, byte_value), (''object_key'', False, TString), (''uploaded'', False, TBoolean),
     (''verified'', False, TBoolean)]"

definition problemFilesResponse_interface :: schema where
  "problemFilesResponse_interface = TObject
    [(''problem_id'', False, TString), (''generation'', False, nullable_type (TInteger None)),
     (''snapshot_id'', False, nullable_type TString), (''snapshot_state'', False, nullable_type TString),
     (''snapshot_completed_at'', False, nullable_type TString), (''total_bytes'', False, nullable_type byte_value),
     (''file_count'', False, nullable_type (TInteger None)), (''items'', False, TArray snapshotObject_interface),
     (''next_cursor'', False, nullable_type TString), (''has_more'', False, TBoolean)]"

definition job_interface :: schema where
  "job_interface = TObject
    [(''id'', False, TString), (''idempotency_key'', False, TString),
     (''job_type'', False, TEnum [''scan'', ''snapshot'', ''restore'', ''evict'', ''reconcile'', ''backfill'', ''gc_collect'', ''incident_command'']),
     (''problem_id'', False, nullable_type TString), (''target_generation'', False, nullable_type (TInteger None)),
     (''state'', False, TEnum [''pending'', ''running'', ''completed'', ''failed'', ''cancelled'']),
     (''lease_owner'', False, nullable_type TString), (''lease_expires_at'', False, nullable_type TString),
     (''fencing_token'', False, TInteger None), (''attempt'', False, TInteger None),
     (''max_attempts'', False, TInteger None), (''result'', False, nullable_type TUnknown),
     (''error_code'', False, nullable_type TString), (''error_message'', False, nullable_type TString),
     (''created_at'', False, TString), (''updated_at'', False, TString), (''completed_at'', False, nullable_type TString)]"

definition auditEvent_interface :: schema where
  "auditEvent_interface = TObject
    [(''id'', False, TString), (''actor'', False, TString), (''actor_role'', False, nullable_type TString),
     (''action'', False, TString), (''target_type'', False, nullable_type TString), (''target_id'', False, nullable_type TString),
     (''problem_id'', False, nullable_type TString), (''generation'', False, nullable_type (TInteger None)),
     (''job_id'', False, nullable_type TString), (''metadata'', False, TRecord), (''request_id'', False, nullable_type TString),
     (''created_at'', False, TString)]"

definition orphan_interface :: schema where
  "orphan_interface = TObject
    [(''code'', False, TString), (''logical_bytes'', False, byte_value), (''allocated_bytes'', False, byte_value),
     (''file_count'', False, TInteger None), (''observed_at'', False, TString)]"

definition syncChange_interface :: schema where
  "syncChange_interface = TObject
    [(''external_id'', False, TString), (''code'', False, TString), (''owner_organization'', False, nullable_type TString),
     (''is_manually_managed'', False, TBoolean), (''mirror_of'', False, nullable_type TString),
     (''mirror_root'', False, nullable_type TString), (''catalog_state'', False, TString),
     (''event_kind'', False, TEnum [''upsert'', ''delete'']), (''schema_version'', False, TInteger None),
     (''downloadable'', False, TBoolean), (''quota_bytes'', False, nullable_type byte_value), (''logical_bytes'', False, byte_value),
     (''allocated_bytes'', False, byte_value), (''archive_bytes'', False, byte_value), (''auxiliary_bytes'', False, byte_value),
     (''file_count'', False, TInteger None), (''local_status'', False, TString), (''r2_status'', False, TString),
     (''snapshot_generation'', False, nullable_type (TInteger None)), (''orphan_bytes'', False, byte_value),
     (''referenced_bytes'', False, byte_value), (''last_accessed_at'', True, nullable_type TString),
     (''observed_at'', False, TString), (''stale'', False, TBoolean), (''updated_at'', False, TString)]"

definition syncChangesResponse_interface :: schema where
  "syncChangesResponse_interface = TObject
    [(''schema_version'', False, TInteger None), (''changes'', False, TArray syncChange_interface),
     (''next_cursor'', False, nullable_type TString), (''has_more'', False, TBoolean)]"

definition acceptedJobResponse_interface :: schema where
  "acceptedJobResponse_interface = TObject
    [(''job_id'', False, TString), (''state'', False, TEnum [''pending'', ''running'', ''completed'', ''failed'', ''cancelled'']),
     (''poll_url'', False, TString), (''events_url'', False, TString)]"

definition ensureReadyResponse_interface :: schema where
  "ensureReadyResponse_interface = TObject
    [(''status'', False, TEnum [''ready'', ''restoring'', ''snapshotting'', ''unavailable'']), (''ready'', False, TBoolean),
     (''job_id'', True, TString), (''poll_url'', True, TString), (''events_url'', True, TString)]"

definition reconcileResult_interface :: schema where
  "reconcileResult_interface = TObject
    [(''discovered'', False, TInteger None), (''present'', False, TInteger None), (''missing'', False, TInteger None),
     (''orphan'', False, TInteger None), (''mirror'', False, TInteger None)]"

definition serviceTokenResponse_interface :: schema where
  "serviceTokenResponse_interface = TObject
    [(''token'', False, TString), (''expires_in'', False, TInteger None), (''token_type'', False, TEnum [''Bearer'']),
     (''audience'', False, TString), (''scopes'', False, TArray TString)]"

definition downloadResponse_interface :: schema where
  "downloadResponse_interface = TObject
    [(''url'', False, TString), (''expires_at'', False, TString), (''method'', False, TEnum [''GET'']), (''headers'', True, TRecord)]"

definition paginated_interface :: "schema \<Rightarrow> schema" where
  "paginated_interface item = TObject
    [(''items'', False, TArray item), (''next_cursor'', False, nullable_type TString), (''has_more'', False, TBoolean)]"

section \<open>The schemas are narrower\<close>

lemma narrower_nullable: "narrower t u \<Longrightarrow> narrower (TUnion [t, TNull]) (nullable_type u)"
  unfolding nullable_type_def by (rule narrower.union_of) (auto intro: narrower.intros)

lemma narrower_bytes: "narrower bytes byte_value"
  unfolding bytes_def byte_value_def by (rule narrower.union_of) (auto intro: narrower.intros)

lemmas narrower_parts = narrower.same narrower.date_text narrower.integers narrower_bytes narrower_nullable
  narrower_nullable [OF narrower.same] narrower_nullable [OF narrower.date_text] narrower_nullable [OF narrower.integers]
  narrower_nullable [OF narrower_bytes] narrower.items

lemma interfaces_wider:
  "narrower volume_schema volume_interface"
  "narrower problem_schema problem_interface"
  "narrower problemUsage_schema problemUsage_interface"
  "narrower organizationUsage_schema organizationUsage_interface"
  "narrower snapshot_schema snapshot_interface"
  "narrower snapshotObject_schema snapshotObject_interface"
  "narrower job_schema job_interface"
  "narrower auditEvent_schema auditEvent_interface"
  "narrower orphan_schema orphan_interface"
  "narrower syncChange_schema syncChange_interface"
  unfolding volume_schema_def volume_interface_def problem_schema_def problem_interface_def problemUsage_schema_def
    problemUsage_interface_def organizationUsage_schema_def organizationUsage_interface_def snapshot_schema_def
    snapshot_interface_def snapshotObject_schema_def snapshotObject_interface_def job_schema_def job_interface_def
    auditEvent_schema_def auditEvent_interface_def orphan_schema_def orphan_interface_def syncChange_schema_def
    syncChange_interface_def rfc3339_def
  by (rule narrower.objects; simp add: narrower_parts)+

lemma page_interfaces_wider:
  "narrower t u \<Longrightarrow> narrower (paginated t) (paginated_interface u)"
  "narrower syncChangesResponse_schema syncChangesResponse_interface"
  "narrower problemFilesResponse_schema problemFilesResponse_interface"
  unfolding paginated_def paginated_interface_def syncChangesResponse_schema_def syncChangesResponse_interface_def
    problemFilesResponse_schema_def problemFilesResponse_interface_def rfc3339_def
  by (rule narrower.objects; simp add: narrower_parts interfaces_wider)+

lemmas page_read_as = narrower_conforms [OF page_interfaces_wider(1)]

lemmas read_as = interfaces_wider [THEN page_read_as] interfaces_wider(1,2) [THEN narrower_conforms]
  page_interfaces_wider(2,3) [THEN narrower_conforms]

section \<open>Replies of single routes\<close>

definition ensured_json :: "ensured \<Rightarrow> json" where
  "ensured_json e =
     (case e of
        EnsuredReady \<Rightarrow> JObj [(''status'', JStr ''ready''), (''ready'', JBool True)]
      | Restoring r \<Rightarrow> JObj [(''status'', JStr ''restoring''), (''ready'', JBool False), (''job_id'', JStr (aj_job_id r)),
          (''state'', JStr (job_state_text (aj_state r))), (''poll_url'', JStr (aj_poll_url r)), (''events_url'', JStr (aj_events_url r))])"

definition restored_json :: "restored \<Rightarrow> json" where
  "restored_json r =
     (case r of
        DryRun \<Rightarrow> JObj [(''dry_run'', JBool True), (''message'', JStr ''Restore would download objects and rebuild folder'')]
      | Accepted r \<Rightarrow> accepted_json r)"

definition reconcile_result_json :: "reconcile_result \<Rightarrow> json" where
  "reconcile_result_json r = JObj
     [(''discovered'', JNum (int (rc_discovered r))), (''present'', JNum (int (rc_present r))),
      (''missing'', JNum (int (rc_missing r))), (''orphan'', JNum (int (rc_orphan r))), (''mirror'', JNum (int (rc_mirror r))),
      (''scheduled_backups'', JNum (int (rc_scheduled_backups r)))]"

definition service_token_response_json :: "service_token_response \<Rightarrow> json" where
  "service_token_response_json r = JObj
     [(''token'', JStr (sp_token r)), (''expires_in'', JNum (int (sp_expires_in r))), (''token_type'', JStr ''Bearer''),
      (''audience'', JStr (sp_audience r)), (''scopes'', JArr (map JStr (sp_scopes r)))]"

definition download_response_json :: "download_response \<Rightarrow> json" where
  "download_response_json r = JObj
     [(''method'', JStr ''GET''), (''url'', JStr (dl_url r)), (''expires_at'', JStr (dl_expires_at r))]"

lemma job_state_texts: "job_state_text st \<in> set [''pending'', ''running'', ''completed'', ''failed'', ''cancelled'']"
  by (cases st) simp_all

lemmas interface_defs = acceptedJobResponse_interface_def ensureReadyResponse_interface_def reconcileResult_interface_def
  serviceTokenResponse_interface_def downloadResponse_interface_def

lemma replies_hold:
  "conforms acceptedJobResponse_interface (accepted_json r)"
  "conforms ensureReadyResponse_interface (ensured_json e)"
  "conforms reconcileResult_interface (reconcile_result_json q)"
  "conforms serviceTokenResponse_interface (service_token_response_json t)"
  "conforms downloadResponse_interface (download_response_json d)"
  using job_state_texts [of "aj_state r"]
  by (auto simp: interface_defs accepted_json_def ensured_json_def reconcile_result_json_def service_token_response_json_def
      download_response_json_def conforms.simps split: ensured.split)

lemma error_and_health_hold:
  "re_body (rendered body (Fail st code message retryable rid)) = Some v \<Longrightarrow> conforms errorResponse_interface v"
  "conforms healthResponse_interface (health_answer_json h)"
  by (auto simp: errorResponse_interface_def healthResponse_interface_def health_answer_json_def conforms.simps)

text \<open>
  One answer is not what the client says: \<open>restoreProblem\<close> promises an accepted job, and with \<open>dry_run\<close> the
  route answers a message without one.
\<close>

lemma dry_run_restore_mistyped: "\<not> conforms acceptedJobResponse_interface (restored_json DryRun)"
  by (simp add: interface_defs restored_json_def conforms.simps)

section \<open>Requests\<close>

text \<open>
  The types of the requests say less than the schemas: a byte count may be any number or text, and a
  schema version any number. These two fields are all a request of the declared type can be refused for.
\<close>

definition nullable_text :: "string \<Rightarrow> string \<times> bool \<times> schema" where
  "nullable_text k = (k, True, nullable_type TString)"

definition dirtyProblemRequest_interface :: schema where
  "dirtyProblemRequest_interface = TObject
     [(''external_id'', True, TString), (''problem_pk'', True, TUnion [TString, TInteger None]), (''code'', False, TString),
      nullable_text ''owner_organization'', (''owner_organization_id'', True, TUnion [TString, TInteger None, TNull]),
      nullable_text ''owner_external_id'', (''is_manually_managed'', True, TBoolean), nullable_text ''mirror_of'',
      nullable_text ''mirror_of_external_id'', nullable_text ''mirror_root'', nullable_text ''mirror_root_external_id'',
      (''quota_bytes'', True, nullable_type byte_value), (''schema_version'', True, TInteger None),
      (''event_kind'', True, TEnum [''upsert'', ''delete'']),
      (''catalog_state'', True, TEnum [''present'', ''orphan'', ''missing'', ''mirror'', ''deleted''])]"

definition reconcileProblem_interface :: schema where
  "reconcileProblem_interface = TObject
     [(''external_id'', False, TString), (''code'', False, TString), nullable_text ''owner_external_id'',
      nullable_text ''owner_organization'', (''owner_organization_id'', True, TUnion [TString, TInteger None, TNull]),
      (''is_manually_managed'', True, TBoolean), nullable_text ''mirror_root_external_id'',
      nullable_text ''mirror_of_external_id'', nullable_text ''mirror_of'',
      (''problem_pk'', True, TUnion [TString, TInteger None]), (''quota_bytes'', True, nullable_type byte_value),
      (''schema_version'', True, TInteger None)]"

definition reconcileRequest_interface :: schema where
  "reconcileRequest_interface = TObject [(''problems'', False, TArray reconcileProblem_interface)]"

definition checked_fields :: "json \<Rightarrow> bool" where
  "checked_fields v \<longleftrightarrow> field_ok v (''quota_bytes'', True, TUnion [TNull, bytes])
     \<and> field_ok v (''schema_version'', True, TInteger (Some 1))"

lemma field_ok_narrower: "field_ok v (k, m, t) \<Longrightarrow> narrower t u \<Longrightarrow> field_ok v (k, m, u)"
  using narrower_conforms by (auto simp: field_ok_def split: option.splits)

lemma narrower_orders:
  "narrower (nullable_type TString) (TUnion [TNull, TString])"
  "narrower (TUnion [TString, TInteger None, TNull]) (TUnion [TNull, TString, TInteger None])"
  unfolding nullable_type_def by (rule narrower.union_of; auto intro: narrower.intros)+

lemma object_of: "conforms (TObject fs) v \<longleftrightarrow> (\<exists>kvs. v = JObj kvs) \<and> list_all (field_ok v) fs"
proof (cases v)
  case (JObj kvs)
  then show ?thesis by (simp only: conforms_TObject list_all_iff) simp
qed (simp_all add: conforms.simps(14))

lemma request_types:
  "conforms dirtyProblemRequest_interface v \<Longrightarrow> checked_fields v \<Longrightarrow> conforms dirtyProblemRequest_schema v"
  "conforms reconcileRequest_interface (JObj [(''problems'', JArr ps)]) \<Longrightarrow> list_all checked_fields ps
    \<Longrightarrow> conforms reconcileRequest_schema (JObj [(''problems'', JArr ps)])"
proof -
  note parts = nullable_text_def text_or_missing_def object_of checked_fields_def
  note wider = field_ok_narrower [OF _ narrower_orders(1)] field_ok_narrower [OF _ narrower_orders(2)]
  show "conforms dirtyProblemRequest_schema v" if "conforms dirtyProblemRequest_interface v" "checked_fields v"
    using that unfolding dirtyProblemRequest_interface_def dirtyProblemRequest_schema_def parts by (simp add: wider)
  show "conforms reconcileRequest_schema (JObj [(''problems'', JArr ps)])"
    if "conforms reconcileRequest_interface (JObj [(''problems'', JArr ps)])" "list_all checked_fields ps"
    using that unfolding reconcileRequest_interface_def reconcileRequest_schema_def reconcileProblem_interface_def parts
    by (auto simp: list_all_iff field_ok_def [of "JObj ps" for ps] json_field_def conforms.simps(13) object_of wider)
qed

lemma negative_quota_refused:
  "conforms dirtyProblemRequest_interface (JObj [(''code'', JStr ''a''), (''quota_bytes'', JNum (-1))])
    \<and> \<not> conforms dirtyProblemRequest_schema (JObj [(''code'', JStr ''a''), (''quota_bytes'', JNum (-1))])"
  by (simp add: dirtyProblemRequest_interface_def dirtyProblemRequest_schema_def nullable_text_def text_or_missing_def
      nullable_type_def byte_value_def bytes_def conforms.simps)

section \<open>Everything listed is of its declared type\<close>



end
