(* ===== verification/Spec2Isabelle.thy ===== *)
theory Spec2Isabelle
  imports Progress Browsing ListPages Shell DataPlane Cli Migrate Lifecycle Ensure Sessions Evictions Interfaces
begin

text \<open>
  A model of the external storage of the ClueOJ judge: its control plane (\<open>src/control-plane\<close>, TypeScript
  on PostgreSQL), its dashboard (\<open>src/dashboard\<close>) and its contract client (\<open>src/packages/contracts\<close>), with
  what they rely on of the data plane.

  \<^bold>\<open>The program.\<close> The judge keeps the files of its problems in folders of a disk; snapshots of them are kept
  in object storage (R2). The control plane knows the catalog of problems, the sizes, the snapshots and
  their objects, and runs the work on them as durable jobs: scan, snapshot, restore, evict, backfill,
  garbage collection. Requests come over HTTP from the judge, from services and from the dashboard; they
  create jobs and read lists. Worker loops acquire jobs under a lease with a fencing token and ask the data
  plane (Rust, over HTTP) to do the work on files. Timers run retention, the choice of objects to collect
  and the scheduling of snapshots. Everything that is shared lies in the database; the parts interact
  through its rows: a route or a timer inserts a job, a worker acquires, renews and completes it, a
  cancellation or an expiry revokes it, and the dashboard follows it over an event stream or by polling.

  \<^bold>\<open>How the code is translated.\<close> A function that talks to the database is a computation \<open>('s, 'a) act\<close>
  (\<open>Prelude\<close>): from a state to an error or a value, with the state it leaves. One SQL statement is one step
  and changes nothing when it fails; a sequence keeps what it has done when a later statement fails, unless
  it is inside \<open>tx\<close>. Rows are records, tables are lists of rows; unique indexes and foreign keys are checked
  where the database checks them, and the triggers the code relies on are part of the statements. Times
  are microseconds, as in the database; what leaves as RFC 3339 is whole milliseconds (\<open>toRfc3339\<close>). Errors are
  the values of \<open>err\<close>. Texts are lists of bytes. JSON numbers are integers; a count beyond 2^53 - 1 travels as
  text, as \<open>int8\<close> writes it. Identifiers come from a source of the state (\<open>uuid_src\<close>) that never repeats one.
  Where other connections can act between two statements, they are a parameter of the model
  (\<open>wc_other\<close>, \<open>wc_sleep\<close>, \<open>mi_meanwhile\<close>) or the steps of a relation. Loops over data are structural or have a measure; the
  loop that polls a snapshot has fuel.
\<close>

text \<open>
  \<^bold>\<open>The theories, from the bottom up.\<close>

  \<^item> \<open>Prelude\<close>: errors, computations, tables, text functions, the locale \<open>preorder_rel\<close> (a relation every
    statement keeps is kept by every computation built from them) and its collection \<open>pres_intros\<close>.
    \<open>Schema\<close>: rows, constraints and triggers of \<open>migrations/*.sql\<close>. \<open>Json\<close>, \<open>JsonText\<close>: values, their
    printing and parsing, fingerprints. \<open>Url\<close>: encoding of texts in URLs. \<open>Demo\<close>: data for witnesses.
  \<^item> \<open>db.ts\<close>, jobs: \<open>Jobs\<close> has the operations, \<open>Creation\<close> what \<open>createJob\<close> answers on each branch, \<open>Leases\<close> what
    acquiring and revoking do, \<open>Queue\<close> the invariants and the queue as the relation \<open>queue_step\<close>, \<open>Locks\<close> the
    abstract machine of one fenced lock that the queue refines.
  \<^item> \<open>db.ts\<close>, data: \<open>Catalog\<close> (problems, dirty marks, orphans), \<open>Usage\<close> (accounting), \<open>Scheduling\<close> (automatic
    snapshots, \<open>maintenance-config.ts\<close>), \<open>Retention\<close> (retention, collection), \<open>Paging\<close> (keyset pages, locale
    \<open>keyset_cursor\<close>) and \<open>Listing\<close> (every list and aggregate).
  \<^item> \<open>Password\<close>, \<open>Users\<close>, \<open>Environment\<close>: \<open>password.ts\<close>, \<open>auth.ts\<close> and \<open>dashboard-users.ts\<close>, \<open>env.ts\<close>. \<open>Cli\<close>:
    \<open>admin-users.ts\<close>. \<open>Migrate\<close>: \<open>migrate.ts\<close>.
  \<^item> \<open>Worker\<close>: \<open>worker.ts\<close>, one handler per kind of job, \<open>runJob\<close> and a turn of the loop. \<open>DataPlane\<close>:
    \<open>rust-client.ts\<close>, the request of every method and what is kept of an answer. \<open>Service\<close>: lanes,
    \<open>maintenance.ts\<close>, its timers. \<open>Lifecycle\<close>: \<open>main\<close> of \<open>index.ts\<close>, start and shutdown of the process.
  \<^item> \<open>routes.ts\<close>: \<open>Http\<close> (replies, authentication, scopes, errors, the order of a reconcile), \<open>Routes\<close>,
    \<open>Admin\<close>, \<open>Events\<close> (the event stream); \<open>Server\<close> has the table of routes and the hooks of \<open>index.ts\<close>,
    \<open>Contract\<close> the schemas of \<open>schemas.ts\<close> and that every row conforms to its own.
  \<^item> Dashboard: \<open>Web\<close> (the calls of \<open>lib/api.ts\<close>, the table of paths, and every handler's reading of its request), \<open>Watch\<close> (\<open>watchJob\<close>),
    \<open>Console\<close> (the session, the routes of \<open>app.tsx\<close>, the page buttons), \<open>Queries\<close> (\<open>hooks/queries.ts\<close>),
    \<open>Browsing\<close> (lists end to end, locales \<open>cursor_codec\<close> and \<open>coded_pages\<close>), \<open>ListPages\<close> (filters and cursors
    of the list pages), \<open>Pages\<close> (actions, toasts, figures), \<open>Shell\<close> (signing in and out, navigation),
    \<open>Sizes\<close> (\<open>lib/utils.ts\<close>).
  \<^item> Contract client, \<open>packages/contracts/generated/client.ts\<close>: \<open>ContractClient\<close> (every method, the handler it
    reaches, and what becomes of the answer), \<open>Interfaces\<close> (its types, as schemas that are wider than those
    of the service).
  \<^item> What spans components: \<open>System\<close> composes requests, workers and maintenance into \<open>system_step\<close> and
    carries the queue's invariants to it; \<open>Progress\<close> shows the refinement of the locks and that the queue
    drains; \<open>Ensure\<close> follows \<open>ensure-ready\<close>, \<open>Sessions\<close> a login and a service token, \<open>Evictions\<close> the order of
    an eviction from the route through the queue to the call of the data plane.
\<close>

text \<open>
  \<^bold>\<open>What the groups of lemmas show.\<close>

  \<^item> Queue: unique indexes, tokens below their counters, attempts within bounds in every reachable state;
    a superseded worker never asserts, renews or completes again; each row moves as a fenced lock does; an
    undisturbed loop brings every waiting job to its end; creation is idempotent on every branch.
  \<^item> Worker: the outcome is recorded in the own row only and only under the lease; a failing data plane is
    recorded as such and nothing but two strings of its answer is kept; polling ends; only objects the data
    plane deleted are recorded as collected; an eviction is asked for with the flags of its request.
  \<^item> Data: a newer edit survives an older snapshot's completion; retention keeps what is protected and
    accounts for what it prunes; pages and the synchronization feed are complete, under the condition on
    timestamps each states; byte counts are exact.
  \<^item> HTTP: who is let in and with which scopes; that refused requests change nothing; that answers conform to
    the schemas; tokens and passwords from issue to check; the ordering of a reconcile.
  \<^item> Process: the pool is ended last and a shutdown can always finish; migrations are applied once, in order.
  \<^item> Dashboard: every call arrives at its handler with its values; the event stream is read back as it was
    written, for every division into chunks, and reported once; cached answers are the server's; no token is
    used after its time; a list page never mixes two lists; the outcome of an action is shown once.

  \<^item> Contract client: every method arrives with its arguments, its token and its key; what the service
    answers is of the declared types; the two fields a well-typed request can be refused for.

  The lemmas that show where the code falls short of its purpose are named in place:
  \<open>Listing.job_list_skips\<close>, \<open>Catalog.orphan_claim_restarts_tokens\<close>, \<open>Leases.acquire_head_of_line\<close>,
  \<open>Retention.retention_deletes_retried_job\<close>, \<open>Usage.scan_drops_r2_status\<close>, \<open>Watch.watch_never_reconnects\<close>,
  \<open>Console.problem_link_encoded_twice\<close>, \<open>Sizes.formatBytes_before_unit\<close>, \<open>Lifecycle.second_signal_crashes\<close>,
  \<open>Evictions.retried_eviction_is_dry\<close>, \<open>Evictions.late_order_dropped\<close>, \<open>ListPages.next_mixes_lists\<close>,
  \<open>ContractClient.retention_any_tail\<close>, \<open>ContractClient.degraded_health_thrown\<close>,
  \<open>Interfaces.dry_run_restore_mistyped\<close>, \<open>Interfaces.negative_quota_refused\<close>.

  \<^bold>\<open>Bounds.\<close> \<open>poll_snapshot\<close> gets 1082 rounds: 90 minutes at five seconds a round are 1080, and the rounds
  at both ends; \<open>snapshot_waits_enough\<close> shows that the fuel is never used up. \<open>walk\<close> and \<open>browse\<close> get one page more than there are rows, which suffices because every page with
  a successor has a row. The loops of the event stream are sequences of events given from outside.
\<close>

text \<open>
  \<^bold>\<open>What is assumed of code that is not in the repository\<close>, as arguments of the definitions with named
  hypotheses: the data plane's answers (\<open>pl_http\<close>; for the invariants, that it leaves the queue's rows alone),
  the JWT library (\<open>honest_token\<close>: a token gives its claims back under the key and audience it was
  signed with until it expires, and never other claims), scrypt and random salts, the router, the query parser and the body parser of Fastify
  (\<open>libraries_ok\<close>), the effect of a migration's SQL on the schema, the file system, the browser's events,
  and the query library's cache (equal keys share an entry; an invalidation marks every key that begins with
  the given one).

  \<^bold>\<open>Not modelled.\<close> Logging; the markup of the React components, which has no state beyond \<open>Console\<close>,
  \<open>ListPages\<close>, \<open>Pages\<close> and \<open>Shell\<close>, and \<open>components/ui\<close>, which wraps a library; the routes that serve the
  OpenAPI document; the Rust data plane, another language; the
  repairs of old rows inside the migrations; the validation of request bodies, which the ajv library does
  (the handlers take its result; what the two clients send is checked against the schemas in \<open>Web\<close>), and its
  coercion of values of other types; the status the framework gives its own refusals;
  advisory locks, whose effect, one transaction at a time, is that transactions are atomic here; fractions in
  JSON numbers and characters as anything but bytes.

  Two routes, the reconcile of the catalog and the dirty mark, can claim an orphan's row and with it move
  jobs to another fencing counter; \<open>Catalog.orphan_claim_restarts_tokens\<close> shows that this breaks the
  tokens' invariant, and \<open>system_step\<close> therefore leaves these two out. The value of a failed callback of the query
  library and the pauses between two turns of a loop have no effect on the state and are left out as well.
\<close>

end
